(* ===== verification/Prelude.thy ===== *)
theory Prelude
  imports Complex_Main "HOL-Library.AList" "HOL-Library.List_Lexorder" "HOL-Library.Char_ord"
    "HOL-Library.Word" "HOL-Library.Multiset"
begin

text \<open>
  The prelude of the development: Python exceptions as values of a sum type, instants and
  datetimes, dictionaries as association lists in insertion order, bounded deques, the
  slicing and rounding rules of Python and the row limits of SQLite, and the generic lemmas
  the component theories share.
\<close>

named_theorems res_simps \<open>unfolding rules of the exception monad\<close>
named_theorems dict_simps \<open>lookups in updated dictionaries\<close>

section \<open>Exceptions as values\<close>

text \<open>
  Each constructor is a Python exception class; the string is the fixed part of its message
  (values interpolated into a message are dropped).
\<close>

datatype py_error =
    ValueError string
  | TypeError string
  | KeyError string
  | AttributeError string
  | DatabaseError string
  | RuntimeError string
  | OverflowError string
  | FileNotFoundError string
  | OSError string
  | StructError string
  | EOFError string
  | NetworkError string
  | TimeoutError
  | ValidationError string

type_synonym 'a res = "py_error + 'a"

fun rbind :: "'a res \<Rightarrow> ('a \<Rightarrow> 'b res) \<Rightarrow> 'b res" where
  "rbind (Inl e) f = Inl e"
| "rbind (Inr x) f = f x"

fun rmap :: "('a \<Rightarrow> 'b res) \<Rightarrow> 'a list \<Rightarrow> 'b list res" where
  "rmap f [] = Inr []"
| "rmap f (x # xs) = rbind (f x) (\<lambda>y. rbind (rmap f xs) (\<lambda>ys. Inr (y # ys)))"

fun rfold :: "('s \<Rightarrow> 'a \<Rightarrow> 's res) \<Rightarrow> 's \<Rightarrow> 'a list \<Rightarrow> 's res" where
  "rfold f s [] = Inr s"
| "rfold f s (x # xs) = rbind (f s x) (\<lambda>s'. rfold f s' xs)"

definition is_ok :: "'a res \<Rightarrow> bool" where
  "is_ok r = (case r of Inl _ \<Rightarrow> False | Inr _ \<Rightarrow> True)"

lemma is_ok_simps [simp]: "is_ok (Inr x)" "\<not> is_ok (Inl e)"
  by (simp_all add: is_ok_def)

lemma rbind_Inr_conv [res_simps]: "rbind r f = Inr y \<longleftrightarrow> (\<exists>x. r = Inr x \<and> f x = Inr y)"
  by (cases r) auto

lemma rfold_append: "rfold f s (xs @ ys) = rbind (rfold f s xs) (\<lambda>s'. rfold f s' ys)"
proof (induction xs arbitrary: s)
  case Nil
  then show ?case by simp
next
  case (Cons x xs)
  then show ?case by (cases "f s x") simp_all
qed

lemma rfold_snoc [simp]: "rfold f s (xs @ [y]) = rbind (rfold f s xs) (\<lambda>s'. f s' y)"
proof (cases "rfold f s xs")
  case (Inr s')
  then show ?thesis by (cases "f s' y") (simp_all add: rfold_append)
qed (simp add: rfold_append)

lemma rmap_append: "rmap f (xs @ ys) =
    rbind (rmap f xs) (\<lambda>us. rbind (rmap f ys) (\<lambda>vs. Inr (us @ vs)))"
proof (induction xs)
  case Nil
  then show ?case by (cases "rmap f ys") simp_all
next
  case (Cons x xs)
  then show ?case
    by (cases "f x"; cases "rmap f xs"; cases "rmap f ys") simp_all
qed

lemma rmap_Inr_conv [res_simps]: "rmap f xs = Inr ys \<longleftrightarrow> list_all2 (\<lambda>x y. f x = Inr y) xs ys"
proof (induction xs arbitrary: ys)
  case Nil
  then show ?case by auto
next
  case (Cons x xs)
  then show ?case by (cases ys) (auto simp: rbind_Inr_conv list_all2_Cons1)
qed

section \<open>Instants and datetimes\<close>

text \<open>
  An instant is a number of microseconds since 1970-01-01T00:00:00Z, the resolution of a
  Python \<open>datetime\<close>. A \<open>datetime\<close> read from text may have no time zone; comparing or
  subtracting it with an aware one raises \<open>TypeError\<close>.
\<close>

type_synonym instant = int

datatype datetime = Aware instant | Naive instant

definition usec :: "int \<Rightarrow> instant" where
  "usec s = s * 1000000"

fun dt_le :: "datetime \<Rightarrow> datetime \<Rightarrow> bool res" where
  "dt_le (Aware a) (Aware b) = Inr (a \<le> b)"
| "dt_le (Naive a) (Naive b) = Inr (a \<le> b)"
| "dt_le _ _ = Inl (TypeError ''can't compare offset-naive and offset-aware datetimes'')"

text \<open>
  \<open>int(dt.timestamp())\<close> cuts the fraction off (towards zero), and
  \<open>datetime.fromtimestamp(ts, tz=IST)\<close> raises when the year leaves 1..9999 (in UTC first,
  then after the shift by 5:30).
\<close>

definition to_epoch :: "instant \<Rightarrow> int" where
  "to_epoch t = (if 0 \<le> t then t div 1000000 else - ((- t) div 1000000))"

definition from_epoch :: "int \<Rightarrow> instant res" where
  "from_epoch ts =
     (if ts < -62135596800 \<or> ts > 253402300799 then Inl (ValueError ''year is out of range'')
      else if ts > 253402280999 then Inl (OverflowError ''date value out of range'')
      else Inr (usec ts))"

lemma to_epoch_usec [simp]: "to_epoch (usec s) = s"
proof -
  have "(- (s * 1000000)) div 1000000 = - s"
    using nonzero_mult_div_cancel_right[of "1000000::int" "- s"] by simp
  then show ?thesis by (simp add: to_epoch_def usec_def)
qed

lemma to_epoch_mono: "a \<le> b \<Longrightarrow> to_epoch a \<le> to_epoch b"
proof -
  assume ab: "a \<le> b"
  show ?thesis
  proof (cases "0 \<le> a")
    case True
    with ab show ?thesis by (simp add: to_epoch_def zdiv_mono1)
  next
    case False
    show ?thesis
    proof (cases "0 \<le> b")
      case True
      have "0 \<le> (- a) div 1000000" "0 \<le> b div 1000000"
        using False True by (simp_all add: pos_imp_zdiv_nonneg_iff)
      with False True show ?thesis by (simp add: to_epoch_def)
    next
      case bneg: False
      have "(- b) div 1000000 \<le> (- a) div 1000000"
        using ab by (simp add: zdiv_mono1)
      with False bneg show ?thesis by (simp add: to_epoch_def)
    qed
  qed
qed

section \<open>Bounded deques\<close>

text \<open>\<open>deque(maxlen=n).append(x)\<close>: the oldest element falls out when the deque is full.\<close>

definition deque_push :: "nat \<Rightarrow> 'a list \<Rightarrow> 'a \<Rightarrow> 'a list" where
  "deque_push n q x = drop (Suc (length q) - n) (q @ [x])"

definition last_n :: "nat \<Rightarrow> 'a list \<Rightarrow> 'a list" where
  "last_n n xs = drop (length xs - n) xs"

lemma length_deque_push: "length q \<le> n \<Longrightarrow> length (deque_push n q x) \<le> n"
  by (simp add: deque_push_def)

lemma length_last_n [simp]: "length (last_n n xs) = min n (length xs)"
  by (simp add: last_n_def min_def)

lemma last_n_short [simp]: "length xs \<le> n \<Longrightarrow> last_n n xs = xs"
  by (simp add: last_n_def)

lemma last_n_Nil [simp]: "last_n n [] = []"
  by (simp add: last_n_def)

lemma set_last_n: "set (last_n n xs) \<subseteq> set xs"
  by (simp add: last_n_def set_drop_subset)

lemma deque_push_last_n: "deque_push n (last_n n xs) x = last_n n (xs @ [x])"
proof (cases "length xs < n")
  case True
  then show ?thesis by (simp add: deque_push_def last_n_def)
next
  case False
  then have "deque_push n (last_n n xs) x = drop 1 (last_n n xs @ [x])"
    by (simp add: deque_push_def)
  moreover have "drop 1 (drop (length xs - n) xs @ [x]) = drop (Suc (length xs) - n) (xs @ [x])"
  proof (cases "n = 0")
    case True
    then show ?thesis by simp
  next
    case n: False
    with False show ?thesis by (simp add: Suc_diff_le)
  qed
  ultimately show ?thesis by (simp add: last_n_def)
qed

lemma foldl_deque_push: "foldl (deque_push n) (last_n n xs) ys = last_n n (xs @ ys)"
proof (induction ys arbitrary: xs)
  case Nil
  then show ?case by simp
next
  case (Cons y ys)
  then show ?case by (simp add: deque_push_last_n)
qed

lemma take_prefix_trans:
  assumes "take (length xs) ys = xs" and "take (length ys) zs = ys"
  shows "take (length xs) zs = xs"
proof -
  from assms(2) obtain v where "zs = ys @ v" by (metis append_take_drop_id)
  moreover from assms(1) obtain w where "ys = xs @ w" by (metis append_take_drop_id)
  ultimately show ?thesis by simp
qed

section \<open>Slices, row limits and rounding\<close>

text \<open>\<open>xs[:n]\<close> counts a negative \<open>n\<close> from the end; SQLite's \<open>LIMIT n\<close> reads a
  negative \<open>n\<close> as no limit.\<close>

definition py_slice_to :: "int \<Rightarrow> 'a list \<Rightarrow> 'a list" where
  "py_slice_to n xs = (if 0 \<le> n then take (nat n) xs else take (length xs - nat (- n)) xs)"

definition sql_limit :: "int \<Rightarrow> 'a list \<Rightarrow> 'a list" where
  "sql_limit n xs = (if n < 0 then xs else take (nat n) xs)"

lemma set_sql_limit: "set (sql_limit n xs) \<subseteq> set xs"
  by (simp add: sql_limit_def set_take_subset)

lemma set_py_slice_to: "set (py_slice_to n xs) \<subseteq> set xs"
  by (simp add: py_slice_to_def set_take_subset)

text \<open>\<open>round(x, 2)\<close> rounds half to even on the second decimal. Percentages are exact
  rationals here, so the result is the decimal itself.\<close>

definition round_half_even :: "rat \<Rightarrow> int" where
  "round_half_even x =
     (let f = \<lfloor>x\<rfloor>; d = x - of_int f in
      if d < 1 / 2 then f else if d > 1 / 2 then f + 1 else if even f then f else f + 1)"

definition round2 :: "rat \<Rightarrow> rat" where
  "round2 x = of_int (round_half_even (x * 100)) / 100"

lemma round_half_even_of_int [simp]: "round_half_even (of_int n) = n"
  by (simp add: round_half_even_def)

lemma round_half_even_bounds: "\<lfloor>x\<rfloor> \<le> round_half_even x \<and> round_half_even x \<le> \<lfloor>x\<rfloor> + 1"
  by (simp add: round_half_even_def Let_def)

lemma round_half_even_mono: "x \<le> y \<Longrightarrow> round_half_even x \<le> round_half_even y"
proof -
  assume xy: "x \<le> y"
  then have fl: "\<lfloor>x\<rfloor> \<le> \<lfloor>y\<rfloor>" by (rule floor_mono)
  show ?thesis
  proof (cases "\<lfloor>x\<rfloor> = \<lfloor>y\<rfloor>")
    case True
    with xy show ?thesis by (auto simp: round_half_even_def Let_def)
  next
    case False
    with fl have "\<lfloor>x\<rfloor> + 1 \<le> \<lfloor>y\<rfloor>" by simp
    with round_half_even_bounds[of x] round_half_even_bounds[of y] show ?thesis by linarith
  qed
qed

lemma round2_mono: "x \<le> y \<Longrightarrow> round2 x \<le> round2 y"
  by (simp add: round2_def round_half_even_mono divide_right_mono)

text \<open>A value that is already a number of hundredths is unchanged.\<close>

definition hundredths :: "rat \<Rightarrow> bool" where
  "hundredths x \<longleftrightarrow> of_int \<lfloor>x * 100\<rfloor> = x * 100"

lemma hundredths_round2: "hundredths (round2 x)"
proof -
  have "round2 x * 100 = of_int (round_half_even (x * 100))" by (simp add: round2_def)
  then show ?thesis by (simp only: hundredths_def floor_of_int)
qed

lemma round2_hundredths: "hundredths x \<Longrightarrow> round2 x = x"
proof -
  assume "hundredths x"
  then have e: "x * 100 = of_int \<lfloor>x * 100\<rfloor>" unfolding hundredths_def by (rule sym)
  have "round_half_even (x * 100) = \<lfloor>x * 100\<rfloor>"
    by (subst e) (rule round_half_even_of_int)
  with e have "of_int (round_half_even (x * 100)) = x * 100" by argo
  then show ?thesis by (simp add: round2_def)
qed


section \<open>Text\<close>

definition py_space :: "char \<Rightarrow> bool" where
  "py_space c \<longleftrightarrow>
     c \<in> {CHR '' '', CHR 0x09, CHR 0x0A, CHR 0x0B, CHR 0x0C, CHR 0x0D,
          CHR 0x1C, CHR 0x1D, CHR 0x1E, CHR 0x1F}"

definition py_strip :: "string \<Rightarrow> string" where
  "py_strip s = rev (dropWhile py_space (rev (dropWhile py_space s)))"

definition py_lower_char :: "char \<Rightarrow> char" where
  "py_lower_char c =
     (let n = of_char c :: nat in if 65 \<le> n \<and> n \<le> 90 then char_of (n + 32) else c)"

definition py_lower :: "string \<Rightarrow> string" where
  "py_lower = map py_lower_char"

definition join_with :: "string \<Rightarrow> string list \<Rightarrow> string" where
  "join_with sep xs = (case xs of [] \<Rightarrow> [] | x # r \<Rightarrow> x @ concat (map (\<lambda>y. sep @ y) r))"

fun is_substring :: "string \<Rightarrow> string \<Rightarrow> bool" where
  "is_substring p [] \<longleftrightarrow> p = []"
| "is_substring p (c # cs) \<longleftrightarrow> take (length p) (c # cs) = p \<or> is_substring p cs"

lemma dropWhile_id: "xs = [] \<or> \<not> P (hd xs) \<Longrightarrow> dropWhile P xs = xs"
  by (cases xs) auto

lemma hd_dropWhile_not: "dropWhile P xs \<noteq> [] \<Longrightarrow> \<not> P (hd (dropWhile P xs))"
  by (rule hd_dropWhile)

lemma last_dropWhile: "dropWhile P xs \<noteq> [] \<Longrightarrow> last (dropWhile P xs) = last xs"
  by (induction xs) auto

lemma py_strip_idem [simp]: "py_strip (py_strip s) = py_strip s"
proof -
  define d where "d = dropWhile py_space s"
  define y where "y = dropWhile py_space (rev d)"
  have st: "py_strip s = rev y" by (simp add: py_strip_def d_def y_def)
  have y: "y = [] \<or> \<not> py_space (hd y)"
    unfolding y_def by (metis hd_dropWhile_not)
  have "rev y = [] \<or> \<not> py_space (hd (rev y))"
  proof (cases "y = []")
    case False
    then have "last y = last (rev d)" and "d \<noteq> []"
      unfolding y_def by (auto simp: last_dropWhile)
    then have "hd (rev y) = hd d" using False by (simp add: hd_rev last_rev)
    moreover have "\<not> py_space (hd d)"
      using \<open>d \<noteq> []\<close> unfolding d_def by (rule hd_dropWhile_not)
    ultimately show ?thesis by simp
  qed simp
  then have "dropWhile py_space (rev y) = rev y" by (rule dropWhile_id)
  moreover from y have "dropWhile py_space y = y" by (rule dropWhile_id)
  ultimately have "py_strip (rev y) = rev y" by (simp only: py_strip_def rev_rev_ident)
  then show ?thesis by (simp only: st)
qed

section \<open>Calendar dates\<close>

text \<open>
  Days since 1970-01-01 and the proleptic Gregorian calendar; \<open>strftime("%Y-%m-%d")\<close> for the
  years 1000 to 9999, and reading a date back.
\<close>

definition civil_of_day :: "int \<Rightarrow> int \<times> int \<times> int" where
  "civil_of_day n =
     (let z = n + 719468; era = z div 146097; doe = z mod 146097;
          yoe = (doe - doe div 1460 + doe div 36524 - doe div 146096) div 365;
          doy = doe - (365 * yoe + yoe div 4 - yoe div 100);
          mp = (5 * doy + 2) div 153;
          d = doy - (153 * mp + 2) div 5 + 1;
          m = (if mp < 10 then mp + 3 else mp - 9);
          y = yoe + era * 400 in
      (if m \<le> 2 then y + 1 else y, m, d))"

definition day_of_civil :: "int \<times> int \<times> int \<Rightarrow> int" where
  "day_of_civil ymd =
     (let (y0, m, d) = ymd; y = (if m \<le> 2 then y0 - 1 else y0); era = y div 400; yoe = y mod 400;
          doy = (153 * (if m > 2 then m - 3 else m + 9) + 2) div 5 + d - 1;
          doe = yoe * 365 + yoe div 4 - yoe div 100 + doy in
      era * 146097 + doe - 719468)"

definition digit :: "int \<Rightarrow> char" where
  "digit n = char_of (48 + nat (n mod 10))"

definition date_text :: "int \<Rightarrow> string" where
  "date_text n =
     (case civil_of_day n of (y, m, d) \<Rightarrow>
        [digit (y div 1000), digit (y div 100), digit (y div 10), digit y, CHR ''-'',
         digit (m div 10), digit m, CHR ''-'', digit (d div 10), digit d])"

definition digits_value :: "string \<Rightarrow> int option" where
  "digits_value s =
     (if list_all (\<lambda>c. 48 \<le> (of_char c :: nat) \<and> (of_char c :: nat) \<le> 57) s
      then Some (foldl (\<lambda>a c. 10 * a + (of_char c - 48)) 0 s) else None)"

text \<open>\<open>strptime(s, "%Y-%m-%d")\<close>: four digits, then one or two each; with \<open>strict\<close> two each,
  as \<open>fromisoformat\<close> wants them. The date has to exist.\<close>

definition parse_date :: "bool \<Rightarrow> string \<Rightarrow> int option" where
  "parse_date strict s =
     (let y = takeWhile (\<lambda>c. c \<noteq> CHR ''-'') s; r = drop (Suc (length y)) s;
          m = takeWhile (\<lambda>c. c \<noteq> CHR ''-'') r; d = drop (Suc (length m)) r in
      if length y = 4 \<and> (length m = 2 \<or> \<not> strict \<and> length m = 1)
         \<and> (length d = 2 \<or> \<not> strict \<and> length d = 1)
      then (case (digits_value y, digits_value m, digits_value d) of
              (Some y', Some m', Some d') \<Rightarrow>
                let n = day_of_civil (y', m', d') in
                if 1 \<le> y' \<and> civil_of_day n = (y', m', d') then Some n else None
            | _ \<Rightarrow> None)
      else None)"

text \<open>The clock of the program runs at UTC+05:30.\<close>

definition ist_day :: "int \<Rightarrow> int" where
  "ist_day ts = (ts + 19800) div 86400"

definition ist_midnight :: "int \<Rightarrow> int" where
  "ist_midnight n = n * 86400 - 19800"

lemma ist_day_midnight [simp]: "ist_day (ist_midnight n) = n"
  by (simp add: ist_day_def ist_midnight_def)

lemma ist_day_iff: "ist_day ts = n \<longleftrightarrow> ist_midnight n \<le> ts \<and> ts < ist_midnight (n + 1)"
proof -
  have "ist_day ts = n \<longleftrightarrow> n * 86400 \<le> ts + 19800 \<and> ts + 19800 < (n + 1) * 86400"
    by (auto simp: ist_day_def)
  then show ?thesis by (auto simp: ist_midnight_def)
qed

lemma length_filter_mset: "mset xs = mset ys \<Longrightarrow> length (filter P xs) = length (filter P ys)"
proof -
  assume "mset xs = mset ys"
  then have "mset (filter P xs) = mset (filter P ys)" by simp
  then show ?thesis by (rule mset_eq_length)
qed

section \<open>Loops that change state and may raise\<close>

text \<open>The body's effect on the state stays when it raises; the loop stops there.\<close>

fun efold :: "('s \<Rightarrow> 'a \<Rightarrow> 's \<times> py_error option) \<Rightarrow> 's \<Rightarrow> 'a list \<Rightarrow> 's \<times> py_error option" where
  "efold f s [] = (s, None)"
| "efold f s (x # xs) = (case f s x of (s', Some e) \<Rightarrow> (s', Some e) | (s', None) \<Rightarrow> efold f s' xs)"

lemma efold_invariant:
  assumes "\<And>s x. P s \<Longrightarrow> x \<in> set xs \<Longrightarrow> P (fst (f s x))" and "P s"
  shows "P (fst (efold f s xs))"
  using assms
proof (induction xs arbitrary: s)
  case Nil
  then show ?case by simp
next
  case (Cons x xs)
  have "P (fst (f s x))" using Cons.prems by simp
  with Cons show ?case by (cases "f s x") (auto split: option.splits)
qed

text \<open>\<open>int(x)\<close> cuts towards zero; SQLite binds integers of 64 bits.\<close>

definition py_int :: "rat \<Rightarrow> int" where
  "py_int x = (if 0 \<le> x then \<lfloor>x\<rfloor> else - \<lfloor>- x\<rfloor>)"

definition int64 :: "int \<Rightarrow> bool" where
  "int64 n \<longleftrightarrow> - (2 ^ 63) \<le> n \<and> n < 2 ^ 63"

lemma py_int_of_int [simp]: "py_int (of_int n) = n"
  by (simp add: py_int_def)

lemma foldl_keeps: "(\<And>s x. P s \<Longrightarrow> P (f s x)) \<Longrightarrow> P s \<Longrightarrow> P (foldl f s xs)"
  by (induction xs arbitrary: s) simp_all

end
