(* ===== verification/Json.thy ===== *)
theory Json
  imports Prelude
begin

text \<open>
  JSON values as \<open>json.loads\<close> returns them and \<open>json.dumps\<close> takes them. An object
  is an association list in the dictionary's insertion order. \<open>JTime d\<close> is a string that
  \<open>datetime.isoformat\<close> printed (or that \<open>datetime.fromisoformat\<close> will read), kept as
  the datetime it denotes; \<open>JStr\<close> is every other string, of which \<open>fromisoformat\<close> reads only
  a plain date (as its midnight, without a time zone).
\<close>

datatype json =
    JNull
  | JBool bool
  | JInt int
  | JNum rat
  | JStr string
  | JTime datetime
  | JArr "json list"
  | JObj "(string \<times> json) list"

type_synonym dict = "(string \<times> json) list"

section \<open>Dictionary access\<close>

definition dget :: "dict \<Rightarrow> string \<Rightarrow> json" where
  "dget d k = (case map_of d k of None \<Rightarrow> JNull | Some v \<Rightarrow> v)"

definition dget_default :: "dict \<Rightarrow> string \<Rightarrow> json \<Rightarrow> json" where
  "dget_default d k v = (case map_of d k of None \<Rightarrow> v | Some w \<Rightarrow> w)"

definition dindex :: "dict \<Rightarrow> string \<Rightarrow> json res" where
  "dindex d k = (case map_of d k of None \<Rightarrow> Inl (KeyError k) | Some v \<Rightarrow> Inr v)"

fun truthy :: "json \<Rightarrow> bool" where
  "truthy JNull = False"
| "truthy (JBool b) = b"
| "truthy (JInt n) = (n \<noteq> 0)"
| "truthy (JNum x) = (x \<noteq> 0)"
| "truthy (JStr s) = (s \<noteq> [])"
| "truthy (JTime _) = True"
| "truthy (JArr xs) = (xs \<noteq> [])"
| "truthy (JObj d) = (d \<noteq> [])"

text \<open>\<open>x or y\<close>\<close>

definition py_or :: "json \<Rightarrow> json \<Rightarrow> json" where
  "py_or x y = (if truthy x then x else y)"

text \<open>Lists and dictionaries cannot be dictionary keys.\<close>

fun hashable :: "json \<Rightarrow> bool" where
  "hashable (JArr _) = False"
| "hashable (JObj _) = False"
| "hashable _ = True"

text \<open>\<open>list(x)\<close>: arrays copy, strings split into characters, objects give their keys.\<close>

fun py_list :: "json \<Rightarrow> json list res" where
  "py_list (JArr xs) = Inr xs"
| "py_list (JStr s) = Inr (map (\<lambda>c. JStr [c]) s)"
| "py_list (JObj d) = Inr (map (\<lambda>p. JStr (fst p)) d)"
| "py_list _ = Inl (TypeError ''object is not iterable'')"

text \<open>\<open>datetime.fromisoformat\<close>\<close>

fun fromisoformat :: "json \<Rightarrow> datetime res" where
  "fromisoformat (JTime d) = Inr d"
| "fromisoformat (JStr s) =
     (case parse_date True s of
        Some n \<Rightarrow> Inr (Naive (usec (n * 86400)))
      | None \<Rightarrow> Inl (ValueError ''Invalid isoformat string''))"
| "fromisoformat _ = Inl (TypeError ''fromisoformat: argument must be str'')"

text \<open>\<open>isinstance(x, (int, float))\<close>; a Python bool is an int.\<close>

fun as_number :: "json \<Rightarrow> rat option" where
  "as_number (JInt n) = Some (of_int n)"
| "as_number (JNum x) = Some x"
| "as_number (JBool b) = Some (if b then 1 else 0)"
| "as_number _ = None"

section \<open>Canonical form\<close>

text \<open>
  \<open>json.dumps(payload, sort_keys=True)\<close> writes every object with its keys in order; the
  text is determined by the value with all its objects sorted.
\<close>

fun sort_keys :: "json \<Rightarrow> json" where
  "sort_keys (JObj d) = JObj (sort_key fst (map (\<lambda>p. (fst p, sort_keys (snd p))) d))"
| "sort_keys (JArr xs) = JArr (map sort_keys xs)"
| "sort_keys v = v"

lemma dget_Cons [dict_simps]: "dget ((k', v) # d) k = (if k = k' then v else dget d k)"
  by (simp add: dget_def)

lemma dget_Nil [dict_simps]: "dget [] k = JNull"
  by (simp add: dget_def)

lemma dindex_Cons [dict_simps]: "dindex ((k', v) # d) k = (if k = k' then Inr v else dindex d k)"
  by (simp add: dindex_def)

lemma dget_default_Cons [dict_simps]:
  "dget_default ((k', v) # d) k w = (if k = k' then v else dget_default d k w)"
  by (simp add: dget_default_def)

lemma dget_default_Nil [dict_simps]: "dget_default [] k w = w"
  by (simp add: dget_default_def)

text \<open>The order in which a dictionary was filled does not show in the canonical form.\<close>

lemma sort_key_distinct_cong:
  fixes f :: "'a \<Rightarrow> 'b::linorder"
  assumes "distinct (map f xs)" "mset xs = mset ys"
  shows "sort_key f xs = sort_key f ys"
proof (rule sort_key_inj_key_eq)
  show "mset xs = mset (sort_key f ys)" using assms(2) by simp
  show "inj_on f (set xs)" using assms(1) by (simp add: distinct_map)
  show "sorted (map f (sort_key f ys))" by simp
qed

lemma sort_keys_insertion_order:
  assumes "distinct (map fst d)" "mset d = mset d'"
  shows "sort_keys (JObj d) = sort_keys (JObj d')"
proof -
  let ?g = "\<lambda>p. (fst p, sort_keys (snd p))"
  have "map fst (map ?g d) = map fst d" by (simp add: comp_def)
  with assms(1) have "distinct (map fst (map ?g d))" by (simp only:)
  moreover have "mset (map ?g d) = mset (map ?g d')" using assms(2) by simp
  ultimately have "sort_key fst (map ?g d) = sort_key fst (map ?g d')"
    by (rule sort_key_distinct_cong)
  then show ?thesis by simp
qed

fun as_int :: "json \<Rightarrow> int option" where
  "as_int (JInt n) = Some n"
| "as_int _ = None"

end
