(* ===== verification/Schema.thy ===== *)
theory Schema
  imports Json
begin

text \<open>
  The runtime schema (src/schema.py): the statuses and roles, the entry of a monitored peer,
  one latency record, and the mutable state the engine keeps per monitored peer.
\<close>

type_synonym node_id = string

definition HISTORY_MAXLEN :: nat where
  "HISTORY_MAXLEN = 100"

definition STATS_HISTORY_MAXLEN :: nat where
  "STATS_HISTORY_MAXLEN = 360"

datatype peer_status = ALIVE | DEAD | UNKNOWN | UNREACHABLE

datatype sync_status = LIVE | SYNCING | GAP | SYNCED

datatype node_role = MONITORED | MONITORING | BOTH

fun status_value :: "peer_status \<Rightarrow> string" where
  "status_value ALIVE = ''ALIVE''"
| "status_value DEAD = ''DEAD''"
| "status_value UNKNOWN = ''UNKNOWN''"
| "status_value UNREACHABLE = ''UNREACHABLE''"

fun sync_value :: "sync_status \<Rightarrow> string" where
  "sync_value LIVE = ''live''"
| "sync_value SYNCING = ''syncing''"
| "sync_value GAP = ''gap''"
| "sync_value SYNCED = ''synced''"

fun role_value :: "node_role \<Rightarrow> string" where
  "role_value MONITORED = ''monitored''"
| "role_value MONITORING = ''monitoring''"
| "role_value BOTH = ''both''"

record peer_entry =
  pe_node_id :: node_id
  pe_alias :: "string option"

record latency_record =
  lr_timestamp :: instant
  lr_rtt_ms :: "rat option"
  lr_status :: peer_status

text \<open>
  \<open>cached_node_addr\<close> is the iroh address built from the peer's public key alone, kept as
  that key's text.
\<close>

record peer_state =
  ps_entry :: peer_entry
  ps_latency_history :: "latency_record list"
  ps_last_seen :: "instant option"
  ps_failures :: nat
  ps_successes :: nat
  ps_pull_failures :: nat
  ps_status :: peer_status
  ps_fail_reason :: "string option"
  ps_node_addr :: "node_id option"
  ps_last_stats :: "json option"
  ps_stats_history :: "json list"
  ps_containers :: "json list"
  ps_sync :: sync_status
  ps_last_sync :: "instant option"
  ps_gap :: bool
  ps_seq :: int

definition new_peer_state :: "peer_entry \<Rightarrow> peer_state" where
  "new_peer_state e =
     \<lparr>ps_entry = e, ps_latency_history = [], ps_last_seen = None, ps_failures = 0,
      ps_successes = 0, ps_pull_failures = 0, ps_status = UNKNOWN, ps_fail_reason = None,
      ps_node_addr = None, ps_last_stats = None, ps_stats_history = [], ps_containers = [],
      ps_sync = LIVE, ps_last_sync = None, ps_gap = False, ps_seq = 0\<rparr>"

text \<open>The two deques never outgrow their bounds.\<close>

definition peer_bounded :: "peer_state \<Rightarrow> bool" where
  "peer_bounded p \<longleftrightarrow>
     length (ps_latency_history p) \<le> HISTORY_MAXLEN
     \<and> length (ps_stats_history p) \<le> STATS_HISTORY_MAXLEN"

lemma peer_bounded_new: "peer_bounded (new_peer_state e)"
  by (simp add: peer_bounded_def new_peer_state_def)

end
