(* ===== verification/Trust_Log.thy ===== *)
theory Trust_Log
  imports Schema
begin

text \<open>
  The append-only signed log (src/log.py). A log entry carries its sequence number, the hash
  of the entry before it and an ed25519 signature. \<open>json\<close> payloads are kept in canonical
  form (sorted keys) where the code hashes and signs their text.
\<close>

section \<open>Operations\<close>

abbreviation "OP_GENESIS \<equiv> ''genesis''"
abbreviation "OP_ADD_PEER \<equiv> ''add_peer''"
abbreviation "OP_REVOKE_PEER \<equiv> ''revoke_peer''"
abbreviation "OP_UPDATE_PERMISSIONS \<equiv> ''update_permissions''"
abbreviation "OP_SET_VISIBILITY \<equiv> ''set_visibility''"
abbreviation "OP_ADD_PEER_ALIAS \<equiv> ''add_peer_alias''"
abbreviation "OP_MONITOR_DOWN \<equiv> ''monitor_down''"
abbreviation "OP_MONITOR_UP \<equiv> ''monitor_up''"
abbreviation "OP_SHELL_OPEN \<equiv> ''shell_open''"
abbreviation "OP_SHELL_CLOSE \<equiv> ''shell_close''"
abbreviation "OP_SET_TAGS \<equiv> ''set_tags''"
abbreviation "OP_SET_MAINTENANCE \<equiv> ''set_maintenance''"
abbreviation "OP_CLEAR_MAINTENANCE \<equiv> ''clear_maintenance''"

definition OP_TYPES :: "string list" where
  "OP_TYPES =
     [OP_GENESIS, OP_ADD_PEER, OP_REVOKE_PEER, OP_UPDATE_PERMISSIONS, OP_SET_VISIBILITY,
      OP_ADD_PEER_ALIAS, OP_MONITOR_DOWN, OP_MONITOR_UP, OP_SHELL_OPEN, OP_SHELL_CLOSE,
      OP_SET_TAGS, OP_SET_MAINTENANCE, OP_CLEAR_MAINTENANCE]"

definition PEER_STATE_OPS :: "string list" where
  "PEER_STATE_OPS =
     [OP_ADD_PEER, OP_REVOKE_PEER, OP_UPDATE_PERMISSIONS, OP_SET_VISIBILITY,
      OP_ADD_PEER_ALIAS, OP_SET_TAGS, OP_SET_MAINTENANCE, OP_CLEAR_MAINTENANCE]"

definition ZERO_HASH :: string where
  "ZERO_HASH = replicate 64 (CHR ''0'')"

definition MONITOR_EVENT_TAIL :: nat where
  "MONITOR_EVENT_TAIL = 256"

definition is_monitor_op :: "string \<Rightarrow> bool" where
  "is_monitor_op t \<longleftrightarrow> t = OP_MONITOR_DOWN \<or> t = OP_MONITOR_UP"

record log_entry =
  le_seq :: int
  le_type :: string
  le_data :: dict
  le_timestamp :: json
  le_prev_hash :: string
  le_sig :: string

section \<open>Cryptography as a parameter\<close>

text \<open>
  PyNaCl and the hash are outside the repository. \<open>cr_hash p s\<close> is the hex SHA-256 of the
  canonical text of \<open>p\<close> followed by the signature text \<open>s\<close>; \<open>cr_sign k p\<close> the hex
  signature of the canonical text of \<open>p\<close>; \<open>cr_key_ok\<close> says that a node id is a
  verification key; \<open>cr_verify\<close> has three outcomes, because a signature that is no hex text
  or has the wrong length raises \<open>ValueError\<close> rather than \<open>BadSignatureError\<close>.
\<close>

datatype sig_check = Sig_Ok | Sig_Bad | Sig_Malformed

record crypto =
  cr_hash :: "json \<Rightarrow> string \<Rightarrow> string"
  cr_sign :: "string \<Rightarrow> json \<Rightarrow> string"
  cr_key_ok :: "node_id \<Rightarrow> bool"
  cr_verify :: "node_id \<Rightarrow> json \<Rightarrow> string \<Rightarrow> sig_check"

definition signing_payload :: "int \<Rightarrow> string \<Rightarrow> dict \<Rightarrow> json \<Rightarrow> string \<Rightarrow> json" where
  "signing_payload sq t d ts ph =
     sort_keys (JObj [(''seq'', JInt sq), (''type'', JStr t), (''data'', JObj d),
                      (''timestamp'', ts), (''prev_hash'', JStr ph)])"

definition entry_payload :: "log_entry \<Rightarrow> json" where
  "entry_payload e =
     signing_payload (le_seq e) (le_type e) (le_data e) (le_timestamp e) (le_prev_hash e)"

definition entry_hash :: "crypto \<Rightarrow> log_entry \<Rightarrow> string" where
  "entry_hash C e = cr_hash C (entry_payload e) (le_sig e)"

section \<open>Chain verification\<close>

text \<open>
  One entry against the sequence number and hash before it, in the order of the code's
  checks. With an empty or malformed own node id the signature is not checked.
\<close>

definition sig_checked :: "crypto \<Rightarrow> node_id \<Rightarrow> bool" where
  "sig_checked C own \<longleftrightarrow> own \<noteq> [] \<and> cr_key_ok C own"

definition verify_entry ::
  "crypto \<Rightarrow> node_id \<Rightarrow> int \<times> string \<Rightarrow> log_entry \<Rightarrow> (int \<times> string) res" where
  "verify_entry C own st e =
     (let (prev_seq, prev_hash) = st in
      if le_seq e \<noteq> prev_seq + 1 then Inl (RuntimeError ''Log seq gap'')
      else if le_prev_hash e \<noteq> prev_hash then Inl (RuntimeError ''Log prev_hash mismatch'')
      else if le_type e \<notin> set OP_TYPES then Inl (RuntimeError ''Unknown op type'')
      else if sig_checked C own then
        (case cr_verify C own (entry_payload e) (le_sig e) of
           Sig_Ok \<Rightarrow> Inr (le_seq e, entry_hash C e)
         | Sig_Bad \<Rightarrow> Inl (RuntimeError ''Log signature invalid'')
         | Sig_Malformed \<Rightarrow> Inl (ValueError ''malformed signature''))
      else Inr (le_seq e, entry_hash C e))"

definition verify_from ::
  "crypto \<Rightarrow> node_id \<Rightarrow> int \<times> string \<Rightarrow> log_entry list \<Rightarrow> (int \<times> string) res" where
  "verify_from C own = rfold (verify_entry C own)"

definition verify_chain :: "crypto \<Rightarrow> node_id \<Rightarrow> log_entry list \<Rightarrow> unit res" where
  "verify_chain C own es = rbind (verify_from C own (-1, ZERO_HASH) es) (\<lambda>_. Inr ())"

section \<open>The log object and its file\<close>

text \<open>
  A line of log.jsonl is blank, an entry that parses, or neither. The file carries its
  modification time; the object remembers the one it last saw.
\<close>

datatype log_line = Blank | Line log_entry | Junk

record log_file =
  lf_lines :: "log_line list"
  lf_mtime :: nat

record trust_log =
  tl_key :: "string option"
  tl_own :: node_id
  tl_entries :: "log_entry list"
  tl_tail :: "log_entry list"
  tl_mtime :: nat
  tl_file :: "log_file option"

definition new_trust_log :: "string option \<Rightarrow> node_id \<Rightarrow> log_file option \<Rightarrow> trust_log" where
  "new_trust_log key own f =
     \<lparr>tl_key = key, tl_own = own, tl_entries = [], tl_tail = [], tl_mtime = 0, tl_file = f\<rparr>"

fun parse_lines :: "log_line list \<Rightarrow> log_entry list res" where
  "parse_lines [] = Inr []"
| "parse_lines (Blank # ls) = parse_lines ls"
| "parse_lines (Line e # ls) = rbind (parse_lines ls) (\<lambda>es. Inr (e # es))"
| "parse_lines (Junk # ls) = Inl (RuntimeError ''Invalid log entry'')"

definition read_verified_entries ::
  "crypto \<Rightarrow> trust_log \<Rightarrow> log_file \<Rightarrow> log_entry list res" where
  "read_verified_entries C L f =
     rbind (parse_lines (lf_lines f)) (\<lambda>es.
       rbind (verify_chain C (tl_own L) es) (\<lambda>_. Inr es))"

definition monitor_tail_from :: "log_entry list \<Rightarrow> log_entry list" where
  "monitor_tail_from es =
     foldl (\<lambda>q e. if is_monitor_op (le_type e) then deque_push MONITOR_EVENT_TAIL q e else q) [] es"

text \<open>\<open>load\<close>: a missing file leaves the object as it is; any failure raises before a field
  is assigned.\<close>

definition log_load :: "crypto \<Rightarrow> trust_log \<Rightarrow> trust_log res" where
  "log_load C L =
     (case tl_file L of
        None \<Rightarrow> Inr L
      | Some f \<Rightarrow>
          rbind (read_verified_entries C L f) (\<lambda>es.
            Inr (L\<lparr>tl_entries := es, tl_tail := monitor_tail_from es, tl_mtime := lf_mtime f\<rparr>)))"

definition log_reload_if_changed :: "crypto \<Rightarrow> trust_log \<Rightarrow> trust_log \<times> bool res" where
  "log_reload_if_changed C L =
     (case tl_file L of
        None \<Rightarrow> (L, Inr False)
      | Some f \<Rightarrow>
          if lf_mtime f \<le> tl_mtime L then (L, Inr False)
          else (case read_verified_entries C L f of
                  Inl e \<Rightarrow> (L, Inl e)
                | Inr es \<Rightarrow>
                    (L\<lparr>tl_entries := es, tl_tail := monitor_tail_from es,
                        tl_mtime := lf_mtime f\<rparr>, Inr True)))"

definition log_head :: "crypto \<Rightarrow> trust_log \<Rightarrow> int \<times> string" where
  "log_head C L =
     (if tl_entries L = [] then (-1, ZERO_HASH)
      else (le_seq (last (tl_entries L)), entry_hash C (last (tl_entries L))))"

definition ops_since :: "trust_log \<Rightarrow> int \<Rightarrow> log_entry list" where
  "ops_since L sq = [e \<leftarrow> tl_entries L. sq < le_seq e]"

section \<open>Appending\<close>

text \<open>
  The entry \<open>append\<close> builds at time \<open>now\<close>. \<open>write\<close> is the outcome of the file
  write: the file's new modification time, or \<open>None\<close> when \<open>open\<close>, \<open>write\<close> or
  \<open>mkdir\<close> raises \<open>OSError\<close>. The in-memory list and the monitor tail are extended
  before the write, as in the code.
\<close>

definition next_entry :: "crypto \<Rightarrow> string \<Rightarrow> json \<Rightarrow> log_entry list \<Rightarrow> string \<Rightarrow> dict \<Rightarrow> log_entry" where
  "next_entry C key now es t d =
     (let sq = (if es = [] then 0 else le_seq (last es) + 1);
          ph = (if es = [] then ZERO_HASH else entry_hash C (last es)) in
      \<lparr>le_seq = sq, le_type = t, le_data = d, le_timestamp = now, le_prev_hash = ph,
       le_sig = cr_sign C key (signing_payload sq t d now ph)\<rparr>)"

definition file_append :: "log_file option \<Rightarrow> log_entry \<Rightarrow> nat \<Rightarrow> log_file" where
  "file_append f e m =
     (case f of
        None \<Rightarrow> \<lparr>lf_lines = [Line e], lf_mtime = m\<rparr>
      | Some g \<Rightarrow> \<lparr>lf_lines = lf_lines g @ [Line e], lf_mtime = m\<rparr>)"

definition log_append ::
  "crypto \<Rightarrow> json \<Rightarrow> nat option \<Rightarrow> trust_log \<Rightarrow> string \<Rightarrow> dict \<Rightarrow> trust_log \<times> log_entry res" where
  "log_append C now write L t d =
     (case tl_key L of
        None \<Rightarrow> (L, Inl (RuntimeError ''Trust log has no signing key -- cannot append''))
      | Some key \<Rightarrow>
          if t \<notin> set OP_TYPES then (L, Inl (ValueError ''Unknown op type''))
          else
            let e = next_entry C key now (tl_entries L) t d;
                L1 = L\<lparr>tl_entries := tl_entries L @ [e],
                         tl_tail := (if is_monitor_op t
                                     then deque_push MONITOR_EVENT_TAIL (tl_tail L) e
                                     else tl_tail L)\<rparr> in
            (case write of
               None \<Rightarrow> (L1, Inl (OSError ''log write failed''))
             | Some m \<Rightarrow> (L1\<lparr>tl_file := Some (file_append (tl_file L) e m), tl_mtime := m\<rparr>, Inr e)))"

definition ensure_genesis :: "crypto \<Rightarrow> json \<Rightarrow> nat option \<Rightarrow> trust_log \<Rightarrow> trust_log \<times> unit res" where
  "ensure_genesis C now write L =
     (if tl_entries L \<noteq> [] then (L, Inr ())
      else if tl_key L = None \<or> tl_own L = []
      then (L, Inl (RuntimeError ''Cannot write genesis entry without signing key and node_id''))
      else (case log_append C now write L OP_GENESIS [(''node_id'', JStr (tl_own L))] of
              (L', Inl e) \<Rightarrow> (L', Inl e)
            | (L', Inr _) \<Rightarrow> (L', Inr ())))"

definition monitor_events :: "trust_log \<Rightarrow> node_id option \<Rightarrow> log_entry list" where
  "monitor_events L nid =
     (case nid of
        None \<Rightarrow> tl_tail L
      | Some n \<Rightarrow> [e \<leftarrow> tl_tail L. dget (le_data e) ''node_id'' = JStr n])"

section \<open>Replaying the log into the peer view\<close>

record mpeer =
  mp_alias :: json
  mp_permissions :: "json list"
  mp_tags :: "json list"
  mp_mstart :: json
  mp_mend :: json
  mp_added :: json
  mp_revoked :: json

type_synonym mpeers = "(json \<times> mpeer) list"

definition entry_nid :: "log_entry \<Rightarrow> json res" where
  "entry_nid e =
     rbind (dindex (le_data e) ''node_id'') (\<lambda>nid.
       if hashable nid then Inr nid else Inl (TypeError ''unhashable type''))"

definition mat_add :: "log_entry \<Rightarrow> mpeer res" where
  "mat_add e =
     (let d = le_data e in
      rbind (py_list (dget_default d ''permissions'' (JArr [JStr ''monitor'']))) (\<lambda>perms.
      rbind (py_list (dget_default d ''tags'' (JArr []))) (\<lambda>tags.
        Inr \<lparr>mp_alias = dget d ''alias'', mp_permissions = perms, mp_tags = tags,
             mp_mstart = JNull, mp_mend = JNull, mp_added = le_timestamp e, mp_revoked = JNull\<rparr>)))"

text \<open>Updating the entry of a known peer; an unknown one is ignored.\<close>

definition mat_update :: "mpeers \<Rightarrow> log_entry \<Rightarrow> (mpeer \<Rightarrow> mpeer res) \<Rightarrow> mpeers res" where
  "mat_update ps e f =
     rbind (entry_nid e) (\<lambda>nid.
       case map_of ps nid of
         None \<Rightarrow> Inr ps
       | Some p \<Rightarrow> rbind (f p) (\<lambda>p'. Inr (AList.update nid p' ps)))"

definition mat_step :: "mpeers \<Rightarrow> log_entry \<Rightarrow> mpeers res" where
  "mat_step ps e =
     (let t = le_type e; d = le_data e in
      if t = OP_GENESIS then Inr ps
      else if t = OP_ADD_PEER then
        rbind (entry_nid e) (\<lambda>nid. rbind (mat_add e) (\<lambda>p. Inr (AList.update nid p ps)))
      else if t = OP_REVOKE_PEER then
        mat_update ps e (\<lambda>p. Inr (if mp_revoked p = JNull then p\<lparr>mp_revoked := le_timestamp e\<rparr> else p))
      else if t = OP_UPDATE_PERMISSIONS then
        mat_update ps e (\<lambda>p. rbind (py_list (dget_default d ''permissions'' (JArr [])))
                               (\<lambda>xs. Inr (p\<lparr>mp_permissions := xs\<rparr>)))
      else if t = OP_ADD_PEER_ALIAS then
        mat_update ps e (\<lambda>p. Inr (p\<lparr>mp_alias := dget d ''alias''\<rparr>))
      else if t = OP_SET_TAGS then
        mat_update ps e (\<lambda>p. rbind (py_list (dget_default d ''tags'' (JArr [])))
                               (\<lambda>xs. Inr (p\<lparr>mp_tags := xs\<rparr>)))
      else if t = OP_SET_MAINTENANCE then
        mat_update ps e (\<lambda>p. Inr (p\<lparr>mp_mstart := dget d ''start'', mp_mend := dget d ''end''\<rparr>))
      else if t = OP_CLEAR_MAINTENANCE then
        mat_update ps e (\<lambda>p. Inr (p\<lparr>mp_mstart := JNull, mp_mend := JNull\<rparr>))
      else Inr ps)"

definition materialize_peers :: "log_entry list \<Rightarrow> mpeers res" where
  "materialize_peers = rfold mat_step []"

definition log_is_revoked :: "trust_log \<Rightarrow> node_id \<Rightarrow> bool res" where
  "log_is_revoked L nid =
     rbind (materialize_peers (tl_entries L)) (\<lambda>ps.
       Inr (case map_of ps (JStr nid) of None \<Rightarrow> False | Some p \<Rightarrow> mp_revoked p \<noteq> JNull))"

section \<open>Lemmas: the chain\<close>

lemma verify_from_Nil [simp]: "verify_from C own st [] = Inr st"
  by (simp add: verify_from_def)

lemma verify_from_Cons:
  "verify_from C own st (e # es) = rbind (verify_entry C own st e) (\<lambda>s. verify_from C own s es)"
  by (simp add: verify_from_def)

lemma verify_from_snoc:
  "verify_from C own st (es @ [e]) = rbind (verify_from C own st es) (\<lambda>s. verify_entry C own s e)"
  by (simp add: verify_from_def)

lemma verify_entry_Inr:
  "verify_entry C own (sq, h) e = Inr st \<longleftrightarrow>
     le_seq e = sq + 1 \<and> le_prev_hash e = h \<and> le_type e \<in> set OP_TYPES
     \<and> (sig_checked C own \<longrightarrow> cr_verify C own (entry_payload e) (le_sig e) = Sig_Ok)
     \<and> st = (le_seq e, entry_hash C e)"
  by (auto simp: verify_entry_def split: sig_check.splits)

lemma verify_chain_Inr:
  "verify_chain C own es = Inr () \<longleftrightarrow> (\<exists>st. verify_from C own (-1, ZERO_HASH) es = Inr st)"
  by (auto simp: verify_chain_def rbind_Inr_conv)

text \<open>The state after a verified prefix is the sequence number and hash of its last entry.\<close>

lemma verify_from_state:
  "verify_from C own st es = Inr st' \<Longrightarrow>
     st' = (if es = [] then st else (le_seq (last es), entry_hash C (last es)))"
proof (cases es rule: rev_cases)
  case (snoc ys y)
  assume "verify_from C own st es = Inr st'"
  with snoc obtain a b where "verify_entry C own (a, b) y = Inr st'"
    by (auto simp: verify_from_snoc rbind_Inr_conv)
  with snoc show ?thesis by (simp add: verify_entry_Inr)
qed simp

lemma verify_from_seqs:
  "verify_from C own (sq, h) es = Inr st \<Longrightarrow>
     map le_seq es = map (\<lambda>i. sq + 1 + int i) [0..<length es]"
proof (induction es arbitrary: sq h)
  case Nil
  then show ?case by simp
next
  case (Cons e es)
  from Cons.prems have e: "le_seq e = sq + 1"
    and es: "verify_from C own (sq + 1, entry_hash C e) es = Inr st"
    by (auto simp: verify_from_Cons rbind_Inr_conv verify_entry_Inr)
  have "[0..<length (e # es)] = 0 # map Suc [0..<length es]"
    by (simp only: length_Cons upt_conv_Cons map_Suc_upt zero_less_Suc)
  with e Cons.IH[OF es] show ?case by simp
qed

lemma verify_from_length:
  assumes "verify_from C own (-1, ZERO_HASH) es = Inr (n, h)"
  shows "n = int (length es) - 1"
proof (cases es rule: rev_cases)
  case Nil
  with assms show ?thesis by simp
next
  case (snoc ys y)
  have "le_seq y = last (map (\<lambda>i. - 1 + 1 + int i) [0..<length es])"
    using verify_from_seqs[OF assms] snoc by (metis last_map last_snoc snoc_eq_iff_butlast)
  moreover have "n = le_seq y" using verify_from_state[OF assms] snoc by simp
  ultimately show ?thesis using snoc by (simp add: last_map)
qed

definition entry_core :: "log_entry \<Rightarrow> json \<times> string" where
  "entry_core e = (entry_payload e, le_sig e)"

text \<open>The canonical form of a payload, keys in order; it determines each of its parts.\<close>

lemma signing_payload_eq:
  "signing_payload sq t d ts ph =
     JObj [(''data'', sort_keys (JObj d)), (''prev_hash'', JStr ph), (''seq'', JInt sq),
           (''timestamp'', sort_keys ts), (''type'', JStr t)]"
  by (simp add: signing_payload_def)

lemma entry_core_parts:
  assumes "entry_core e = entry_core f"
  shows "le_prev_hash e = le_prev_hash f" "le_seq e = le_seq f" "le_type e = le_type f"
  using assms by (simp_all add: entry_core_def entry_payload_def signing_payload_eq)

text \<open>What an append does to the entries, whatever the file write did.\<close>

lemma log_append_cases:
  assumes "log_append C now write L t d = (L', r)"
  obtains "L' = L" "\<exists>err. r = Inl err"
  | key where "tl_key L = Some key" "t \<in> set OP_TYPES"
      "tl_entries L' = tl_entries L @ [next_entry C key now (tl_entries L) t d]"
      "tl_own L' = tl_own L" "tl_key L' = tl_key L"
      "tl_tail L' = (if is_monitor_op t
          then deque_push MONITOR_EVENT_TAIL (tl_tail L) (next_entry C key now (tl_entries L) t d)
          else tl_tail L)"
      "r = (case write of None \<Rightarrow> Inl (OSError ''log write failed'')
            | Some m \<Rightarrow> Inr (next_entry C key now (tl_entries L) t d))"
  using assms
  by (auto simp: log_append_def Let_def split: option.splits if_splits)

lemma next_entry_simps [simp]:
  "le_type (next_entry C key now es t d) = t"
  "le_data (next_entry C key now es t d) = d"
  "le_timestamp (next_entry C key now es t d) = now"
  by (simp_all add: next_entry_def Let_def)

lemma next_entry_verifies:
  assumes "verify_from C own (-1, ZERO_HASH) es = Inr st"
    and "sig_checked C own \<longrightarrow> (\<forall>p. cr_verify C own p (cr_sign C key p) = Sig_Ok)"
    and "t \<in> set OP_TYPES"
  shows "verify_entry C own st (next_entry C key now es t d)
       = Inr (le_seq (next_entry C key now es t d), entry_hash C (next_entry C key now es t d))"
proof -
  let ?e = "next_entry C key now es t d"
  have st: "st = (if es = [] then (-1, ZERO_HASH) else (le_seq (last es), entry_hash C (last es)))"
    using assms(1) by (rule verify_from_state)
  then obtain a b where ab: "st = (a, b)" by (cases st)
  have "le_sig ?e = cr_sign C key (entry_payload ?e)"
    by (simp add: next_entry_def Let_def entry_payload_def)
  moreover have "le_seq ?e = a + 1" "le_prev_hash ?e = b"
    using st ab by (auto simp: next_entry_def Let_def split: if_splits)
  ultimately show ?thesis
    using assms(2,3) ab by (simp add: verify_entry_Inr)
qed

text \<open>One append keeps a verified chain verified, whatever its outcome.\<close>

lemma log_append_verified:
  assumes "verify_chain C (tl_own L) (tl_entries L) = Inr ()"
    and "\<forall>key p. tl_key L = Some key \<longrightarrow> cr_verify C (tl_own L) p (cr_sign C key p) = Sig_Ok"
    and "log_append C now write L t d = (L', r)"
  shows "verify_chain C (tl_own L') (tl_entries L') = Inr ()"
  using assms(3)
proof (cases rule: log_append_cases)
  case 1
  with assms(1) show ?thesis by simp
next
  case (2 key)
  from assms(1) obtain st where st: "verify_from C (tl_own L) (-1, ZERO_HASH) (tl_entries L) = Inr st"
    by (auto simp: verify_chain_Inr)
  from next_entry_verifies[OF st] assms(2) 2 st show ?thesis
    by (simp add: verify_chain_Inr verify_from_snoc)
qed


text \<open>
  Sequence numbers of a verified log are the positions, so \<open>ops_since\<close> returns exactly
  the suffix of the log after the given sequence number.
\<close>

theorem ops_since_suffix:
  assumes "verify_chain C own (tl_entries L) = Inr ()" and "-1 \<le> sq"
  shows "ops_since L sq = drop (nat (sq + 1)) (tl_entries L)"
proof -
  from assms(1) obtain st where "verify_from C own (-1, ZERO_HASH) (tl_entries L) = Inr st"
    by (auto simp: verify_chain_Inr)
  from verify_from_seqs[OF this]
  have seqs: "map le_seq (tl_entries L) = map int [0..<length (tl_entries L)]" by simp
  have "filter (\<lambda>e. sq < le_seq e) es = drop (nat (sq + 1) - k) es"
    if "map le_seq es = map int [k..<k + length es]" for es k
    using that
  proof (induction es arbitrary: k)
    case Nil
    then show ?case by simp
  next
    case (Cons e es)
    have "[k..<k + length (e # es)] = k # [Suc k..<Suc k + length es]"
      by (subst upt_rec) simp
    with Cons.prems have "map le_seq (e # es) = map int (k # [Suc k..<Suc k + length es])"
      by (simp only:)
    then have e: "le_seq e = int k" and es: "map le_seq es = map int [Suc k..<Suc k + length es]"
      by (simp_all only: list.map list.inject)
    note IH = Cons.IH[OF es]
    show ?case
    proof (cases "sq < int k")
      case True
      then have "nat (sq + 1) - k = 0" "nat (sq + 1) - Suc k = 0" by simp_all
      with True e IH show ?thesis by simp
    next
      case False
      with assms(2) have "nat (sq + 1) - k = Suc (nat (sq + 1) - Suc k)" by simp
      with False e IH show ?thesis by simp
    qed
  qed
  from this[of "tl_entries L" 0] seqs show ?thesis by (simp add: ops_since_def)
qed

section \<open>Lemmas: the monitor tail\<close>

lemma monitor_tail_snoc:
  "monitor_tail_from (es @ [e]) =
     (if is_monitor_op (le_type e) then deque_push MONITOR_EVENT_TAIL (monitor_tail_from es) e
      else monitor_tail_from es)"
  by (simp add: monitor_tail_from_def)

lemma monitor_tail_from_eq:
  "monitor_tail_from es = last_n MONITOR_EVENT_TAIL [e \<leftarrow> es. is_monitor_op (le_type e)]"
proof (induction es rule: rev_induct)
  case Nil
  then show ?case by (simp add: monitor_tail_from_def)
next
  case (snoc e es)
  then show ?case by (simp add: monitor_tail_snoc deque_push_last_n)
qed

section \<open>Lemmas: memory and file\<close>

text \<open>The object mirrors its file: the file parses to the entries in memory, these verify, and
  the monitor tail is the one the entries give.\<close>

definition log_synced :: "crypto \<Rightarrow> trust_log \<Rightarrow> bool" where
  "log_synced C L \<longleftrightarrow>
     (case tl_file L of
        None \<Rightarrow> tl_entries L = []
      | Some f \<Rightarrow> parse_lines (lf_lines f) = Inr (tl_entries L) \<and> lf_mtime f = tl_mtime L)
     \<and> verify_chain C (tl_own L) (tl_entries L) = Inr ()
     \<and> tl_tail L = monitor_tail_from (tl_entries L)"

lemma parse_lines_append:
  "parse_lines (ls @ ms) = rbind (parse_lines ls) (\<lambda>es. rbind (parse_lines ms) (\<lambda>fs. Inr (es @ fs)))"
proof (induction ls rule: parse_lines.induct)
  case 1
  then show ?case by (cases "parse_lines ms") simp_all
next
  case (3 e ls)
  then show ?case by (cases "parse_lines ls"; cases "parse_lines ms") simp_all
qed simp_all

lemma log_load_synced:
  assumes "log_synced C L" and "tl_file L \<noteq> None"
  shows "log_load C L = Inr L"
  using assms by (auto simp: log_synced_def log_load_def read_verified_entries_def)

lemma log_append_synced:
  assumes "log_synced C L"
    and sig: "\<forall>key p. tl_key L = Some key \<longrightarrow> cr_verify C (tl_own L) p (cr_sign C key p) = Sig_Ok"
    and app: "log_append C now (Some m) L t d = (L', Inr e)"
  shows "log_synced C L' \<and> tl_file L' \<noteq> None \<and> tl_entries L' = tl_entries L @ [e]"
proof -
  from app obtain key where key: "tl_key L = Some key" and e: "e = next_entry C key now (tl_entries L) t d"
    and L': "L' = L\<lparr>tl_entries := tl_entries L @ [e],
        tl_tail := (if is_monitor_op t then deque_push MONITOR_EVENT_TAIL (tl_tail L) e else tl_tail L),
        tl_file := Some (file_append (tl_file L) e m), tl_mtime := m\<rparr>"
    by (auto simp: log_append_def Let_def split: option.splits if_splits)
  have "verify_chain C (tl_own L') (tl_entries L') = Inr ()"
    using assms(1) by (intro log_append_verified[OF _ sig app]) (simp add: log_synced_def)
  moreover have "tl_tail L' = monitor_tail_from (tl_entries L')"
    using assms(1) L' e by (auto simp: log_synced_def monitor_tail_snoc)
  moreover have "parse_lines (lf_lines (file_append (tl_file L) e m)) = Inr (tl_entries L @ [e])"
    using assms(1) by (auto simp: log_synced_def file_append_def parse_lines_append split: option.splits)
  ultimately show ?thesis using L' by (simp add: log_synced_def file_append_def split: option.splits)
qed


text \<open>
  The incremental monitor tail is the scan of the log. On an object in agreement with its
  file, \<open>monitor_events\<close> returns the last 256 monitor entries of the whole log, and for one
  node those among them.
\<close>

theorem monitor_events_eq_scan:
  assumes "log_synced C L"
  shows "monitor_events L None = last_n 256 [e \<leftarrow> tl_entries L. is_monitor_op (le_type e)]
       \<and> monitor_events L (Some n) =
           [e \<leftarrow> last_n 256 [e \<leftarrow> tl_entries L. is_monitor_op (le_type e)].
              dget (le_data e) ''node_id'' = JStr n]"
  using assms
  by (simp add: log_synced_def monitor_events_def monitor_tail_from_eq MONITOR_EVENT_TAIL_def)

text \<open>
  C37: A failed file write breaks the file. The in-memory chain grows before the write, so after
  one append whose write fails, the next successful append writes an entry that links to one the
  file does not hold, and the next load of the file is refused with a sequence gap.
\<close>

theorem failed_write_breaks_next_load:
  assumes "log_synced C L" and "tl_key L = Some key"
    and "t \<in> set OP_TYPES" and "t' \<in> set OP_TYPES"
    and "log_append C now None L t d = (L1, r1)"
    and "log_append C now' (Some m) L1 t' d' = (L2, r2)"
  shows "log_load C L2 = Inl (RuntimeError ''Log seq gap'')"
proof -
  let ?e1 = "next_entry C key now (tl_entries L) t d"
  have L1: "tl_entries L1 = tl_entries L @ [?e1]" "tl_key L1 = Some key" "tl_file L1 = tl_file L"
    "tl_own L1 = tl_own L"
    using assms(2,3,5) by (auto simp: log_append_def Let_def)
  let ?e2 = "next_entry C key now' (tl_entries L1) t' d'"
  have L2: "tl_file L2 = Some (file_append (tl_file L) ?e2 m)" "tl_own L2 = tl_own L"
    using assms(4,6) L1 by (auto simp: log_append_def Let_def)
  have parse: "parse_lines (lf_lines (file_append (tl_file L) ?e2 m)) = Inr (tl_entries L @ [?e2])"
    using assms(1) by (auto simp: log_synced_def file_append_def parse_lines_append split: option.splits)
  from assms(1) obtain n h where v: "verify_from C (tl_own L) (-1, ZERO_HASH) (tl_entries L) = Inr (n, h)"
    by (auto simp: log_synced_def verify_chain_Inr)
  have "le_seq ?e1 = n + 1"
    using verify_from_state[OF v] by (auto simp: next_entry_def Let_def split: if_splits)
  then have "le_seq ?e2 = n + 2" using L1 by (simp add: next_entry_def Let_def)
  with v have "verify_from C (tl_own L) (-1, ZERO_HASH) (tl_entries L @ [?e2])
      = Inl (RuntimeError ''Log seq gap'')"
    by (simp add: verify_from_snoc verify_entry_def)
  with L2 parse show ?thesis
    by (simp add: log_load_def read_verified_entries_def verify_chain_def)
qed

section \<open>Lemmas: the peer view\<close>

lemma materialize_snoc:
  "materialize_peers (es @ [e]) = rbind (materialize_peers es) (\<lambda>ps. mat_step ps e)"
  by (simp add: materialize_peers_def)

lemma mat_step_other:
  "le_type e \<notin> set PEER_STATE_OPS \<Longrightarrow> mat_step ps e = Inr ps"
  by (simp add: mat_step_def Let_def PEER_STATE_OPS_def)

text \<open>
  Event records are not relationship state. Replaying the log and replaying only its
  peer-state operations give the same view (or the same exception), so monitor and shell audit
  entries and the genesis entry never change who is trusted.
\<close>

theorem materialize_ignores_events:
  "materialize_peers es = materialize_peers [e \<leftarrow> es. le_type e \<in> set PEER_STATE_OPS]"
proof (induction es rule: rev_induct)
  case Nil
  then show ?case by simp
next
  case (snoc e es)
  show ?case
  proof (cases "le_type e \<in> set PEER_STATE_OPS")
    case True
    with snoc show ?thesis by (simp add: materialize_snoc)
  next
    case False
    have "rbind (materialize_peers es) (\<lambda>ps. mat_step ps e) = materialize_peers es"
      using mat_step_other[OF False] by (cases "materialize_peers es") simp_all
    with False snoc show ?thesis by (simp add: materialize_snoc)
  qed
qed

section \<open>The journal interface\<close>

text \<open>
  What the clients of the log rely on: an append either leaves the entries alone or puts one
  entry at the end, a successful append returns the entry it put there, and the entry carries
  the operation it was asked to record. A view is any replay of the entries.
\<close>

locale journal =
  fixes ents :: "'s \<Rightarrow> 'e list"
    and app :: "'c \<Rightarrow> 's \<Rightarrow> 's \<times> 'e res"
    and records :: "'e \<Rightarrow> 'c \<Rightarrow> bool"
  assumes app_extends: "app c s = (s', r) \<Longrightarrow> ents s' = ents s \<or> (\<exists>e. ents s' = ents s @ [e] \<and> records e c)"
    and app_ok: "app c s = (s', Inr e) \<Longrightarrow> ents s' = ents s @ [e] \<and> records e c"
begin

lemma view_after:
  assumes "app c s = (s', Inr e)"
  shows "rfold step v (ents s') = rbind (rfold step v (ents s)) (\<lambda>u. step u e)"
  using app_ok[OF assms] by simp

lemma view_unchanged_by:
  assumes "app c s = (s', r)" and "\<And>u e. records e c \<Longrightarrow> step u e = Inr u"
  shows "rfold step v (ents s') = rfold step v (ents s)"
proof -
  from app_extends[OF assms(1)] show ?thesis
  proof
    assume "\<exists>e. ents s' = ents s @ [e] \<and> records e c"
    then obtain e where "ents s' = ents s @ [e]" "step u e = Inr u" for u
      using assms(2) by blast
    then show ?thesis by (cases "rfold step v (ents s)") simp_all
  qed simp
qed

lemma app_prefix:
  assumes "app c s = (s', r)"
  shows "take (length (ents s)) (ents s') = ents s"
  using app_extends[OF assms] by auto

end

definition app_call ::
  "crypto \<Rightarrow> json \<times> nat option \<times> string \<times> dict \<Rightarrow> trust_log \<Rightarrow> trust_log \<times> log_entry res" where
  "app_call C c L = (case c of (now, write, t, d) \<Rightarrow> log_append C now write L t d)"

definition records_call :: "log_entry \<Rightarrow> json \<times> nat option \<times> string \<times> dict \<Rightarrow> bool" where
  "records_call e c \<longleftrightarrow>
     (case c of (now, _, t, d) \<Rightarrow> le_timestamp e = now \<and> le_type e = t \<and> le_data e = d)"

interpretation tlog: journal tl_entries "app_call C" records_call for C
proof
  fix c L L' r
  assume "app_call C c L = (L', r)"
  then show "tl_entries L' = tl_entries L \<or> (\<exists>e. tl_entries L' = tl_entries L @ [e] \<and> records_call e c)"
    by (cases c) (auto simp: app_call_def records_call_def elim!: log_append_cases)
next
  fix c L L' e
  assume "app_call C c L = (L', Inr e)"
  then show "tl_entries L' = tl_entries L @ [e] \<and> records_call e c"
    by (cases c) (auto simp: app_call_def records_call_def split: option.splits elim!: log_append_cases)
qed

text \<open>A sequence of append calls, failed ones included.\<close>

definition run_appends ::
  "crypto \<Rightarrow> trust_log \<Rightarrow> (json \<times> nat option \<times> string \<times> dict) list \<Rightarrow> trust_log" where
  "run_appends C L cs = foldl (\<lambda>L c. fst (app_call C c L)) L cs"

lemma app_call_same:
  "tl_own (fst (app_call C c L)) = tl_own L \<and> tl_key (fst (app_call C c L)) = tl_key L"
  by (cases c) (auto simp: app_call_def log_append_def Let_def split: option.splits)

text \<open>
  Appending keeps the chain valid. If the entries in memory pass \<open>_verify_chain\<close> and the
  signing key fits the node id, then after any sequence of append calls, whether they succeed,
  are refused or fail in their file write, the entries still pass it, and the old entries are an
  unchanged prefix of the new ones.
\<close>

theorem append_keeps_chain:
  assumes "verify_chain C (tl_own L) (tl_entries L) = Inr ()"
    and "\<forall>key p. tl_key L = Some key \<longrightarrow> cr_verify C (tl_own L) p (cr_sign C key p) = Sig_Ok"
  shows "verify_chain C (tl_own L) (tl_entries (run_appends C L cs)) = Inr ()
       \<and> take (length (tl_entries L)) (tl_entries (run_appends C L cs)) = tl_entries L"
  using assms
proof (induction cs arbitrary: L)
  case Nil
  then show ?case by (simp add: run_appends_def)
next
  case (Cons c cs)
  let ?L = "fst (app_call C c L)"
  obtain r where r: "app_call C c L = (?L, r)" by (cases "app_call C c L") simp
  have same: "tl_own ?L = tl_own L" "tl_key ?L = tl_key L" using app_call_same by simp_all
  have "verify_chain C (tl_own ?L) (tl_entries ?L) = Inr ()"
    using Cons.prems r by (cases c) (auto simp: app_call_def intro: log_append_verified)
  with Cons.IH[of ?L] Cons.prems same
  have "verify_chain C (tl_own L) (tl_entries (run_appends C ?L cs)) = Inr ()"
    and p: "take (length (tl_entries ?L)) (tl_entries (run_appends C ?L cs)) = tl_entries ?L"
    by simp_all
  moreover have "take (length (tl_entries L)) (tl_entries (run_appends C ?L cs)) = tl_entries L"
    using tlog.app_prefix[OF r] p by (rule take_prefix_trans)
  moreover have "run_appends C L (c # cs) = run_appends C ?L cs" by (simp add: run_appends_def)
  ultimately show ?case by simp
qed

lemma log_append_view:
  assumes "log_append C now write L t d = (L', Inr e)"
  shows "materialize_peers (tl_entries L') = rbind (materialize_peers (tl_entries L)) (\<lambda>ps. mat_step ps e)"
  unfolding materialize_peers_def
  by (rule tlog.view_after[of C "(now, write, t, d)"]) (simp add: app_call_def assms)

lemma log_append_event_view:
  assumes "log_append C now write L t d = (L', r)" and "t \<notin> set PEER_STATE_OPS"
  shows "materialize_peers (tl_entries L') = materialize_peers (tl_entries L)"
  unfolding materialize_peers_def
proof (rule tlog.view_unchanged_by[of C "(now, write, t, d)"])
  show "app_call C (now, write, t, d) L = (L', r)" by (simp add: app_call_def assms(1))
  fix u e
  assume "records_call e (now, write, t, d)"
  with assms(2) show "mat_step u e = Inr u" by (simp add: records_call_def mat_step_other)
qed

section \<open>Witnesses\<close>

text \<open>A concrete instance of the cryptographic parameter and a log with its genesis entry on
  disk, at which the hypotheses above hold.\<close>

definition demo_crypto :: crypto where
  "demo_crypto = \<lparr>cr_hash = (\<lambda>p s. ''h'' @ s), cr_sign = (\<lambda>k p. k), cr_key_ok = (\<lambda>_. True),
     cr_verify = (\<lambda>_ _ _. Sig_Ok)\<rparr>"

definition demo_genesis :: log_entry where
  "demo_genesis = \<lparr>le_seq = 0, le_type = OP_GENESIS, le_data = [(''node_id'', JStr ''me'')],
     le_timestamp = JTime (Aware 0), le_prev_hash = ZERO_HASH, le_sig = ''k''\<rparr>"

definition demo_log :: trust_log where
  "demo_log = \<lparr>tl_key = Some ''k'', tl_own = ''me'', tl_entries = [demo_genesis], tl_tail = [],
     tl_mtime = 1, tl_file = Some \<lparr>lf_lines = [Line demo_genesis, Blank], lf_mtime = 1\<rparr>\<rparr>"

lemma demo_verified: "verify_from demo_crypto own (-1, ZERO_HASH) [demo_genesis] = Inr (0, ''hk'')"
  by (simp add: verify_from_Cons verify_entry_def Let_def demo_crypto_def demo_genesis_def
      OP_TYPES_def entry_hash_def)

lemma demo_log_synced: "log_synced demo_crypto demo_log"
  using demo_verified[of "''me''"]
  by (simp add: log_synced_def demo_log_def verify_chain_Inr monitor_tail_from_def is_monitor_op_def
      demo_genesis_def)

lemma demo_sig: "cr_verify demo_crypto own p (cr_sign demo_crypto key p) = Sig_Ok"
  by (simp add: demo_crypto_def)

lemma demo_append:
  assumes "t \<in> set OP_TYPES"
  shows "log_append demo_crypto now (Some m) demo_log t d
    = (fst (log_append demo_crypto now (Some m) demo_log t d),
       Inr (next_entry demo_crypto ''k'' now [demo_genesis] t d))"
  using assms by (simp add: log_append_def Let_def demo_log_def)

lemma op_types_mem:
  "OP_MONITOR_DOWN \<in> set OP_TYPES" "OP_ADD_PEER \<in> set OP_TYPES"
  by (simp_all add: OP_TYPES_def)

theorem append_keeps_chain_witness:
  "verify_chain demo_crypto ''me''
     (tl_entries (run_appends demo_crypto demo_log [(JNull, None, OP_ADD_PEER, []), (JNull, Some 2, ''x'', [])]))
   = Inr ()"
  using append_keeps_chain[of demo_crypto demo_log] demo_log_synced demo_sig
  by (simp add: log_synced_def) (simp add: demo_log_def)


theorem ops_since_suffix_witness: "ops_since demo_log (-1) = drop 0 [demo_genesis]"
  using ops_since_suffix[of demo_crypto "''me''" demo_log "-1"] demo_verified[of "''me''"]
  by (simp add: verify_chain_def demo_log_def)


theorem monitor_events_eq_scan_witness: "monitor_events demo_log None = []"
  using monitor_events_eq_scan[OF demo_log_synced]
  by (simp add: demo_log_def demo_genesis_def is_monitor_op_def)

theorem failed_write_breaks_next_load_witness:
  "log_load demo_crypto
     (fst (log_append demo_crypto JNull (Some 2)
        (fst (log_append demo_crypto JNull None demo_log OP_ADD_PEER [])) OP_ADD_PEER []))
   = Inl (RuntimeError ''Log seq gap'')"
proof -
  have "tl_key demo_log = Some ''k''" by (simp add: demo_log_def)
  then show ?thesis
    by (rule failed_write_breaks_next_load[OF demo_log_synced _ op_types_mem(2) op_types_mem(2)
          prod.collapse[symmetric] prod.collapse[symmetric]])
qed

end
