(* ===== verification/Trust.thy ===== *)
theory Trust
  imports Trust_Log
begin

text \<open>
  The trust manager (src/trust.py): the flat peer store projected from the log, its mutations
  (append, rebuild, write the cache), the authorization check, the queries and the maintenance
  windows. \<open>validate_node_id\<close> of src/identity.py is here because the manager resolves
  targets with it.
\<close>

definition VALID_PROTOCOLS :: "string list" where
  "VALID_PROTOCOLS =
     [''monitor'', ''chat'', ''split'', ''call'', ''drop'', ''view_dashboard'', ''shell'']"

text \<open>\<open>^[0-9a-f]{64}$\<close> with \<open>re.match\<close>: the \<open>$\<close> also accepts one trailing newline.\<close>

definition hex_char :: "char \<Rightarrow> bool" where
  "hex_char c \<longleftrightarrow> c \<in> set ''0123456789abcdef''"

definition validate_node_id :: "string \<Rightarrow> bool" where
  "validate_node_id s \<longleftrightarrow>
     (length s = 64 \<and> list_all hex_char s)
     \<or> (length s = 65 \<and> list_all hex_char (butlast s) \<and> last s = CHR 0x0A)"

record trusted_peer =
  tp_node_id :: node_id
  tp_alias :: "string option"
  tp_permissions :: "string list"
  tp_tags :: "string list"
  tp_mstart :: "datetime option"
  tp_mend :: "datetime option"
  tp_added :: datetime
  tp_revoked :: "datetime option"

text \<open>\<open>s <= now <= e\<close> compares with \<open>e\<close> only when \<open>s <= now\<close> holds.\<close>

definition in_maintenance :: "trusted_peer \<Rightarrow> datetime \<Rightarrow> bool res" where
  "in_maintenance p now =
     (case (tp_mstart p, tp_mend p) of
        (Some s, Some e) \<Rightarrow> rbind (dt_le s now) (\<lambda>b. if b then dt_le now e else Inr False)
      | _ \<Rightarrow> Inr False)"

record trust_mgr =
  tm_log :: trust_log
  tm_own :: node_id
  tm_store :: "trusted_peer list"
  tm_by_nid :: "node_id \<rightharpoonup> trusted_peer"
  tm_cache :: "trusted_peer list"

section \<open>Projection\<close>

text \<open>The field validation of the pydantic model.\<close>

fun as_str :: "json \<Rightarrow> string res" where
  "as_str (JStr s) = Inr s"
| "as_str _ = Inl (ValidationError ''Input should be a valid string'')"

fun as_opt_str :: "json \<Rightarrow> string option res" where
  "as_opt_str JNull = Inr None"
| "as_opt_str v = rbind (as_str v) (\<lambda>s. Inr (Some s))"

definition opt_time :: "json \<Rightarrow> datetime option res" where
  "opt_time v = (if truthy v then rbind (fromisoformat v) (\<lambda>d. Inr (Some d)) else Inr None)"

definition project_peer :: "json \<times> mpeer \<Rightarrow> trusted_peer res" where
  "project_peer x =
     (let (nid, d) = x in
      rbind (fromisoformat (mp_added d)) (\<lambda>added.
      rbind (opt_time (mp_revoked d)) (\<lambda>revoked.
      rbind (opt_time (mp_mstart d)) (\<lambda>m_start.
      rbind (opt_time (mp_mend d)) (\<lambda>m_end.
      rbind (as_str nid) (\<lambda>node.
      rbind (as_opt_str (mp_alias d)) (\<lambda>alias.
      rbind (rmap as_str (mp_permissions d)) (\<lambda>perms.
      rbind (rmap as_str (mp_tags d)) (\<lambda>tags.
        Inr \<lparr>tp_node_id = node, tp_alias = alias, tp_permissions = perms, tp_tags = tags,
             tp_mstart = m_start, tp_mend = m_end, tp_added = added, tp_revoked = revoked\<rparr>)))))))))"

definition index_peers :: "trusted_peer list \<Rightarrow> node_id \<rightharpoonup> trusted_peer" where
  "index_peers ps = map_of (rev (map (\<lambda>p. (tp_node_id p, p)) ps))"

text \<open>The view the log stands for.\<close>

definition peer_view :: "log_entry list \<Rightarrow> trusted_peer list res" where
  "peer_view es = rbind (materialize_peers es) (rmap project_peer)"

definition rebuild_from_log :: "trust_mgr \<Rightarrow> trust_mgr res" where
  "rebuild_from_log m =
     rbind (peer_view (tl_entries (tm_log m))) (\<lambda>ps.
       Inr (m\<lparr>tm_store := ps, tm_by_nid := index_peers ps\<rparr>))"

text \<open>Environment of a mutation: the clock, the outcome of the log write and of the cache write.\<close>

record io_env =
  io_now :: json
  io_log_write :: "nat option"
  io_cache_ok :: bool

definition save_cache :: "bool \<Rightarrow> trust_mgr \<Rightarrow> trust_mgr \<times> unit res" where
  "save_cache ok m =
     (if ok then (m\<lparr>tm_cache := tm_store m\<rparr>, Inr ()) else (m, Inl (OSError ''peers.json'')))"

text \<open>\<open>_rebuild_from_log\<close> then \<open>_save_cache\<close>.\<close>

definition refresh :: "bool \<Rightarrow> trust_mgr \<Rightarrow> trust_mgr \<times> unit res" where
  "refresh ok m =
     (case rebuild_from_log m of
        Inl e \<Rightarrow> (m, Inl e)
      | Inr m' \<Rightarrow> save_cache ok m')"

definition trust_load :: "bool \<Rightarrow> trust_mgr \<Rightarrow> trust_mgr \<times> unit res" where
  "trust_load = refresh"

definition new_trust_mgr :: "trust_log \<Rightarrow> node_id \<Rightarrow> trust_mgr" where
  "new_trust_mgr L own =
     \<lparr>tm_log = L, tm_own = own, tm_store = [], tm_by_nid = Map.empty, tm_cache = []\<rparr>"

definition trust_reload_if_changed :: "crypto \<Rightarrow> bool \<Rightarrow> trust_mgr \<Rightarrow> trust_mgr \<times> bool res" where
  "trust_reload_if_changed C ok m =
     (case log_reload_if_changed C (tm_log m) of
        (L, Inl e) \<Rightarrow> (m\<lparr>tm_log := L\<rparr>, Inl e)
      | (L, Inr False) \<Rightarrow> (m\<lparr>tm_log := L\<rparr>, Inr False)
      | (L, Inr True) \<Rightarrow>
          (case refresh ok (m\<lparr>tm_log := L\<rparr>) of
             (m', Inl e) \<Rightarrow> (m', Inl e)
           | (m', Inr _) \<Rightarrow> (m', Inr True)))"

section \<open>Authorization and queries\<close>

definition verify_and_authorize :: "trust_mgr \<Rightarrow> node_id \<Rightarrow> string \<Rightarrow> bool \<times> string" where
  "verify_and_authorize m nid protocol =
     (if nid = tm_own m then (True, ''ok (self)'')
      else case tm_by_nid m nid of
        None \<Rightarrow> (False, ''unknown peer'')
      | Some p \<Rightarrow>
          if tp_revoked p \<noteq> None then (False, ''peer revoked'')
          else if protocol \<notin> set (tp_permissions p) \<and> ''*'' \<notin> set (tp_permissions p)
          then (False, ''not authorized for '' @ protocol)
          else (True, ''ok''))"

definition active_peers :: "trust_mgr \<Rightarrow> trusted_peer list" where
  "active_peers m = [p \<leftarrow> tm_store m. tp_revoked p = None]"

definition peers_with_permission :: "trust_mgr \<Rightarrow> string \<Rightarrow> trusted_peer list" where
  "peers_with_permission m perm =
     [p \<leftarrow> tm_store m. tp_revoked p = None
        \<and> (perm \<in> set (tp_permissions p) \<or> ''*'' \<in> set (tp_permissions p))]"

definition peers_with_tag :: "trust_mgr \<Rightarrow> string \<Rightarrow> trusted_peer list" where
  "peers_with_tag m tag = [p \<leftarrow> tm_store m. tag \<in> set (tp_tags p) \<and> tp_revoked p = None]"

definition get_peer :: "trust_mgr \<Rightarrow> node_id \<Rightarrow> trusted_peer option" where
  "get_peer m nid = tm_by_nid m nid"

datatype resolve_error = NoActivePeer string | AmbiguousAlias string nat

definition resolve_target :: "trust_mgr \<Rightarrow> string \<Rightarrow> resolve_error + node_id" where
  "resolve_target m target =
     (if validate_node_id target then Inr target
      else
        (case [p \<leftarrow> tm_store m. tp_alias p = Some target \<and> tp_revoked p = None] of
           [] \<Rightarrow> Inl (NoActivePeer target)
         | [p] \<Rightarrow> Inr (tp_node_id p)
         | ps \<Rightarrow> Inl (AmbiguousAlias target (length ps))))"

text \<open>A list comprehension that may raise: the maintenance test of each peer in turn.\<close>

definition peers_in_maintenance :: "trust_mgr \<Rightarrow> datetime \<Rightarrow> trusted_peer list res" where
  "peers_in_maintenance m now =
     rbind (rmap (\<lambda>p. rbind (in_maintenance p now) (\<lambda>b. Inr (p, b))) (tm_store m)) (\<lambda>xs.
       Inr (map fst (filter snd xs)))"

section \<open>Mutations\<close>

text \<open>The three statements every mutation ends with: append, rebuild, write the cache.\<close>

definition commit ::
  "crypto \<Rightarrow> io_env \<Rightarrow> trust_mgr \<Rightarrow> string \<Rightarrow> dict \<Rightarrow> trust_mgr \<times> bool res" where
  "commit C io m t d =
     (case log_append C (io_now io) (io_log_write io) (tm_log m) t d of
        (L, Inl e) \<Rightarrow> (m\<lparr>tm_log := L\<rparr>, Inl e)
      | (L, Inr _) \<Rightarrow>
          (case refresh (io_cache_ok io) (m\<lparr>tm_log := L\<rparr>) of
             (m', Inl e) \<Rightarrow> (m', Inl e)
           | (m', Inr _) \<Rightarrow> (m', Inr True)))"

definition invalid_permissions :: "string list \<Rightarrow> bool" where
  "invalid_permissions perms \<longleftrightarrow> (\<exists>p \<in> set perms. p \<notin> set VALID_PROTOCOLS \<and> p \<noteq> ''*'')"

definition opt_json :: "string option \<Rightarrow> json" where
  "opt_json a = (case a of None \<Rightarrow> JNull | Some s \<Rightarrow> JStr s)"

definition str_list :: "string list \<Rightarrow> json" where
  "str_list xs = JArr (map JStr xs)"

definition trust_add_peer ::
  "crypto \<Rightarrow> io_env \<Rightarrow> trust_mgr \<Rightarrow> node_id \<Rightarrow> string option \<Rightarrow> string list \<Rightarrow> string list
   \<Rightarrow> trust_mgr \<times> bool res" where
  "trust_add_peer C io m nid alias permissions tags =
     (let perms = (if permissions = [] then [''monitor''] else permissions) in
      if invalid_permissions perms then (m, Inr False)
      else if (\<exists>p. tm_by_nid m nid = Some p \<and> tp_revoked p = None) then (m, Inr False)
      else commit C io m OP_ADD_PEER
             ([(''node_id'', JStr nid), (''alias'', opt_json alias), (''permissions'', str_list perms)]
              @ (if tags = [] then [] else [(''tags'', str_list tags)])))"

definition trust_revoke_peer :: "crypto \<Rightarrow> io_env \<Rightarrow> trust_mgr \<Rightarrow> node_id \<Rightarrow> trust_mgr \<times> bool res" where
  "trust_revoke_peer C io m nid =
     (case tm_by_nid m nid of
        None \<Rightarrow> (m, Inr False)
      | Some p \<Rightarrow>
          if tp_revoked p \<noteq> None then (m, Inr False)
          else commit C io m OP_REVOKE_PEER [(''node_id'', JStr nid)])"

definition trust_update_permissions ::
  "crypto \<Rightarrow> io_env \<Rightarrow> trust_mgr \<Rightarrow> node_id \<Rightarrow> string list \<Rightarrow> trust_mgr \<times> bool res" where
  "trust_update_permissions C io m nid permissions =
     (if invalid_permissions permissions then (m, Inr False)
      else case tm_by_nid m nid of
        None \<Rightarrow> (m, Inr False)
      | Some p \<Rightarrow>
          if tp_revoked p \<noteq> None then (m, Inr False)
          else commit C io m OP_UPDATE_PERMISSIONS
                 [(''node_id'', JStr nid), (''permissions'', str_list permissions)])"

definition trust_set_alias ::
  "crypto \<Rightarrow> io_env \<Rightarrow> trust_mgr \<Rightarrow> node_id \<Rightarrow> string \<Rightarrow> trust_mgr \<times> bool res" where
  "trust_set_alias C io m nid alias =
     (case tm_by_nid m nid of
        None \<Rightarrow> (m, Inr False)
      | Some _ \<Rightarrow> commit C io m OP_ADD_PEER_ALIAS [(''node_id'', JStr nid), (''alias'', JStr alias)])"

text \<open>\<open>sorted({t.strip() for t in tags if t.strip()})\<close>\<close>

definition normalize_tags :: "string list \<Rightarrow> string list" where
  "normalize_tags tags = sort (remdups [t \<leftarrow> map py_strip tags. t \<noteq> []])"

definition trust_set_tags ::
  "crypto \<Rightarrow> io_env \<Rightarrow> trust_mgr \<Rightarrow> node_id \<Rightarrow> string list \<Rightarrow> trust_mgr \<times> bool res" where
  "trust_set_tags C io m nid tags =
     (case tm_by_nid m nid of
        None \<Rightarrow> (m, Inr False)
      | Some _ \<Rightarrow> commit C io m OP_SET_TAGS
                    [(''node_id'', JStr nid), (''tags'', str_list (normalize_tags tags))])"

definition trust_add_tag ::
  "crypto \<Rightarrow> io_env \<Rightarrow> trust_mgr \<Rightarrow> node_id \<Rightarrow> string \<Rightarrow> trust_mgr \<times> bool res" where
  "trust_add_tag C io m nid tag0 =
     (let tag = py_strip tag0 in
      if tag = [] then (m, Inr False)
      else case tm_by_nid m nid of
        None \<Rightarrow> (m, Inr False)
      | Some p \<Rightarrow>
          if tag \<in> set (tp_tags p) then (m, Inr True)
          else trust_set_tags C io m nid (tp_tags p @ [tag]))"

definition trust_remove_tag ::
  "crypto \<Rightarrow> io_env \<Rightarrow> trust_mgr \<Rightarrow> node_id \<Rightarrow> string \<Rightarrow> trust_mgr \<times> bool res" where
  "trust_remove_tag C io m nid tag0 =
     (let tag = py_strip tag0 in
      case tm_by_nid m nid of
        None \<Rightarrow> (m, Inr False)
      | Some p \<Rightarrow>
          if tag \<notin> set (tp_tags p) then (m, Inr True)
          else trust_set_tags C io m nid [t \<leftarrow> tp_tags p. t \<noteq> tag])"

definition trust_set_maintenance ::
  "crypto \<Rightarrow> io_env \<Rightarrow> trust_mgr \<Rightarrow> node_id \<Rightarrow> datetime \<Rightarrow> datetime \<Rightarrow> trust_mgr \<times> bool res" where
  "trust_set_maintenance C io m nid start end_t =
     (case dt_le end_t start of
        Inl e \<Rightarrow> (m, Inl e)
      | Inr True \<Rightarrow> (m, Inr False)
      | Inr False \<Rightarrow>
          (case tm_by_nid m nid of
             None \<Rightarrow> (m, Inr False)
           | Some _ \<Rightarrow> commit C io m OP_SET_MAINTENANCE
                         [(''node_id'', JStr nid), (''start'', JTime start), (''end'', JTime end_t)]))"

definition trust_clear_maintenance ::
  "crypto \<Rightarrow> io_env \<Rightarrow> trust_mgr \<Rightarrow> node_id \<Rightarrow> trust_mgr \<times> bool res" where
  "trust_clear_maintenance C io m nid =
     (case tm_by_nid m nid of
        None \<Rightarrow> (m, Inr False)
      | Some p \<Rightarrow>
          if tp_mstart p = None \<and> tp_mend p = None then (m, Inr True)
          else commit C io m OP_CLEAR_MAINTENANCE [(''node_id'', JStr nid)])"

section \<open>The abstract store\<close>

text \<open>
  What the mutations promise, on the peer list alone: a peer is found by its id, replaced in
  place or put at the end. A result \<open>None\<close> is the exception of a comparison of naive and
  aware datetimes.
\<close>

datatype trust_op =
    AddPeer node_id "string option" "string list" "string list"
  | RevokePeer node_id
  | UpdatePermissions node_id "string list"
  | SetAlias node_id string
  | SetTags node_id "string list"
  | AddTag node_id string
  | RemoveTag node_id string
  | SetMaintenance node_id datetime datetime
  | ClearMaintenance node_id

fun run_op :: "crypto \<Rightarrow> io_env \<Rightarrow> trust_mgr \<Rightarrow> trust_op \<Rightarrow> trust_mgr \<times> bool res" where
  "run_op C io m (AddPeer n a ps ts) = trust_add_peer C io m n a ps ts"
| "run_op C io m (RevokePeer n) = trust_revoke_peer C io m n"
| "run_op C io m (UpdatePermissions n ps) = trust_update_permissions C io m n ps"
| "run_op C io m (SetAlias n a) = trust_set_alias C io m n a"
| "run_op C io m (SetTags n ts) = trust_set_tags C io m n ts"
| "run_op C io m (AddTag n t) = trust_add_tag C io m n t"
| "run_op C io m (RemoveTag n t) = trust_remove_tag C io m n t"
| "run_op C io m (SetMaintenance n s e) = trust_set_maintenance C io m n s e"
| "run_op C io m (ClearMaintenance n) = trust_clear_maintenance C io m n"

fun upsert :: "trusted_peer \<Rightarrow> trusted_peer list \<Rightarrow> trusted_peer list" where
  "upsert q [] = [q]"
| "upsert q (p # ps) = (if tp_node_id p = tp_node_id q then q # ps else p # upsert q ps)"

definition find_peer :: "trusted_peer list \<Rightarrow> node_id \<Rightarrow> trusted_peer option" where
  "find_peer ps n = find (\<lambda>p. tp_node_id p = n) ps"

definition fresh_peer :: "datetime \<Rightarrow> node_id \<Rightarrow> string option \<Rightarrow> string list \<Rightarrow> string list \<Rightarrow> trusted_peer" where
  "fresh_peer now n a ps ts =
     \<lparr>tp_node_id = n, tp_alias = a, tp_permissions = (if ps = [] then [''monitor''] else ps),
      tp_tags = ts, tp_mstart = None, tp_mend = None, tp_added = now, tp_revoked = None\<rparr>"

definition on_peer ::
  "trusted_peer list \<Rightarrow> node_id \<Rightarrow> (trusted_peer \<Rightarrow> trusted_peer option \<times> bool)
   \<Rightarrow> trusted_peer list \<times> bool" where
  "on_peer ps n f =
     (case find_peer ps n of
        None \<Rightarrow> (ps, False)
      | Some p \<Rightarrow> (case f p of (None, b) \<Rightarrow> (ps, b) | (Some q, b) \<Rightarrow> (upsert q ps, b)))"

fun spec_op :: "datetime \<Rightarrow> trusted_peer list \<Rightarrow> trust_op \<Rightarrow> (trusted_peer list \<times> bool) option" where
  "spec_op now st (AddPeer n a ps ts) = Some
     (if (ps \<noteq> [] \<and> invalid_permissions ps)
         \<or> (\<exists>p. find_peer st n = Some p \<and> tp_revoked p = None)
      then (st, False) else (upsert (fresh_peer now n a ps ts) st, True))"
| "spec_op now st (RevokePeer n) = Some
     (on_peer st n (\<lambda>p. if tp_revoked p \<noteq> None then (None, False)
                        else (Some (p\<lparr>tp_revoked := Some now\<rparr>), True)))"
| "spec_op now st (UpdatePermissions n ps) = Some
     (if invalid_permissions ps then (st, False)
      else on_peer st n (\<lambda>p. if tp_revoked p \<noteq> None then (None, False)
                             else (Some (p\<lparr>tp_permissions := ps\<rparr>), True)))"
| "spec_op now st (SetAlias n a) = Some (on_peer st n (\<lambda>p. (Some (p\<lparr>tp_alias := Some a\<rparr>), True)))"
| "spec_op now st (SetTags n ts) = Some
     (on_peer st n (\<lambda>p. (Some (p\<lparr>tp_tags := normalize_tags ts\<rparr>), True)))"
| "spec_op now st (AddTag n t) = Some
     (if py_strip t = [] then (st, False)
      else on_peer st n (\<lambda>p. if py_strip t \<in> set (tp_tags p) then (None, True)
             else (Some (p\<lparr>tp_tags := normalize_tags (tp_tags p @ [py_strip t])\<rparr>), True)))"
| "spec_op now st (RemoveTag n t) = Some
     (on_peer st n (\<lambda>p. if py_strip t \<notin> set (tp_tags p) then (None, True)
             else (Some (p\<lparr>tp_tags := normalize_tags [u \<leftarrow> tp_tags p. u \<noteq> py_strip t]\<rparr>), True)))"
| "spec_op now st (SetMaintenance n s e) =
     (case dt_le e s of
        Inl _ \<Rightarrow> None
      | Inr True \<Rightarrow> Some (st, False)
      | Inr False \<Rightarrow> Some (on_peer st n (\<lambda>p. (Some (p\<lparr>tp_mstart := Some s, tp_mend := Some e\<rparr>), True))))"
| "spec_op now st (ClearMaintenance n) = Some
     (on_peer st n (\<lambda>p. if tp_mstart p = None \<and> tp_mend p = None then (None, True)
                        else (Some (p\<lparr>tp_mstart := None, tp_mend := None\<rparr>), True)))"

section \<open>Lemmas: the projection\<close>

lemma rmap_as_str [simp]: "rmap as_str (map JStr xs) = Inr xs"
  by (induction xs) simp_all

lemma as_str_Inr [res_simps]: "as_str v = Inr s \<longleftrightarrow> v = JStr s"
  by (cases v) auto

lemma opt_time_JTime [simp]: "opt_time (JTime d) = Inr (Some d)" and opt_time_JNull [simp]: "opt_time JNull = Inr None"
  by (simp_all add: opt_time_def)

lemma as_opt_str_opt_json [simp]: "as_opt_str (opt_json a) = Inr a"
  by (cases a) (simp_all add: opt_json_def)

lemma project_peer_Inr:
  "project_peer (k, d) = Inr p \<longleftrightarrow>
     k = JStr (tp_node_id p) \<and> fromisoformat (mp_added d) = Inr (tp_added p)
     \<and> opt_time (mp_revoked d) = Inr (tp_revoked p)
     \<and> opt_time (mp_mstart d) = Inr (tp_mstart p) \<and> opt_time (mp_mend d) = Inr (tp_mend p)
     \<and> as_opt_str (mp_alias d) = Inr (tp_alias p)
     \<and> rmap as_str (mp_permissions d) = Inr (tp_permissions p)
     \<and> rmap as_str (mp_tags d) = Inr (tp_tags p)"
  by (cases p) (auto simp: project_peer_def rbind_Inr_conv as_str_Inr)

lemma distinct_keys_mat_step:
  assumes "mat_step ps e = Inr ps'" and "distinct (map fst ps)"
  shows "distinct (map fst ps')"
  using assms
  by (auto simp: mat_step_def Let_def mat_update_def rbind_Inr_conv
      intro!: AList.distinct_update split: if_splits option.splits)

lemma distinct_keys_materialize: "materialize_peers es = Inr ps \<Longrightarrow> distinct (map fst ps)"
proof (induction es arbitrary: ps rule: rev_induct)
  case Nil
  then show ?case by (simp add: materialize_peers_def)
next
  case (snoc e es)
  then show ?case by (auto simp: materialize_snoc rbind_Inr_conv intro: distinct_keys_mat_step)
qed

text \<open>
  The dictionary of the replay and the peer list agree position by position, and a revocation
  time is \<open>None\<close> or a nonempty text (an empty one would read as not revoked and yet block a
  second revocation).
\<close>

definition peer_rel :: "json \<times> mpeer \<Rightarrow> trusted_peer \<Rightarrow> bool" where
  "peer_rel x p \<longleftrightarrow> project_peer x = Inr p
     \<and> (mp_revoked (snd x) = JNull \<or> truthy (mp_revoked (snd x)))"

definition viewed :: "mpeers \<Rightarrow> trusted_peer list \<Rightarrow> bool" where
  "viewed ps st \<longleftrightarrow> list_all2 peer_rel ps st"

lemma viewed_peer_view: "materialize_peers es = Inr ps \<Longrightarrow> viewed ps st \<Longrightarrow> peer_view es = Inr st"
  by (auto simp: peer_view_def rmap_Inr_conv viewed_def peer_rel_def elim!: list.rel_mono_strong)

lemma peer_rel_iff:
  "peer_rel (k, d) p \<longleftrightarrow>
     k = JStr (tp_node_id p) \<and> fromisoformat (mp_added d) = Inr (tp_added p)
     \<and> (case tp_revoked p of None \<Rightarrow> mp_revoked d = JNull
        | Some t \<Rightarrow> truthy (mp_revoked d) \<and> fromisoformat (mp_revoked d) = Inr t)
     \<and> opt_time (mp_mstart d) = Inr (tp_mstart p) \<and> opt_time (mp_mend d) = Inr (tp_mend p)
     \<and> as_opt_str (mp_alias d) = Inr (tp_alias p)
     \<and> rmap as_str (mp_permissions d) = Inr (tp_permissions p)
     \<and> rmap as_str (mp_tags d) = Inr (tp_tags p)"
  by (auto simp: peer_rel_def project_peer_Inr opt_time_def[of "mp_revoked d"] rbind_Inr_conv
      split: option.splits if_splits)

lemma viewed_keys: "viewed ps st \<Longrightarrow> map fst ps = map (\<lambda>p. JStr (tp_node_id p)) st"
  unfolding viewed_def
  by (induction rule: list_all2_induct) (auto simp: peer_rel_iff)

lemma viewed_distinct:
  assumes "viewed ps st" and "distinct (map fst ps)"
  shows "distinct (map tp_node_id st)"
proof -
  have "map fst ps = map JStr (map tp_node_id st)" using viewed_keys[OF assms(1)] by simp
  with assms(2) show ?thesis by (auto simp: distinct_map dest: inj_on_imageI2)
qed

lemma viewed_update:
  assumes "viewed ps st" and "peer_rel (k, d) q"
  shows "viewed (AList.update k d ps) (upsert q st)"
  using assms(1) unfolding viewed_def
proof (induction rule: list_all2_induct)
  case Nil
  with assms(2) show ?case by simp
next
  case (Cons x xs p ps)
  from assms(2) have k: "k = JStr (tp_node_id q)" by (simp add: peer_rel_iff)
  obtain k' d' where x: "x = (k', d')" by (cases x)
  with Cons have "k' = JStr (tp_node_id p)" by (simp add: peer_rel_iff)
  with Cons x k assms(2) show ?case by auto
qed

lemma viewed_find:
  assumes "viewed ps st"
  shows "(case find_peer st n of
            None \<Rightarrow> map_of ps (JStr n) = None
          | Some p \<Rightarrow> tp_node_id p = n
              \<and> (\<exists>d. map_of ps (JStr n) = Some d \<and> peer_rel (JStr n, d) p))"
  using assms unfolding viewed_def
proof (induction rule: list_all2_induct)
  case Nil
  then show ?case by (simp add: find_peer_def)
next
  case (Cons x xs p ps)
  obtain k d where x: "x = (k, d)" by (cases x)
  with Cons have k: "k = JStr (tp_node_id p)" by (simp add: peer_rel_iff)
  show ?case
  proof (cases "tp_node_id p = n")
    case True
    with Cons x k show ?thesis by (simp add: find_peer_def)
  next
    case False
    with Cons.IH x k show ?thesis by (auto simp: find_peer_def split: option.splits)
  qed
qed

lemma index_peers_find:
  "distinct (map tp_node_id st) \<Longrightarrow> index_peers st n = find_peer st n"
proof (induction st)
  case Nil
  then show ?case by (simp add: index_peers_def find_peer_def)
next
  case (Cons p st)
  have "n \<notin> tp_node_id ` set st \<Longrightarrow> index_peers st n = None" for n
    by (auto simp: index_peers_def map_of_eq_None_iff)
  moreover have "index_peers (p # st) n
      = (case index_peers st n of None \<Rightarrow> (if tp_node_id p = n then Some p else None) | Some q \<Rightarrow> Some q)"
    by (auto simp: index_peers_def map_add_def split: option.splits)
  ultimately show ?case using Cons by (auto simp: find_peer_def split: option.splits)
qed

lemma find_peer_upsert:
  "find_peer (upsert q st) n = (if n = tp_node_id q then Some q else find_peer st n)"
  by (induction st) (auto simp: find_peer_def)

lemma set_upsert: "set (upsert q st) \<subseteq> insert q (set st)"
  by (induction st) auto

lemma find_peer_mem: "find_peer st n = Some p \<Longrightarrow> p \<in> set st \<and> tp_node_id p = n"
  by (auto simp: find_peer_def find_Some_iff)

section \<open>The manager's invariant\<close>

text \<open>The store is the projection of the log in memory, and the index is the index of the store.\<close>

definition tm_ok :: "trust_mgr \<Rightarrow> bool" where
  "tm_ok m \<longleftrightarrow>
     (case materialize_peers (tl_entries (tm_log m)) of
        Inl _ \<Rightarrow> False
      | Inr ps \<Rightarrow> viewed ps (tm_store m))
     \<and> tm_by_nid m = index_peers (tm_store m)"

lemma tm_ok_distinct: "tm_ok m \<Longrightarrow> distinct (map tp_node_id (tm_store m))"
  using distinct_keys_materialize viewed_distinct by (auto simp: tm_ok_def split: sum.splits)

lemma tm_ok_view: "tm_ok m \<Longrightarrow> peer_view (tl_entries (tm_log m)) = Inr (tm_store m)"
  using viewed_peer_view by (auto simp: tm_ok_def split: sum.splits)

lemma tm_ok_lookup: "tm_ok m \<Longrightarrow> tm_by_nid m n = find_peer (tm_store m) n"
  using index_peers_find[OF tm_ok_distinct] by (simp add: tm_ok_def)

text \<open>The environment in which nothing fails: the clock reads, both files are written.\<close>

definition io_good :: "io_env \<Rightarrow> datetime \<Rightarrow> bool" where
  "io_good io now \<longleftrightarrow> io_now io = JTime now \<and> io_log_write io \<noteq> None \<and> io_cache_ok io"

lemma commit_effect:
  assumes ok: "tm_ok m" and key: "tl_key (tm_log m) \<noteq> None" and io: "io_good io now"
    and t: "t \<in> set OP_TYPES"
    and step: "\<And>ps e. viewed ps (tm_store m) \<Longrightarrow> le_type e = t \<Longrightarrow> le_data e = d
        \<Longrightarrow> le_timestamp e = JTime now \<Longrightarrow> \<exists>ps'. mat_step ps e = Inr ps' \<and> viewed ps' st'"
  shows "\<exists>m'. commit C io m t d = (m', Inr True) \<and> tm_ok m' \<and> tm_store m' = st'
     \<and> tm_own m' = tm_own m \<and> tl_key (tm_log m') = tl_key (tm_log m)"
proof -
  from key obtain k where k: "tl_key (tm_log m) = Some k" by blast
  from io obtain w where w: "io_log_write io = Some w" and n: "io_now io = JTime now" and c: "io_cache_ok io"
    by (auto simp: io_good_def)
  obtain L e where L: "log_append C (JTime now) (Some w) (tm_log m) t d = (L, Inr e)"
    and ek: "tl_key L = tl_key (tm_log m)" and e: "le_type e = t" "le_data e = d" "le_timestamp e = JTime now"
    using k t by (simp add: log_append_def Let_def)
  from ok obtain ps where ps: "materialize_peers (tl_entries (tm_log m)) = Inr ps" "viewed ps (tm_store m)"
    by (auto simp: tm_ok_def split: sum.splits)
  from step[OF ps(2) e] obtain ps' where ps': "mat_step ps e = Inr ps'" "viewed ps' st'" by blast
  have "materialize_peers (tl_entries L) = Inr ps'"
    using log_append_view[OF L] ps(1) ps'(1) by simp
  with ps'(2) have mat: "materialize_peers (tl_entries L) = Inr ps'"
    and view: "peer_view (tl_entries L) = Inr st'" by (auto simp: viewed_peer_view)
  let ?m' = "m\<lparr>tm_log := L, tm_store := st', tm_by_nid := index_peers st', tm_cache := st'\<rparr>"
  have "commit C io m t d = (?m', Inr True)"
    by (simp add: commit_def n w L refresh_def rebuild_from_log_def view c save_cache_def)
  moreover have "tm_ok ?m'" using mat ps'(2) by (simp add: tm_ok_def)
  ultimately show ?thesis using ek by auto
qed

lemma mat_update_viewed:
  assumes v: "viewed ps st" and n: "dindex (le_data e) ''node_id'' = Inr (JStr n)"
    and p: "find_peer st n = Some p"
    and f: "\<And>d. peer_rel (JStr n, d) p \<Longrightarrow> \<exists>d'. f d = Inr d' \<and> peer_rel (JStr n, d') q"
  shows "\<exists>ps'. mat_update ps e f = Inr ps' \<and> viewed ps' (upsert q st)"
proof -
  from viewed_find[OF v, of n] p obtain d where d: "map_of ps (JStr n) = Some d" "peer_rel (JStr n, d) p"
    by auto
  from f[OF d(2)] obtain d' where "f d = Inr d'" "peer_rel (JStr n, d') q" by blast
  with d(1) n viewed_update[OF v] show ?thesis by (auto simp: mat_update_def entry_nid_def)
qed

lemma mat_add_viewed:
  assumes v: "viewed ps st" and t: "le_type e = OP_ADD_PEER" and ts: "le_timestamp e = JTime now"
    and d: "le_data e = [(''node_id'', JStr n), (''alias'', opt_json a), (''permissions'', str_list perms)]
        @ (if tags = [] then [] else [(''tags'', str_list tags)])"
    and perms: "perms = (if ps0 = [] then [''monitor''] else ps0)"
  shows "\<exists>ps'. mat_step ps e = Inr ps' \<and> viewed ps' (upsert (fresh_peer now n a ps0 tags) st)"
proof -
  let ?d = "\<lparr>mp_alias = opt_json a, mp_permissions = map JStr perms, mp_tags = map JStr tags,
      mp_mstart = JNull, mp_mend = JNull, mp_added = JTime now, mp_revoked = JNull\<rparr>"
  have "mat_add e = Inr ?d"
    using d ts by (simp add: mat_add_def Let_def dict_simps str_list_def)
  moreover have "entry_nid e = Inr (JStr n)" using d by (simp add: entry_nid_def dict_simps)
  moreover have "peer_rel (JStr n, ?d) (fresh_peer now n a ps0 tags)"
    by (simp add: peer_rel_iff fresh_peer_def perms)
  ultimately show ?thesis using viewed_update[OF v] t by (auto simp: mat_step_def Let_def)
qed

text \<open>The replay step of each update, on a view that holds the peer.\<close>

lemma replay_revoke:
  assumes "viewed ps st" and "find_peer st n = Some p" and "tp_revoked p = None"
    and e: "le_type e = OP_REVOKE_PEER" "le_data e = [(''node_id'', JStr n)]"
      "le_timestamp e = JTime now"
  shows "\<exists>ps'. mat_step ps e = Inr ps' \<and> viewed ps' (upsert (p\<lparr>tp_revoked := Some now\<rparr>) st)"
proof -
  have n: "dindex (le_data e) ''node_id'' = Inr (JStr n)" by (simp add: e dict_simps)
  show ?thesis
    by (simp add: mat_step_def Let_def e dict_simps str_list_def)
      (rule mat_update_viewed[OF assms(1) n assms(2)], use assms(3) in \<open>auto simp: peer_rel_iff e split: option.splits\<close>)
qed

lemma replay_permissions:
  assumes "viewed ps st" and "find_peer st n = Some p"
    and e: "le_type e = OP_UPDATE_PERMISSIONS" "le_data e = [(''node_id'', JStr n), (''permissions'', str_list xs)]"
      "le_timestamp e = JTime now"
  shows "\<exists>ps'. mat_step ps e = Inr ps' \<and> viewed ps' (upsert (p\<lparr>tp_permissions := xs\<rparr>) st)"
proof -
  have n: "dindex (le_data e) ''node_id'' = Inr (JStr n)" by (simp add: e dict_simps)
  show ?thesis
    by (simp add: mat_step_def Let_def e dict_simps str_list_def)
      (rule mat_update_viewed[OF assms(1) n assms(2)], use assms(3) in \<open>auto simp: peer_rel_iff e split: option.splits\<close>)
qed

lemma replay_alias:
  assumes "viewed ps st" and "find_peer st n = Some p"
    and e: "le_type e = OP_ADD_PEER_ALIAS" "le_data e = [(''node_id'', JStr n), (''alias'', JStr a)]"
      "le_timestamp e = JTime now"
  shows "\<exists>ps'. mat_step ps e = Inr ps' \<and> viewed ps' (upsert (p\<lparr>tp_alias := Some a\<rparr>) st)"
proof -
  have n: "dindex (le_data e) ''node_id'' = Inr (JStr n)" by (simp add: e dict_simps)
  show ?thesis
    by (simp add: mat_step_def Let_def e dict_simps str_list_def)
      (rule mat_update_viewed[OF assms(1) n assms(2)], use assms(3) in \<open>auto simp: peer_rel_iff e split: option.splits\<close>)
qed

lemma replay_tags:
  assumes "viewed ps st" and "find_peer st n = Some p"
    and e: "le_type e = OP_SET_TAGS" "le_data e = [(''node_id'', JStr n), (''tags'', str_list xs)]"
      "le_timestamp e = JTime now"
  shows "\<exists>ps'. mat_step ps e = Inr ps' \<and> viewed ps' (upsert (p\<lparr>tp_tags := xs\<rparr>) st)"
proof -
  have n: "dindex (le_data e) ''node_id'' = Inr (JStr n)" by (simp add: e dict_simps)
  show ?thesis
    by (simp add: mat_step_def Let_def e dict_simps str_list_def)
      (rule mat_update_viewed[OF assms(1) n assms(2)], use assms(3) in \<open>auto simp: peer_rel_iff e split: option.splits\<close>)
qed

lemma replay_maintenance:
  assumes "viewed ps st" and "find_peer st n = Some p"
    and e: "le_type e = OP_SET_MAINTENANCE" "le_data e = [(''node_id'', JStr n), (''start'', JTime s), (''end'', JTime e_t)]"
      "le_timestamp e = JTime now"
  shows "\<exists>ps'. mat_step ps e = Inr ps' \<and> viewed ps' (upsert (p\<lparr>tp_mstart := Some s, tp_mend := Some e_t\<rparr>) st)"
proof -
  have n: "dindex (le_data e) ''node_id'' = Inr (JStr n)" by (simp add: e dict_simps)
  show ?thesis
    by (simp add: mat_step_def Let_def e dict_simps str_list_def)
      (rule mat_update_viewed[OF assms(1) n assms(2)], use assms(3) in \<open>auto simp: peer_rel_iff e split: option.splits\<close>)
qed

lemma replay_clear:
  assumes "viewed ps st" and "find_peer st n = Some p"
    and e: "le_type e = OP_CLEAR_MAINTENANCE" "le_data e = [(''node_id'', JStr n)]"
      "le_timestamp e = JTime now"
  shows "\<exists>ps'. mat_step ps e = Inr ps' \<and> viewed ps' (upsert (p\<lparr>tp_mstart := None, tp_mend := None\<rparr>) st)"
proof -
  have n: "dindex (le_data e) ''node_id'' = Inr (JStr n)" by (simp add: e dict_simps)
  show ?thesis
    by (simp add: mat_step_def Let_def e dict_simps str_list_def)
      (rule mat_update_viewed[OF assms(1) n assms(2)], use assms(3) in \<open>auto simp: peer_rel_iff e split: option.splits\<close>)
qed

text \<open>The updates of a known peer that the mutations commit.\<close>

lemma commit_update:
  assumes "tm_ok m" and "tl_key (tm_log m) \<noteq> None" and "io_good io now"
    and "find_peer (tm_store m) n = Some p"
  shows "tp_revoked p = None \<Longrightarrow> \<exists>m'. commit C io m OP_REVOKE_PEER [(''node_id'', JStr n)] = (m', Inr True) \<and> tm_ok m'
       \<and> tm_store m' = upsert (p\<lparr>tp_revoked := Some now\<rparr>) (tm_store m)
       \<and> tm_own m' = tm_own m \<and> tl_key (tm_log m') = tl_key (tm_log m)"
    and "\<exists>m'. commit C io m OP_UPDATE_PERMISSIONS [(''node_id'', JStr n), (''permissions'', str_list xs)] = (m', Inr True) \<and> tm_ok m'
       \<and> tm_store m' = upsert (p\<lparr>tp_permissions := xs\<rparr>) (tm_store m)
       \<and> tm_own m' = tm_own m \<and> tl_key (tm_log m') = tl_key (tm_log m)"
    and "\<exists>m'. commit C io m OP_ADD_PEER_ALIAS [(''node_id'', JStr n), (''alias'', JStr a)] = (m', Inr True) \<and> tm_ok m'
       \<and> tm_store m' = upsert (p\<lparr>tp_alias := Some a\<rparr>) (tm_store m)
       \<and> tm_own m' = tm_own m \<and> tl_key (tm_log m') = tl_key (tm_log m)"
    and "\<exists>m'. commit C io m OP_SET_TAGS [(''node_id'', JStr n), (''tags'', str_list xs)] = (m', Inr True) \<and> tm_ok m'
       \<and> tm_store m' = upsert (p\<lparr>tp_tags := xs\<rparr>) (tm_store m)
       \<and> tm_own m' = tm_own m \<and> tl_key (tm_log m') = tl_key (tm_log m)"
    and "\<exists>m'. commit C io m OP_SET_MAINTENANCE [(''node_id'', JStr n), (''start'', JTime s), (''end'', JTime e_t)] = (m', Inr True) \<and> tm_ok m'
       \<and> tm_store m' = upsert (p\<lparr>tp_mstart := Some s, tp_mend := Some e_t\<rparr>) (tm_store m)
       \<and> tm_own m' = tm_own m \<and> tl_key (tm_log m') = tl_key (tm_log m)"
    and "\<exists>m'. commit C io m OP_CLEAR_MAINTENANCE [(''node_id'', JStr n)] = (m', Inr True) \<and> tm_ok m'
       \<and> tm_store m' = upsert (p\<lparr>tp_mstart := None, tp_mend := None\<rparr>) (tm_store m)
       \<and> tm_own m' = tm_own m \<and> tl_key (tm_log m') = tl_key (tm_log m)"
proof -
  note ce = commit_effect[OF assms(1-3)] and found = assms(4)
  show "\<exists>m'. commit C io m OP_REVOKE_PEER [(''node_id'', JStr n)] = (m', Inr True) \<and> tm_ok m'
       \<and> tm_store m' = upsert (p\<lparr>tp_revoked := Some now\<rparr>) (tm_store m)
       \<and> tm_own m' = tm_own m \<and> tl_key (tm_log m') = tl_key (tm_log m)" if "tp_revoked p = None"
    by (rule ce) (auto simp: OP_TYPES_def intro!: replay_revoke[OF _ found that])
  show "\<exists>m'. commit C io m OP_UPDATE_PERMISSIONS [(''node_id'', JStr n), (''permissions'', str_list xs)] = (m', Inr True) \<and> tm_ok m'
       \<and> tm_store m' = upsert (p\<lparr>tp_permissions := xs\<rparr>) (tm_store m)
       \<and> tm_own m' = tm_own m \<and> tl_key (tm_log m') = tl_key (tm_log m)"
    by (rule ce) (auto simp: OP_TYPES_def intro!: replay_permissions[OF _ found])
  show "\<exists>m'. commit C io m OP_ADD_PEER_ALIAS [(''node_id'', JStr n), (''alias'', JStr a)] = (m', Inr True) \<and> tm_ok m'
       \<and> tm_store m' = upsert (p\<lparr>tp_alias := Some a\<rparr>) (tm_store m)
       \<and> tm_own m' = tm_own m \<and> tl_key (tm_log m') = tl_key (tm_log m)"
    by (rule ce) (auto simp: OP_TYPES_def intro!: replay_alias[OF _ found])
  show "\<exists>m'. commit C io m OP_SET_TAGS [(''node_id'', JStr n), (''tags'', str_list xs)] = (m', Inr True) \<and> tm_ok m'
       \<and> tm_store m' = upsert (p\<lparr>tp_tags := xs\<rparr>) (tm_store m)
       \<and> tm_own m' = tm_own m \<and> tl_key (tm_log m') = tl_key (tm_log m)"
    by (rule ce) (auto simp: OP_TYPES_def intro!: replay_tags[OF _ found])
  show "\<exists>m'. commit C io m OP_SET_MAINTENANCE [(''node_id'', JStr n), (''start'', JTime s), (''end'', JTime e_t)] = (m', Inr True) \<and> tm_ok m'
       \<and> tm_store m' = upsert (p\<lparr>tp_mstart := Some s, tp_mend := Some e_t\<rparr>) (tm_store m)
       \<and> tm_own m' = tm_own m \<and> tl_key (tm_log m') = tl_key (tm_log m)"
    by (rule ce) (auto simp: OP_TYPES_def intro!: replay_maintenance[OF _ found])
  show "\<exists>m'. commit C io m OP_CLEAR_MAINTENANCE [(''node_id'', JStr n)] = (m', Inr True) \<and> tm_ok m'
       \<and> tm_store m' = upsert (p\<lparr>tp_mstart := None, tp_mend := None\<rparr>) (tm_store m)
       \<and> tm_own m' = tm_own m \<and> tl_key (tm_log m') = tl_key (tm_log m)"
    by (rule ce) (auto simp: OP_TYPES_def intro!: replay_clear[OF _ found])
qed

text \<open>One mutation against the abstract store.\<close>

lemma run_op_refines:
  assumes "tm_ok m" and "tl_key (tm_log m) \<noteq> None" and "io_good io now"
  shows "case spec_op now (tm_store m) op of
      Some (st', b) \<Rightarrow> (\<exists>m'. run_op C io m op = (m', Inr b) \<and> tm_ok m' \<and> tm_store m' = st'
          \<and> tm_own m' = tm_own m \<and> tl_key (tm_log m') = tl_key (tm_log m))
    | None \<Rightarrow> (\<exists>e. run_op C io m op = (m, Inl e))"
proof -
  note look = tm_ok_lookup[OF assms(1)]
  note upd = commit_update[OF assms]
  note add = commit_effect[OF assms]
  note defs = on_peer_def look trust_revoke_peer_def trust_update_permissions_def
    trust_set_alias_def trust_set_tags_def trust_clear_maintenance_def assms(1)
  show ?thesis
  proof (cases op)
    case (AddPeer n a ps ts)
    let ?perms = "if ps = [] then [''monitor''] else ps"
    have inv: "invalid_permissions ?perms \<longleftrightarrow> ps \<noteq> [] \<and> invalid_permissions ps"
      by (simp add: invalid_permissions_def VALID_PROTOCOLS_def)
    show ?thesis
    proof (cases "(ps \<noteq> [] \<and> invalid_permissions ps)
        \<or> (\<exists>p. find_peer (tm_store m) n = Some p \<and> tp_revoked p = None)")
      case True
      with AddPeer inv assms(1) show ?thesis by (auto simp: trust_add_peer_def Let_def look)
    next
      case False
      let ?d = "[(''node_id'', JStr n), (''alias'', opt_json a), (''permissions'', str_list ?perms)]
              @ (if ts = [] then [] else [(''tags'', str_list ts)])"
      have "\<exists>m'. commit C io m OP_ADD_PEER ?d = (m', Inr True) \<and> tm_ok m'
          \<and> tm_store m' = upsert (fresh_peer now n a ps ts) (tm_store m)
          \<and> tm_own m' = tm_own m \<and> tl_key (tm_log m') = tl_key (tm_log m)"
      proof (rule add)
        show "OP_ADD_PEER \<in> set OP_TYPES" by (rule op_types_mem)
        fix rs :: mpeers and e :: log_entry
        assume "viewed rs (tm_store m)" "le_type e = OP_ADD_PEER" "le_data e = ?d" "le_timestamp e = JTime now"
        then show "\<exists>ps'. mat_step rs e = Inr ps' \<and> viewed ps' (upsert (fresh_peer now n a ps ts) (tm_store m))"
          using mat_add_viewed[OF _ _ _ _ refl] by blast
      qed
      moreover from False inv have "run_op C io m op = commit C io m OP_ADD_PEER ?d"
        by (auto simp: AddPeer trust_add_peer_def Let_def look)
      moreover have "spec_op now (tm_store m) op = Some (upsert (fresh_peer now n a ps ts) (tm_store m), True)"
        using False AddPeer by auto
      ultimately show ?thesis by simp
    qed
  next
    case (RevokePeer n)
    then show ?thesis by (auto simp: defs intro!: upd split: option.splits)
  next
    case (UpdatePermissions n ps)
    then show ?thesis by (auto simp: defs intro!: upd split: option.splits)
  next
    case (SetAlias n a)
    then show ?thesis by (auto simp: defs intro!: upd split: option.splits)
  next
    case (SetTags n ts)
    then show ?thesis by (auto simp: defs intro!: upd split: option.splits)
  next
    case (AddTag n t)
    then show ?thesis by (auto simp: defs trust_add_tag_def Let_def intro!: upd split: option.splits)
  next
    case (RemoveTag n t)
    then show ?thesis by (auto simp: defs trust_remove_tag_def Let_def intro!: upd split: option.splits)
  next
    case (SetMaintenance n s e)
    then show ?thesis
      by (auto simp: defs trust_set_maintenance_def intro!: upd split: option.splits sum.splits bool.splits)
  next
    case (ClearMaintenance n)
    then show ?thesis by (auto simp: defs intro!: upd split: option.splits)
  qed
qed

section \<open>Runs of mutations\<close>

text \<open>A run takes each mutation with its environment; a mutation that raises leaves its result
  as \<open>None\<close> and the run goes on.\<close>

fun run_ops :: "crypto \<Rightarrow> trust_mgr \<Rightarrow> (io_env \<times> trust_op) list \<Rightarrow> trust_mgr \<times> bool option list" where
  "run_ops C m [] = (m, [])"
| "run_ops C m ((io, op) # xs) =
     (case run_op C io m op of
        (m', r) \<Rightarrow> (case run_ops C m' xs of
           (m'', rs) \<Rightarrow> (m'', (case r of Inl _ \<Rightarrow> None | Inr b \<Rightarrow> Some b) # rs)))"

fun spec_ops :: "trusted_peer list \<Rightarrow> (datetime \<times> trust_op) list \<Rightarrow> trusted_peer list \<times> bool option list" where
  "spec_ops st [] = (st, [])"
| "spec_ops st ((now, op) # xs) =
     (case spec_op now st op of
        None \<Rightarrow> (case spec_ops st xs of (st', rs) \<Rightarrow> (st', None # rs))
      | Some (st1, b) \<Rightarrow> (case spec_ops st1 xs of (st', rs) \<Rightarrow> (st', Some b # rs)))"

definition ops_good :: "(io_env \<times> trust_op) list \<Rightarrow> (datetime \<times> trust_op) list \<Rightarrow> bool" where
  "ops_good xs ys \<longleftrightarrow> list_all2 (\<lambda>(io, op) (now, op'). io_good io now \<and> op = op') xs ys"

lemma run_ops_refine:
  assumes "tm_ok m" and "tl_key (tm_log m) \<noteq> None" and "ops_good xs ys"
  shows "\<exists>m'. run_ops C m xs = (m', snd (spec_ops (tm_store m) ys)) \<and> tm_ok m'
     \<and> tm_store m' = fst (spec_ops (tm_store m) ys) \<and> tm_own m' = tm_own m
     \<and> tl_key (tm_log m') = tl_key (tm_log m)"
  using assms(3,1,2) unfolding ops_good_def
proof (induction arbitrary: m rule: list_all2_induct)
  case Nil
  then show ?case by simp
next
  case (Cons x xs y ys)
  obtain io now op where xy: "x = (io, op)" "y = (now, op)" "io_good io now"
    using Cons.hyps by (cases x; cases y) auto
  note one = run_op_refines[OF Cons.prems xy(3), of C op]
  show ?case
  proof (cases "spec_op now (tm_store m) op")
    case None
    with one obtain e where "run_op C io m op = (m, Inl e)" by auto
    with Cons.IH[OF Cons.prems] None xy show ?thesis by (fastforce split: prod.splits)
  next
    case (Some sb)
    then obtain st b where sb: "spec_op now (tm_store m) op = Some (st, b)" by (cases sb) auto
    with one obtain m1 where m1: "run_op C io m op = (m1, Inr b)" "tm_ok m1" "tm_store m1 = st"
      "tm_own m1 = tm_own m" "tl_key (tm_log m1) = tl_key (tm_log m)" by auto
    from m1 Cons.prems have "tl_key (tm_log m1) \<noteq> None" by simp
    from Cons.IH[OF m1(2) this] m1 sb xy show ?thesis by (fastforce split: prod.splits)
  qed
qed

text \<open>
  C3: The trust store implements its abstract specification. Start from a store that is the
  projection of its log, with a signing key and writable files. Then every sequence of mutations
  returns exactly the results of the abstract store (including the calls that raise), its peer
  list is the abstract one, and it is again the projection of the log, so that a restart that
  replays the log finds the same peers.
\<close>

theorem trust_ops_refine:
  assumes "tm_ok m" and "tl_key (tm_log m) \<noteq> None" and "ops_good xs ys"
  shows "run_ops C m xs = (fst (run_ops C m xs), snd (spec_ops (tm_store m) ys))
       \<and> tm_store (fst (run_ops C m xs)) = fst (spec_ops (tm_store m) ys)
       \<and> peer_view (tl_entries (tm_log (fst (run_ops C m xs)))) = Inr (tm_store (fst (run_ops C m xs)))"
  using run_ops_refine[OF assms, of C] tm_ok_view by fastforce

section \<open>Who is authorized\<close>

lemma find_peer_distinct:
  "distinct (map tp_node_id st) \<Longrightarrow> find_peer st n = Some p \<longleftrightarrow> p \<in> set st \<and> tp_node_id p = n"
  by (induction st) (auto simp: find_peer_def)

text \<open>
  The authorization check and the permission query agree. For a node other than the device
  itself, \<open>verify_and_authorize\<close> says yes for a protocol exactly when the node is among
  \<open>peers_with_permission\<close> of that protocol: known, not revoked and granted it (or the
  wildcard).
\<close>

theorem authorize_iff_listed:
  assumes "tm_ok m" and "nid \<noteq> tm_own m"
  shows "fst (verify_and_authorize m nid proto) \<longleftrightarrow> nid \<in> tp_node_id ` set (peers_with_permission m proto)"
proof -
  have mem: "tm_by_nid m nid = Some p \<longleftrightarrow> p \<in> set (tm_store m) \<and> tp_node_id p = nid" for p
    using tm_ok_lookup[OF assms(1)] find_peer_distinct[OF tm_ok_distinct[OF assms(1)]] by simp
  have "fst (verify_and_authorize m nid proto) \<longleftrightarrow>
      (\<exists>p. tm_by_nid m nid = Some p \<and> tp_revoked p = None
         \<and> (proto \<in> set (tp_permissions p) \<or> ''*'' \<in> set (tp_permissions p)))"
    using assms(2) by (auto simp: verify_and_authorize_def split: option.splits)
  then show ?thesis by (auto simp: mem peers_with_permission_def)
qed

lemma upsert_find_other: "n \<noteq> tp_node_id q \<Longrightarrow> find_peer (upsert q st) n = find_peer st n"
  by (simp add: find_peer_upsert)

text \<open>What one abstract operation can do to a peer: nothing but re-adding clears a revocation.\<close>

definition adds_peer :: "node_id \<Rightarrow> trust_op \<Rightarrow> bool" where
  "adds_peer n op \<longleftrightarrow> (case op of AddPeer k _ _ _ \<Rightarrow> k = n | _ \<Rightarrow> False)"

definition revoked_in :: "trusted_peer list \<Rightarrow> node_id \<Rightarrow> bool" where
  "revoked_in st n \<longleftrightarrow> (\<exists>p. find_peer st n = Some p \<and> tp_revoked p \<noteq> None)"

lemma on_peer_cases:
  assumes "on_peer st k f = (st', b)"
  obtains (same) "st' = st"
  | (upd) p q where "find_peer st k = Some p" "f p = (Some q, b)" "st' = upsert q st"
  using assms by (auto simp: on_peer_def split: option.splits prod.splits)

lemma on_peer_revoked:
  assumes "on_peer st k f = (st', b)" and "revoked_in st n"
    and "\<And>p q b. find_peer st k = Some p \<Longrightarrow> f p = (Some q, b) \<Longrightarrow> tp_node_id q = tp_node_id p
        \<and> (tp_revoked p \<noteq> None \<longrightarrow> tp_revoked q \<noteq> None)"
  shows "revoked_in st' n"
  using assms(1)
proof (cases rule: on_peer_cases)
  case (upd p q)
  from assms(3)[OF upd(1,2)] find_peer_mem[OF upd(1)] assms(2) upd show ?thesis
    by (auto simp: revoked_in_def find_peer_upsert)
qed (use assms(2) in simp)

lemma spec_op_revoked:
  assumes "spec_op now st op = Some (st', b)" and "revoked_in st n" and "\<not> adds_peer n op"
  shows "revoked_in st' n"
  using assms
proof (cases op)
  case (AddPeer k a ps ts)
  with assms show ?thesis
    by (auto simp: adds_peer_def revoked_in_def find_peer_upsert fresh_peer_def split: if_splits)
qed (auto split: if_splits sum.splits bool.splits elim!: on_peer_revoked)

lemma spec_ops_revoked:
  assumes "revoked_in st n" and "\<forall>(now, op) \<in> set ys. \<not> adds_peer n op"
  shows "revoked_in (fst (spec_ops st ys)) n"
  using assms
proof (induction ys arbitrary: st)
  case Nil
  then show ?case by simp
next
  case (Cons y ys)
  obtain now op where y: "y = (now, op)" by (cases y)
  show ?case
  proof (cases "spec_op now st op")
    case None
    with Cons.IH[of st] Cons.prems y show ?thesis by (fastforce split: prod.splits)
  next
    case (Some sb)
    then obtain st1 b where sb: "spec_op now st op = Some (st1, b)" by (cases sb) auto
    have "revoked_in st1 n" using spec_op_revoked[OF sb Cons.prems(1)] Cons.prems(2) y by simp
    with Cons.IH[of st1] Cons.prems(2) sb y show ?thesis by (auto split: prod.splits)
  qed
qed

text \<open>
  C14: Revocation holds until the peer is added again. After a successful \<open>revoke_peer\<close>, every
  later sequence of mutations that does not add that same node back (permission, alias, tag and
  maintenance changes included) leaves it refused for every protocol.
\<close>

theorem revocation_is_permanent:
  assumes "tm_ok m" and "tl_key (tm_log m) \<noteq> None" and "nid \<noteq> tm_own m" and "io_good io now"
    and "trust_revoke_peer C io m nid = (m1, Inr True)"
    and "ops_good xs ys" and "\<forall>(now, op) \<in> set ys. \<not> adds_peer nid op"
  shows "\<not> fst (verify_and_authorize (fst (run_ops C m1 xs)) nid proto)"
proof -
  from run_op_refines[OF assms(1,2,4), of C "RevokePeer nid"] assms(5)
  have m1: "tm_ok m1" "tl_key (tm_log m1) \<noteq> None" "tm_own m1 = tm_own m"
    and st: "(tm_store m1, True) = on_peer (tm_store m) nid
        (\<lambda>p. if tp_revoked p \<noteq> None then (None, False) else (Some (p\<lparr>tp_revoked := Some now\<rparr>), True))"
    using assms(2) by (auto split: prod.splits)
  have "revoked_in (tm_store m1) nid"
    using st find_peer_mem[of "tm_store m" nid]
    by (auto simp: on_peer_def revoked_in_def find_peer_upsert split: option.splits if_splits)
  then have "revoked_in (fst (spec_ops (tm_store m1) ys)) nid"
    by (rule spec_ops_revoked[OF _ assms(7)])
  moreover from run_ops_refine[OF m1(1,2) assms(6), of C] obtain m2
    where "fst (run_ops C m1 xs) = m2" "tm_ok m2" "tm_store m2 = fst (spec_ops (tm_store m1) ys)"
      "tm_own m2 = tm_own m1" by auto
  ultimately show ?thesis
    using tm_ok_lookup[of m2 nid] m1(3) assms(3)
    by (auto simp: verify_and_authorize_def revoked_in_def)
qed

text \<open>Every stored permission is a protocol the program knows, or the wildcard.\<close>

definition perms_valid :: "trusted_peer list \<Rightarrow> bool" where
  "perms_valid st \<longleftrightarrow> (\<forall>p \<in> set st. \<not> invalid_permissions (tp_permissions p))"

lemma perms_validD: "perms_valid st \<Longrightarrow> p \<in> set st \<Longrightarrow> \<not> invalid_permissions (tp_permissions p)"
  by (simp add: perms_valid_def)

lemma on_peer_perms:
  assumes "on_peer st k f = (st', b)" and "perms_valid st"
    and "\<And>p q b. p \<in> set st \<Longrightarrow> f p = (Some q, b) \<Longrightarrow> \<not> invalid_permissions (tp_permissions q)"
  shows "perms_valid st'"
  using assms(1)
proof (cases rule: on_peer_cases)
  case (upd p q)
  from find_peer_mem[OF upd(1)] assms(3)[OF _ upd(2)] have "\<not> invalid_permissions (tp_permissions q)" by blast
  with assms(2) upd(3) set_upsert[of q st] show ?thesis by (auto simp: perms_valid_def)
qed (use assms(2) in simp)

lemma spec_op_perms:
  assumes "spec_op now st op = Some (st', b)" and "perms_valid st"
  shows "perms_valid st'"
  using assms
proof (cases op)
  case (AddPeer k a ps ts)
  have "\<not> invalid_permissions [''monitor'']" by (simp add: invalid_permissions_def VALID_PROTOCOLS_def)
  with AddPeer assms set_upsert show ?thesis
    by (fastforce simp: perms_valid_def fresh_peer_def split: if_splits)
qed (auto split: if_splits sum.splits bool.splits elim!: on_peer_perms dest: perms_validD)

lemma spec_ops_perms: "perms_valid st \<Longrightarrow> perms_valid (fst (spec_ops st ys))"
proof (induction ys arbitrary: st)
  case Nil
  then show ?case by simp
next
  case (Cons y ys)
  obtain now op where y: "y = (now, op)" by (cases y)
  show ?case
  proof (cases "spec_op now st op")
    case None
    with Cons.IH[of st] Cons.prems y show ?thesis by (fastforce split: prod.splits)
  next
    case (Some sb)
    then obtain st1 b where sb: "spec_op now st op = Some (st1, b)" by (cases sb) auto
    have "perms_valid st1" using spec_op_perms[OF sb Cons.prems] .
    with Cons.IH[of st1] sb y show ?thesis by (auto split: prod.splits)
  qed
qed

text \<open>
  Only known permissions are ever stored. From a store whose permissions are protocols the
  program knows (or the wildcard), every sequence of mutations leaves such a store, so an unknown
  permission name in a request never reaches the authorization check.
\<close>

theorem stored_permissions_valid:
  assumes "tm_ok m" and "tl_key (tm_log m) \<noteq> None" and "ops_good xs ys" and "perms_valid (tm_store m)"
  shows "perms_valid (tm_store (fst (run_ops C m xs)))"
  using run_ops_refine[OF assms(1-3), of C] spec_ops_perms[OF assms(4)] by auto

text \<open>
  A grant is what was asked for. After a successful \<open>add_peer\<close> the new peer is authorized
  for exactly the protocols in its permission list (all of them with the wildcard; \<open>monitor\<close>
  alone when the list was empty).
\<close>

theorem add_peer_grants_exactly:
  assumes "tm_ok m" and "tl_key (tm_log m) \<noteq> None" and "io_good io now" and "nid \<noteq> tm_own m"
    and "trust_add_peer C io m nid alias perms tags = (m1, Inr True)"
  shows "fst (verify_and_authorize m1 nid proto) \<longleftrightarrow>
      proto \<in> set (if perms = [] then [''monitor''] else perms) \<or> ''*'' \<in> set perms"
proof -
  from run_op_refines[OF assms(1-3), of C "AddPeer nid alias perms tags"] assms(5)
  have "tm_ok m1" "tm_own m1 = tm_own m"
    and "tm_store m1 = upsert (fresh_peer now nid alias perms tags) (tm_store m)"
    by (auto split: if_splits)
  then show ?thesis
    using tm_ok_lookup[of m1 nid] assms(4)
    by (auto simp: verify_and_authorize_def find_peer_upsert fresh_peer_def)
qed

section \<open>Tags\<close>

lemma normalize_tags_mem:
  "py_strip t \<noteq> [] \<Longrightarrow> py_strip t \<in> set (normalize_tags (xs @ [py_strip t]))"
  by (simp add: normalize_tags_def)

lemma normalize_tags_normal:
  "distinct (normalize_tags ts)" "sorted (normalize_tags ts)"
  "\<forall>t \<in> set (normalize_tags ts). t \<noteq> [] \<and> py_strip t = t"
  by (auto simp: normalize_tags_def)

text \<open>
  Adding a tag is idempotent. Once \<open>add_tag\<close> has returned \<open>True\<close>, repeating the call
  returns \<open>True\<close> again and changes nothing, so concurrent requests for the same tag append one
  log entry; and the tags it leaves after a change are sorted, distinct, stripped and not empty.
\<close>

theorem add_tag_idempotent:
  assumes "tm_ok m" and "tl_key (tm_log m) \<noteq> None" and "io_good io now"
    and "trust_add_tag C io m nid tag = (m1, Inr True)"
  shows "trust_add_tag C io' m1 nid tag = (m1, Inr True)
       \<and> (m1 \<noteq> m \<longrightarrow> (\<exists>p. get_peer m1 nid = Some p \<and> py_strip tag \<in> set (tp_tags p)
            \<and> sorted (tp_tags p) \<and> distinct (tp_tags p) \<and> list_all (\<lambda>t. t \<noteq> [] \<and> py_strip t = t) (tp_tags p)))"
proof -
  from assms(4) have ne: "py_strip tag \<noteq> []" by (auto simp: trust_add_tag_def Let_def)
  from assms(4) ne obtain p where p: "tm_by_nid m nid = Some p"
    by (auto simp: trust_add_tag_def Let_def split: option.splits)
  show ?thesis
  proof (cases "py_strip tag \<in> set (tp_tags p)")
    case True
    with assms(4) p ne have "m1 = m" by (auto simp: trust_add_tag_def Let_def)
    with assms(4) True p ne show ?thesis by (simp add: trust_add_tag_def Let_def)
  next
    case False
    let ?q = "p\<lparr>tp_tags := normalize_tags (tp_tags p @ [py_strip tag])\<rparr>"
    from p assms(1) have f: "find_peer (tm_store m) nid = Some p" by (simp add: tm_ok_lookup)
    from run_op_refines[OF assms(1-3), of C "AddTag nid tag"] assms(4) f False ne
    have "tm_ok m1" "tm_store m1 = upsert ?q (tm_store m)" by (auto simp: on_peer_def)
    moreover have "tp_node_id ?q = nid" using find_peer_mem[OF f] by simp
    ultimately have "tm_by_nid m1 nid = Some ?q" by (simp add: tm_ok_lookup find_peer_upsert)
    then show ?thesis
      using ne normalize_tags_mem[OF ne] normalize_tags_normal
      by (simp add: trust_add_tag_def Let_def get_peer_def list_all_iff)
  qed
qed

section \<open>Targets and maintenance\<close>

text \<open>
  Resolving a target never guesses. A target that is no node id resolves only to a peer that
  is not revoked and carries it as alias, and only when no other such peer does; every other
  outcome is an error that tells the two cases apart.
\<close>

theorem resolve_target_unique:
  assumes "\<not> validate_node_id target"
  shows "case resolve_target m target of
      Inr nid \<Rightarrow> (\<exists>p. [q \<leftarrow> active_peers m. tp_alias q = Some target] = [p] \<and> tp_node_id p = nid)
    | Inl (NoActivePeer t) \<Rightarrow> t = target \<and> [q \<leftarrow> active_peers m. tp_alias q = Some target] = []
    | Inl (AmbiguousAlias t k) \<Rightarrow> t = target \<and> k \<ge> 2
        \<and> k = length [q \<leftarrow> active_peers m. tp_alias q = Some target]"
proof -
  have eq: "[q \<leftarrow> active_peers m. tp_alias q = Some target]
      = [p \<leftarrow> tm_store m. tp_alias p = Some target \<and> tp_revoked p = None]"
    by (simp add: active_peers_def conj_commute)
  show ?thesis
    unfolding eq using assms by (auto simp: resolve_target_def split: list.splits)
qed

text \<open>
  A maintenance window is the closed interval. For aware times, scheduling succeeds exactly
  when the end is after the start and the peer is known, and from then on the peer is in
  maintenance exactly between the two instants, both included.
\<close>

theorem maintenance_window_interval:
  assumes "tm_ok m" and "tl_key (tm_log m) \<noteq> None" and "io_good io now"
    and "get_peer m nid = Some p"
  shows "if a < b
    then (\<exists>m1 q. trust_set_maintenance C io m nid (Aware a) (Aware b) = (m1, Inr True)
        \<and> get_peer m1 nid = Some q \<and> (\<forall>t. in_maintenance q (Aware t) = Inr (a \<le> t \<and> t \<le> b)))
    else trust_set_maintenance C io m nid (Aware a) (Aware b) = (m, Inr False)"
proof -
  from assms(1,4) have f: "find_peer (tm_store m) nid = Some p" by (simp add: get_peer_def tm_ok_lookup)
  let ?q = "p\<lparr>tp_mstart := Some (Aware a), tp_mend := Some (Aware b)\<rparr>"
  have q: "tp_node_id ?q = nid" using find_peer_mem[OF f] by simp
  have "in_maintenance ?q (Aware t) = Inr (a \<le> t \<and> t \<le> b)" for t
    by (simp add: in_maintenance_def)
  moreover from run_op_refines[OF assms(1-3), of C "SetMaintenance nid (Aware a) (Aware b)"] f
  have "a < b \<Longrightarrow> \<exists>m1. trust_set_maintenance C io m nid (Aware a) (Aware b) = (m1, Inr True)
      \<and> tm_ok m1 \<and> tm_store m1 = upsert ?q (tm_store m)"
    by (auto simp: on_peer_def)
  ultimately show ?thesis
    using q by (auto simp: trust_set_maintenance_def get_peer_def tm_ok_lookup find_peer_upsert)
qed

text \<open>
  A window without a time zone poisons the peer. The mutation accepts two naive datetimes (the
  control socket passes on whatever \<open>fromisoformat\<close> returns), and afterwards every
  maintenance test of that peer against the aware clock raises \<open>TypeError\<close>.
\<close>

theorem naive_maintenance_raises:
  assumes "tm_ok m" and "tl_key (tm_log m) \<noteq> None" and "io_good io now"
    and "get_peer m nid = Some p" and "a < b"
  shows "\<exists>m1 q. trust_set_maintenance C io m nid (Naive a) (Naive b) = (m1, Inr True)
        \<and> get_peer m1 nid = Some q
        \<and> (\<forall>t. in_maintenance q (Aware t)
              = Inl (TypeError ''can't compare offset-naive and offset-aware datetimes''))"
proof -
  from assms(1,4) have f: "find_peer (tm_store m) nid = Some p" by (simp add: get_peer_def tm_ok_lookup)
  let ?q = "p\<lparr>tp_mstart := Some (Naive a), tp_mend := Some (Naive b)\<rparr>"
  have q: "tp_node_id ?q = nid" using find_peer_mem[OF f] by simp
  have "in_maintenance ?q (Aware t)
      = Inl (TypeError ''can't compare offset-naive and offset-aware datetimes'')" for t
    by (simp add: in_maintenance_def)
  moreover from run_op_refines[OF assms(1-3), of C "SetMaintenance nid (Naive a) (Naive b)"] f assms(5)
  obtain m1 where "trust_set_maintenance C io m nid (Naive a) (Naive b) = (m1, Inr True)"
      "tm_ok m1" "tm_store m1 = upsert ?q (tm_store m)"
    by (auto simp: on_peer_def)
  ultimately show ?thesis
    using q by (auto simp: get_peer_def tm_ok_lookup find_peer_upsert)
qed

section \<open>Witnesses\<close>

text \<open>A manager over the demonstration log with one peer granted \<open>shell\<close>.\<close>

definition demo_add :: log_entry where
  "demo_add = \<lparr>le_seq = 1, le_type = OP_ADD_PEER,
     le_data = [(''node_id'', JStr ''p''), (''alias'', JStr ''box''), (''permissions'', JArr [JStr ''shell''])],
     le_timestamp = JTime (Aware 5), le_prev_hash = ''hk'', le_sig = ''k''\<rparr>"

definition demo_peer :: trusted_peer where
  "demo_peer = \<lparr>tp_node_id = ''p'', tp_alias = Some ''box'', tp_permissions = [''shell''], tp_tags = [],
     tp_mstart = None, tp_mend = None, tp_added = Aware 5, tp_revoked = None\<rparr>"

definition demo_mgr :: trust_mgr where
  "demo_mgr = \<lparr>tm_log = demo_log\<lparr>tl_entries := [demo_genesis, demo_add]\<rparr>, tm_own = ''me'',
     tm_store = [demo_peer], tm_by_nid = [''p'' \<mapsto> demo_peer], tm_cache = [demo_peer]\<rparr>"

definition demo_io :: io_env where
  "demo_io = \<lparr>io_now = JTime (Aware 9), io_log_write = Some 3, io_cache_ok = True\<rparr>"

lemma demo_mgr_ok: "tm_ok demo_mgr"
  by (simp add: tm_ok_def demo_mgr_def demo_genesis_def demo_add_def materialize_peers_def mat_step_def
      Let_def entry_nid_def mat_add_def dict_simps viewed_def peer_rel_iff demo_peer_def index_peers_def)

lemma demo_mgr_key: "tl_key (tm_log demo_mgr) \<noteq> None"
  by (simp add: demo_mgr_def demo_log_def)

lemma demo_io_good: "io_good demo_io (Aware 9)"
  by (simp add: io_good_def demo_io_def)

lemma demo_mgr_simps [simp]:
  "tm_own demo_mgr = ''me''" "tm_by_nid demo_mgr ''p'' = Some demo_peer" "tm_store demo_mgr = [demo_peer]"
  by (simp_all add: demo_mgr_def)

lemma demo_peer_simps [simp]:
  "tp_node_id demo_peer = ''p''" "tp_revoked demo_peer = None" "tp_permissions demo_peer = [''shell'']"
  "tp_tags demo_peer = []"
  by (simp_all add: demo_peer_def)

lemma demo_get: "get_peer demo_mgr ''p'' = Some demo_peer"
  by (simp add: get_peer_def)

lemma demo_ops_good: "ops_good [(demo_io, op)] [(Aware 9, op)]"
  by (simp add: ops_good_def demo_io_good)

theorem trust_ops_refine_witness:
  "tm_store (fst (run_ops demo_crypto demo_mgr [(demo_io, UpdatePermissions ''p'' [''monitor''])]))
   = [demo_peer\<lparr>tp_permissions := [''monitor'']\<rparr>]"
  using trust_ops_refine[OF demo_mgr_ok demo_mgr_key demo_ops_good,
      of demo_crypto "UpdatePermissions ''p'' [''monitor'']"]
  by (simp add: on_peer_def find_peer_def invalid_permissions_def VALID_PROTOCOLS_def)

theorem authorize_iff_listed_witness: "fst (verify_and_authorize demo_mgr ''p'' ''shell'')"
  using authorize_iff_listed[OF demo_mgr_ok, of "''p''" "''shell''"]
  by (simp add: peers_with_permission_def)

lemma demo_op_result:
  assumes "spec_op (Aware 9) [demo_peer] op = Some (st, b)"
  shows "run_op demo_crypto demo_io demo_mgr op
    = (fst (run_op demo_crypto demo_io demo_mgr op), Inr b)"
  using run_op_refines[OF demo_mgr_ok demo_mgr_key demo_io_good, of demo_crypto op] assms by auto

theorem revocation_is_permanent_witness:
  "\<not> fst (verify_and_authorize
      (fst (run_ops demo_crypto (fst (trust_revoke_peer demo_crypto demo_io demo_mgr ''p''))
         [(demo_io, UpdatePermissions ''p'' [''shell''])])) ''p'' ''shell'')"
proof (rule revocation_is_permanent[OF demo_mgr_ok demo_mgr_key _ demo_io_good _ demo_ops_good])
  show "trust_revoke_peer demo_crypto demo_io demo_mgr ''p''
      = (fst (trust_revoke_peer demo_crypto demo_io demo_mgr ''p''), Inr True)"
    using demo_op_result[of "RevokePeer ''p''"] by (simp add: on_peer_def find_peer_def)
qed (simp_all add: adds_peer_def)

theorem stored_permissions_valid_witness:
  "perms_valid (tm_store (fst (run_ops demo_crypto demo_mgr [(demo_io, AddPeer ''q'' None [''root''] [])])))"
  by (rule stored_permissions_valid[OF demo_mgr_ok demo_mgr_key demo_ops_good])
    (simp add: perms_valid_def invalid_permissions_def VALID_PROTOCOLS_def)

theorem add_peer_grants_exactly_witness:
  "fst (verify_and_authorize
      (fst (trust_add_peer demo_crypto demo_io demo_mgr ''q'' None [''chat''] [])) ''q'' ''chat'')"
proof -
  have "trust_add_peer demo_crypto demo_io demo_mgr ''q'' None [''chat''] []
      = (fst (trust_add_peer demo_crypto demo_io demo_mgr ''q'' None [''chat''] []), Inr True)"
    using demo_op_result[of "AddPeer ''q'' None [''chat''] []"]
    by (simp add: find_peer_def invalid_permissions_def VALID_PROTOCOLS_def)
  from add_peer_grants_exactly[OF demo_mgr_ok demo_mgr_key demo_io_good _ this, of "''chat''"]
  show ?thesis by simp
qed

theorem add_tag_idempotent_witness:
  "trust_add_tag demo_crypto demo_io (fst (trust_add_tag demo_crypto demo_io demo_mgr ''p'' ''prod'')) ''p'' ''prod''
   = (fst (trust_add_tag demo_crypto demo_io demo_mgr ''p'' ''prod''), Inr True)"
proof -
  have "py_strip ''prod'' = ''prod''" by (simp add: py_strip_def py_space_def)
  then have "trust_add_tag demo_crypto demo_io demo_mgr ''p'' ''prod''
      = (fst (trust_add_tag demo_crypto demo_io demo_mgr ''p'' ''prod''), Inr True)"
    using demo_op_result[of "AddTag ''p'' ''prod''"] by (simp add: on_peer_def find_peer_def)
  from add_tag_idempotent[OF demo_mgr_ok demo_mgr_key demo_io_good this] show ?thesis by blast
qed

theorem resolve_target_unique_witness: "resolve_target demo_mgr ''box'' = Inr ''p''"
proof -
  have "\<not> validate_node_id ''box''" by (simp add: validate_node_id_def)
  from resolve_target_unique[OF this, of demo_mgr] show ?thesis
    by (auto simp: active_peers_def demo_peer_def split: sum.splits resolve_error.splits)
qed

theorem maintenance_window_interval_witness:
  "snd (trust_set_maintenance demo_crypto demo_io demo_mgr ''p'' (Aware 1) (Aware 2)) = Inr True"
  using maintenance_window_interval[OF demo_mgr_ok demo_mgr_key demo_io_good demo_get, of 1 2 demo_crypto]
  by auto

theorem naive_maintenance_raises_witness:
  "snd (trust_set_maintenance demo_crypto demo_io demo_mgr ''p'' (Naive 1) (Naive 2)) = Inr True"
  using naive_maintenance_raises[OF demo_mgr_ok demo_mgr_key demo_io_good demo_get, of 1 2 demo_crypto]
  by auto

text \<open>A 65-character text is accepted as a node id when it ends in a newline.\<close>

lemma validate_node_id_newline: "validate_node_id (replicate 64 (CHR ''a'') @ [CHR 0x0A])"
  by (simp add: validate_node_id_def list_all_iff hex_char_def butlast_append)

end
