(* ===== verification/Tables.thy ===== *)
theory Tables
  imports Json
begin

text \<open>
  The SQL tables as lists of rows in insertion order, and the two contracts the stores share:
  retention (a \<open>DELETE\<close> by age) and \<open>INSERT OR IGNORE\<close> under a unique key.
\<close>

text \<open>SQLite's integer division cuts towards zero.\<close>

definition sql_div :: "int \<Rightarrow> int \<Rightarrow> int" where
  "sql_div a b = (if 0 \<le> a then a div b else - ((- a) div b))"

text \<open>\<open>MAX\<close> over a column, \<open>NULL\<close> for no rows.\<close>

fun sql_max :: "int list \<Rightarrow> int option" where
  "sql_max [] = None"
| "sql_max (x # xs) = Some (case sql_max xs of None \<Rightarrow> x | Some y \<Rightarrow> max x y)"

lemma sql_max_None [simp]: "sql_max xs = None \<longleftrightarrow> xs = []"
  by (cases xs) simp_all

lemma sql_max_Some: "sql_max xs = Some m \<longleftrightarrow> m \<in> set xs \<and> (\<forall>x \<in> set xs. x \<le> m)"
proof (induction xs arbitrary: m)
  case Nil
  then show ?case by simp
next
  case (Cons x xs)
  show ?case
  proof (cases "sql_max xs")
    case None
    then show ?thesis by auto
  next
    case (Some y)
    with Cons.IH[of y] have y: "y \<in> set xs" "\<forall>z \<in> set xs. z \<le> y" by simp_all
    show ?thesis
    proof
      assume "sql_max (x # xs) = Some m"
      with Some y show "m \<in> set (x # xs) \<and> (\<forall>z \<in> set (x # xs). z \<le> m)" by (auto simp: max_def)
    next
      assume "m \<in> set (x # xs) \<and> (\<forall>z \<in> set (x # xs). z \<le> m)"
      then have "x \<le> m" "y \<le> m" "m = x \<or> m \<le> y" using y by auto
      with Some show "sql_max (x # xs) = Some m" by (auto simp: max_def)
    qed
  qed
qed

lemma sql_max_ge: "x \<in> set xs \<Longrightarrow> \<exists>m. sql_max xs = Some m \<and> x \<le> m"
  by (cases "sql_max xs") (auto simp: sql_max_Some)

section \<open>Retention\<close>

locale retention =
  fixes prune :: "int \<Rightarrow> 'r list \<Rightarrow> 'r list"
    and due :: "int \<Rightarrow> 'r \<Rightarrow> bool"
  assumes prune_def: "prune c rows = [r \<leftarrow> rows. \<not> due c r]"
    and due_mono: "c \<le> c' \<Longrightarrow> due c r \<Longrightarrow> due c' r"
begin

lemma prune_later: "c \<le> c' \<Longrightarrow> prune c' (prune c rows) = prune c' rows"
  using due_mono by (auto simp: prune_def intro!: filter_cong)

lemma prune_idem: "prune c (prune c rows) = prune c rows"
  by (simp add: prune_later)

lemma prune_none_due: "\<not> (\<exists>r \<in> set (prune c rows). due c r)"
  by (simp add: prune_def)

text \<open>A query that only looks at rows not due does not see the pruning.\<close>

lemma prune_query:
  assumes "\<And>r. P r \<Longrightarrow> \<not> due c r"
  shows "[r \<leftarrow> prune c rows. P r] = [r \<leftarrow> rows. P r]"
  using assms by (auto simp: prune_def intro!: filter_cong)

lemma prune_length: "length (prune c rows) + length [r \<leftarrow> rows. due c r] = length rows"
  using sum_length_filter_compl[of "due c" rows] by (simp add: prune_def)

end

section \<open>Insert or ignore\<close>

locale keyed_table =
  fixes key :: "'r \<Rightarrow> 'k"
    and ins :: "'r \<Rightarrow> 'r list \<Rightarrow> 'r list"
  assumes ins_present: "key r \<in> key ` set t \<Longrightarrow> ins r t = t"
    and ins_absent: "key r \<notin> key ` set t \<Longrightarrow> \<exists>r'. key r' = key r \<and> ins r t = t @ [r']"
begin

lemma keys_ins: "key ` set (ins r t) = insert (key r) (key ` set t)"
  using ins_present[of r t] ins_absent[of r t] by (cases "key r \<in> key ` set t") auto

lemma distinct_ins: "distinct (map key t) \<Longrightarrow> distinct (map key (ins r t))"
  using ins_present[of r t] ins_absent[of r t]
  by (cases "key r \<in> key ` set t") auto

lemma length_ins: "length (ins r t) = length t + (if key r \<in> key ` set t then 0 else 1)"
  using ins_present[of r t] ins_absent[of r t] by (cases "key r \<in> key ` set t") auto

lemma keys_fold: "key ` set (fold ins rs t) = key ` set rs \<union> key ` set t"
  by (induction rs arbitrary: t) (auto simp: keys_ins)

lemma distinct_fold: "distinct (map key t) \<Longrightarrow> distinct (map key (fold ins rs t))"
  by (induction rs arbitrary: t) (simp_all add: distinct_ins)

lemma fold_present: "key ` set rs \<subseteq> key ` set t \<Longrightarrow> fold ins rs t = t"
  by (induction rs) (simp_all add: ins_present)

text \<open>Inserting the same rows a second time changes nothing.\<close>

lemma fold_idem: "fold ins rs (fold ins rs t) = fold ins rs t"
  by (rule fold_present) (simp add: keys_fold)

text \<open>Rows already in the table stay, in place.\<close>

lemma fold_prefix: "take (length t) (fold ins rs t) = t"
proof (induction rs arbitrary: t)
  case Nil
  then show ?case by simp
next
  case (Cons r rs)
  have "take (length t) (ins r t) = t"
    using ins_present[of r t] ins_absent[of r t] by (cases "key r \<in> key ` set t") auto
  then show ?case using Cons[of "ins r t"] by (auto intro: take_prefix_trans)
qed

end

end
