(* ===== verification/History.thy ===== *)
theory History
  imports Schema Tables
begin

text \<open>
  The probe history (src/history.py): one row per probe, the write and retention operations,
  and the queries computed from the rows (uptime, hourly buckets, heartbeat bar, incidents,
  round-trip statistics). Rows hold epoch seconds, which were made from datetimes, so the way
  back (\<open>usec\<close>) is in range.
\<close>

record probe =
  pr_node :: node_id
  pr_ts :: int
  pr_rtt :: "rat option"
  pr_status :: peer_status

record history_store =
  hs_probes :: "probe list"
  hs_retain_days :: int

record probe_row =
  pw_node :: node_id
  pw_ts :: instant
  pw_rtt :: "rat option"
  pw_status :: peer_status

definition hours_us :: "int \<Rightarrow> instant" where
  "hours_us h = usec (h * 3600)"

definition days_us :: "int \<Rightarrow> instant" where
  "days_us d = usec (d * 86400)"

definition to_probe_row :: "probe \<Rightarrow> probe_row" where
  "to_probe_row r =
     \<lparr>pw_node = pr_node r, pw_ts = usec (pr_ts r), pw_rtt = pr_rtt r, pw_status = pr_status r\<rparr>"

section \<open>Writes\<close>

definition hist_record ::
  "history_store \<Rightarrow> node_id \<Rightarrow> instant \<Rightarrow> rat option \<Rightarrow> peer_status \<Rightarrow> history_store" where
  "hist_record h n ts rtt st =
     h\<lparr>hs_probes := hs_probes h @ [\<lparr>pr_node = n, pr_ts = to_epoch ts, pr_rtt = rtt, pr_status = st\<rparr>]\<rparr>"

text \<open>One transaction: \<open>ok\<close> says whether the batch went through; otherwise it is rolled back
  and the exception raised.\<close>

definition hist_record_many ::
  "bool \<Rightarrow> history_store \<Rightarrow> (node_id \<times> instant \<times> rat option \<times> peer_status) list
   \<Rightarrow> history_store \<times> unit res" where
  "hist_record_many ok h rows =
     (if rows = [] then (h, Inr ())
      else
        let vals = map (\<lambda>(n, ts, rtt, st).
              \<lparr>pr_node = n, pr_ts = to_epoch ts, pr_rtt = rtt, pr_status = st\<rparr>) rows in
        if ok then (h\<lparr>hs_probes := hs_probes h @ vals\<rparr>, Inr ())
        else (h, Inl (OSError ''sqlite'')))"

definition prune_probes :: "int \<Rightarrow> probe list \<Rightarrow> probe list" where
  "prune_probes c rows = [r \<leftarrow> rows. \<not> pr_ts r < c]"

definition hist_prune_older_than :: "instant \<Rightarrow> instant option \<Rightarrow> history_store \<Rightarrow> history_store \<times> nat" where
  "hist_prune_older_than now cutoff h =
     (let c = (case cutoff of None \<Rightarrow> now - days_us (hs_retain_days h) | Some t \<Rightarrow> t);
          kept = prune_probes (to_epoch c) (hs_probes h) in
      (h\<lparr>hs_probes := kept\<rparr>, length (hs_probes h) - length kept))"

section \<open>Queries\<close>

definition is_alive :: "probe \<Rightarrow> bool" where
  "is_alive r \<longleftrightarrow> pr_status r = ALIVE"

text \<open>\<open>100.0 * SUM(alive) / COUNT(*)\<close>, \<open>None\<close> without rows.\<close>

definition percent_alive :: "probe list \<Rightarrow> rat option" where
  "percent_alive rows =
     (if rows = [] then None
      else Some (100 * of_nat (length (filter is_alive rows)) / of_nat (length rows)))"

definition uptime_percent :: "history_store \<Rightarrow> instant \<Rightarrow> node_id \<Rightarrow> instant \<Rightarrow> rat option" where
  "uptime_percent h now n window =
     percent_alive [r \<leftarrow> hs_probes h. pr_node r = n \<and> to_epoch (now - window) \<le> pr_ts r
                                    \<and> pr_ts r \<le> to_epoch now]"

definition rows_since :: "history_store \<Rightarrow> node_id \<Rightarrow> int \<Rightarrow> probe list" where
  "rows_since h n c = [r \<leftarrow> hs_probes h. pr_node r = n \<and> c \<le> pr_ts r]"

definition recent_rows :: "history_store \<Rightarrow> instant \<Rightarrow> node_id \<Rightarrow> int \<Rightarrow> int option \<Rightarrow> probe_row list" where
  "recent_rows h now n hours limit =
     (let rows = sort_key pr_ts (rows_since h n (to_epoch (now - hours_us hours))) in
      map to_probe_row (case limit of None \<Rightarrow> rows | Some l \<Rightarrow> sql_limit l rows))"

definition newest_first :: "history_store \<Rightarrow> node_id \<Rightarrow> probe list" where
  "newest_first h n = rev (sort_key pr_ts [r \<leftarrow> hs_probes h. pr_node r = n])"

definition hist_latest :: "history_store \<Rightarrow> node_id \<Rightarrow> probe_row option" where
  "hist_latest h n =
     (case newest_first h n of [] \<Rightarrow> None | r # _ \<Rightarrow> Some (to_probe_row r))"

definition hist_count :: "history_store \<Rightarrow> node_id option \<Rightarrow> nat" where
  "hist_count h n =
     (case n of None \<Rightarrow> length (hs_probes h)
      | Some k \<Rightarrow> length [r \<leftarrow> hs_probes h. pr_node r = k])"

definition count_in_window :: "history_store \<Rightarrow> instant \<Rightarrow> int \<Rightarrow> node_id option \<Rightarrow> nat" where
  "count_in_window h now hours n =
     (let c = to_epoch (now - hours_us hours) in
      length [r \<leftarrow> hs_probes h. (case n of None \<Rightarrow> True | Some k \<Rightarrow> pr_node r = k) \<and> c \<le> pr_ts r])"

text \<open>
  The SQL groups the rows by hour; the loop writes each group's percentage at its place in the
  list of \<open>hours\<close> buckets.
\<close>

definition hour_idx :: "probe \<Rightarrow> int" where
  "hour_idx r = sql_div (pr_ts r) 3600"

definition start_hour :: "instant \<Rightarrow> int \<Rightarrow> int" where
  "start_hour now hours = (to_epoch now div 3600) * 3600 - (hours - 1) * 3600"

definition put_bucket ::
  "int \<Rightarrow> int \<Rightarrow> probe list \<Rightarrow> rat option list \<Rightarrow> int \<Rightarrow> rat option list" where
  "put_bucket start hours rows b h =
     (let grp = [r \<leftarrow> rows. hour_idx r = h];
          idx = (h * 3600 - start) div 3600 in
      if 0 \<le> idx \<and> idx < hours \<and> grp \<noteq> [] then b[nat idx := percent_alive grp] else b)"

definition hourly_uptime_buckets :: "history_store \<Rightarrow> instant \<Rightarrow> node_id \<Rightarrow> int \<Rightarrow> rat option list" where
  "hourly_uptime_buckets h now n hours =
     (let start = start_hour now hours;
          rows = [r \<leftarrow> hs_probes h. pr_node r = n \<and> start \<le> pr_ts r
                    \<and> pr_ts r < (to_epoch now div 3600) * 3600 + 3600] in
      foldl (put_bucket start hours rows) (replicate (nat hours) None) (remdups (map hour_idx rows)))"

record beat =
  bt_ts :: instant
  bt_rtt :: "rat option"
  bt_up :: bool

definition recent_beats :: "history_store \<Rightarrow> node_id \<Rightarrow> int \<Rightarrow> beat list" where
  "recent_beats h n limit =
     map (\<lambda>r. \<lparr>bt_ts = usec (pr_ts r), bt_rtt = pr_rtt r, bt_up = is_alive r\<rparr>)
       (rev (sql_limit limit (newest_first h n)))"

record incident =
  ic_started :: int
  ic_ended :: "int option"
  ic_duration :: int
  ic_ongoing :: bool

text \<open>The loop over (time, status) in ascending time: the incidents closed so far, the start of
  the open one, and the status before.\<close>

type_synonym incident_acc = "incident list \<times> int option \<times> peer_status option"

definition incident_step :: "incident_acc \<Rightarrow> int \<times> peer_status \<Rightarrow> incident_acc" where
  "incident_step acc row =
     (let (incs, open_start, prev) = acc; (ts, st) = row;
          down = (st \<noteq> ALIVE);
          was_down = (case prev of None \<Rightarrow> False | Some s \<Rightarrow> s \<noteq> ALIVE) in
      if down \<and> \<not> was_down then (incs, Some ts, Some st)
      else if \<not> down \<and> was_down \<and> open_start \<noteq> None then
        (incs @ [\<lparr>ic_started = the open_start, ic_ended = Some ts,
                  ic_duration = max 0 (ts - the open_start), ic_ongoing = False\<rparr>], None, Some st)
      else (incs, open_start, Some st))"

definition incident_list :: "(int \<times> peer_status) list \<Rightarrow> incident list" where
  "incident_list rows =
     (let (incs, open_start, _) = foldl incident_step ([], None, None) rows in
      case open_start of
        None \<Rightarrow> incs
      | Some s \<Rightarrow>
          if rows = [] then incs
          else incs @ [\<lparr>ic_started = s, ic_ended = None, ic_duration = max 0 (fst (last rows) - s),
                        ic_ongoing = True\<rparr>])"

definition incidents :: "history_store \<Rightarrow> instant \<Rightarrow> node_id \<Rightarrow> int \<Rightarrow> int \<Rightarrow> incident list" where
  "incidents h now n hours limit =
     (let rows = sort_key pr_ts (rows_since h n (to_epoch (now - hours_us hours))) in
      py_slice_to limit (rev (incident_list (map (\<lambda>r. (pr_ts r, pr_status r)) rows))))"

definition uptime_windows :: "history_store \<Rightarrow> instant \<Rightarrow> node_id \<Rightarrow> (string \<times> rat option) list" where
  "uptime_windows h now n =
     [(''24h'', uptime_percent h now n (hours_us 24)),
      (''7d'', uptime_percent h now n (days_us 7)),
      (''30d'', uptime_percent h now n (days_us 30))]"

record rtt_summary =
  rs_probes :: nat
  rs_alive :: nat
  rs_dead :: nat
  rs_min :: "rat option"
  rs_max :: "rat option"
  rs_avg :: "rat option"

text \<open>The aggregates skip \<open>NULL\<close>, so they run over the round-trip times of alive probes that
  have one.\<close>

definition alive_rtts :: "probe list \<Rightarrow> rat list" where
  "alive_rtts rows = List.map_filter (\<lambda>r. if is_alive r then pr_rtt r else None) rows"

definition rtt_stats :: "history_store \<Rightarrow> instant \<Rightarrow> node_id \<Rightarrow> int \<Rightarrow> rtt_summary" where
  "rtt_stats h now n hours =
     (let rows = rows_since h n (to_epoch (now - hours_us hours));
          xs = alive_rtts rows;
          alive = length (filter is_alive rows) in
      \<lparr>rs_probes = length rows, rs_alive = alive, rs_dead = length rows - alive,
       rs_min = (if xs = [] then None else Some (Min (set xs))),
       rs_max = (if xs = [] then None else Some (Max (set xs))),
       rs_avg = (if xs = [] then None else Some (sum_list xs / of_nat (length xs)))\<rparr>)"

definition WINDOW_ALIASES :: "(string \<times> instant) list" where
  "WINDOW_ALIASES =
     [(''1h'', hours_us 1), (''24h'', hours_us 24), (''7d'', days_us 7), (''30d'', days_us 30)]"

definition parse_window :: "string \<Rightarrow> instant res" where
  "parse_window v =
     (case map_of WINDOW_ALIASES (py_lower (py_strip v)) of
        Some w \<Rightarrow> Inr w
      | None \<Rightarrow> Inl (ValueError ''unsupported window''))"

section \<open>Lemmas: retention\<close>

interpretation probes: retention prune_probes "\<lambda>c r. pr_ts r < c"
  by unfold_locales (auto simp: prune_probes_def)

lemma days_us_mono: "a \<le> b \<Longrightarrow> days_us a \<le> days_us b"
  by (simp add: days_us_def usec_def)

text \<open>
  Retention never shows in a window it covers. Pruning with the store's retention at any
  earlier moment leaves the uptime percentage of every window that is no longer than the
  retention unchanged; the rows deleted and the rows kept add up; no row older than the cutoff is
  left.
\<close>

theorem prune_keeps_uptime:
  assumes "t \<le> now" and "window \<le> days_us (hs_retain_days h)"
  shows "uptime_percent (fst (hist_prune_older_than t None h)) now n window = uptime_percent h now n window
     \<and> length (hs_probes (fst (hist_prune_older_than t None h))) + snd (hist_prune_older_than t None h)
         = length (hs_probes h)
     \<and> \<not> (\<exists>r \<in> set (hs_probes (fst (hist_prune_older_than t None h))).
             pr_ts r < to_epoch (t - days_us (hs_retain_days h)))"
proof -
  have le: "to_epoch (t - days_us (hs_retain_days h)) \<le> to_epoch (now - window)"
    using assms by (intro to_epoch_mono) simp
  show ?thesis
    using le probes.prune_length[of "to_epoch (t - days_us (hs_retain_days h))" "hs_probes h"]
      probes.prune_none_due
    by (auto simp: hist_prune_older_than_def Let_def uptime_percent_def
        intro!: arg_cong[where f = percent_alive] probes.prune_query)
qed

section \<open>Lemmas: uptime\<close>

lemma percent_alive_bounds: "percent_alive rows = Some x \<Longrightarrow> 0 \<le> x \<and> x \<le> 100"
  by (auto simp: percent_alive_def divide_le_eq split: if_splits)

lemma percent_alive_full: "percent_alive rows = Some 100 \<longleftrightarrow> rows \<noteq> [] \<and> (\<forall>r \<in> set rows. is_alive r)"
proof -
  have "length (filter is_alive rows) = length rows \<longleftrightarrow> (\<forall>r \<in> set rows. is_alive r)"
    using length_filter_less[of _ rows is_alive] by fastforce
  then show ?thesis by (auto simp: percent_alive_def field_simps)
qed

text \<open>
  Uptime is a percentage. Every uptime the store reports lies between 0 and 100; it is 100
  exactly when the window holds probes and all were alive; there is no figure exactly when the
  window holds no probe.
\<close>

theorem uptime_is_percentage:
  "(case uptime_percent h now n window of
      None \<Rightarrow> \<not> (\<exists>r \<in> set (hs_probes h). pr_node r = n \<and> to_epoch (now - window) \<le> pr_ts r \<and> pr_ts r \<le> to_epoch now)
    | Some x \<Rightarrow> 0 \<le> x \<and> x \<le> 100
        \<and> (x = 100 \<longleftrightarrow> \<not> (\<exists>r \<in> set (hs_probes h). pr_node r = n \<and> to_epoch (now - window) \<le> pr_ts r
                            \<and> pr_ts r \<le> to_epoch now \<and> pr_status r \<noteq> ALIVE)))"
proof (cases "uptime_percent h now n window")
  case None
  then show ?thesis by (auto simp: uptime_percent_def percent_alive_def filter_empty_conv split: if_splits)
next
  case (Some x)
  let ?rows = "[r \<leftarrow> hs_probes h. pr_node r = n \<and> to_epoch (now - window) \<le> pr_ts r \<and> pr_ts r \<le> to_epoch now]"
  from Some have "percent_alive ?rows = Some x" by (simp add: uptime_percent_def)
  moreover from this have "?rows \<noteq> []" by (auto simp: percent_alive_def split: if_splits)
  ultimately show ?thesis
    using Some percent_alive_bounds[of ?rows x] percent_alive_full[of ?rows]
    by (auto simp: is_alive_def)
qed

section \<open>Lemmas: hourly buckets\<close>

lemma foldl_put_length: "length (foldl (put_bucket s hrs rows) b hs) = length b"
  by (induction hs arbitrary: b) (simp_all add: put_bucket_def Let_def)

lemma put_bucket_nth:
  assumes "start = 3600 * k" and "i < length b" and "length b = nat hrs"
  shows "put_bucket start hrs rows b h ! i =
     (if h = k + int i \<and> [r \<leftarrow> rows. hour_idx r = h] \<noteq> [] then percent_alive [r \<leftarrow> rows. hour_idx r = h]
      else b ! i)"
proof -
  have "h * 3600 - start = (h - k) * 3600" using assms(1) by (simp add: algebra_simps)
  then have idx: "(h * 3600 - start) div 3600 = h - k" by simp
  show ?thesis
    using assms(2,3) by (auto simp: put_bucket_def Let_def idx nth_list_update)
qed

lemma foldl_put_nth:
  assumes "start = 3600 * k" and "i < length b" and "length b = nat hrs" and "distinct hs"
  shows "foldl (put_bucket start hrs rows) b hs ! i =
     (if k + int i \<in> set hs \<and> [r \<leftarrow> rows. hour_idx r = k + int i] \<noteq> []
      then percent_alive [r \<leftarrow> rows. hour_idx r = k + int i] else b ! i)"
  using assms
proof (induction hs arbitrary: b)
  case Nil
  then show ?case by simp
next
  case (Cons h hs)
  have len: "length (put_bucket start hrs rows b h) = length b" by (simp add: put_bucket_def Let_def)
  from Cons.IH[of "put_bucket start hrs rows b h"] Cons.prems len
    put_bucket_nth[OF Cons.prems(1-3), of rows h]
  show ?case by auto
qed

text \<open>
  Each hourly bucket is the uptime of its hour. The bar has \<open>hours\<close> buckets, oldest first,
  the last one being the hour that holds the clock; bucket \<open>i\<close> is the percentage over exactly
  the node's probes of the \<open>i\<close>-th hour since the start, and empty when that hour has none.
\<close>

theorem hourly_bucket_is_uptime:
  assumes "i < nat hours" and "\<forall>r \<in> set (hs_probes h). 0 \<le> pr_ts r"
  shows "length (hourly_uptime_buckets h now n hours) = nat hours
    \<and> hourly_uptime_buckets h now n hours ! i =
        percent_alive [r \<leftarrow> hs_probes h. pr_node r = n
           \<and> start_hour now hours + int i * 3600 \<le> pr_ts r
           \<and> pr_ts r < start_hour now hours + (int i + 1) * 3600]"
proof -
  let ?k = "to_epoch now div 3600 - (hours - 1)"
  have k: "start_hour now hours = 3600 * ?k" by (simp add: start_hour_def algebra_simps)
  let ?rows = "[r \<leftarrow> hs_probes h. pr_node r = n \<and> start_hour now hours \<le> pr_ts r
                    \<and> pr_ts r < (to_epoch now div 3600) * 3600 + 3600]"
  let ?grp = "[r \<leftarrow> ?rows. hour_idx r = ?k + int i]"
  have hi: "hour_idx r = ?k + int i \<longleftrightarrow>
      start_hour now hours + int i * 3600 \<le> pr_ts r \<and> pr_ts r < start_hour now hours + (int i + 1) * 3600"
    if "0 \<le> pr_ts r" for r
  proof -
    have "hour_idx r = ?k + int i \<longleftrightarrow> (?k + int i) * 3600 \<le> pr_ts r \<and> pr_ts r < (?k + int i + 1) * 3600"
      using that by (auto simp: hour_idx_def sql_div_def)
    then show ?thesis unfolding k by (simp add: algebra_simps)
  qed
  have "?grp = [r \<leftarrow> hs_probes h. pr_node r = n
           \<and> start_hour now hours + int i * 3600 \<le> pr_ts r
           \<and> pr_ts r < start_hour now hours + (int i + 1) * 3600]"
    using assms hi k by (auto intro!: filter_cong)
  moreover have "?k + int i \<in> set (remdups (map hour_idx ?rows)) \<longleftrightarrow> ?grp \<noteq> []"
    by (auto simp: filter_empty_conv image_iff)
  moreover have "percent_alive [] = None" by (simp add: percent_alive_def)
  ultimately show ?thesis
    using foldl_put_nth[OF k, of i "replicate (nat hours) None" hours "remdups (map hour_idx ?rows)" ?rows] assms(1)
    by (auto simp: hourly_uptime_buckets_def Let_def foldl_put_length)
qed

text \<open>Three probes of one node in one hour, one of them failed, and two in the next hour.\<close>

definition demo_store :: history_store where
  "demo_store = \<lparr>hs_probes =
     [\<lparr>pr_node = ''a'', pr_ts = 7200, pr_rtt = Some 10, pr_status = ALIVE\<rparr>,
      \<lparr>pr_node = ''a'', pr_ts = 7260, pr_rtt = None, pr_status = DEAD\<rparr>,
      \<lparr>pr_node = ''a'', pr_ts = 7320, pr_rtt = None, pr_status = DEAD\<rparr>,
      \<lparr>pr_node = ''a'', pr_ts = 10800, pr_rtt = Some 30, pr_status = ALIVE\<rparr>,
      \<lparr>pr_node = ''a'', pr_ts = 10860, pr_rtt = None, pr_status = DEAD\<rparr>],
     hs_retain_days = 1\<rparr>"

theorem prune_keeps_uptime_witness:
  "uptime_percent (fst (hist_prune_older_than (usec 97200) None demo_store)) (usec 97200) ''a'' (hours_us 24)
     = uptime_percent demo_store (usec 97200) ''a'' (hours_us 24)
   \<and> uptime_percent demo_store (usec 97200) ''a'' (hours_us 24) = Some (50)
   \<and> snd (hist_prune_older_than (usec 97200) None demo_store) = 3"
proof -
  have "uptime_percent demo_store (usec 97200) ''a'' (hours_us 24) = Some (50)"
    by code_simp
  moreover have "snd (hist_prune_older_than (usec 97200) None demo_store) = 3" by code_simp
  moreover have "hours_us 24 \<le> days_us (hs_retain_days demo_store)" by code_simp
  ultimately show ?thesis
    using prune_keeps_uptime[of "usec 97200" "usec 97200" "hours_us 24" demo_store "''a''"] by simp
qed

theorem hourly_bucket_is_uptime_witness:
  "hourly_uptime_buckets demo_store (usec 10900) ''a'' 3 = [None, Some (100 / 3), Some 50]
   \<and> hourly_uptime_buckets demo_store (usec 10900) ''a'' 3 ! 1 =
        percent_alive [r \<leftarrow> hs_probes demo_store. pr_node r = ''a'' \<and> 7200 \<le> pr_ts r \<and> pr_ts r < 10800]"
proof -
  have "start_hour (usec 10900) 3 = 3600" by code_simp
  moreover have "hourly_uptime_buckets demo_store (usec 10900) ''a'' 3 = [None, Some (100 / 3), Some 50]"
    by code_simp
  ultimately show ?thesis
    using hourly_bucket_is_uptime[of 1 3 demo_store "usec 10900" "''a''"] by (simp add: demo_store_def)
qed

section \<open>Lemmas: incidents\<close>

abbreviation row_down :: "(int \<times> peer_status) list \<Rightarrow> nat \<Rightarrow> bool" where
  "row_down rows i \<equiv> snd (rows ! i) \<noteq> ALIVE"

text \<open>The times at which the status falls from \<open>ALIVE\<close> (or starts down), and at which it rises
  again.\<close>

definition falls :: "(int \<times> peer_status) list \<Rightarrow> int list" where
  "falls rows = map (\<lambda>i. fst (rows ! i))
     [i \<leftarrow> [0..<length rows]. row_down rows i \<and> (i = 0 \<or> \<not> row_down rows (i - 1))]"

definition rises :: "(int \<times> peer_status) list \<Rightarrow> int list" where
  "rises rows = map (\<lambda>i. fst (rows ! i))
     [i \<leftarrow> [0..<length rows]. \<not> row_down rows i \<and> 0 < i \<and> row_down rows (i - 1)]"

definition closed_incident :: "int \<Rightarrow> int \<Rightarrow> incident" where
  "closed_incident s e =
     \<lparr>ic_started = s, ic_ended = Some e, ic_duration = max 0 (e - s), ic_ongoing = False\<rparr>"

definition open_incident :: "int \<Rightarrow> int \<Rightarrow> incident" where
  "open_incident s e =
     \<lparr>ic_started = s, ic_ended = None, ic_duration = max 0 (e - s), ic_ongoing = True\<rparr>"

text \<open>The reference: each fall paired with the rise after it; a fall without a rise is open up to
  the newest row.\<close>

definition outages :: "(int \<times> peer_status) list \<Rightarrow> incident list" where
  "outages rows = map2 closed_incident (falls rows) (rises rows)
     @ (if rows \<noteq> [] \<and> snd (last rows) \<noteq> ALIVE
        then [open_incident (last (falls rows)) (fst (last rows))] else [])"

lemma edges_snoc:
  assumes "\<And>i. i < length rows \<Longrightarrow> P (rows @ [r]) i = P rows i"
  shows "map (\<lambda>i. fst ((rows @ [r]) ! i)) [i \<leftarrow> [0..<length (rows @ [r])]. P (rows @ [r]) i]
    = map (\<lambda>i. fst (rows ! i)) [i \<leftarrow> [0..<length rows]. P rows i]
      @ (if P (rows @ [r]) (length rows) then [fst r] else [])"
proof -
  have "[i \<leftarrow> [0..<length rows]. P (rows @ [r]) i] = [i \<leftarrow> [0..<length rows]. P rows i]"
    using assms by (auto intro!: filter_cong)
  then show ?thesis by (simp add: nth_append)
qed

lemma falls_snoc:
  "falls (rows @ [r]) = falls rows
     @ (if snd r \<noteq> ALIVE \<and> (rows = [] \<or> snd (last rows) = ALIVE) then [fst r] else [])"
  unfolding falls_def
  by (subst edges_snoc) (cases "rows = []"; auto simp: nth_append last_conv_nth)+

lemma rises_snoc:
  "rises (rows @ [r]) = rises rows
     @ (if snd r = ALIVE \<and> rows \<noteq> [] \<and> snd (last rows) \<noteq> ALIVE then [fst r] else [])"
  unfolding rises_def
  by (subst edges_snoc) (cases "rows = []"; auto simp: nth_append last_conv_nth)+

lemma falls_rises_length:
  "length (falls rows) = length (rises rows) + (if rows \<noteq> [] \<and> snd (last rows) \<noteq> ALIVE then 1 else 0)"
proof (induction rows rule: rev_induct)
  case Nil
  then show ?case by (simp add: falls_def rises_def)
next
  case (snoc r rows)
  then show ?case by (auto simp: falls_snoc rises_snoc)
qed

lemma incident_step_eval:
  "incident_step (incs, open_start, prev) (ts, st) =
     (if st \<noteq> ALIVE \<and> \<not> (prev \<noteq> None \<and> prev \<noteq> Some ALIVE) then (incs, Some ts, Some st)
      else if st = ALIVE \<and> prev \<noteq> None \<and> prev \<noteq> Some ALIVE \<and> open_start \<noteq> None then
        (incs @ [closed_incident (the open_start) ts], None, Some st)
      else (incs, open_start, Some st))"
  by (auto simp: incident_step_def closed_incident_def split: option.splits)

lemma incident_fold:
  "foldl incident_step ([], None, None) rows =
     (map2 closed_incident (falls rows) (rises rows),
      if rows \<noteq> [] \<and> snd (last rows) \<noteq> ALIVE then Some (last (falls rows)) else None,
      if rows = [] then None else Some (snd (last rows)))"
proof (induction rows rule: rev_induct)
  case Nil
  then show ?case by (simp add: falls_def rises_def)
next
  case (snoc r rows)
  obtain ts st where r: "r = (ts, st)" by (cases r)
  show ?case
  proof (cases "rows \<noteq> [] \<and> snd (last rows) \<noteq> ALIVE")
    case True
    then have len: "length (falls rows) = Suc (length (rises rows))" by (simp add: falls_rises_length)
    then obtain fs s where fs: "falls rows = fs @ [s]" "length fs = length (rises rows)"
      by (cases "falls rows" rule: rev_cases) auto
    with True show ?thesis
      by (auto simp: snoc falls_snoc rises_snoc incident_step_eval r zip_append1)
  next
    case False
    then have "length (falls rows) = length (rises rows)" by (auto simp: falls_rises_length)
    with False show ?thesis
      by (auto simp: snoc falls_snoc rises_snoc incident_step_eval r)
  qed
qed

lemma incident_list_outages: "incident_list rows = outages rows"
  by (auto simp: incident_list_def incident_fold outages_def open_incident_def)

text \<open>
  C25: Incidents are the outages. What the store reports is, newest first and cut to the limit,
  one incident per run of probes that were not alive: it starts at the first of them, ends at the
  alive probe that follows, and is ongoing exactly when the newest probe of the window is not
  alive. The times at which the node went down and those at which it came back pair up.
\<close>

theorem incidents_are_outages:
  "(let rows = map (\<lambda>r. (pr_ts r, pr_status r))
                 (sort_key pr_ts (rows_since h n (to_epoch (now - hours_us hours)))) in
    incidents h now n hours limit = py_slice_to limit (rev (outages rows))
    \<and> length (falls rows) =
        length (rises rows) + (if rows \<noteq> [] \<and> snd (last rows) \<noteq> ALIVE then 1 else 0))"
  by (simp add: incidents_def incident_list_outages falls_rises_length Let_def)

section \<open>Lemmas: round trips and beats\<close>

lemma average_bounds:
  fixes xs :: "rat list"
  assumes "xs \<noteq> []"
  shows "Min (set xs) \<le> sum_list xs / of_nat (length xs) \<and> sum_list xs / of_nat (length xs) \<le> Max (set xs)"
proof -
  have lo: "sum_list (map (\<lambda>_. Min (set xs)) xs) \<le> sum_list (map (\<lambda>x. x) xs)"
    by (rule sum_list_mono) simp
  have hi: "sum_list (map (\<lambda>x. x) xs) \<le> sum_list (map (\<lambda>_. Max (set xs)) xs)"
    by (rule sum_list_mono) simp
  from lo hi assms show ?thesis
    by (simp add: sum_list_triv divide_le_eq le_divide_eq mult.commute)
qed

text \<open>
  The round-trip summary is consistent. Alive and dead probes add up to the probes of the
  window, and where there is a round-trip time, the average lies between the smallest and the
  largest.
\<close>

theorem rtt_stats_consistent:
  "rs_alive (rtt_stats h now n hours) + rs_dead (rtt_stats h now n hours) = rs_probes (rtt_stats h now n hours)
   \<and> rs_probes (rtt_stats h now n hours) = count_in_window h now hours (Some n)
   \<and> (case rtt_stats h now n hours of s \<Rightarrow>
        (case (rs_min s, rs_avg s, rs_max s) of
           (Some lo, Some avg, Some hi) \<Rightarrow> lo \<le> avg \<and> avg \<le> hi
         | (lo, avg, hi) \<Rightarrow> lo = None \<and> avg = None \<and> hi = None))"
proof -
  define rows where "rows = rows_since h n (to_epoch (now - hours_us hours))"
  have st: "rtt_stats h now n hours =
      \<lparr>rs_probes = length rows, rs_alive = length (filter is_alive rows),
       rs_dead = length rows - length (filter is_alive rows),
       rs_min = (if alive_rtts rows = [] then None else Some (Min (set (alive_rtts rows)))),
       rs_max = (if alive_rtts rows = [] then None else Some (Max (set (alive_rtts rows)))),
       rs_avg = (if alive_rtts rows = [] then None
                 else Some (sum_list (alive_rtts rows) / of_nat (length (alive_rtts rows))))\<rparr>"
    by (simp add: rtt_stats_def rows_def Let_def)
  have cnt: "count_in_window h now hours (Some n) = length rows"
    by (simp add: count_in_window_def rows_def rows_since_def Let_def)
  show ?thesis
    unfolding cnt st using average_bounds[of "alive_rtts rows"] length_filter_le[of is_alive rows]
    by (auto simp del: length_filter_le)
qed

end
