(* ===== verification/Logstore.thy ===== *)
theory Logstore
  imports Schema Tables
begin

text \<open>
  The server-side log store (src/logstore.py): its tables, the events and raw snapshots and their
  queries, the delta a puller reads, retention, and the migrations of older databases. The roll-ups
  are in \<open>Rollup\<close>, the payloads exchanged between nodes in \<open>Sync_Payload\<close>.

  A table is the list of its rows in insertion order; \<open>payload\<close> and \<open>detail\<close> columns hold
  \<open>json.dumps\<close> of a value and are kept as that value. The numeric columns of
  \<open>stat_buckets\<close> and \<open>daily_summaries\<close> hold whatever was bound to them, as JSON values.
\<close>

abbreviation EV_AGENT_STARTED :: string where "EV_AGENT_STARTED \<equiv> ''agent_started''"
abbreviation EV_AGENT_SHUTDOWN :: string where "EV_AGENT_SHUTDOWN \<equiv> ''agent_shutdown''"
abbreviation EV_CONTAINER_STARTED :: string where "EV_CONTAINER_STARTED \<equiv> ''container_started''"
abbreviation EV_CONTAINER_EXITED :: string where "EV_CONTAINER_EXITED \<equiv> ''container_exited''"
abbreviation EV_CONTAINER_RESTARTED :: string where "EV_CONTAINER_RESTARTED \<equiv> ''container_restarted''"
abbreviation EV_CONTAINER_UNHEALTHY :: string where "EV_CONTAINER_UNHEALTHY \<equiv> ''container_unhealthy''"

section \<open>Tables\<close>

record event_row =
  ev_id :: nat
  ev_peer :: node_id
  ev_ts :: int
  ev_event :: json
  ev_detail :: "json option"

record snap_row =
  sn_peer :: node_id
  sn_ts :: int
  sn_payload :: dict
  sn_seq :: "int option"

record bucket_row =
  bk_peer :: node_id
  bk_start :: int
  bk_end :: int
  bk_size :: json
  bk_cpu_avg :: json
  bk_cpu_max :: json
  bk_mem_avg :: json
  bk_mem_max :: json
  bk_disk_avg :: json
  bk_rx :: json
  bk_tx :: json
  bk_samples :: json

record daily_row =
  dy_peer :: node_id
  dy_date :: string
  dy_uptime :: json
  dy_cpu :: json
  dy_mem :: json
  dy_incidents :: json

text \<open>\<open>ls_event_seq\<close> is the AUTOINCREMENT counter of \<open>events\<close>.\<close>

record log_store =
  ls_own :: string
  ls_events :: "event_row list"
  ls_event_seq :: nat
  ls_raw :: "snap_row list"
  ls_buckets :: "bucket_row list"
  ls_daily :: "daily_row list"

definition new_log_store :: "string \<Rightarrow> log_store" where
  "new_log_store own =
     \<lparr>ls_own = own, ls_events = [], ls_event_seq = 0, ls_raw = [], ls_buckets = [], ls_daily = []\<rparr>"

definition own_id :: "log_store \<Rightarrow> node_id" where
  "own_id s = (if ls_own s = [] then ''self'' else ls_own s)"

lemma own_id_update [simp]:
  "own_id (s\<lparr>ls_raw := raw\<rparr>) = own_id s" "own_id (s\<lparr>ls_buckets := bks\<rparr>) = own_id s"
  "own_id (s\<lparr>ls_daily := ds\<rparr>) = own_id s" "own_id (s\<lparr>ls_events := evs\<rparr>) = own_id s"
  "own_id (s\<lparr>ls_event_seq := k\<rparr>) = own_id s"
  by (simp_all add: own_id_def)

abbreviation RAW_RETAIN_HOURS :: int where "RAW_RETAIN_HOURS \<equiv> 2"
abbreviation BUCKET_5MIN_RETAIN_DAYS :: int where "BUCKET_5MIN_RETAIN_DAYS \<equiv> 30"
abbreviation BUCKET_5MIN_SECS :: int where "BUCKET_5MIN_SECS \<equiv> 300"
abbreviation BUCKET_1HOUR_SECS :: int where "BUCKET_1HOUR_SECS \<equiv> 3600"

section \<open>Unique keys\<close>

definition ev_key :: "event_row \<Rightarrow> node_id \<times> int \<times> json \<times> json option" where
  "ev_key e = (ev_peer e, ev_ts e, ev_event e, ev_detail e)"

definition sn_key :: "snap_row \<Rightarrow> node_id \<times> int" where
  "sn_key r = (sn_peer r, sn_ts r)"

definition bk_key :: "bucket_row \<Rightarrow> node_id \<times> int \<times> json" where
  "bk_key b = (bk_peer b, bk_start b, bk_size b)"

definition dy_key :: "daily_row \<Rightarrow> node_id \<times> string" where
  "dy_key d = (dy_peer d, dy_date d)"

definition insert_or_ignore :: "('r \<Rightarrow> 'k) \<Rightarrow> 'r \<Rightarrow> 'r list \<Rightarrow> 'r list" where
  "insert_or_ignore key r t = (if key r \<in> set (map key t) then t else t @ [r])"

definition insert_or_replace :: "('r \<Rightarrow> 'k) \<Rightarrow> 'r \<Rightarrow> 'r list \<Rightarrow> 'r list" where
  "insert_or_replace key r t = [x \<leftarrow> t. key x \<noteq> key r] @ [r]"

interpretation events_t: keyed_table ev_key "insert_or_ignore ev_key"
  by unfold_locales (auto simp: insert_or_ignore_def)

interpretation snaps_t: keyed_table sn_key "insert_or_ignore sn_key"
  by unfold_locales (auto simp: insert_or_ignore_def)

interpretation buckets_t: keyed_table bk_key "insert_or_ignore bk_key"
  by unfold_locales (auto simp: insert_or_ignore_def)

interpretation daily_t: keyed_table dy_key "insert_or_ignore dy_key"
  by unfold_locales (auto simp: insert_or_ignore_def)

section \<open>Events\<close>

text \<open>\<open>json.dumps(detail) if detail else None\<close>\<close>

definition dump_opt :: "json \<Rightarrow> json option" where
  "dump_opt d = (if truthy d then Some d else None)"

definition put_event :: "log_store \<Rightarrow> node_id \<Rightarrow> int \<Rightarrow> json \<Rightarrow> json option \<Rightarrow> log_store" where
  "put_event s peer ts ev detail =
     (let e = \<lparr>ev_id = Suc (ls_event_seq s), ev_peer = peer, ev_ts = ts, ev_event = ev,
               ev_detail = detail\<rparr> in
      if ev_key e \<in> set (map ev_key (ls_events s)) then s
      else s\<lparr>ls_events := insert_or_ignore ev_key e (ls_events s),
             ls_event_seq := Suc (ls_event_seq s)\<rparr>)"

definition record_event :: "log_store \<Rightarrow> instant \<Rightarrow> string \<Rightarrow> json \<Rightarrow> log_store" where
  "record_event s now event detail =
     put_event s (own_id s) (now div 1000) (JStr event) (dump_opt detail)"

record event_out =
  eo_id :: nat
  eo_ts :: instant
  eo_event :: json
  eo_detail :: json

text \<open>\<open>datetime.fromtimestamp(ms / 1000.0)\<close>\<close>

definition from_millis :: "int \<Rightarrow> instant res" where
  "from_millis ms =
     (if ms < -62135596800000 \<or> ms > 253402300799999 then Inl (ValueError ''year is out of range'')
      else if ms > 253402280999999 then Inl (OverflowError ''date value out of range'')
      else Inr (ms * 1000))"

definition event_to_out :: "event_row \<Rightarrow> event_out res" where
  "event_to_out e = rbind (from_millis (ev_ts e)) (\<lambda>t.
     Inr \<lparr>eo_id = ev_id e, eo_ts = t, eo_event = ev_event e,
          eo_detail = (case ev_detail e of None \<Rightarrow> JNull | Some d \<Rightarrow> d)\<rparr>)"

definition event_rows ::
  "log_store \<Rightarrow> instant option \<Rightarrow> instant option \<Rightarrow> int \<Rightarrow> node_id option \<Rightarrow> event_row list" where
  "event_rows s since_ts until_ts limit peer =
     (let since = (case since_ts of None \<Rightarrow> 0 | Some t \<Rightarrow> to_epoch t * 1000);
          until = (case until_ts of None \<Rightarrow> 9999999999999 | Some t \<Rightarrow> to_epoch t * 1000);
          nid = (case peer of None \<Rightarrow> own_id s | Some p \<Rightarrow> p) in
      sql_limit limit (sort_key ev_ts
        [e \<leftarrow> ls_events s. ev_peer e = nid \<and> since \<le> ev_ts e \<and> ev_ts e \<le> until]))"

definition get_events ::
  "log_store \<Rightarrow> instant option \<Rightarrow> instant option \<Rightarrow> int \<Rightarrow> node_id option \<Rightarrow> event_out list res" where
  "get_events s since_ts until_ts limit peer =
     rmap event_to_out (event_rows s since_ts until_ts limit peer)"

section \<open>Raw snapshots\<close>

text \<open>\<open>COALESCE(MAX(seq), 0)\<close> skips the rows without a number.\<close>

definition latest_seq :: "log_store \<Rightarrow> node_id \<Rightarrow> int" where
  "latest_seq s nid =
     (case sql_max (List.map_filter sn_seq [r \<leftarrow> ls_raw s. sn_peer r = nid]) of
        None \<Rightarrow> 0 | Some m \<Rightarrow> m)"

definition next_seq :: "log_store \<Rightarrow> node_id \<Rightarrow> int" where
  "next_seq s nid = latest_seq s nid + 1"

definition record_snapshot :: "log_store \<Rightarrow> instant \<Rightarrow> dict \<Rightarrow> log_store \<times> int" where
  "record_snapshot s now snap =
     (let own = own_id s; seq = next_seq s own;
          r = \<lparr>sn_peer = own, sn_ts = to_epoch now, sn_payload = snap, sn_seq = Some seq\<rparr> in
      (s\<lparr>ls_raw := insert_or_replace sn_key r (ls_raw s)\<rparr>, seq))"

definition get_raw_snapshots ::
  "log_store \<Rightarrow> instant option \<Rightarrow> instant option \<Rightarrow> node_id option \<Rightarrow> dict list" where
  "get_raw_snapshots s since_ts until_ts peer =
     (let since = (case since_ts of None \<Rightarrow> 0 | Some t \<Rightarrow> to_epoch t);
          until = (case until_ts of None \<Rightarrow> 9999999999 | Some t \<Rightarrow> to_epoch t);
          nid = (case peer of None \<Rightarrow> own_id s | Some p \<Rightarrow> p) in
      map sn_payload (sort_key sn_ts
        [r \<leftarrow> ls_raw s. sn_peer r = nid \<and> since \<le> sn_ts r \<and> sn_ts r \<le> until]))"

definition snapshots_for_peer ::
  "log_store \<Rightarrow> node_id \<Rightarrow> instant option \<Rightarrow> instant option \<Rightarrow> dict list" where
  "snapshots_for_peer s peer since until = get_raw_snapshots s since until (Some peer)"

definition delta_entry :: "int \<times> dict \<Rightarrow> json" where
  "delta_entry r = (case r of (n, snap) \<Rightarrow> JObj
     [(''seq'', JInt n), (''timestamp'', dget snap ''timestamp''),
      (''cpu_percent'', dget snap ''cpu_percent''), (''mem_percent'', dget snap ''mem_percent''),
      (''disk_percent'', dget snap ''disk_percent'')])"

definition seq_rows :: "log_store \<Rightarrow> node_id \<Rightarrow> int \<Rightarrow> (int \<times> dict) list" where
  "seq_rows s nid since = sort_key fst (List.map_filter
     (\<lambda>r. case sn_seq r of Some n \<Rightarrow> if sn_peer r = nid \<and> since < n then Some (n, sn_payload r) else None
                         | None \<Rightarrow> None) (ls_raw s))"

definition get_delta_since_seq ::
  "log_store \<Rightarrow> int \<Rightarrow> node_id option \<Rightarrow> int \<Rightarrow> int \<times> json list" where
  "get_delta_since_seq s since_seq peer max_entries =
     (let nid = (case peer of None \<Rightarrow> own_id s | Some p \<Rightarrow> p);
          latest = latest_seq s nid;
          effective_since = max since_seq (latest - max_entries) in
      (latest, map delta_entry (sql_limit max_entries (seq_rows s nid effective_since))))"

definition latest_snapshot :: "log_store \<Rightarrow> node_id option \<Rightarrow> dict option" where
  "latest_snapshot s peer =
     (let nid = (case peer of None \<Rightarrow> own_id s | Some p \<Rightarrow> p) in
      case rev (sort_key sn_ts [r \<leftarrow> ls_raw s. sn_peer r = nid]) of
        [] \<Rightarrow> None | r # _ \<Rightarrow> Some (sn_payload r))"

definition recent_snapshots :: "log_store \<Rightarrow> instant \<Rightarrow> int \<Rightarrow> node_id option \<Rightarrow> dict list" where
  "recent_snapshots s now minutes peer =
     (let nid = (case peer of None \<Rightarrow> own_id s | Some p \<Rightarrow> p);
          cutoff = to_epoch (now - usec (minutes * 60)) in
      map sn_payload (sort_key sn_ts [r \<leftarrow> ls_raw s. sn_peer r = nid \<and> cutoff \<le> sn_ts r]))"

definition recent_snapshots_for_peer :: "log_store \<Rightarrow> instant \<Rightarrow> node_id \<Rightarrow> int \<Rightarrow> dict list" where
  "recent_snapshots_for_peer s now peer hours = recent_snapshots s now (hours * 60) (Some peer)"

section \<open>Retention\<close>

definition prune_raw :: "int \<Rightarrow> snap_row list \<Rightarrow> snap_row list" where
  "prune_raw c rows = [r \<leftarrow> rows. \<not> sn_ts r < c]"

definition prune_buckets :: "int \<Rightarrow> bucket_row list \<Rightarrow> bucket_row list" where
  "prune_buckets c rows = [b \<leftarrow> rows. \<not> (bk_size b = JInt BUCKET_5MIN_SECS \<and> bk_start b < c)]"

definition ls_prune :: "log_store \<Rightarrow> instant \<Rightarrow> log_store \<times> nat \<times> nat" where
  "ls_prune s now =
     (let raw_cutoff = to_epoch (now - usec (RAW_RETAIN_HOURS * 3600));
          bucket_cutoff = to_epoch (now - usec (BUCKET_5MIN_RETAIN_DAYS * 86400));
          raw = prune_raw raw_cutoff (ls_raw s);
          bks = prune_buckets bucket_cutoff (ls_buckets s) in
      (s\<lparr>ls_raw := raw, ls_buckets := bks\<rparr>,
       length (ls_raw s) - length raw, length (ls_buckets s) - length bks))"

interpretation raw_retention: retention prune_raw "\<lambda>c r. sn_ts r < c"
  by unfold_locales (auto simp: prune_raw_def)

interpretation bucket_retention:
  retention prune_buckets "\<lambda>c b. bk_size b = JInt BUCKET_5MIN_SECS \<and> bk_start b < c"
  by unfold_locales (auto simp: prune_buckets_def)

section \<open>Migrations\<close>

text \<open>
  A table of an old database lacks the column \<open>peer_node_id\<close>; adding it gives every row this
  node's id. (Appending the column and filling it, and rebuilding the table with the wider key,
  leave the same rows.)
\<close>

datatype 'r db_table = Absent | Legacy "'r list" | Current "'r list"

text \<open>\<open>raw_snapshots\<close> comes with its \<open>rowid\<close>s.\<close>

record old_db =
  od_events :: "event_row db_table"
  od_raw :: "(int \<times> snap_row) db_table"
  od_raw_has_seq :: bool
  od_buckets :: "bucket_row db_table"
  od_daily :: "daily_row db_table"
  od_event_seq :: nat

fun add_peer_column :: "('r \<Rightarrow> 'r) \<Rightarrow> 'r db_table \<Rightarrow> 'r db_table" where
  "add_peer_column f Absent = Absent"
| "add_peer_column f (Legacy rows) = Current (map f rows)"
| "add_peer_column f (Current rows) = Current rows"

fun table_rows :: "'r db_table \<Rightarrow> 'r list" where
  "table_rows Absent = []"
| "table_rows (Legacy rows) = rows"
| "table_rows (Current rows) = rows"

text \<open>A rebuilt \<open>raw_snapshots\<close> copies (ts, payload) only, so \<open>seq\<close> is gone and the rows are
  numbered afresh.\<close>

fun rebuild_raw :: "string \<Rightarrow> (int \<times> snap_row) db_table \<Rightarrow> (int \<times> snap_row) db_table" where
  "rebuild_raw own (Legacy rows) =
     Current (map (\<lambda>(i, r). (int i, (snd r)\<lparr>sn_peer := own, sn_seq := None\<rparr>)) (enumerate 1 rows))"
| "rebuild_raw own t = t"

definition migrate_peer_node_id_column :: "string \<Rightarrow> old_db \<Rightarrow> old_db" where
  "migrate_peer_node_id_column own db =
     (let o' = (if own = [] then ''self'' else own) in
      db\<lparr>od_events := add_peer_column (\<lambda>e. e\<lparr>ev_peer := o'\<rparr>) (od_events db),
         od_raw_has_seq := (case od_raw db of Current _ \<Rightarrow> od_raw_has_seq db | _ \<Rightarrow> False),
         od_raw := rebuild_raw o' (od_raw db),
         od_buckets := add_peer_column (\<lambda>b. b\<lparr>bk_peer := o'\<rparr>) (od_buckets db),
         od_daily := add_peer_column (\<lambda>d. d\<lparr>dy_peer := o'\<rparr>) (od_daily db)\<rparr>)"

definition migrate_event_timestamps :: "event_row list \<Rightarrow> event_row list" where
  "migrate_event_timestamps rows =
     map (\<lambda>e. if 0 < ev_ts e \<and> ev_ts e < 100000000000 then e\<lparr>ev_ts := ev_ts e * 1000\<rparr> else e) rows"

text \<open>\<open>MIN(id)\<close> of each group stays.\<close>

definition migrate_event_dedupe :: "event_row list \<Rightarrow> event_row list" where
  "migrate_event_dedupe rows =
     [e \<leftarrow> rows. \<not> list_ex (\<lambda>f. ev_key f = ev_key e \<and> ev_id f < ev_id e) rows]"

definition migrate_snapshot_seq :: "node_id \<Rightarrow> (int \<times> snap_row) list \<Rightarrow> snap_row list" where
  "migrate_snapshot_seq own rows =
     map (\<lambda>(i, r). if sn_peer r = own \<and> sn_seq r = None then r\<lparr>sn_seq := Some i\<rparr> else r) rows"

definition open_log_store :: "string \<Rightarrow> old_db \<Rightarrow> log_store" where
  "open_log_store own db =
     (let db' = migrate_peer_node_id_column own db;
          raw = table_rows (od_raw db') in
      \<lparr>ls_own = own,
       ls_events = migrate_event_dedupe (migrate_event_timestamps (table_rows (od_events db'))),
       ls_event_seq = od_event_seq db',
       ls_raw = (if od_raw_has_seq db' then map snd raw
                 else migrate_snapshot_seq (if own = [] then ''self'' else own) raw),
       ls_buckets = table_rows (od_buckets db'),
       ls_daily = table_rows (od_daily db')\<rparr>)"

section \<open>Lemmas: events\<close>

lemma put_event_table:
  "\<exists>e. ev_key e = (peer, ts, ev, d)
      \<and> ls_events (put_event s peer ts ev d) = insert_or_ignore ev_key e (ls_events s)"
  by (rule exI[of _ "\<lparr>ev_id = Suc (ls_event_seq s), ev_peer = peer, ev_ts = ts, ev_event = ev, ev_detail = d\<rparr>"])
    (simp add: put_event_def ev_key_def insert_or_ignore_def Let_def)

lemma put_event_own [simp]: "ls_own (put_event s peer ts ev d) = ls_own s"
  by (simp add: put_event_def Let_def)

text \<open>Ids are unique and below the counter, and no event is stored twice.\<close>

definition events_ok :: "log_store \<Rightarrow> bool" where
  "events_ok s \<longleftrightarrow> distinct (map ev_key (ls_events s)) \<and> distinct (map ev_id (ls_events s))
     \<and> (\<forall>e \<in> set (ls_events s). ev_id e \<le> ls_event_seq s)"

lemma put_event_ok: "events_ok s \<Longrightarrow> events_ok (put_event s peer ts ev d)"
  by (fastforce simp: events_ok_def put_event_def insert_or_ignore_def Let_def)

lemma put_event_prefix: "take (length (ls_events s)) (ls_events (put_event s peer ts ev d)) = ls_events s"
  by (simp add: put_event_def insert_or_ignore_def Let_def)

lemma put_event_again: "put_event (put_event s peer ts ev d) peer ts ev d = put_event s peer ts ev d"
  by (simp add: put_event_def insert_or_ignore_def ev_key_def Let_def)

section \<open>Lemmas: snapshots and deltas\<close>

definition record_snapshots :: "log_store \<Rightarrow> (instant \<times> dict) list \<Rightarrow> log_store" where
  "record_snapshots s recs = foldl (\<lambda>s (now, snap). fst (record_snapshot s now snap)) s recs"

definition numbered_rows :: "log_store \<Rightarrow> (instant \<times> dict) list \<Rightarrow> snap_row list" where
  "numbered_rows s recs =
     map (\<lambda>(i, now, snap). \<lparr>sn_peer = own_id s, sn_ts = to_epoch now, sn_payload = snap,
                           sn_seq = Some (latest_seq s (own_id s) + 1 + int i)\<rparr>) (enumerate 0 recs)"

lemma record_snapshot_own [simp]: "own_id (fst (record_snapshot s now snap)) = own_id s"
  by (simp add: record_snapshot_def own_id_def Let_def)

lemma sql_max_append: "sql_max (xs @ ys) = (case (sql_max xs, sql_max ys) of
    (None, m) \<Rightarrow> m | (m, None) \<Rightarrow> m | (Some a, Some b) \<Rightarrow> Some (max a b))"
  by (induction xs) (auto split: option.splits simp: max.assoc)

lemma map_filter_append: "List.map_filter f (xs @ ys) = List.map_filter f xs @ List.map_filter f ys"
  by (simp add: List.map_filter_def)

lemma latest_seq_nonneg_or: "\<forall>r \<in> set (ls_raw s). \<forall>n. sn_peer r = p \<and> sn_seq r = Some n \<longrightarrow> n \<le> latest_seq s p"
proof (intro ballI allI impI)
  fix r n
  assume "r \<in> set (ls_raw s)" "sn_peer r = p \<and> sn_seq r = Some n"
  then have "n \<in> set (List.map_filter sn_seq [r \<leftarrow> ls_raw s. sn_peer r = p])"
    by (force simp: List.map_filter_def)
  then obtain m where "sql_max (List.map_filter sn_seq [r \<leftarrow> ls_raw s. sn_peer r = p]) = Some m" "n \<le> m"
    using sql_max_ge by blast
  then show "n \<le> latest_seq s p" by (simp add: latest_seq_def)
qed

lemma latest_seq_snoc:
  assumes "ls_raw s' = ls_raw s @ [r]" and "sn_peer r = p" and "sn_seq r = Some n" and "latest_seq s p \<le> n"
  shows "latest_seq s' p = n"
  using assms by (auto simp: latest_seq_def List.map_filter_def sql_max_append split: option.splits)

lemma numbered_rows_src:
  assumes "y \<in> set (numbered_rows s recs)"
  shows "\<exists>z \<in> set recs. sn_ts y = to_epoch (fst z)"
proof -
  from assms obtain p where p: "p \<in> set (enumerate 0 recs)" "sn_ts y = to_epoch (fst (snd p))"
    by (auto simp: numbered_rows_def split: prod.splits)
  then have "snd p \<in> set recs" by (metis enumerate_eq_zip in_set_zipE prod.collapse)
  with p(2) show ?thesis by blast
qed

lemma record_snapshots_rows:
  assumes "sorted_wrt (<) (map (to_epoch \<circ> fst) recs)"
    and "\<forall>r \<in> set (ls_raw s). \<forall>x \<in> set recs. sn_peer r = own_id s \<longrightarrow> sn_ts r < to_epoch (fst x)"
  shows "own_id (record_snapshots s recs) = own_id s
    \<and> ls_raw (record_snapshots s recs) = ls_raw s @ numbered_rows s recs
    \<and> latest_seq (record_snapshots s recs) (own_id s) = latest_seq s (own_id s) + int (length recs)"
  using assms
proof (induction recs rule: rev_induct)
  case Nil
  then show ?case by (simp add: record_snapshots_def numbered_rows_def)
next
  case (snoc x recs)
  obtain now snap where x: "x = (now, snap)" by (cases x)
  let ?s = "record_snapshots s recs"
  have IH: "own_id ?s = own_id s" "ls_raw ?s = ls_raw s @ numbered_rows s recs"
    "latest_seq ?s (own_id s) = latest_seq s (own_id s) + int (length recs)"
    using snoc by (auto simp: sorted_wrt_append)
  have rec: "record_snapshots s (recs @ [x]) = fst (record_snapshot ?s now snap)"
    by (simp add: record_snapshots_def x)
  let ?r = "\<lparr>sn_peer = own_id s, sn_ts = to_epoch now, sn_payload = snap,
             sn_seq = Some (latest_seq s (own_id s) + int (length recs) + 1)\<rparr>"
  have new: "sn_ts y < to_epoch now" if "y \<in> set (numbered_rows s recs)" for y
    using numbered_rows_src[OF that] snoc.prems(1) x by (auto simp: sorted_wrt_append)
  have fresh: "sn_key y \<noteq> (own_id s, to_epoch now)" if "y \<in> set (ls_raw ?s)" for y
    using that new[of y] snoc.prems(2) x unfolding IH(2) by (fastforce simp: sn_key_def)
  then have keep: "[y \<leftarrow> ls_raw ?s. sn_key y \<noteq> (own_id s, to_epoch now)] = ls_raw ?s"
    by (simp add: filter_id_conv)
  have raw: "ls_raw (record_snapshots s (recs @ [x])) = ls_raw ?s @ [?r]"
    using keep by (simp add: rec record_snapshot_def Let_def IH(1,3) next_seq_def insert_or_replace_def
        sn_key_def)
  have num: "numbered_rows s (recs @ [x]) = numbered_rows s recs @ [?r]"
    by (simp add: numbered_rows_def enumerate_append_eq x)
  have "latest_seq (record_snapshots s (recs @ [x])) (own_id s) = latest_seq s (own_id s) + int (length recs) + 1"
    using latest_seq_snoc[OF raw] IH(3) by simp
  then show ?case using raw num IH rec by simp
qed

lemma seq_rows_past:
  assumes "ls_raw s' = ls_raw s @ numbered_rows s recs"
  shows "seq_rows s' (own_id s) (latest_seq s (own_id s))
     = map (\<lambda>(i, now, snap). (latest_seq s (own_id s) + 1 + int i, snap)) (enumerate 0 recs)"
proof -
  let ?L = "latest_seq s (own_id s)"
  let ?f = "\<lambda>r. case sn_seq r of Some n \<Rightarrow> if sn_peer r = own_id s \<and> ?L < n then Some (n, sn_payload r) else None
                         | None \<Rightarrow> None"
  let ?new = "map (\<lambda>(i, now :: instant, snap). (?L + 1 + int i, snap :: dict)) (enumerate 0 recs)"
  have "filter (\<lambda>r. ?f r \<noteq> None) (ls_raw s) = []"
    using latest_seq_nonneg_or[of s "own_id s"]
    by (fastforce simp: filter_empty_conv split: option.splits)
  then have old: "List.map_filter ?f (ls_raw s) = []" by (simp add: List.map_filter_def)
  have new: "List.map_filter ?f (numbered_rows s recs) = ?new"
    by (auto simp: List.map_filter_def numbered_rows_def filter_map comp_def filter_id_conv
        split: prod.splits intro!: map_cong)
  have "map fst ?new = map (\<lambda>i. ?L + 1 + int i) [0..<length recs]"
    by (rule nth_equalityI) (auto simp: nth_enumerate_eq split: prod.splits)
  then have "sorted (map fst ?new)" by (simp add: sorted_map sorted_wrt_upt sorted_wrt_mono_rel[OF _ sorted_wrt_upt])
  moreover have "List.map_filter ?f (ls_raw s') = ?new"
    using old new by (simp add: assms map_filter_append)
  ultimately show ?thesis unfolding seq_rows_def by (simp only: sort_key_id_if_sorted)
qed

text \<open>
  No snapshot is lost between two pulls. A puller that asks with the last sequence number it
  was given receives exactly the snapshots recorded since, in order and numbered consecutively,
  when they were recorded in different seconds and are no more than \<open>max_entries\<close>.
\<close>

theorem delta_lists_new_snapshots:
  assumes "sorted_wrt (<) (map (to_epoch \<circ> fst) recs)"
    and "\<forall>r \<in> set (ls_raw s). \<forall>x \<in> set recs. sn_peer r = own_id s \<longrightarrow> sn_ts r < to_epoch (fst x)"
    and "int (length recs) \<le> max_entries"
  shows "get_delta_since_seq (record_snapshots s recs) (fst (get_delta_since_seq s since None max_entries)) None max_entries
    = (latest_seq s (own_id s) + int (length recs),
       map (\<lambda>(i, now, snap). delta_entry (latest_seq s (own_id s) + 1 + int i, snap)) (enumerate 0 recs))"
proof -
  let ?s = "record_snapshots s recs" and ?L = "latest_seq s (own_id s)"
  note rows = record_snapshots_rows[OF assms(1,2)]
  have "max ?L (?L + int (length recs) - max_entries) = ?L" using assms(3) by simp
  moreover have "length (seq_rows ?s (own_id s) ?L) \<le> nat max_entries"
    using seq_rows_past[of ?s s recs] rows assms(3) by simp
  ultimately show ?thesis
    using rows seq_rows_past[of ?s s recs] assms(3)
    by (auto simp: get_delta_since_seq_def Let_def sql_limit_def split: prod.splits intro!: map_cong)
qed

text \<open>
  The sequence numbers do not survive an empty table. When retention has deleted every
  snapshot of the node, the next one gets number 1 again, and a puller that still holds a
  sequence number of the past is given no entry for it.
\<close>

theorem prune_restarts_seq:
  assumes "\<forall>r \<in> set (ls_raw s). sn_peer r = own_id s \<longrightarrow> sn_ts r < to_epoch (t - usec 7200)"
    and "1 \<le> since" and "1 \<le> max_entries"
  shows "snd (record_snapshot (fst (ls_prune s t)) now snap) = 1
     \<and> get_delta_since_seq (fst (record_snapshot (fst (ls_prune s t)) now snap)) since None max_entries = (1, [])"
proof -
  let ?p = "fst (ls_prune s t)"
  let ?r = "\<lparr>sn_peer = own_id s, sn_ts = to_epoch now, sn_payload = snap, sn_seq = Some 1\<rparr>"
  have own: "own_id ?p = own_id s" by (simp add: ls_prune_def own_id_def Let_def)
  have none: "sn_peer r \<noteq> own_id s" if "r \<in> set (ls_raw ?p)" for r
    using that assms(1) by (auto simp: ls_prune_def prune_raw_def Let_def)
  then have empty: "[r \<leftarrow> ls_raw ?p. sn_peer r = own_id s] = []" by (simp add: filter_empty_conv)
  then have seq: "latest_seq ?p (own_id s) = 0" by (simp add: latest_seq_def List.map_filter_def)
  have "[y \<leftarrow> ls_raw ?p. sn_key y \<noteq> (own_id s, to_epoch now)] = ls_raw ?p"
    using none by (auto simp: filter_id_conv sn_key_def)
  then have raw: "ls_raw (fst (record_snapshot ?p now snap)) = ls_raw ?p @ [?r]"
    by (simp add: record_snapshot_def Let_def own next_seq_def seq insert_or_replace_def sn_key_def)
  then have latest: "latest_seq (fst (record_snapshot ?p now snap)) (own_id s) = 1"
    by (rule latest_seq_snoc) (simp_all add: seq)
  have "seq_rows (fst (record_snapshot ?p now snap)) (own_id s) (max since (1 - max_entries)) = []"
    using none assms(2) unfolding seq_rows_def raw
    by (auto simp: List.map_filter_def filter_empty_conv split: option.splits)
  moreover have "snd (record_snapshot ?p now snap) = 1"
    by (simp add: record_snapshot_def Let_def own next_seq_def seq)
  ultimately show ?thesis
    using latest own by (simp add: get_delta_since_seq_def Let_def sql_limit_def)
qed

section \<open>Lemmas: retention and migrations\<close>

text \<open>
  Retention keeps what the queries may still ask for. Pruning leaves every query for the last
  two hours or less unchanged, keeps all one-hour buckets, events and daily rows, and reports
  exactly the rows it deleted.
\<close>

theorem prune_keeps_recent:
  assumes "minutes \<le> 120" and "t \<le> now"
  shows "recent_snapshots (fst (ls_prune s t)) now minutes peer = recent_snapshots s now minutes peer
    \<and> ls_events (fst (ls_prune s t)) = ls_events s \<and> ls_daily (fst (ls_prune s t)) = ls_daily s
    \<and> [b \<leftarrow> ls_buckets (fst (ls_prune s t)). bk_size b = JInt BUCKET_1HOUR_SECS]
        = [b \<leftarrow> ls_buckets s. bk_size b = JInt BUCKET_1HOUR_SECS]
    \<and> length (ls_raw (fst (ls_prune s t))) + fst (snd (ls_prune s t)) = length (ls_raw s)
    \<and> length (ls_buckets (fst (ls_prune s t))) + snd (snd (ls_prune s t)) = length (ls_buckets s)"
proof -
  let ?c = "to_epoch (t - usec (RAW_RETAIN_HOURS * 3600))"
  let ?bc = "to_epoch (t - usec (BUCKET_5MIN_RETAIN_DAYS * 86400))"
  have le: "?c \<le> to_epoch (now - usec (minutes * 60))"
    using assms by (intro to_epoch_mono) (simp add: usec_def)
  have "[r \<leftarrow> prune_raw ?c (ls_raw s). sn_peer r = p \<and> to_epoch (now - usec (minutes * 60)) \<le> sn_ts r]
      = [r \<leftarrow> ls_raw s. sn_peer r = p \<and> to_epoch (now - usec (minutes * 60)) \<le> sn_ts r]" for p
    by (rule raw_retention.prune_query) (use le in auto)
  moreover have "[b \<leftarrow> prune_buckets ?bc (ls_buckets s). bk_size b = JInt BUCKET_1HOUR_SECS]
      = [b \<leftarrow> ls_buckets s. bk_size b = JInt BUCKET_1HOUR_SECS]"
    by (rule bucket_retention.prune_query) auto
  moreover note raw_retention.prune_length[of ?c "ls_raw s"] bucket_retention.prune_length[of ?bc "ls_buckets s"]
  ultimately show ?thesis
    by (cases peer) (simp_all add: ls_prune_def Let_def recent_snapshots_def own_id_def)
qed

lemma dedupe_distinct:
  assumes "distinct (map ev_id rows)"
  shows "distinct (map ev_key (migrate_event_dedupe rows))"
proof -
  have "inj_on ev_key (set (migrate_event_dedupe rows))"
  proof (rule inj_onI)
    fix e f
    assume ef: "e \<in> set (migrate_event_dedupe rows)" "f \<in> set (migrate_event_dedupe rows)" "ev_key e = ev_key f"
    then have "\<not> ev_id f < ev_id e" "\<not> ev_id e < ev_id f"
      by (auto simp: migrate_event_dedupe_def list_ex_iff)
    then have "ev_id e = ev_id f" by simp
    moreover have "e \<in> set rows" "f \<in> set rows" using ef by (auto simp: migrate_event_dedupe_def)
    ultimately show "e = f" using assms by (auto simp: distinct_map dest: inj_onD)
  qed
  moreover have "distinct (migrate_event_dedupe rows)"
    using assms by (simp add: distinct_map migrate_event_dedupe_def)
  ultimately show ?thesis by (simp add: distinct_map)
qed

lemma dedupe_keys: "ev_key ` set (migrate_event_dedupe rows) = ev_key ` set rows"
proof
  show "ev_key ` set (migrate_event_dedupe rows) \<subseteq> ev_key ` set rows"
    by (auto simp: migrate_event_dedupe_def)
  show "ev_key ` set rows \<subseteq> ev_key ` set (migrate_event_dedupe rows)"
  proof
    fix k
    assume "k \<in> ev_key ` set rows"
    then obtain e0 where e0: "e0 \<in> set rows \<and> ev_key e0 = k" by auto
    let ?e = "ARG_MIN ev_id e. e \<in> set rows \<and> ev_key e = k"
    have e: "?e \<in> set rows" "ev_key ?e = k"
      using arg_min_natI[of "\<lambda>e. e \<in> set rows \<and> ev_key e = k", OF e0, of ev_id] by auto
    have "\<not> ev_id f < ev_id ?e" if "f \<in> set rows" "ev_key f = k" for f
      using arg_min_nat_le[of "\<lambda>e. e \<in> set rows \<and> ev_key e = k" f ev_id] that by simp
    with e have "?e \<in> set (migrate_event_dedupe rows)"
      by (auto simp: migrate_event_dedupe_def list_ex_iff)
    with e(2) show "k \<in> ev_key ` set (migrate_event_dedupe rows)" by force
  qed
qed

lemma dedupe_idem: "migrate_event_dedupe (migrate_event_dedupe rows) = migrate_event_dedupe rows"
  by (auto simp: migrate_event_dedupe_def list_ex_iff intro!: filter_cong)

lemma timestamps_done:
  assumes "\<forall>e \<in> set rows. ev_ts e \<le> 0 \<or> 100000000 \<le> ev_ts e"
  shows "migrate_event_timestamps (migrate_event_dedupe (migrate_event_timestamps rows))
     = migrate_event_dedupe (migrate_event_timestamps rows)"
proof -
  have "ev_ts e \<le> 0 \<or> 100000000000 \<le> ev_ts e" if "e \<in> set (migrate_event_timestamps rows)" for e
    using that assms by (fastforce simp: migrate_event_timestamps_def split: if_splits)
  then show ?thesis
    unfolding migrate_event_timestamps_def[of "migrate_event_dedupe _"]
    by (intro map_idI) (force simp: migrate_event_dedupe_def)
qed

text \<open>The database as the next start finds it.\<close>

definition saved_db :: "log_store \<Rightarrow> old_db" where
  "saved_db s = \<lparr>od_events = Current (ls_events s), od_raw = Current (map (Pair 0) (ls_raw s)),
     od_raw_has_seq = True, od_buckets = Current (ls_buckets s), od_daily = Current (ls_daily s),
     od_event_seq = ls_event_seq s\<rparr>"

text \<open>
  Opening an old database migrates it once. After the first start no event is stored twice
  and every event of the old table is still there under its key; starting again finds nothing to
  change, provided no event time lies in the first 10^8 milliseconds or seconds after the epoch
  (such a time would be multiplied again).
\<close>

theorem migration_once:
  assumes "distinct (map ev_id (table_rows (od_events db)))"
    and "\<forall>e \<in> set (table_rows (od_events db)). ev_ts e \<le> 0 \<or> 100000000 \<le> ev_ts e"
  shows "open_log_store own (saved_db (open_log_store own db)) = open_log_store own db
    \<and> distinct (map ev_key (ls_events (open_log_store own db)))
    \<and> ev_key ` set (ls_events (open_log_store own db))
        = ev_key ` set (migrate_event_timestamps
            (table_rows (od_events (migrate_peer_node_id_column own db))))"
proof -
  let ?ev = "table_rows (od_events (migrate_peer_node_id_column own db))"
  have ts: "\<forall>e \<in> set ?ev. ev_ts e \<le> 0 \<or> 100000000 \<le> ev_ts e"
    using assms(2) by (cases "od_events db") (auto simp: migrate_peer_node_id_column_def Let_def)
  have "map ev_id ?ev = map ev_id (table_rows (od_events db))"
    by (cases "od_events db") (auto simp: migrate_peer_node_id_column_def Let_def)
  moreover have "map ev_id (migrate_event_timestamps rows) = map ev_id rows" for rows
    by (simp add: migrate_event_timestamps_def)
  ultimately have "distinct (map ev_id (migrate_event_timestamps ?ev))" using assms(1) by simp
  then have d: "distinct (map ev_key (migrate_event_dedupe (migrate_event_timestamps ?ev)))"
    by (rule dedupe_distinct)
  show ?thesis
    using d dedupe_keys timestamps_done[OF ts] dedupe_idem
    by (simp add: open_log_store_def saved_db_def Let_def migrate_peer_node_id_column_def comp_def)
qed

text \<open>A store with two snapshots, the second of which a puller has seen.\<close>

definition demo_snap :: "int \<Rightarrow> dict" where
  "demo_snap c = [(''timestamp'', JTime (Aware (usec 1700000000))), (''cpu_percent'', JInt c)]"

definition demo_ls :: log_store where
  "demo_ls = record_snapshots (new_log_store ''n1'')
     [(usec 1700000000, demo_snap 10), (usec 1700000010, demo_snap 20)]"

theorem delta_lists_new_snapshots_witness:
  "get_delta_since_seq (record_snapshots demo_ls [(usec 1700000020, demo_snap 30)])
     (fst (get_delta_since_seq demo_ls 0 None 360)) None 360 = (3, [delta_entry (3, demo_snap 30)])"
proof -
  have "latest_seq demo_ls (own_id demo_ls) = 2" by code_simp
  moreover have "\<forall>r \<in> set (ls_raw demo_ls). sn_ts r < 1700000020" by code_simp
  ultimately show ?thesis
    using delta_lists_new_snapshots[of "[(usec 1700000020, demo_snap 30)]" demo_ls 360 0] by simp
qed

theorem prune_restarts_seq_witness:
  "snd (record_snapshot (fst (ls_prune demo_ls (usec 1700007300))) (usec 1700007301) (demo_snap 5)) = 1
   \<and> get_delta_since_seq (fst (record_snapshot (fst (ls_prune demo_ls (usec 1700007300))) (usec 1700007301) (demo_snap 5)))
       2 None 360 = (1, [])"
proof -
  have "\<forall>r \<in> set (ls_raw demo_ls). sn_peer r = own_id demo_ls \<longrightarrow> sn_ts r < to_epoch (usec 1700007300 - usec 7200)"
    by code_simp
  from prune_restarts_seq[OF this, of 2 360] show ?thesis by simp
qed

theorem prune_keeps_recent_witness:
  "recent_snapshots (fst (ls_prune demo_ls (usec 1700007205))) (usec 1700007205) 120 None = [demo_snap 20]
   \<and> fst (snd (ls_prune demo_ls (usec 1700007205))) = 1"
proof -
  have "recent_snapshots demo_ls (usec 1700007205) 120 None = [demo_snap 20]" by code_simp
  moreover have "fst (snd (ls_prune demo_ls (usec 1700007205))) = 1" by code_simp
  ultimately show ?thesis
    using prune_keeps_recent[of 120 "usec 1700007205" "usec 1700007205" demo_ls None] by simp
qed

definition demo_old_db :: old_db where
  "demo_old_db = \<lparr>od_events = Legacy
       [\<lparr>ev_id = 1, ev_peer = [], ev_ts = 1700000000, ev_event = JStr EV_AGENT_STARTED, ev_detail = None\<rparr>,
        \<lparr>ev_id = 2, ev_peer = [], ev_ts = 1700000000, ev_event = JStr EV_AGENT_STARTED, ev_detail = None\<rparr>],
     od_raw = Absent, od_raw_has_seq = False, od_buckets = Absent, od_daily = Absent, od_event_seq = 2\<rparr>"

theorem migration_once_witness:
  "open_log_store ''n1'' (saved_db (open_log_store ''n1'' demo_old_db)) = open_log_store ''n1'' demo_old_db
   \<and> map ev_ts (ls_events (open_log_store ''n1'' demo_old_db)) = [1700000000000]"
proof -
  have "map ev_ts (ls_events (open_log_store ''n1'' demo_old_db)) = [1700000000000]" by code_simp
  then show ?thesis using migration_once[of demo_old_db "''n1''"] by (simp add: demo_old_db_def)
qed

end
