(* ===== verification/Rollup.thy ===== *)
theory Rollup
  imports Logstore
begin

text \<open>
  The roll-ups of src/logstore.py: raw snapshots into 5-minute buckets, these into 1-hour buckets,
  these into daily summaries. Numbers in the numeric columns are kept in one form (\<open>col_num\<close>),
  whole numbers as \<open>JInt\<close>.
\<close>

section \<open>Grouping\<close>

text \<open>\<open>d.setdefault(k, []).append(v)\<close>\<close>

fun group_add :: "('k \<times> 'v list) list \<Rightarrow> 'k \<Rightarrow> 'v \<Rightarrow> ('k \<times> 'v list) list" where
  "group_add [] k v = [(k, [v])]"
| "group_add ((k', vs) # d) k v = (if k = k' then (k', vs @ [v]) # d else (k', vs) # group_add d k v)"

definition group_rows :: "('r \<Rightarrow> 'k) \<Rightarrow> ('r \<Rightarrow> 'v) \<Rightarrow> 'r list \<Rightarrow> ('k \<times> 'v list) list" where
  "group_rows f g rows = foldl (\<lambda>d r. group_add d (f r) (g r)) [] rows"

lemma group_add_keys: "map fst (group_add d k v) = map fst d @ (if k \<in> fst ` set d then [] else [k])"
  by (induction d k v rule: group_add.induct) auto

lemma group_rows_snoc: "group_rows f g (rows @ [r]) = group_add (group_rows f g rows) (f r) (g r)"
  by (simp add: group_rows_def)

lemma group_rows_keys: "fst ` set (group_rows f g rows) = f ` set rows"
proof (induction rows rule: rev_induct)
  case Nil
  then show ?case by (simp add: group_rows_def)
next
  case (snoc r rows)
  have "fst ` set (group_rows f g (rows @ [r])) = set (map fst (group_add (group_rows f g rows) (f r) (g r)))"
    by (simp add: group_rows_snoc)
  also have "\<dots> = f ` set (rows @ [r])" using snoc by (auto simp: group_add_keys)
  finally show ?case .
qed

lemma group_rows_distinct: "distinct (map fst (group_rows f g rows))"
proof (induction rows rule: rev_induct)
  case Nil
  then show ?case by (simp add: group_rows_def)
next
  case (snoc r rows)
  then show ?case by (simp add: group_rows_snoc group_add_keys)
qed

lemma group_add_lookup:
  "map_of (group_add d k v) k' =
     (if k' = k then Some ((case map_of d k of None \<Rightarrow> [] | Some ws \<Rightarrow> ws) @ [v]) else map_of d k')"
  by (induction d k v rule: group_add.induct) auto

lemma group_rows_lookup:
  "map_of (group_rows f g rows) k =
     (if k \<in> f ` set rows then Some (map g [r \<leftarrow> rows. f r = k]) else None)"
proof (induction rows rule: rev_induct)
  case Nil
  then show ?case by (simp add: group_rows_def)
next
  case (snoc r rows)
  have "f r \<notin> f ` set rows \<Longrightarrow> [x \<leftarrow> rows. f x = f r] = []" unfolding filter_empty_conv by (metis image_eqI)
  with snoc show ?case by (auto simp: group_rows_snoc group_add_lookup)
qed

lemma group_rows_mem:
  "(k, vs) \<in> set (group_rows f g rows) \<longleftrightarrow> k \<in> f ` set rows \<and> vs = map g [r \<leftarrow> rows. f r = k]"
  using map_of_eq_Some_iff[OF group_rows_distinct, of f g rows k vs]
  by (auto simp: group_rows_lookup split: if_splits)

lemma group_rows_Nil [simp]: "group_rows f g [] = []"
  by (simp add: group_rows_def)

text \<open>Every row is in one group.\<close>

lemma group_add_total: "sum_list (map (length \<circ> snd) (group_add d k v)) = Suc (sum_list (map (length \<circ> snd) d))"
  by (induction d k v rule: group_add.induct) auto

lemma group_rows_total: "sum_list (map (length \<circ> snd) (group_rows f g rows)) = length rows"
  by (induction rows rule: rev_induct) (simp_all add: group_rows_snoc group_add_total del: map_map comp_apply)

section \<open>Aggregation\<close>

definition col_num :: "rat \<Rightarrow> json" where
  "col_num x = (if of_int \<lfloor>x\<rfloor> = x then JInt \<lfloor>x\<rfloor> else JNum x)"

definition col_opt :: "rat option \<Rightarrow> json" where
  "col_opt x = (case x of None \<Rightarrow> JNull | Some v \<Rightarrow> col_num v)"

definition need_number :: "json \<Rightarrow> rat res" where
  "need_number v = (case as_number v of
     None \<Rightarrow> Inl (TypeError ''unsupported operand type(s)'') | Some x \<Rightarrow> Inr x)"

text \<open>\<open>[s[key] for s in snaps if key in s]\<close>\<close>

definition snap_values :: "string \<Rightarrow> dict list \<Rightarrow> json list" where
  "snap_values key snaps = List.map_filter (\<lambda>s. map_of s key) snaps"

definition avg2 :: "rat list \<Rightarrow> rat option" where
  "avg2 xs = (if xs = [] then None else Some (round2 (sum_list xs / of_nat (length xs))))"

fun max_opt :: "rat list \<Rightarrow> rat option" where
  "max_opt [] = None"
| "max_opt (x # xs) = Some (foldl max x xs)"

definition net_delta :: "json list \<Rightarrow> rat option res" where
  "net_delta vals =
     (if 2 \<le> length vals then
        rbind (need_number (last vals)) (\<lambda>b. rbind (need_number (hd vals)) (\<lambda>a. Inr (Some (b - a))))
      else Inr None)"

definition aggregate_snaps :: "node_id \<Rightarrow> dict list \<Rightarrow> int \<Rightarrow> int \<Rightarrow> int \<Rightarrow> bucket_row res" where
  "aggregate_snaps own snaps window_start window_end bucket_size =
     rbind (net_delta (snap_values ''net_recv_bytes'' snaps)) (\<lambda>rx.
     rbind (net_delta (snap_values ''net_sent_bytes'' snaps)) (\<lambda>tx.
     rbind (from_epoch window_start) (\<lambda>_.
     rbind (from_epoch window_end) (\<lambda>_.
     rbind (rmap need_number (snap_values ''cpu_percent'' snaps)) (\<lambda>cpu.
     rbind (rmap need_number (snap_values ''mem_percent'' snaps)) (\<lambda>mem.
     rbind (rmap need_number (snap_values ''disk_percent'' snaps)) (\<lambda>disk.
       Inr \<lparr>bk_peer = own, bk_start = window_start, bk_end = window_end, bk_size = JInt bucket_size,
            bk_cpu_avg = col_opt (avg2 cpu), bk_cpu_max = col_opt (max_opt cpu),
            bk_mem_avg = col_opt (avg2 mem), bk_mem_max = col_opt (max_opt mem),
            bk_disk_avg = col_opt (avg2 disk), bk_rx = col_opt rx, bk_tx = col_opt tx,
            bk_samples = JInt (int (length snaps))\<rparr>)))))))"

section \<open>Five minutes\<close>

definition five_min_buckets :: "log_store \<Rightarrow> bucket_row list" where
  "five_min_buckets s = [b \<leftarrow> ls_buckets s. bk_peer b = own_id s \<and> bk_size b = JInt BUCKET_5MIN_SECS]"

definition roll_lower :: "log_store \<Rightarrow> int" where
  "roll_lower s = (case sql_max (map bk_end (five_min_buckets s)) of None \<Rightarrow> 0 | Some m \<Rightarrow> m)"

definition roll_cutoff :: "instant \<Rightarrow> int" where
  "roll_cutoff now = to_epoch now - to_epoch now mod BUCKET_5MIN_SECS"

definition window_start :: "int \<Rightarrow> int" where
  "window_start ts = (ts div BUCKET_5MIN_SECS) * BUCKET_5MIN_SECS"

definition put_bucket_row :: "bucket_row \<Rightarrow> bucket_row list \<times> nat \<Rightarrow> bucket_row list \<times> nat" where
  "put_bucket_row b acc = (case acc of (t, created) \<Rightarrow>
     (insert_or_ignore bk_key b t, if bk_key b \<in> set (map bk_key t) then created else created + 1))"

definition roll_window ::
  "node_id \<Rightarrow> bucket_row list \<times> nat \<Rightarrow> int \<times> dict list \<Rightarrow> (bucket_row list \<times> nat) res" where
  "roll_window own acc grp = (case grp of (w, snaps) \<Rightarrow>
     rbind (aggregate_snaps own snaps w (w + BUCKET_5MIN_SECS) BUCKET_5MIN_SECS)
       (\<lambda>b. Inr (put_bucket_row b acc)))"

text \<open>An exception inside the transaction rolls it back.\<close>

definition roll_up_5min :: "log_store \<Rightarrow> instant \<Rightarrow> log_store \<times> nat res" where
  "roll_up_5min s now =
     (let own = own_id s;
          rows = sort_key sn_ts [r \<leftarrow> ls_raw s. sn_peer r = own \<and> roll_lower s \<le> sn_ts r
                                   \<and> sn_ts r < roll_cutoff now];
          groups = group_rows (\<lambda>r. window_start (sn_ts r)) sn_payload rows in
      case rfold (roll_window own) (ls_buckets s, 0) groups of
        Inl e \<Rightarrow> (s, Inl e)
      | Inr (t, created) \<Rightarrow> (s\<lparr>ls_buckets := t\<rparr>, Inr created))"

section \<open>Hours\<close>

definition not_null :: "json list \<Rightarrow> json list" where
  "not_null vs = [v \<leftarrow> vs. v \<noteq> JNull]"

definition numbers_of :: "(bucket_row \<Rightarrow> json) \<Rightarrow> bucket_row list \<Rightarrow> rat list res" where
  "numbers_of col bs = rmap need_number (not_null (map col bs))"

definition hour_start :: "int \<Rightarrow> int" where
  "hour_start ws = (ws div BUCKET_1HOUR_SECS) * BUCKET_1HOUR_SECS"

definition roll_hour ::
  "node_id \<Rightarrow> bucket_row list \<times> nat \<Rightarrow> int \<times> bucket_row list \<Rightarrow> (bucket_row list \<times> nat) res" where
  "roll_hour own acc grp = (case grp of (h, subs) \<Rightarrow>
     rbind (rmap need_number (map bk_samples subs)) (\<lambda>smp.
     if sum_list smp = 0 then Inr acc else
     rbind (numbers_of bk_rx subs) (\<lambda>rx.
     rbind (numbers_of bk_tx subs) (\<lambda>tx.
     rbind (numbers_of bk_cpu_avg subs) (\<lambda>cpu.
     rbind (numbers_of bk_cpu_max subs) (\<lambda>cpum.
     rbind (numbers_of bk_mem_avg subs) (\<lambda>mem.
     rbind (numbers_of bk_mem_max subs) (\<lambda>memm.
     rbind (numbers_of bk_disk_avg subs) (\<lambda>disk.
       Inr (put_bucket_row
         \<lparr>bk_peer = own, bk_start = h, bk_end = h + BUCKET_1HOUR_SECS, bk_size = JInt BUCKET_1HOUR_SECS,
          bk_cpu_avg = col_opt (avg2 cpu), bk_cpu_max = col_opt (max_opt cpum),
          bk_mem_avg = col_opt (avg2 mem), bk_mem_max = col_opt (max_opt memm),
          bk_disk_avg = col_opt (avg2 disk), bk_rx = col_num (sum_list rx), bk_tx = col_num (sum_list tx),
          bk_samples = col_num (sum_list smp)\<rparr> acc))))))))))"

definition due_buckets :: "log_store \<Rightarrow> int \<Rightarrow> int \<Rightarrow> bucket_row list" where
  "due_buckets s sz cutoff = sort_key bk_start
     [b \<leftarrow> ls_buckets s. bk_peer b = own_id s \<and> bk_size b = JInt sz \<and> bk_start b \<le> cutoff]"

definition roll_hourly :: "log_store \<Rightarrow> instant \<Rightarrow> log_store \<times> nat res" where
  "roll_hourly s now =
     (let rows = due_buckets s BUCKET_5MIN_SECS (to_epoch (now - usec (24 * 3600)));
          groups = group_rows (\<lambda>b. hour_start (bk_start b)) (\<lambda>b. b) rows in
      case rfold (roll_hour (own_id s)) (ls_buckets s, 0) groups of
        Inl e \<Rightarrow> (s, Inl e)
      | Inr (t, created) \<Rightarrow> (s\<lparr>ls_buckets := t\<rparr>, Inr created))"

section \<open>Days\<close>

text \<open>Any exception while the day's events are read counts as no incident.\<close>

definition day_incidents :: "log_store \<Rightarrow> string \<Rightarrow> nat" where
  "day_incidents s date_key =
     (case parse_date False date_key of
        None \<Rightarrow> 0
      | Some d \<Rightarrow>
          (case get_events s (Some (usec (ist_midnight d))) (Some (usec (ist_midnight d + 86400))) 1000
                  (Some (own_id s)) of
             Inl _ \<Rightarrow> 0
           | Inr evs \<Rightarrow> length [e \<leftarrow> evs. eo_event e \<in> {JStr EV_CONTAINER_EXITED, JStr EV_CONTAINER_UNHEALTHY}]))"

definition roll_day ::
  "log_store \<Rightarrow> daily_row list \<times> nat \<Rightarrow> string \<times> bucket_row list \<Rightarrow> (daily_row list \<times> nat) res" where
  "roll_day s acc grp = (case grp of (date_key, bs) \<Rightarrow> case acc of (t, created) \<Rightarrow>
     rbind (numbers_of bk_cpu_avg bs) (\<lambda>cpus.
     rbind (numbers_of bk_mem_avg bs) (\<lambda>mems.
       let d = \<lparr>dy_peer = own_id s, dy_date = date_key, dy_uptime = JNull, dy_cpu = col_opt (avg2 cpus),
                dy_mem = col_opt (avg2 mems), dy_incidents = JInt (int (day_incidents s date_key))\<rparr> in
       Inr (insert_or_ignore dy_key d t, if dy_key d \<in> set (map dy_key t) then created else created + 1))))"

definition roll_daily :: "log_store \<Rightarrow> instant \<Rightarrow> log_store \<times> nat res" where
  "roll_daily s now =
     (let rows = due_buckets s BUCKET_1HOUR_SECS (to_epoch (now - usec (7 * 86400))) in
      case rmap (\<lambda>b. from_epoch (bk_start b)) rows of
        Inl e \<Rightarrow> (s, Inl e)
      | Inr _ \<Rightarrow>
          (case rfold (roll_day s) (ls_daily s, 0)
                  (group_rows (\<lambda>b. date_text (ist_day (bk_start b))) (\<lambda>b. b) rows) of
             Inl e \<Rightarrow> (s, Inl e)
           | Inr (t, created) \<Rightarrow> (s\<lparr>ls_daily := t\<rparr>, Inr created)))"

section \<open>Lemmas: aggregation\<close>

lemma aggregate_fields:
  "aggregate_snaps own snaps w e n = Inr b \<Longrightarrow>
     bk_peer b = own \<and> bk_start b = w \<and> bk_end b = e \<and> bk_size b = JInt n
     \<and> bk_samples b = JInt (int (length snaps))"
  by (auto simp: aggregate_snaps_def rbind_Inr_conv)

lemma foldl_max_ge: "(x :: rat) \<le> foldl max x xs \<and> (\<forall>y \<in> set xs. y \<le> foldl max x xs)"
proof (induction xs arbitrary: x)
  case Nil
  then show ?case by simp
next
  case (Cons y xs)
  from Cons[of "max x y"] show ?case by auto
qed

lemma foldl_max_mem: "foldl max (x :: rat) xs = x \<or> foldl max x xs \<in> set xs"
proof (induction xs arbitrary: x)
  case Nil
  then show ?case by simp
next
  case (Cons y xs)
  from Cons[of "max x y"] show ?case by (auto simp: max_def split: if_splits)
qed

lemma avg_le_max:
  assumes "\<forall>x \<in> set xs. hundredths x" and "avg2 xs = Some a" and "max_opt xs = Some m"
  shows "a \<le> m"
proof -
  from assms(3) obtain y ys where xs: "xs = y # ys" and m: "m = foldl max y ys"
    by (cases xs) auto
  have ub: "x \<le> m" if "x \<in> set xs" for x using that foldl_max_ge[of y ys] xs m by auto
  have "m \<in> set xs" using foldl_max_mem[of y ys] xs m by auto
  with assms(1) have "round2 m = m" by (simp add: round2_hundredths)
  moreover have "sum_list xs / of_nat (length xs) \<le> m"
  proof -
    have "sum_list (map (\<lambda>x. x) xs) \<le> sum_list (map (\<lambda>_. m) xs)"
      by (rule sum_list_mono) (use ub in auto)
    then show ?thesis using xs by (simp add: sum_list_triv divide_le_eq algebra_simps)
  qed
  ultimately show ?thesis using assms(2) xs round2_mono[of "sum_list xs / of_nat (length xs)" m]
    by (simp add: avg2_def)
qed

lemma as_number_col: "as_number (col_opt x) = x"
  by (cases x) (auto simp: col_opt_def col_num_def)

text \<open>
  A bucket's average does not exceed its maximum, when every recorded percentage is a whole
  number of hundredths, as the collector's \<open>round(x, 2)\<close> makes them (the average is rounded, the
  maximum is not, so without this it can). The bucket counts the snapshots it was made of.
\<close>

theorem aggregate_avg_le_max:
  assumes "aggregate_snaps own snaps w e n = Inr b"
    and "\<forall>v \<in> set (snap_values ''cpu_percent'' snaps). \<forall>x. as_number v = Some x \<longrightarrow> hundredths x"
  shows "bk_samples b = JInt (int (length snaps))
    \<and> (case (as_number (bk_cpu_avg b), as_number (bk_cpu_max b)) of
         (Some a, Some m) \<Rightarrow> a \<le> m
       | (a, m) \<Rightarrow> a = None \<and> m = None \<and> snap_values ''cpu_percent'' snaps = [])"
proof -
  from assms(1) obtain cpu where cpu: "rmap need_number (snap_values ''cpu_percent'' snaps) = Inr cpu"
    and b: "bk_cpu_avg b = col_opt (avg2 cpu)" "bk_cpu_max b = col_opt (max_opt cpu)"
    by (auto simp: aggregate_snaps_def rbind_Inr_conv)
  from cpu have l2: "list_all2 (\<lambda>v x. need_number v = Inr x) (snap_values ''cpu_percent'' snaps) cpu"
    by (simp add: rmap_Inr_conv)
  have "\<forall>x \<in> set cpu. hundredths x"
    using l2 assms(2)
    by (fastforce simp: list_all2_conv_all_nth in_set_conv_nth need_number_def split: option.splits)
  then have "a \<le> m" if "avg2 cpu = Some a" "max_opt cpu = Some m" for a m
    using that avg_le_max by blast
  then show ?thesis
    using aggregate_fields[OF assms(1)] l2 b
    by (cases cpu) (auto simp: as_number_col avg2_def)
qed

section \<open>Lemmas: five minutes\<close>

lemma roll_window_eval:
  "roll_window own acc (w, snaps) =
     rbind (aggregate_snaps own snaps w (w + BUCKET_5MIN_SECS) BUCKET_5MIN_SECS)
       (\<lambda>b. Inr (put_bucket_row b acc))"
  by (simp add: roll_window_def)

lemma roll_window_fold:
  assumes "distinct (map fst groups)"
    and "\<forall>(w, snaps) \<in> set groups. (own, w, JInt BUCKET_5MIN_SECS) \<notin> set (map bk_key t)"
    and "rfold (roll_window own) (t, n) groups = Inr (t', n')"
  shows "\<exists>bs. list_all2 (\<lambda>(w, snaps) b.
            aggregate_snaps own snaps w (w + BUCKET_5MIN_SECS) BUCKET_5MIN_SECS = Inr b) groups bs
          \<and> t' = t @ bs \<and> n' = n + length bs"
  using assms
proof (induction groups arbitrary: t n)
  case Nil
  then show ?case by simp
next
  case (Cons g groups)
  obtain w snaps where g: "g = (w, snaps)" by (cases g)
  obtain b where
    b: "aggregate_snaps own snaps w (w + BUCKET_5MIN_SECS) BUCKET_5MIN_SECS = Inr b"
    and rest: "rfold (roll_window own) (put_bucket_row b (t, n)) groups = Inr (t', n')"
    using Cons.prems(3)
    by (cases "aggregate_snaps own snaps w (w + BUCKET_5MIN_SECS) BUCKET_5MIN_SECS")
      (simp_all add: g roll_window_eval)
  have key: "bk_key b = (own, w, JInt BUCKET_5MIN_SECS)" using aggregate_fields[OF b] by (simp add: bk_key_def)
  then have put: "put_bucket_row b (t, n) = (t @ [b], n + 1)"
    using Cons.prems(2) by (simp add: g put_bucket_row_def insert_or_ignore_def)
  have "\<exists>bs. list_all2 (\<lambda>(w, snaps) b.
            aggregate_snaps own snaps w (w + BUCKET_5MIN_SECS) BUCKET_5MIN_SECS = Inr b) groups bs
          \<and> t' = (t @ [b]) @ bs \<and> n' = n + 1 + length bs"
  proof (rule Cons.IH)
    show "distinct (map fst groups)" using Cons.prems(1) by simp
    show "\<forall>(w, snaps) \<in> set groups. (own, w, JInt BUCKET_5MIN_SECS) \<notin> set (map bk_key (t @ [b]))"
      using Cons.prems(1,2) key by (force simp: g)
    show "rfold (roll_window own) (t @ [b], n + 1) groups = Inr (t', n')" using rest put by simp
  qed
  then obtain bs where "list_all2 (\<lambda>(w, snaps) b.
            aggregate_snaps own snaps w (w + BUCKET_5MIN_SECS) BUCKET_5MIN_SECS = Inr b) groups bs"
    "t' = (t @ [b]) @ bs" "n' = n + 1 + length bs" by blast
  with b g show ?case by (intro exI[of _ "b # bs"]) simp
qed

text \<open>What the roll-up keeps between its runs: \<open>roll_ok s\<close>.\<close>

definition own_snaps :: "log_store \<Rightarrow> snap_row list" where
  "own_snaps s = [r \<leftarrow> ls_raw s. sn_peer r = own_id s]"

definition in_window :: "int \<Rightarrow> int \<Rightarrow> bool" where
  "in_window w ts \<longleftrightarrow> w \<le> ts \<and> ts < w + BUCKET_5MIN_SECS"

definition window_count :: "log_store \<Rightarrow> int \<Rightarrow> nat" where
  "window_count s w = length [r \<leftarrow> own_snaps s. in_window w (sn_ts r)]"

definition bucket_exact :: "log_store \<Rightarrow> bucket_row \<Rightarrow> bool" where
  "bucket_exact s b \<longleftrightarrow> 300 dvd bk_start b \<and> bk_end b = bk_start b + BUCKET_5MIN_SECS
     \<and> bk_samples b = JInt (int (window_count s (bk_start b)))"

definition roll_ok :: "log_store \<Rightarrow> bool" where
  "roll_ok s \<longleftrightarrow> distinct (map bk_key (ls_buckets s)) \<and> 0 \<le> roll_lower s
     \<and> (\<forall>b \<in> set (five_min_buckets s). bucket_exact s b)
     \<and> (\<forall>r \<in> set (own_snaps s). sn_ts r < roll_lower s \<longrightarrow>
           window_start (sn_ts r) \<in> bk_start ` set (five_min_buckets s))"

lemma window_start_iff: "300 dvd w \<Longrightarrow> window_start ts = w \<longleftrightarrow> in_window w ts"
  by (auto simp: window_start_def in_window_def dvd_def)

lemma window_start_between:
  assumes "300 dvd l" and "300 dvd c" and "l \<le> ts" and "ts < c"
  shows "l \<le> window_start ts \<and> window_start ts + BUCKET_5MIN_SECS \<le> c"
proof -
  obtain a d where ad: "l = 300 * a" "c = 300 * d" using assms(1,2) by (auto simp: dvd_def)
  define q where "q = ts div 300"
  have "a \<le> q" "q < d" using assms(3,4) unfolding ad q_def by linarith+
  then show ?thesis unfolding ad window_start_def q_def[symmetric] by linarith
qed

lemma window_start_dvd: "300 dvd window_start ts"
  by (simp add: window_start_def)

lemma roll_lower_ge: "b \<in> set (five_min_buckets s) \<Longrightarrow> bk_end b \<le> roll_lower s"
  using sql_max_ge[of "bk_end b" "map bk_end (five_min_buckets s)"] by (auto simp: roll_lower_def)

lemma roll_lower_dvd: "roll_ok s \<Longrightarrow> 300 dvd roll_lower s"
  by (auto simp: roll_ok_def roll_lower_def sql_max_Some bucket_exact_def split: option.splits)

lemma roll_cutoff_dvd: "300 dvd roll_cutoff now"
  by (simp add: roll_cutoff_def dvd_minus_mod)

lemma roll_5min_Inr:
  assumes "roll_ok s" and "roll_up_5min s now = (s', Inr n)"
  shows "\<exists>bs. s' = s\<lparr>ls_buckets := ls_buckets s @ bs\<rparr> \<and> n = length bs
    \<and> distinct (map bk_start bs)
    \<and> (\<forall>b \<in> set bs. bk_peer b = own_id s \<and> bk_size b = JInt BUCKET_5MIN_SECS \<and> bucket_exact s b
          \<and> roll_lower s \<le> bk_start b \<and> bk_end b \<le> roll_cutoff now)
    \<and> bk_start ` set bs = (\<lambda>r. window_start (sn_ts r)) `
        {r \<in> set (own_snaps s). roll_lower s \<le> sn_ts r \<and> sn_ts r < roll_cutoff now}"
proof -
  let ?own = "own_id s"
  define rows where "rows = sort_key sn_ts [r \<leftarrow> ls_raw s. sn_peer r = ?own \<and> roll_lower s \<le> sn_ts r
                                   \<and> sn_ts r < roll_cutoff now]"
  define groups where "groups = group_rows (\<lambda>r. window_start (sn_ts r)) sn_payload rows"
  have lower: "300 dvd roll_lower s" using assms(1) by (rule roll_lower_dvd)
  have setrows: "set rows = {r \<in> set (own_snaps s). roll_lower s \<le> sn_ts r \<and> sn_ts r < roll_cutoff now}"
    by (auto simp: rows_def own_snaps_def)
  have win: "roll_lower s \<le> w \<and> w + BUCKET_5MIN_SECS \<le> roll_cutoff now"
    if "w \<in> (\<lambda>r. window_start (sn_ts r)) ` set rows" for w
  proof -
    from that obtain r where r: "r \<in> set rows" "w = window_start (sn_ts r)" by auto
    show ?thesis unfolding r(2)
      by (rule window_start_between[OF lower roll_cutoff_dvd]) (use r(1) setrows in auto)
  qed
  have keys: "fst ` set groups = (\<lambda>r. window_start (sn_ts r)) ` set rows"
    by (simp add: groups_def group_rows_keys)
  have fresh: "(?own, w, JInt BUCKET_5MIN_SECS) \<notin> set (map bk_key (ls_buckets s))" if "(w, snaps) \<in> set groups" for w snaps
  proof
    assume "(?own, w, JInt BUCKET_5MIN_SECS) \<in> set (map bk_key (ls_buckets s))"
    then obtain b where "b \<in> set (five_min_buckets s)" "bk_start b = w"
      by (auto simp: bk_key_def five_min_buckets_def)
    moreover from this have "bk_end b = w + BUCKET_5MIN_SECS"
      using assms(1) by (auto simp: roll_ok_def bucket_exact_def)
    moreover have "roll_lower s \<le> w" using win that keys by force
    ultimately show False using roll_lower_ge by fastforce
  qed
  from assms(2) obtain t where t: "rfold (roll_window ?own) (ls_buckets s, 0) groups = Inr (t, n)"
    and s': "s' = s\<lparr>ls_buckets := t\<rparr>"
    by (auto simp: roll_up_5min_def Let_def rows_def groups_def split: sum.splits prod.splits)
  have "\<exists>bs. list_all2 (\<lambda>(w, snaps) b.
            aggregate_snaps ?own snaps w (w + BUCKET_5MIN_SECS) BUCKET_5MIN_SECS = Inr b) groups bs
          \<and> t = ls_buckets s @ bs \<and> n = 0 + length bs"
    by (rule roll_window_fold[OF _ _ t]) (use fresh in \<open>auto simp: groups_def group_rows_distinct\<close>)
  then obtain bs where bs: "list_all2 (\<lambda>(w, snaps) b.
            aggregate_snaps ?own snaps w (w + BUCKET_5MIN_SECS) BUCKET_5MIN_SECS = Inr b) groups bs"
    and tn: "t = ls_buckets s @ bs" "n = length bs" by auto
  have starts: "map bk_start bs = map fst groups"
    using bs aggregate_fields by (induction rule: list_all2_induct) (auto split: prod.splits)
  have one: "bk_peer b = ?own \<and> bk_size b = JInt BUCKET_5MIN_SECS \<and> bucket_exact s b" if "b \<in> set bs" for b
  proof -
    from that bs obtain w snaps where g: "(w, snaps) \<in> set groups"
      and a: "aggregate_snaps ?own snaps w (w + BUCKET_5MIN_SECS) BUCKET_5MIN_SECS = Inr b"
      by (auto simp: list_all2_conv_all_nth in_set_conv_nth split: prod.splits) (metis prod.collapse)
    from g have w: "w \<in> (\<lambda>r. window_start (sn_ts r)) ` set rows"
      and sn: "snaps = map sn_payload [r \<leftarrow> rows. window_start (sn_ts r) = w]"
      by (auto simp: groups_def group_rows_mem)
    have d: "300 dvd w" using w window_start_dvd by auto
    have "length [r \<leftarrow> rows. window_start (sn_ts r) = w] = window_count s w"
    proof -
      have "mset rows = mset [r \<leftarrow> ls_raw s. sn_peer r = ?own \<and> roll_lower s \<le> sn_ts r \<and> sn_ts r < roll_cutoff now]"
        by (simp add: rows_def)
      then have "length [r \<leftarrow> rows. window_start (sn_ts r) = w]
          = length [r \<leftarrow> [r \<leftarrow> ls_raw s. sn_peer r = ?own \<and> roll_lower s \<le> sn_ts r \<and> sn_ts r < roll_cutoff now].
                     window_start (sn_ts r) = w]"
        by (rule length_filter_mset)
      also have "[r \<leftarrow> [r \<leftarrow> ls_raw s. sn_peer r = ?own \<and> roll_lower s \<le> sn_ts r \<and> sn_ts r < roll_cutoff now].
                     window_start (sn_ts r) = w] = [r \<leftarrow> own_snaps s. in_window w (sn_ts r)]"
        unfolding own_snaps_def filter_filter window_start_iff[OF d] in_window_def
        by (rule filter_cong[OF refl]) (use win[OF w] in linarith)
      finally have "length [r \<leftarrow> rows. window_start (sn_ts r) = w] = window_count s w"
        by (simp add: window_count_def)
      then show ?thesis by assumption
    qed
    then show ?thesis using aggregate_fields[OF a] d sn by (simp add: bucket_exact_def)
  qed
  have "bk_start b \<in> (\<lambda>r. window_start (sn_ts r)) ` set rows" if "b \<in> set bs" for b
    using that starts keys by (metis image_set imageI)
  then have rng: "roll_lower s \<le> bk_start b \<and> bk_end b \<le> roll_cutoff now" if "b \<in> set bs" for b
    using that win one by (auto simp: bucket_exact_def)
  have "distinct (map bk_start bs)" by (simp add: starts groups_def group_rows_distinct)
  moreover have "bk_start ` set bs = (\<lambda>r. window_start (sn_ts r)) ` set rows"
    using starts keys by (metis image_set)
  ultimately show ?thesis
    using s' tn one rng by (intro exI[of _ bs]) (simp add: setrows)
qed

lemma roll_lower_append:
  assumes "five_min_buckets s' = five_min_buckets s @ bs" and "\<forall>b \<in> set bs. roll_lower s \<le> bk_end b"
  shows "roll_lower s \<le> roll_lower s'"
proof (cases "sql_max (map bk_end bs)")
  case None
  then show ?thesis by (auto simp: roll_lower_def assms(1) sql_max_append split: option.splits)
next
  case (Some m)
  then obtain b where "b \<in> set bs" "bk_end b = m" by (auto simp: sql_max_Some)
  with assms(2) have "roll_lower s \<le> m" by auto
  with Some show ?thesis by (auto simp: roll_lower_def assms(1) sql_max_append split: option.splits)
qed

lemma roll_5min_ok:
  assumes "roll_ok s"
  shows "roll_ok (fst (roll_up_5min s now))"
proof (cases "roll_up_5min s now")
  case (Pair s' r)
  show ?thesis
  proof (cases r)
    case (Inl e)
    with Pair have "s' = s" by (auto simp: roll_up_5min_def Let_def split: sum.splits prod.splits)
    with Pair assms show ?thesis by simp
  next
    case (Inr n)
    with Pair roll_5min_Inr[OF assms] obtain bs where
      s': "s' = s\<lparr>ls_buckets := ls_buckets s @ bs\<rparr>" and d: "distinct (map bk_start bs)"
      and bs: "\<forall>b \<in> set bs. bk_peer b = own_id s \<and> bk_size b = JInt BUCKET_5MIN_SECS \<and> bucket_exact s b
          \<and> roll_lower s \<le> bk_start b \<and> bk_end b \<le> roll_cutoff now"
      and st: "bk_start ` set bs = (\<lambda>r. window_start (sn_ts r)) `
        {r \<in> set (own_snaps s). roll_lower s \<le> sn_ts r \<and> sn_ts r < roll_cutoff now}" by blast
    have own: "own_id s' = own_id s" by (simp add: s' own_id_def)
    have snaps: "own_snaps s' = own_snaps s" by (simp add: own_snaps_def own s')
    have five: "five_min_buckets s' = five_min_buckets s @ bs"
      using bs by (auto simp: five_min_buckets_def own s' filter_id_conv)
    have exact: "bucket_exact s' b \<longleftrightarrow> bucket_exact s b" for b
      by (simp add: bucket_exact_def window_count_def snaps)
    have lower: "roll_lower s \<le> roll_lower s'"
      by (rule roll_lower_append[OF five]) (use bs in \<open>fastforce simp: bucket_exact_def\<close>)
    have keys: "distinct (map bk_key (ls_buckets s'))"
    proof -
      have "distinct (map bk_key bs)"
        using d by (auto simp: distinct_map bk_key_def inj_on_def)
      moreover have "bk_key b \<noteq> bk_key b'" if "b \<in> set bs" "b' \<in> set (ls_buckets s)" for b b'
      proof
        assume "bk_key b = bk_key b'"
        with that bs have "b' \<in> set (five_min_buckets s)" "bk_start b' = bk_start b"
          by (auto simp: bk_key_def five_min_buckets_def)
        moreover from this have "bk_end b' = bk_start b + 300"
          using assms by (auto simp: roll_ok_def bucket_exact_def)
        ultimately show False using roll_lower_ge[of b' s] bs that(1) by fastforce
      qed
      ultimately show ?thesis using assms by (force simp: s' roll_ok_def)
    qed
    have cover: "window_start (sn_ts r) \<in> bk_start ` set (five_min_buckets s')"
      if r: "r \<in> set (own_snaps s)" "sn_ts r < roll_lower s'" for r
    proof (cases "sn_ts r < roll_lower s")
      case True
      with assms r show ?thesis by (auto simp: roll_ok_def five)
    next
      case False
      have "roll_lower s' \<le> max (roll_lower s) (roll_cutoff now)"
        using assms bs unfolding roll_lower_def[of s'] five
        by (auto simp: sql_max_Some le_max_iff_disj dest: roll_lower_ge split: option.splits
            simp: roll_ok_def)
      with False r have "r \<in> {r \<in> set (own_snaps s). roll_lower s \<le> sn_ts r \<and> sn_ts r < roll_cutoff now}"
        by auto
      then have "window_start (sn_ts r) \<in> bk_start ` set bs" unfolding st by blast
      then show ?thesis by (auto simp: five)
    qed
    show ?thesis
      unfolding Pair fst_conv roll_ok_def
      using keys cover lower assms bs by (auto simp: five exact snaps roll_ok_def)
  qed
qed

text \<open>The collector's job and the roll-up job, in any order, each at its own time.\<close>

datatype ls_op = Snap instant dict | Roll5 instant

fun op_time :: "ls_op \<Rightarrow> instant" where
  "op_time (Snap t _) = t"
| "op_time (Roll5 t) = t"

fun run_ls_op :: "log_store \<Rightarrow> ls_op \<Rightarrow> log_store" where
  "run_ls_op s (Snap t d) = fst (record_snapshot s t d)"
| "run_ls_op s (Roll5 t) = fst (roll_up_5min s t)"

definition run_ls :: "log_store \<Rightarrow> ls_op list \<Rightarrow> log_store" where
  "run_ls s ops = foldl run_ls_op s ops"

lemma record_snapshot_ok:
  assumes "roll_ok s" and "roll_lower s \<le> to_epoch now"
  shows "roll_ok (fst (record_snapshot s now snap))
    \<and> roll_lower (fst (record_snapshot s now snap)) = roll_lower s"
proof -
  let ?s' = "fst (record_snapshot s now snap)" and ?e = "to_epoch now"
  define r where "r = \<lparr>sn_peer = own_id s, sn_ts = ?e, sn_payload = snap, sn_seq = Some (next_seq s (own_id s))\<rparr>"
  have r: "sn_peer r = own_id s" "sn_ts r = ?e"
    and raw: "ls_raw ?s' = [x \<leftarrow> ls_raw s. sn_key x \<noteq> (own_id s, ?e)] @ [r]"
    and bks: "ls_buckets ?s' = ls_buckets s"
    by (simp_all add: r_def record_snapshot_def Let_def insert_or_replace_def sn_key_def)
  have five: "five_min_buckets ?s' = five_min_buckets s" by (simp add: five_min_buckets_def bks)
  then have lower: "roll_lower ?s' = roll_lower s" by (simp add: roll_lower_def)
  have snaps: "own_snaps ?s' = [x \<leftarrow> own_snaps s. sn_ts x \<noteq> ?e] @ [r]"
    unfolding own_snaps_def raw record_snapshot_own
    by (simp add: r) (auto simp: sn_key_def intro!: filter_cong)
  have count: "window_count ?s' w = window_count s w" if "w + BUCKET_5MIN_SECS \<le> roll_lower s" for w
  proof -
    have "[x \<leftarrow> own_snaps ?s'. in_window w (sn_ts x)] = [x \<leftarrow> own_snaps s. in_window w (sn_ts x)]"
      using that assms(2) unfolding snaps by (auto simp: r in_window_def intro!: filter_cong)
    then show ?thesis by (simp add: window_count_def)
  qed
  have "bucket_exact ?s' b" if "b \<in> set (five_min_buckets s)" for b
  proof -
    have "bucket_exact s b" using assms(1) that by (simp add: roll_ok_def)
    moreover have "bk_start b + BUCKET_5MIN_SECS \<le> roll_lower s"
      using roll_lower_ge[OF that] calculation by (simp add: bucket_exact_def)
    ultimately show ?thesis by (simp add: bucket_exact_def count)
  qed
  then show ?thesis
    using assms lower five bks by (auto simp: roll_ok_def snaps r)
qed

lemma roll_5min_lower:
  assumes "roll_ok s" and "roll_lower s \<le> to_epoch now"
  shows "roll_lower (fst (roll_up_5min s now)) \<le> to_epoch now"
proof (cases "roll_up_5min s now")
  case (Pair s' r)
  show ?thesis
  proof (cases r)
    case (Inl e)
    with Pair have "s' = s" by (auto simp: roll_up_5min_def Let_def split: sum.splits prod.splits)
    with Pair assms show ?thesis by simp
  next
    case (Inr n)
    with Pair have "roll_up_5min s now = (s', Inr n)" by simp
    from roll_5min_Inr[OF assms(1) this] obtain bs where
      s': "s' = s\<lparr>ls_buckets := ls_buckets s @ bs\<rparr>"
      and bs: "\<forall>b \<in> set bs. bk_peer b = own_id s \<and> bk_size b = JInt BUCKET_5MIN_SECS \<and> bk_end b \<le> roll_cutoff now"
      by auto
    have five: "five_min_buckets s' = five_min_buckets s @ bs"
      using bs by (auto simp: five_min_buckets_def s' filter_id_conv)
    have cut: "roll_cutoff now \<le> to_epoch now" by (simp add: roll_cutoff_def)
    have "bk_end b \<le> to_epoch now" if "b \<in> set (five_min_buckets s')" for b
      using that bs cut assms(2) roll_lower_ge[of b s] unfolding five by fastforce
    moreover have "0 \<le> to_epoch now" using assms by (simp add: roll_ok_def)
    ultimately show ?thesis
      unfolding Pair by (auto simp: roll_lower_def sql_max_Some split: option.splits)
  qed
qed

lemma run_ls_ok:
  assumes "roll_ok s" and "sorted (map op_time ops)" and "\<forall>x \<in> set ops. roll_lower s \<le> to_epoch (op_time x)"
  shows "roll_ok (run_ls s ops)"
  using assms
proof (induction ops arbitrary: s)
  case Nil
  then show ?case by (simp add: run_ls_def)
next
  case (Cons x ops)
  have ok: "roll_ok (run_ls_op s x)"
    using Cons.prems record_snapshot_ok roll_5min_ok by (cases x) auto
  have "roll_lower (run_ls_op s x) \<le> to_epoch (op_time x)"
    using Cons.prems record_snapshot_ok roll_5min_lower by (cases x) auto
  then have "roll_lower (run_ls_op s x) \<le> to_epoch (op_time y)" if "y \<in> set ops" for y
    using Cons.prems(2) that to_epoch_mono[of "op_time x" "op_time y"] by auto
  with Cons ok show ?case by (simp add: run_ls_def)
qed

lemma roll_ok_new: "roll_ok (new_log_store own)"
  by (simp add: roll_ok_def new_log_store_def five_min_buckets_def roll_lower_def own_snaps_def)


text \<open>
  Rolling up again creates nothing. A second 5-minute roll-up within the same five minutes
  (or one whose clock went back) succeeds, creates no bucket and changes nothing.
\<close>

theorem roll_up_5min_idempotent:
  assumes "sorted (map op_time ops)" and "\<forall>x \<in> set ops. 0 \<le> op_time x"
    and "roll_up_5min (run_ls (new_log_store own) ops) now = (s', Inr n)"
    and "to_epoch again \<le> to_epoch now"
  shows "roll_up_5min s' again = (s', Inr 0)"
proof -
  let ?s = "run_ls (new_log_store own) ops"
  have "roll_lower (new_log_store own) = 0"
    by (simp add: new_log_store_def five_min_buckets_def roll_lower_def)
  then have ok: "roll_ok ?s"
    using run_ls_ok[OF roll_ok_new assms(1)] assms(2) to_epoch_mono[of 0] by (simp add: to_epoch_def)
  obtain bs where s': "s' = ?s\<lparr>ls_buckets := ls_buckets ?s @ bs\<rparr>"
    and bs: "\<forall>b \<in> set bs. bk_peer b = own_id ?s \<and> bk_size b = JInt BUCKET_5MIN_SECS \<and> bucket_exact ?s b
        \<and> roll_lower ?s \<le> bk_start b"
    and st: "bk_start ` set bs = (\<lambda>r. window_start (sn_ts r)) `
        {r \<in> set (own_snaps ?s). roll_lower ?s \<le> sn_ts r \<and> sn_ts r < roll_cutoff now}"
    using roll_5min_Inr[OF ok assms(3)] by auto
  have five: "five_min_buckets s' = five_min_buckets ?s @ bs"
    using bs by (auto simp: five_min_buckets_def s' filter_id_conv)
  have cut: "roll_cutoff again \<le> roll_cutoff now"
    using assms(4) by (simp add: roll_cutoff_def minus_mod_eq_mult_div zdiv_mono1)
  have "\<not> (roll_lower s' \<le> sn_ts r \<and> sn_ts r < roll_cutoff again)" if "r \<in> set (own_snaps ?s)" for r
  proof
    assume a: "roll_lower s' \<le> sn_ts r \<and> sn_ts r < roll_cutoff again"
    have low: "roll_lower ?s \<le> roll_lower s'"
      by (rule roll_lower_append[OF five]) (use bs in \<open>fastforce simp: bucket_exact_def\<close>)
    then have "window_start (sn_ts r) \<in> bk_start ` set bs" unfolding st using a cut that by auto
    then obtain b where b: "b \<in> set bs" "bk_start b = window_start (sn_ts r)" by auto
    then have "sn_ts r < bk_end b"
      using bs window_start_iff[of "bk_start b" "sn_ts r"] by (auto simp: bucket_exact_def in_window_def)
    moreover have "bk_end b \<le> roll_lower s'" using roll_lower_ge[of b s'] b(1) five by simp
    ultimately show False using a by simp
  qed
  then have "[r \<leftarrow> ls_raw s'. sn_peer r = own_id s' \<and> roll_lower s' \<le> sn_ts r \<and> sn_ts r < roll_cutoff again] = []"
    by (auto simp: filter_empty_conv s' own_snaps_def)
  then show ?thesis by (simp add: roll_up_5min_def Let_def)
qed

section \<open>Lemmas: hours\<close>

lemma put_bucket_row_prefix:
  "put_bucket_row b (t, n) = (t', n') \<Longrightarrow> \<exists>bs. t' = t @ bs \<and> n' = n + length bs"
  by (auto simp: put_bucket_row_def insert_or_ignore_def split: if_splits)

lemma roll_hour_prefix:
  assumes "roll_hour own (t, n) g = Inr (t', n')"
  shows "\<exists>bs. t' = t @ bs \<and> n' = n + length bs"
proof (cases g)
  case (Pair h subs)
  from assms show ?thesis
    unfolding Pair roll_hour_def
    by (auto simp: rbind_Inr_conv split: if_splits dest!: put_bucket_row_prefix)
qed

lemma roll_hour_fold_prefix:
  "rfold (roll_hour own) (t, n) gs = Inr (t', n') \<Longrightarrow> \<exists>bs. t' = t @ bs \<and> n' = n + length bs"
proof (induction gs arbitrary: t n)
  case Nil
  then show ?case by simp
next
  case (Cons g gs)
  then obtain t1 n1 where s: "roll_hour own (t, n) g = Inr (t1, n1)"
    "rfold (roll_hour own) (t1, n1) gs = Inr (t', n')"
    by (cases "roll_hour own (t, n) g") auto
  obtain bs1 where "t1 = t @ bs1" "n1 = n + length bs1" using roll_hour_prefix[OF s(1)] by blast
  moreover obtain bs2 where "t' = t1 @ bs2" "n' = n1 + length bs2" using Cons.IH[OF s(2)] by blast
  ultimately show ?case by (intro exI[of _ "bs1 @ bs2"]) simp
qed

text \<open>The samples a 1-hour bucket is made of.\<close>

lemma roll_hour_created:
  assumes "roll_hour own (t, n) (h, subs) = Inr (t', n')"
    and "(own, h, JInt BUCKET_1HOUR_SECS) \<notin> set (map bk_key t)"
    and "\<forall>b \<in> set subs. \<exists>k. bk_samples b = JInt k \<and> 0 < k" and "subs \<noteq> []"
  shows "\<exists>b. t' = t @ [b] \<and> bk_key b = (own, h, JInt BUCKET_1HOUR_SECS)
    \<and> bk_samples b = JInt (\<Sum>x\<leftarrow>subs. the (as_int (bk_samples x)))"
proof -
  have num: "rmap need_number (map bk_samples subs) = Inr (map (\<lambda>x. of_int (the (as_int (bk_samples x)))) subs)"
    using assms(3) by (induction subs) (auto simp: need_number_def)
  have "0 < (\<Sum>x\<leftarrow>subs. the (as_int (bk_samples x)))"
    using assms(3,4)
  proof (induction subs)
    case (Cons x subs)
    have "0 \<le> (\<Sum>x\<leftarrow>subs. the (as_int (bk_samples x)))"
      using Cons.prems(1) by (intro sum_list_nonneg) auto
    with Cons.prems(1) show ?case by auto
  qed simp
  moreover have sum: "sum_list (map (\<lambda>x. of_int (the (as_int (bk_samples x)))) subs)
      = (of_int (\<Sum>x\<leftarrow>subs. the (as_int (bk_samples x))) :: rat)"
    by (induction subs) simp_all
  ultimately show ?thesis
    using assms(1,2) unfolding roll_hour_def
    by (auto simp: num sum rbind_Inr_conv put_bucket_row_def insert_or_ignore_def bk_key_def col_num_def
        split: if_splits)
qed

lemma put_bucket_row_keys:
  "put_bucket_row b (t, n) = (t', n') \<Longrightarrow>
     bk_key ` set t' = insert (bk_key b) (bk_key ` set t)
     \<and> (distinct (map bk_key t) \<longrightarrow> distinct (map bk_key t'))"
  by (auto simp: put_bucket_row_def insert_or_ignore_def split: if_splits)

lemma roll_hour_keys:
  assumes "roll_hour own (t, n) (h, subs) = Inr (t', n')"
  shows "bk_key ` set t' \<subseteq> insert (own, h, JInt BUCKET_1HOUR_SECS) (bk_key ` set t)
    \<and> (distinct (map bk_key t) \<longrightarrow> distinct (map bk_key t'))"
proof -
  have "(t', n') = (t, n) \<or> (\<exists>b. put_bucket_row b (t, n) = (t', n') \<and> bk_key b = (own, h, JInt BUCKET_1HOUR_SECS))"
    using assms unfolding roll_hour_def
    by (auto simp: rbind_Inr_conv bk_key_def split: if_splits)
  then show ?thesis
  proof
    assume "\<exists>b. put_bucket_row b (t, n) = (t', n') \<and> bk_key b = (own, h, JInt BUCKET_1HOUR_SECS)"
    then obtain b where "put_bucket_row b (t, n) = (t', n')" "bk_key b = (own, h, JInt BUCKET_1HOUR_SECS)"
      by blast
    from put_bucket_row_keys[OF this(1)] this(2) show ?thesis by simp
  qed auto
qed

lemma roll_hour_fold_distinct:
  "rfold (roll_hour own) (t, n) gs = Inr (t', n') \<Longrightarrow> distinct (map bk_key t) \<Longrightarrow> distinct (map bk_key t')"
proof (induction gs arbitrary: t n)
  case Nil
  then show ?case by simp
next
  case (Cons g gs)
  obtain h subs where g: "g = (h, subs)" by (cases g)
  from Cons.prems(1) obtain t1 n1 where s: "roll_hour own (t, n) (h, subs) = Inr (t1, n1)"
    "rfold (roll_hour own) (t1, n1) gs = Inr (t', n')"
    by (cases "roll_hour own (t, n) g") (auto simp: g)
  show ?case using Cons.IH[OF s(2)] roll_hour_keys[OF s(1)] Cons.prems(2) by blast
qed

lemma roll_hour_fold_creates:
  assumes "rfold (roll_hour own) (t, n) gs = Inr (t', n')" and "(h, subs) \<in> set gs" and "distinct (map fst gs)"
    and "(own, h, JInt BUCKET_1HOUR_SECS) \<notin> set (map bk_key t)"
    and "\<forall>b \<in> set subs. \<exists>k. bk_samples b = JInt k \<and> 0 < k" and "subs \<noteq> []"
  shows "\<exists>b \<in> set t'. bk_key b = (own, h, JInt BUCKET_1HOUR_SECS)
    \<and> bk_samples b = JInt (\<Sum>x\<leftarrow>subs. the (as_int (bk_samples x)))"
  using assms
proof (induction gs arbitrary: t n)
  case Nil
  then show ?case by simp
next
  case (Cons g gs)
  obtain h' subs' where g: "g = (h', subs')" by (cases g)
  from Cons.prems(1) obtain t1 n1 where s: "roll_hour own (t, n) (h', subs') = Inr (t1, n1)"
    "rfold (roll_hour own) (t1, n1) gs = Inr (t', n')"
    by (cases "roll_hour own (t, n) g") (auto simp: g)
  show ?case
  proof (cases "h' = h")
    case True
    with Cons.prems(2,3) g have "subs' = subs" by (force simp: image_iff)
    with True roll_hour_created[of own t n h subs t1 n1] s(1) Cons.prems(4-6) obtain b where
      "t1 = t @ [b]" "bk_key b = (own, h, JInt BUCKET_1HOUR_SECS)"
      "bk_samples b = JInt (\<Sum>x\<leftarrow>subs. the (as_int (bk_samples x)))" by blast
    moreover obtain bs where "t' = t1 @ bs" using roll_hour_fold_prefix[OF s(2)] by blast
    ultimately show ?thesis by auto
  next
    case False
    then have "(own, h, JInt BUCKET_1HOUR_SECS) \<notin> set (map bk_key t1)"
      using roll_hour_keys[OF s(1)] Cons.prems(4) by auto
    with False Cons.IH[OF s(2)] Cons.prems g show ?thesis by auto
  qed
qed

lemma roll_hourly_prefix: "\<exists>bs. ls_buckets (fst (roll_hourly s now)) = ls_buckets s @ bs"
  by (auto simp: roll_hourly_def Let_def split: sum.splits prod.splits dest!: roll_hour_fold_prefix)

lemma roll_hourly_distinct:
  "distinct (map bk_key (ls_buckets s)) \<Longrightarrow> distinct (map bk_key (ls_buckets (fst (roll_hourly s now))))"
  by (auto simp: roll_hourly_def Let_def roll_hour_fold_distinct split: sum.splits prod.splits)

text \<open>
  A 1-hour bucket is made once, of what was due then. The first hourly roll-up that finds a
  5-minute bucket of an hour due sums up exactly the buckets of that hour that start no later than
  its cutoff (24 hours ago, not an hour boundary); a later roll-up keeps this bucket as it is and
  makes no second one, so buckets of the hour that become due only then are never added.
\<close>

theorem hourly_bucket_is_first_cut:
  assumes "roll_hourly s now = (s', Inr n)"
    and "b0 \<in> set (due_buckets s 300 (to_epoch (now - usec 86400)))"
    and "\<forall>b \<in> set (due_buckets s 300 (to_epoch (now - usec 86400))). \<exists>k. bk_samples b = JInt k \<and> 0 < k"
    and "(own_id s, hour_start (bk_start b0), JInt 3600) \<notin> bk_key ` set (ls_buckets s)"
    and "distinct (map bk_key (ls_buckets s))"
  shows "(\<exists>b \<in> set (ls_buckets (fst (roll_hourly s' later))).
        bk_key b = (own_id s, hour_start (bk_start b0), JInt 3600)
      \<and> bk_samples b = JInt (\<Sum>x\<leftarrow>[x \<leftarrow> due_buckets s 300 (to_epoch (now - usec 86400)).
                                hour_start (bk_start x) = hour_start (bk_start b0)]. the (as_int (bk_samples x))))
    \<and> distinct (map bk_key (ls_buckets (fst (roll_hourly s' later))))"
proof -
  define rows where "rows = due_buckets s 300 (to_epoch (now - usec 86400))"
  let ?h = "hour_start (bk_start b0)"
  let ?gs = "group_rows (\<lambda>b. hour_start (bk_start b)) (\<lambda>b. b) rows"
  let ?subs = "[x \<leftarrow> rows. hour_start (bk_start x) = ?h]"
  have day: "usec (24 * 3600) = usec 86400" by (simp add: usec_def)
  from assms(1) obtain t where t: "rfold (roll_hour (own_id s)) (ls_buckets s, 0) ?gs = Inr (t, n)"
    and s': "s' = s\<lparr>ls_buckets := t\<rparr>"
    by (auto simp: roll_hourly_def Let_def rows_def day split: sum.splits prod.splits)
  have "(?h, ?subs) \<in> set ?gs" using assms(2) by (auto simp: group_rows_mem rows_def)
  moreover have "?subs \<noteq> []" using assms(2) by (auto simp: filter_empty_conv rows_def)
  moreover have "\<forall>b \<in> set ?subs. \<exists>k. bk_samples b = JInt k \<and> 0 < k"
    using assms(3) by (auto simp: rows_def)
  ultimately have "\<exists>b \<in> set t. bk_key b = (own_id s, ?h, JInt 3600)
      \<and> bk_samples b = JInt (\<Sum>x\<leftarrow>?subs. the (as_int (bk_samples x)))"
    using roll_hour_fold_creates[OF t _ group_rows_distinct] assms(4) by simp
  moreover have "set t \<subseteq> set (ls_buckets (fst (roll_hourly s' later)))"
    using roll_hourly_prefix[of s' later] by (auto simp: s')
  moreover have "distinct (map bk_key (ls_buckets s'))"
    using roll_hour_fold_distinct[OF t] assms(5) by (simp add: s')
  ultimately show ?thesis using roll_hourly_distinct by (auto simp: rows_def)
qed

section \<open>Witnesses\<close>

definition demo_ops :: "ls_op list" where
  "demo_ops = [Snap (usec 1699999800) (demo_snap 10), Snap (usec 1699999810) (demo_snap 20),
     Roll5 (usec 1700000105), Snap (usec 1700000110) (demo_snap 30), Roll5 (usec 1700000410)]"


theorem roll_up_5min_idempotent_witness:
  "\<exists>s'. roll_up_5min (run_ls (new_log_store ''n1'') (take 2 demo_ops)) (usec 1700000105) = (s', Inr 1)
     \<and> roll_up_5min s' (usec 1700000105) = (s', Inr 0)"
proof -
  have ok: "sorted (map op_time (take 2 demo_ops))" "\<forall>x \<in> set (take 2 demo_ops). 0 \<le> op_time x" by code_simp+
  have "snd (roll_up_5min (run_ls (new_log_store ''n1'') (take 2 demo_ops)) (usec 1700000105)) = Inr 1"
    by code_simp
  then obtain s' where r: "roll_up_5min (run_ls (new_log_store ''n1'') (take 2 demo_ops)) (usec 1700000105) = (s', Inr 1)"
    by (cases "roll_up_5min (run_ls (new_log_store ''n1'') (take 2 demo_ops)) (usec 1700000105)") auto
  with roll_up_5min_idempotent[OF ok r order.refl] show ?thesis by blast
qed

definition demo_five :: "int \<Rightarrow> bucket_row" where
  "demo_five w = \<lparr>bk_peer = ''n1'', bk_start = w, bk_end = w + 300, bk_size = JInt 300,
     bk_cpu_avg = JInt 10, bk_cpu_max = JInt 20, bk_mem_avg = JNull, bk_mem_max = JNull,
     bk_disk_avg = JNull, bk_rx = JNull, bk_tx = JNull, bk_samples = JInt 30\<rparr>"

definition demo_hours :: log_store where
  "demo_hours = (new_log_store ''n1'')\<lparr>ls_buckets := map demo_five [7200, 7500, 7800]\<rparr>"

text \<open>Three 5-minute buckets of 30 samples; the first roll-up comes seven minutes into the hour.
  After the second, an hour later, the hour still has 60 samples.\<close>

theorem hourly_bucket_is_first_cut_witness:
  "\<exists>s'. roll_hourly demo_hours (usec 94020) = (s', Inr 1)
     \<and> (\<exists>b \<in> set (ls_buckets (fst (roll_hourly s' (usec 97620)))).
          bk_key b = (''n1'', 7200, JInt 3600) \<and> bk_samples b = JInt 60)"
proof -
  have "snd (roll_hourly demo_hours (usec 94020)) = Inr 1" by code_simp
  then obtain s' where r: "roll_hourly demo_hours (usec 94020) = (s', Inr 1)"
    by (cases "roll_hourly demo_hours (usec 94020)") auto
  have due: "due_buckets demo_hours 300 (to_epoch (usec 94020 - usec 86400)) = [demo_five 7200, demo_five 7500]"
    by code_simp
  have new: "(own_id demo_hours, hour_start (bk_start (demo_five 7200)), JInt 3600) \<notin> bk_key ` set (ls_buckets demo_hours)"
    by code_simp
  have dist: "distinct (map bk_key (ls_buckets demo_hours))" by code_simp
  have "own_id demo_hours = ''n1''" "hour_start (bk_start (demo_five 7200)) = 7200"
    "hour_start (bk_start (demo_five 7500)) = 7200" by code_simp+
  then show ?thesis
    using hourly_bucket_is_first_cut[OF r, of "demo_five 7200" "usec 97620"] new dist r
    by (auto simp: due demo_five_def)
qed

theorem aggregate_avg_le_max_witness:
  "\<exists>b. aggregate_snaps ''n1'' [demo_snap 10, demo_snap 20] 0 300 300 = Inr b
     \<and> bk_cpu_avg b = JInt 15 \<and> bk_cpu_max b = JInt 20 \<and> bk_samples b = JInt 2"
proof -
  have "is_ok (aggregate_snaps ''n1'' [demo_snap 10, demo_snap 20] 0 300 300)" by code_simp
  then obtain b where b: "aggregate_snaps ''n1'' [demo_snap 10, demo_snap 20] 0 300 300 = Inr b"
    by (cases "aggregate_snaps ''n1'' [demo_snap 10, demo_snap 20] 0 300 300") auto
  have "(case aggregate_snaps ''n1'' [demo_snap 10, demo_snap 20] 0 300 300 of Inl _ \<Rightarrow> False
     | Inr b \<Rightarrow> bk_cpu_avg b = JInt 15 \<and> bk_cpu_max b = JInt 20)" by code_simp
  moreover have "snap_values ''cpu_percent'' [demo_snap 10, demo_snap 20] = [JInt 10, JInt 20]" by code_simp
  ultimately show ?thesis
    using aggregate_avg_le_max[OF b] b by (simp add: hundredths_def)
qed

end
