(* ===== verification/Sync_Payload.thy ===== *)
theory Sync_Payload
  imports Rollup
begin

text \<open>
  The payloads two nodes exchange (src/logstore.py): what a node sends for a gap
  (\<open>get_sync_payload\<close>), and how the other merges it into its own tables
  (\<open>merge_sync_payload\<close>), with the query that says how far the copy reaches
  (\<open>last_seen_for_peer\<close>). A payload is the JSON object that goes over the wire.
\<close>

section \<open>What a node sends\<close>

definition event_json :: "event_out \<Rightarrow> json" where
  "event_json e = JObj [(''ts'', JTime (Aware (eo_ts e))), (''event'', eo_event e), (''detail'', eo_detail e)]"

text \<open>\<open>StatBucket.to_dict\<close>\<close>

definition bucket_json :: "bucket_row \<Rightarrow> json res" where
  "bucket_json b =
     rbind (from_epoch (bk_start b)) (\<lambda>ws. rbind (from_epoch (bk_end b)) (\<lambda>we. Inr (JObj
       [(''window_start'', JTime (Aware ws)), (''window_end'', JTime (Aware we)),
        (''bucket_size'', bk_size b), (''cpu_avg'', bk_cpu_avg b), (''cpu_max'', bk_cpu_max b),
        (''mem_avg'', bk_mem_avg b), (''mem_max'', bk_mem_max b), (''disk_pct_avg'', bk_disk_avg b),
        (''net_rx_delta'', bk_rx b), (''net_tx_delta'', bk_tx b), (''samples'', bk_samples b)])))"

definition bucket_rows :: "log_store \<Rightarrow> instant \<Rightarrow> int \<Rightarrow> bucket_row list" where
  "bucket_rows s since_ts sz = sort_key bk_start
     [b \<leftarrow> ls_buckets s. bk_peer b = own_id s \<and> bk_size b = JInt sz \<and> to_epoch since_ts \<le> bk_start b]"

definition get_buckets :: "log_store \<Rightarrow> instant \<Rightarrow> int \<Rightarrow> json list res" where
  "get_buckets s since_ts sz = rmap bucket_json (bucket_rows s since_ts sz)"

definition daily_json :: "daily_row \<Rightarrow> json" where
  "daily_json d = JObj [(''date'', JStr (dy_date d)), (''uptime_pct'', dy_uptime d),
     (''avg_cpu'', dy_cpu d), (''avg_mem'', dy_mem d), (''incidents'', dy_incidents d)]"

text \<open>The day of \<open>since_ts\<close> in its own zone, which is the program's. Dates compare as text.\<close>

definition get_daily_summaries :: "log_store \<Rightarrow> instant \<Rightarrow> json list" where
  "get_daily_summaries s since_ts =
     (let since_date = date_text (ist_day (since_ts div 1000000)) in
      map daily_json (sort_key dy_date
        [d \<leftarrow> ls_daily s. dy_peer d = own_id s \<and> since_date \<le> dy_date d]))"

definition sync_strategy :: "instant \<Rightarrow> string" where
  "sync_strategy gap =
     (if gap < usec 3600 then ''raw'' else if gap < usec 86400 then ''5min''
      else if gap < usec (7 * 86400) then ''1hour'' else ''daily'')"

definition get_sync_payload :: "log_store \<Rightarrow> instant \<Rightarrow> instant \<Rightarrow> dict res" where
  "get_sync_payload s now last_seen =
     (let gap = now - last_seen; strategy = sync_strategy gap in
      rbind (get_events s (Some last_seen) None 1000 None) (\<lambda>evs.
      let raw = (if strategy = ''raw'' then get_raw_snapshots s (Some last_seen) None None
                 else if strategy = ''5min'' then get_raw_snapshots s (Some (now - usec 1800)) None None
                 else []) in
      rbind (if strategy = ''raw'' then Inr []
             else if strategy = ''5min'' then get_buckets s last_seen BUCKET_5MIN_SECS
             else if strategy = ''1hour'' then get_buckets s last_seen BUCKET_1HOUR_SECS
             else Inr (get_daily_summaries s last_seen)) (\<lambda>bks.
      Inr [(''gap_start'', JTime (Aware last_seen)), (''gap_end'', JTime (Aware now)),
           (''gap_seconds'', JNum (of_int gap / 1000000)), (''sync_strategy'', JStr strategy),
           (''events'', JArr (map event_json evs)), (''buckets'', JArr bks),
           (''raw_snapshots'', JArr (map JObj raw))])))"

section \<open>How the other node merges it\<close>

text \<open>
  \<open>env_local\<close> is the local time zone (the instant of a datetime without zone), \<open>env_str\<close>
  is \<open>str\<close> of a JSON value that is not a string.
\<close>

record merge_env =
  env_local :: "instant \<Rightarrow> instant"
  env_str :: "json \<Rightarrow> string"

definition instant_of :: "merge_env \<Rightarrow> datetime \<Rightarrow> instant" where
  "instant_of env d = (case d of Aware t \<Rightarrow> t | Naive t \<Rightarrow> env_local env t)"

definition json_str :: "merge_env \<Rightarrow> json \<Rightarrow> string" where
  "json_str env v = (case v of JStr s \<Rightarrow> s | _ \<Rightarrow> env_str env v)"

text \<open>A number is taken as it is, text as an ISO time (converted by \<open>conv\<close>); anything else, and
  text that is no time, is skipped.\<close>

definition time_number :: "merge_env \<Rightarrow> (instant \<Rightarrow> int) \<Rightarrow> json \<Rightarrow> rat option" where
  "time_number env conv v =
     (case as_number v of
        Some x \<Rightarrow> Some x
      | None \<Rightarrow> (case fromisoformat v of Inl _ \<Rightarrow> None | Inr d \<Rightarrow> Some (of_int (conv (instant_of env d)))))"

text \<open>What can be bound to a statement.\<close>

definition bindable :: "json \<Rightarrow> bool" where
  "bindable v = (case v of JArr _ \<Rightarrow> False | JObj _ \<Rightarrow> False | JInt n \<Rightarrow> int64 n | _ \<Rightarrow> True)"

definition bind_error :: py_error where
  "bind_error = DatabaseError ''Error binding parameter''"

text \<open>\<open>x.get(...)\<close> on what is not a dictionary\<close>

definition need_dict :: "json \<Rightarrow> dict res" where
  "need_dict v = (case v of JObj d \<Rightarrow> Inr d | _ \<Rightarrow> Inl (AttributeError ''get''))"

definition merge_snap_row :: "merge_env \<Rightarrow> node_id \<Rightarrow> json \<Rightarrow> snap_row option res" where
  "merge_snap_row env peer j = rbind (need_dict j) (\<lambda>snap.
     let ts_raw = py_or (dget snap ''ts'') (dget snap ''timestamp'') in
     if ts_raw = JNull then Inr None
     else (case time_number env to_epoch ts_raw of
             None \<Rightarrow> Inr None
           | Some x \<Rightarrow>
               if \<not> int64 (py_int x) then Inl (OverflowError ''Python int too large'')
               else Inr (Some \<lparr>sn_peer = peer, sn_ts = py_int x, sn_payload = snap, sn_seq = None\<rparr>)))"

text \<open>\<open>int(dt.timestamp() * 1000)\<close>\<close>

definition to_millis :: "instant \<Rightarrow> int" where
  "to_millis t = (if 0 \<le> t then t div 1000 else - ((- t) div 1000))"

text \<open>An event without its id: (time, event, detail).\<close>

definition merge_event_row :: "merge_env \<Rightarrow> json \<Rightarrow> (int \<times> json \<times> json option) option res" where
  "merge_event_row env j = rbind (need_dict j) (\<lambda>ev.
     let ts_raw = dget ev ''ts'' in
     if ts_raw = JNull then Inr None
     else (case time_number env to_millis ts_raw of
             None \<Rightarrow> Inr None
           | Some x \<Rightarrow>
               let ms = (if x < 100000000000 then py_int (x * 1000) else py_int x);
                   name = py_or (dget ev ''event'') (JStr []) in
               if \<not> int64 ms then Inl (OverflowError ''Python int too large'')
               else if \<not> bindable name then Inl bind_error
               else Inr (Some (ms, name, dump_opt (dget ev ''detail'')))))"

datatype merged_bucket = MBucket bucket_row | MDaily daily_row

text \<open>A \<open>NULL\<close> in a \<open>NOT NULL\<close> column makes \<open>INSERT OR IGNORE\<close> skip the row.\<close>

definition merge_window_row :: "merge_env \<Rightarrow> node_id \<Rightarrow> dict \<Rightarrow> merged_bucket option res" where
  "merge_window_row env peer b =
     (let ws = dget b ''window_start''; we = dget b ''window_end'' in
      if ws = JNull \<or> we = JNull then Inr None
      else (case (time_number env to_epoch ws, time_number env to_epoch we) of
              (Some x, Some y) \<Rightarrow>
                let r = \<lparr>bk_peer = peer, bk_start = py_int x, bk_end = py_int y,
                         bk_size = dget_default b ''bucket_size'' (JInt 0),
                         bk_cpu_avg = dget b ''cpu_avg'', bk_cpu_max = dget b ''cpu_max'',
                         bk_mem_avg = dget b ''mem_avg'', bk_mem_max = dget b ''mem_max'',
                         bk_disk_avg = dget b ''disk_pct_avg'', bk_rx = dget b ''net_rx_delta'',
                         bk_tx = dget b ''net_tx_delta'', bk_samples = dget_default b ''samples'' (JInt 0)\<rparr> in
                if \<not> int64 (bk_start r) \<or> \<not> int64 (bk_end r) then Inl (OverflowError ''Python int too large'')
                else if \<not> list_all bindable [bk_size r, bk_cpu_avg r, bk_cpu_max r, bk_mem_avg r, bk_mem_max r,
                                             bk_disk_avg r, bk_rx r, bk_tx r, bk_samples r]
                then Inl bind_error
                else if bk_size r = JNull \<or> bk_samples r = JNull then Inr None
                else Inr (Some (MBucket r))
            | _ \<Rightarrow> Inr None))"

definition merge_daily_row :: "merge_env \<Rightarrow> node_id \<Rightarrow> dict \<Rightarrow> merged_bucket option res" where
  "merge_daily_row env peer b =
     (let r = \<lparr>dy_peer = peer, dy_date = json_str env (dget b ''date''), dy_uptime = dget b ''uptime_pct'',
               dy_cpu = dget b ''avg_cpu'', dy_mem = dget b ''avg_mem'',
               dy_incidents = dget_default b ''incidents'' (JInt 0)\<rparr> in
      if \<not> list_all bindable [dy_uptime r, dy_cpu r, dy_mem r, dy_incidents r] then Inl bind_error
      else Inr (Some (MDaily r)))"

text \<open>\<open>"window_start" in b\<close> works on strings and lists too, where the branch then fails.\<close>

definition merge_bucket_row :: "merge_env \<Rightarrow> node_id \<Rightarrow> json \<Rightarrow> merged_bucket option res" where
  "merge_bucket_row env peer j =
     (case j of
        JObj b \<Rightarrow>
          if map_of b ''window_start'' \<noteq> None then merge_window_row env peer b
          else if map_of b ''date'' \<noteq> None then merge_daily_row env peer b
          else Inr None
      | JStr t \<Rightarrow> if is_substring ''window_start'' t \<or> is_substring ''date'' t
                  then Inl (AttributeError ''get'') else Inr None
      | JTime _ \<Rightarrow> Inr None
      | JArr xs \<Rightarrow> if JStr ''window_start'' \<in> set xs \<or> JStr ''date'' \<in> set xs
                   then Inl (AttributeError ''get'') else Inr None
      | _ \<Rightarrow> Inl (TypeError ''argument is not iterable''))"

text \<open>The three loops: compute the row, insert it, count what \<open>rowcount\<close> says.\<close>

definition merge_step :: "('j \<Rightarrow> 'r option res) \<Rightarrow> ('s \<Rightarrow> 'r \<Rightarrow> 's \<times> bool) \<Rightarrow> 's \<times> nat \<Rightarrow> 'j
   \<Rightarrow> ('s \<times> nat) \<times> py_error option" where
  "merge_step row put acc j =
     (case row j of
        Inl e \<Rightarrow> (acc, Some e)
      | Inr None \<Rightarrow> (acc, None)
      | Inr (Some r) \<Rightarrow>
          (case put (fst acc) r of (s', new) \<Rightarrow> ((s', if new then snd acc + 1 else snd acc), None)))"

definition put_snap :: "log_store \<Rightarrow> snap_row \<Rightarrow> log_store \<times> bool" where
  "put_snap s r = (s\<lparr>ls_raw := insert_or_ignore sn_key r (ls_raw s)\<rparr>, sn_key r \<notin> set (map sn_key (ls_raw s)))"

definition put_peer_event :: "node_id \<Rightarrow> log_store \<Rightarrow> int \<times> json \<times> json option \<Rightarrow> log_store \<times> bool" where
  "put_peer_event peer s e = (case e of (ts, ev, d) \<Rightarrow>
     (put_event s peer ts ev d, (peer, ts, ev, d) \<notin> set (map ev_key (ls_events s))))"

definition put_merged :: "log_store \<Rightarrow> merged_bucket \<Rightarrow> log_store \<times> bool" where
  "put_merged s m =
     (case m of
        MBucket r \<Rightarrow> (s\<lparr>ls_buckets := insert_or_ignore bk_key r (ls_buckets s)\<rparr>,
                      bk_key r \<notin> set (map bk_key (ls_buckets s)))
      | MDaily r \<Rightarrow> (s\<lparr>ls_daily := insert_or_replace dy_key r (ls_daily s)\<rparr>, True))"

record merge_counts =
  mc_snapshots :: nat
  mc_events :: nat
  mc_buckets :: nat
  mc_strategy :: json

definition payload_list :: "dict \<Rightarrow> string \<Rightarrow> json list res" where
  "payload_list p key = py_list (py_or (dget p key) (JArr []))"

definition run_merge :: "('j \<Rightarrow> 'r option res) \<Rightarrow> ('s \<Rightarrow> 'r \<Rightarrow> 's \<times> bool) \<Rightarrow> 's \<Rightarrow> 'j list res \<Rightarrow> 's \<times> nat res" where
  "run_merge row put s js =
     (case js of
        Inl e \<Rightarrow> (s, Inl e)
      | Inr xs \<Rightarrow>
          (case efold (merge_step row put) (s, 0) xs of
             ((s', n), Some e) \<Rightarrow> (s', Inl e)
           | ((s', n), None) \<Rightarrow> (s', Inr n)))"

definition merge_sync_payload ::
  "merge_env \<Rightarrow> log_store \<Rightarrow> node_id \<Rightarrow> dict \<Rightarrow> log_store \<times> merge_counts res" where
  "merge_sync_payload env s peer p =
     (case run_merge (merge_snap_row env peer) put_snap s (payload_list p ''raw_snapshots'') of
        (s1, Inl e) \<Rightarrow> (s1, Inl e)
      | (s1, Inr n1) \<Rightarrow>
     (case run_merge (merge_event_row env) (put_peer_event peer) s1 (payload_list p ''events'') of
        (s2, Inl e) \<Rightarrow> (s2, Inl e)
      | (s2, Inr n2) \<Rightarrow>
     (case run_merge (merge_bucket_row env peer) put_merged s2 (payload_list p ''buckets'') of
        (s3, Inl e) \<Rightarrow> (s3, Inl e)
      | (s3, Inr n3) \<Rightarrow>
          (s3, Inr \<lparr>mc_snapshots = n1, mc_events = n2, mc_buckets = n3,
                    mc_strategy = py_or (dget p ''sync_strategy'') (JStr ''unknown'')\<rparr>))))"

section \<open>How far the copy reaches\<close>

text \<open>The columns mix units: \<open>events.ts\<close> is in milliseconds, the others are in seconds.\<close>

definition last_seen_for_peer :: "log_store \<Rightarrow> node_id \<Rightarrow> instant option res" where
  "last_seen_for_peer s peer =
     (let max_epoch = sql_max (map sn_ts [r \<leftarrow> ls_raw s. sn_peer r = peer]
                               @ map ev_ts [e \<leftarrow> ls_events s. ev_peer e = peer]
                               @ map bk_end [b \<leftarrow> ls_buckets s. bk_peer b = peer]);
          dates = map dy_date [d \<leftarrow> ls_daily s. dy_peer d = peer];
          day = (if dates = [] then None else parse_date False (Max (set dates)));
          m = (case day of
                 None \<Rightarrow> max_epoch
               | Some d \<Rightarrow> Some (max (case max_epoch of None \<Rightarrow> 0 | Some x \<Rightarrow> x) (ist_midnight d))) in
      case m of None \<Rightarrow> Inr None | Some x \<Rightarrow> rbind (from_epoch x) (\<lambda>t. Inr (Some t)))"

section \<open>Lemmas: merging\<close>

fun somes :: "'a option list \<Rightarrow> 'a list" where
  "somes [] = []"
| "somes (None # xs) = somes xs"
| "somes (Some x # xs) = x # somes xs"

abbreviation put_all :: "('s \<Rightarrow> 'r \<Rightarrow> 's \<times> bool) \<Rightarrow> 'r option list \<Rightarrow> 's \<Rightarrow> 's" where
  "put_all put rs \<equiv> fold (\<lambda>r s. fst (put s r)) (somes rs)"

lemma merge_step_eval:
  "merge_step row put (s, n) j =
     (case row j of
        Inl e \<Rightarrow> ((s, n), Some e)
      | Inr None \<Rightarrow> ((s, n), None)
      | Inr (Some r) \<Rightarrow> (case put s r of (s', new) \<Rightarrow> ((s', if new then n + 1 else n), None)))"
  by (auto simp: merge_step_def split: sum.splits option.splits prod.splits)

lemma efold_merge_step:
  "efold (merge_step row put) (s, n) xs = ((s', n'), None)
    \<Longrightarrow> \<exists>rs. rmap row xs = Inr rs \<and> s' = put_all put rs s"
proof (induction xs arbitrary: s n)
  case Nil
  then show ?case by simp
next
  case (Cons x xs)
  show ?case
  proof (cases "row x")
    case (Inl e)
    with Cons.prems show ?thesis by (simp add: merge_step_eval)
  next
    case (Inr r)
    define s1 where "s1 = (case r of None \<Rightarrow> s | Some r \<Rightarrow> fst (put s r))"
    obtain n1 where "efold (merge_step row put) (s1, n1) xs = ((s', n'), None)"
      using Cons.prems Inr by (auto simp: merge_step_eval s1_def split: option.splits prod.splits)
    from Cons.IH[OF this] obtain rs where "rmap row xs = Inr rs" "s' = put_all put rs s1" by blast
    with Inr show ?thesis by (auto simp: s1_def split: option.splits)
  qed
qed

lemma run_merge_Inr:
  assumes "run_merge row put s js = (s', Inr n)"
  shows "\<exists>xs rs. js = Inr xs \<and> rmap row xs = Inr rs \<and> s' = put_all put rs s"
proof -
  from assms obtain xs where "js = Inr xs" "efold (merge_step row put) (s, 0) xs = ((s', n), None)"
    by (auto simp: run_merge_def split: sum.splits prod.splits option.splits)
  with efold_merge_step[OF this(2)] show ?thesis by blast
qed

lemma efold_merge_step_total:
  "rmap row xs = Inr rs \<Longrightarrow> \<exists>n'. efold (merge_step row put) (s, n) xs = ((put_all put rs s, n'), None)"
proof (induction xs arbitrary: s n rs)
  case Nil
  then show ?case by simp
next
  case (Cons x xs)
  from Cons.prems obtain r rs' where r: "row x = Inr r" "rmap row xs = Inr rs'" "rs = r # rs'"
    by (cases "row x"; cases "rmap row xs") auto
  show ?case
  proof (cases r)
    case None
    with r Cons.IH[OF r(2)] show ?thesis by (simp add: merge_step_eval)
  next
    case (Some a)
    obtain s1 b where p: "put s a = (s1, b)" by (cases "put s a")
    with Some r Cons.IH[OF r(2), of s1] show ?thesis by (simp add: merge_step_eval)
  qed
qed

lemma run_merge_total:
  "rmap row xs = Inr rs \<Longrightarrow> \<exists>n. run_merge row put s (Inr xs) = (put_all put rs s, Inr n)"
  using efold_merge_step_total[of row xs rs put s 0] by (auto simp: run_merge_def)

lemma efold_merge_step_noop:
  assumes "rmap row xs = Inr rs" and "\<forall>r \<in> set (somes rs). put s r = (s, False)"
  shows "efold (merge_step row put) (s, n) xs = ((s, n), None)"
  using assms
proof (induction xs arbitrary: rs)
  case Nil
  then show ?case by simp
next
  case (Cons x xs)
  from Cons.prems obtain r rs' where r: "row x = Inr r" "rmap row xs = Inr rs'" "rs = r # rs'"
    by (cases "row x"; cases "rmap row xs") auto
  with Cons show ?case by (cases r) (simp_all add: merge_step_eval)
qed

lemma run_merge_noop:
  "rmap row xs = Inr rs \<Longrightarrow> \<forall>r \<in> set (somes rs). put s r = (s, False)
    \<Longrightarrow> run_merge row put s (Inr xs) = (s, Inr 0)"
  using efold_merge_step_noop[of row xs rs put s 0] by (simp add: run_merge_def)

text \<open>What each loop writes.\<close>

lemma fold_put_snap: "fold (\<lambda>r s. fst (put_snap s r)) rs s
    = s\<lparr>ls_raw := fold (insert_or_ignore sn_key) rs (ls_raw s)\<rparr>"
  by (induction rs arbitrary: s) (simp_all add: put_snap_def)

lemma fold_put_merged: "fold (\<lambda>m s. fst (put_merged s m)) ms s
    = s\<lparr>ls_buckets := fold (insert_or_ignore bk_key) [r. MBucket r \<leftarrow> ms] (ls_buckets s),
        ls_daily := fold (insert_or_replace dy_key) [r. MDaily r \<leftarrow> ms] (ls_daily s)\<rparr>"
  by (induction ms arbitrary: s) (auto simp: put_merged_def split: merged_bucket.splits)

lemma put_event_frame [simp]:
  "ls_raw (put_event s peer ts ev d) = ls_raw s" "ls_buckets (put_event s peer ts ev d) = ls_buckets s"
  "ls_daily (put_event s peer ts ev d) = ls_daily s"
  by (simp_all add: put_event_def Let_def)

lemma fold_put_event_frame [simp]:
  "ls_raw (fold (\<lambda>e s. fst (put_peer_event peer s e)) es s) = ls_raw s"
  "ls_buckets (fold (\<lambda>e s. fst (put_peer_event peer s e)) es s) = ls_buckets s"
  "ls_daily (fold (\<lambda>e s. fst (put_peer_event peer s e)) es s) = ls_daily s"
  by (induction es arbitrary: s) (auto simp: put_peer_event_def split: prod.splits)

lemma put_event_keys: "ev_key ` set (ls_events (put_event s peer ts ev d))
    = insert (peer, ts, ev, d) (ev_key ` set (ls_events s))"
  by (auto simp: put_event_def insert_or_ignore_def ev_key_def Let_def image_iff)

lemma fold_put_event_keys:
  "ev_key ` set (ls_events (fold (\<lambda>e s. fst (put_peer_event peer s e)) es s))
     = Pair peer ` set es \<union> ev_key ` set (ls_events s)"
  by (induction es arbitrary: s) (auto simp: put_peer_event_def put_event_keys split: prod.splits)

lemma put_event_present: "(peer, ts, ev, d) \<in> ev_key ` set (ls_events s) \<Longrightarrow> put_event s peer ts ev d = s"
  by (auto simp: put_event_def ev_key_def Let_def)

text \<open>Replacing the same rows twice is replacing them once.\<close>

lemma fold_replace_split:
  "fold (insert_or_replace key) rs t
     = [x \<leftarrow> t. key x \<notin> key ` set rs] @ fold (insert_or_replace key) rs []"
proof (induction rs rule: rev_induct)
  case Nil
  then show ?case by simp
next
  case (snoc r rs)
  have last: "fold (insert_or_replace key) (rs @ [r]) t = [x \<leftarrow> fold (insert_or_replace key) rs t. key x \<noteq> key r] @ [r]"
    for t by (simp add: insert_or_replace_def[of key r])
  show ?case unfolding last by (subst snoc) (auto intro!: filter_cong)
qed

lemma fold_replace_keys: "key ` set (fold (insert_or_replace key) rs []) \<subseteq> key ` set rs"
  by (induction rs rule: rev_induct) (auto simp: insert_or_replace_def)

lemma fold_replace_idem:
  "fold (insert_or_replace key) rs (fold (insert_or_replace key) rs t) = fold (insert_or_replace key) rs t"
proof -
  have "[x \<leftarrow> fold (insert_or_replace key) rs []. key x \<notin> key ` set rs] = []"
    using fold_replace_keys[of key rs] by (auto simp: filter_empty_conv)
  then show ?thesis
    by (subst (1) fold_replace_split, subst (1 3) fold_replace_split) simp
qed

text \<open>
  Merging is idempotent. When a payload has been merged without an error, merging it again
  leaves every table as it is and reports no new snapshot and no new event.
\<close>

theorem merge_idempotent:
  assumes "merge_sync_payload env s peer p = (s', Inr c)"
  shows "\<exists>c'. merge_sync_payload env s' peer p = (s', Inr c') \<and> mc_snapshots c' = 0 \<and> mc_events c' = 0"
proof -
  from assms obtain s1 n1 s2 n2 n3
    where m1: "run_merge (merge_snap_row env peer) put_snap s (payload_list p ''raw_snapshots'') = (s1, Inr n1)"
      and m2: "run_merge (merge_event_row env) (put_peer_event peer) s1 (payload_list p ''events'') = (s2, Inr n2)"
      and m3: "run_merge (merge_bucket_row env peer) put_merged s2 (payload_list p ''buckets'') = (s', Inr n3)"
    by (auto simp: merge_sync_payload_def split: prod.splits sum.splits)
  from run_merge_Inr[OF m1] obtain xs1 rs1 where r1: "payload_list p ''raw_snapshots'' = Inr xs1"
    "rmap (merge_snap_row env peer) xs1 = Inr rs1" "s1 = put_all put_snap rs1 s" by blast
  from run_merge_Inr[OF m2] obtain xs2 rs2 where r2: "payload_list p ''events'' = Inr xs2"
    "rmap (merge_event_row env) xs2 = Inr rs2" "s2 = put_all (put_peer_event peer) rs2 s1" by blast
  from run_merge_Inr[OF m3] obtain xs3 rs3 where r3: "payload_list p ''buckets'' = Inr xs3"
    "rmap (merge_bucket_row env peer) xs3 = Inr rs3" "s' = put_all put_merged rs3 s2" by blast
  have raw: "ls_raw s' = fold (insert_or_ignore sn_key) (somes rs1) (ls_raw s)"
    by (simp add: r3(3) r2(3) r1(3) fold_put_merged fold_put_snap)
  have ev: "ls_events s' = ls_events (put_all (put_peer_event peer) rs2 s1)"
    by (simp add: r3(3) r2(3) fold_put_merged)
  have "\<forall>r \<in> set (somes rs1). sn_key r \<in> sn_key ` set (ls_raw s')"
    by (simp add: raw snaps_t.keys_fold)
  then have "\<forall>r \<in> set (somes rs1). put_snap s' r = (s', False)"
    by (auto simp: put_snap_def insert_or_ignore_def)
  then have a1: "run_merge (merge_snap_row env peer) put_snap s' (payload_list p ''raw_snapshots'') = (s', Inr 0)"
    unfolding r1(1) by (rule run_merge_noop[OF r1(2)])
  have "\<forall>e \<in> set (somes rs2). (peer, e) \<in> ev_key ` set (ls_events s')"
    by (simp add: ev fold_put_event_keys)
  then have "\<forall>e \<in> set (somes rs2). put_peer_event peer s' e = (s', False)"
    by (auto simp: put_peer_event_def put_event_present)
  then have a2: "run_merge (merge_event_row env) (put_peer_event peer) s' (payload_list p ''events'') = (s', Inr 0)"
    unfolding r2(1) by (rule run_merge_noop[OF r2(2)])
  have "put_all put_merged rs3 s' = s'"
    by (simp add: r3(3) fold_put_merged buckets_t.fold_idem fold_replace_idem)
  then obtain n where a3: "run_merge (merge_bucket_row env peer) put_merged s' (payload_list p ''buckets'') = (s', Inr n)"
    using run_merge_total[OF r3(2), of put_merged s'] r3(1) by auto
  show ?thesis by (simp add: merge_sync_payload_def a1 a2 a3)
qed

section \<open>Lemmas: what arrives at the other node\<close>

definition clean_bucket :: "bucket_row \<Rightarrow> bool" where
  "clean_bucket b \<longleftrightarrow> bk_size b \<noteq> JNull \<and> bk_samples b \<noteq> JNull
     \<and> list_all bindable [bk_size b, bk_cpu_avg b, bk_cpu_max b, bk_mem_avg b, bk_mem_max b,
                          bk_disk_avg b, bk_rx b, bk_tx b, bk_samples b]"

definition clean_event :: "event_row \<Rightarrow> bool" where
  "clean_event e \<longleftrightarrow> 100000000000 \<le> ev_ts e \<and> (\<exists>t. ev_event e = JStr t \<and> t \<noteq> [])
     \<and> (case ev_detail e of None \<Rightarrow> True | Some d \<Rightarrow> truthy d)"

lemma from_epoch_Inr: "from_epoch n = Inr t \<Longrightarrow> t = usec n \<and> int64 n"
  by (auto simp: from_epoch_def int64_def split: if_splits)

lemma merge_bucket_json:
  assumes "bucket_json b = Inr j" and "clean_bucket b"
  shows "merge_bucket_row env peer j = Inr (Some (MBucket (b\<lparr>bk_peer := peer\<rparr>)))"
proof -
  from assms(1) obtain ws we where w: "from_epoch (bk_start b) = Inr ws" "from_epoch (bk_end b) = Inr we"
    and j: "j = JObj
       [(''window_start'', JTime (Aware ws)), (''window_end'', JTime (Aware we)),
        (''bucket_size'', bk_size b), (''cpu_avg'', bk_cpu_avg b), (''cpu_max'', bk_cpu_max b),
        (''mem_avg'', bk_mem_avg b), (''mem_max'', bk_mem_max b), (''disk_pct_avg'', bk_disk_avg b),
        (''net_rx_delta'', bk_rx b), (''net_tx_delta'', bk_tx b), (''samples'', bk_samples b)]"
    by (auto simp: bucket_json_def rbind_Inr_conv)
  note we' = from_epoch_Inr[OF w(1)] from_epoch_Inr[OF w(2)]
  show ?thesis
    using assms(2) we'
    by (simp add: j merge_bucket_row_def merge_window_row_def time_number_def instant_of_def
        dict_simps clean_bucket_def Let_def)
qed

lemma event_out_Inr:
  assumes "event_to_out e = Inr x" and "clean_event e"
  shows "merge_event_row env (event_json x) = Inr (Some (ev_ts e, ev_event e, ev_detail e))"
proof -
  from assms(1) have x: "x = \<lparr>eo_id = ev_id e, eo_ts = ev_ts e * 1000, eo_event = ev_event e,
          eo_detail = (case ev_detail e of None \<Rightarrow> JNull | Some d \<Rightarrow> d)\<rparr>"
    and r: "int64 (ev_ts e)"
    by (auto simp: event_to_out_def from_millis_def int64_def split: if_splits)
  have "to_millis (ev_ts e * 1000) = ev_ts e" using assms(2) by (simp add: to_millis_def clean_event_def)
  moreover have "\<not> (of_int (ev_ts e) :: rat) < 100000000000"
  proof -
    have "(of_int 100000000000 :: rat) \<le> of_int (ev_ts e)"
      using assms(2) by (simp only: of_int_le_iff clean_event_def)
    then show ?thesis by simp
  qed
  ultimately show ?thesis
    using assms(2) r
    by (auto simp: x event_json_def merge_event_row_def need_dict_def dict_simps time_number_def instant_of_def
        Let_def clean_event_def py_or_def bindable_def dump_opt_def split: option.splits)
qed

lemma rmap_Some:
  assumes "rmap f xs = Inr js" and "\<And>x j. x \<in> set xs \<Longrightarrow> f x = Inr j \<Longrightarrow> g j = Inr (Some (h x))"
  shows "rmap g js = Inr (map (\<lambda>x. Some (h x)) xs)"
  using assms
proof (induction xs arbitrary: js)
  case Nil
  then show ?case by simp
next
  case (Cons x xs)
  then obtain j js' where "f x = Inr j" "rmap f xs = Inr js'" "js = j # js'"
    by (cases "f x"; cases "rmap f xs") auto
  note js = this
  have "g j = Inr (Some (h x))" using Cons.prems(2)[of x j] js(1) by simp
  moreover have "rmap g js' = Inr (map (\<lambda>x. Some (h x)) xs)"
    by (rule Cons.IH[OF js(2)]) (use Cons.prems(2) in auto)
  ultimately show ?case by (simp add: js(3))
qed

lemma somes_map_Some [simp]: "somes (map (\<lambda>x. Some (f x)) xs) = map f xs"
  by (induction xs) simp_all

lemma fold_insert_fresh:
  assumes "distinct (map key rs)" and "key ` set rs \<inter> key ` set t = {}"
  shows "fold (insert_or_ignore key) rs t = t @ rs"
  using assms
proof (induction rs arbitrary: t)
  case Nil
  then show ?case by simp
next
  case (Cons r rs)
  have "insert_or_ignore key r t = t @ [r]" using Cons.prems(2) by (auto simp: insert_or_ignore_def)
  moreover have "fold (insert_or_ignore key) rs (t @ [r]) = (t @ [r]) @ rs"
    by (rule Cons.IH) (use Cons.prems in auto)
  ultimately show ?case by simp
qed

definition event_core :: "event_row \<Rightarrow> int \<times> json \<times> json option" where
  "event_core e = (ev_ts e, ev_event e, ev_detail e)"

definition peer_events :: "log_store \<Rightarrow> node_id \<Rightarrow> (int \<times> json \<times> json option) list" where
  "peer_events s peer = map event_core [e \<leftarrow> ls_events s. ev_peer e = peer]"

lemma peer_events_keys: "x \<in> set (peer_events s peer) \<longleftrightarrow> (peer, x) \<in> ev_key ` set (ls_events s)"
  by (cases x) (auto simp: peer_events_def event_core_def ev_key_def image_iff)

lemma put_event_fresh:
  "(ts, ev, d) \<notin> set (peer_events s peer) \<Longrightarrow>
     peer_events (put_event s peer ts ev d) peer = peer_events s peer @ [(ts, ev, d)]"
  unfolding peer_events_keys
  by (simp add: put_event_def insert_or_ignore_def peer_events_def event_core_def ev_key_def Let_def)

lemma fold_put_event_fresh:
  assumes "distinct es" and "set es \<inter> set (peer_events s peer) = {}"
  shows "peer_events (fold (\<lambda>e s. fst (put_peer_event peer s e)) es s) peer = peer_events s peer @ es"
  using assms
proof (induction es arbitrary: s)
  case Nil
  then show ?case by simp
next
  case (Cons e es)
  obtain ts ev d where e: "e = (ts, ev, d)" by (cases e)
  have put: "fst (put_peer_event peer s e) = put_event s peer ts ev d" by (simp add: put_peer_event_def e)
  have pe: "peer_events (put_event s peer ts ev d) peer = peer_events s peer @ [e]"
    unfolding e by (rule put_event_fresh) (use Cons.prems in \<open>auto simp: e\<close>)
  have "peer_events (fold (\<lambda>e s. fst (put_peer_event peer s e)) es (put_event s peer ts ev d)) peer
      = peer_events (put_event s peer ts ev d) peer @ es"
    by (rule Cons.IH) (use Cons.prems in \<open>auto simp: pe\<close>)
  then show ?case by (simp add: put pe)
qed

lemma event_rows_distinct:
  assumes "events_ok a"
  shows "distinct (map event_core (event_rows a since until limit peer))"
proof -
  have "distinct (map event_core (sql_limit limit (sort_key ev_ts
          [e \<leftarrow> ls_events a. ev_peer e = p \<and> l \<le> ev_ts e \<and> ev_ts e \<le> u])))" for p l u
  proof -
    have "distinct (map event_core [e \<leftarrow> ls_events a. ev_peer e = p \<and> l \<le> ev_ts e \<and> ev_ts e \<le> u])"
      using assms by (auto simp: events_ok_def distinct_map inj_on_def ev_key_def event_core_def)
    then have "distinct (map event_core (sort_key ev_ts
          [e \<leftarrow> ls_events a. ev_peer e = p \<and> l \<le> ev_ts e \<and> ev_ts e \<le> u]))"
      by (simp add: distinct_map)
    then show ?thesis by (simp add: sql_limit_def take_map[symmetric])
  qed
  then show ?thesis by (simp only: event_rows_def Let_def)
qed

lemma bucket_rows_distinct:
  assumes "distinct (map bk_key (ls_buckets a))"
  shows "distinct (map bk_key (map (\<lambda>x. x\<lparr>bk_peer := peer\<rparr>) (bucket_rows a t sz)))"
  using assms by (auto simp: bucket_rows_def distinct_map inj_on_def bk_key_def)

lemma rmap_map: "rmap f (map g xs) = rmap (f \<circ> g) xs"
  by (induction xs) simp_all

lemma put_all_merged:
  "put_all put_merged (map (\<lambda>x. Some (MBucket (f x))) xs) s
     = s\<lparr>ls_buckets := fold (insert_or_ignore bk_key) (map f xs) (ls_buckets s)\<rparr>"
  by (induction xs arbitrary: s) (simp_all add: put_merged_def)

lemma py_or_arr: "dget p k = JArr xs \<Longrightarrow> payload_list p k = Inr xs"
  by (cases xs) (simp_all add: payload_list_def py_or_def)

text \<open>What the merge of such an answer stores, table by table.\<close>

lemma sync_gap_tables:
  assumes "get_sync_payload a now last_seen = Inr p"
    and "usec 3600 \<le> now - last_seen" and "now - last_seen < usec (7 * 86400)"
    and "merge_sync_payload env b peer p = (b', Inr c)"
    and "\<forall>e \<in> set (event_rows a (Some last_seen) None 1000 None). clean_event e"
    and "\<forall>x \<in> set (ls_buckets a). clean_bucket x"
    and "sz = (if now - last_seen < usec 86400 then 300 else 3600)"
  shows "\<exists>rs1. b' = put_all put_merged
      (map (\<lambda>x. Some (MBucket (x\<lparr>bk_peer := peer\<rparr>))) (bucket_rows a last_seen sz))
      (put_all (put_peer_event peer) (map (\<lambda>e. Some (event_core e)) (event_rows a (Some last_seen) None 1000 None))
        (put_all put_snap rs1 b))"
proof -
  let ?evs = "event_rows a (Some last_seen) None 1000 None"
  let ?bks = "bucket_rows a last_seen sz"
  from assms(1,2,3) obtain evs bks raw where g: "rmap event_to_out ?evs = Inr evs"
    "rmap bucket_json ?bks = Inr bks" and
    p: "dget p ''raw_snapshots'' = JArr raw" "dget p ''events'' = JArr (map event_json evs)"
       "dget p ''buckets'' = JArr bks"
    by (auto simp: get_sync_payload_def sync_strategy_def get_events_def get_buckets_def Let_def
        rbind_Inr_conv dict_simps assms(7) simp del: rmap_Inr_conv split: if_splits)
  from assms(4) obtain s1 n1 s2 n2 n3
    where m1: "run_merge (merge_snap_row env peer) put_snap b (Inr raw) = (s1, Inr n1)"
      and m2: "run_merge (merge_event_row env) (put_peer_event peer) s1 (Inr (map event_json evs)) = (s2, Inr n2)"
      and m3: "run_merge (merge_bucket_row env peer) put_merged s2 (Inr bks) = (b', Inr n3)"
    by (auto simp: merge_sync_payload_def py_or_arr[OF p(1)] py_or_arr[OF p(2)] py_or_arr[OF p(3)]
        split: prod.splits sum.splits)
  obtain rs1 where s1: "s1 = put_all put_snap rs1 b" using run_merge_Inr[OF m1] by auto
  have "rmap (merge_event_row env \<circ> event_json) evs = Inr (map (\<lambda>e. Some (event_core e)) ?evs)"
    by (rule rmap_Some[OF g(1)]) (use assms(5) event_out_Inr in \<open>auto simp: event_core_def\<close>)
  then have r2: "rmap (merge_event_row env) (map event_json evs) = Inr (map (\<lambda>e. Some (event_core e)) ?evs)"
    by (simp add: rmap_map)
  have s2: "s2 = put_all (put_peer_event peer) (map (\<lambda>e. Some (event_core e)) ?evs) s1"
    using run_merge_total[OF r2, of "put_peer_event peer" s1] m2 by auto
  have clean: "\<forall>x \<in> set ?bks. clean_bucket x" using assms(6) by (auto simp: bucket_rows_def)
  have r3: "rmap (merge_bucket_row env peer) bks = Inr (map (\<lambda>x. Some (MBucket (x\<lparr>bk_peer := peer\<rparr>))) ?bks)"
    by (rule rmap_Some[OF g(2)]) (use clean merge_bucket_json in auto)
  have s3: "b' = put_all put_merged (map (\<lambda>x. Some (MBucket (x\<lparr>bk_peer := peer\<rparr>))) ?bks) s2"
    using run_merge_total[OF r3, of put_merged s2] m3 by auto
  show ?thesis using s1 s2 s3 by auto
qed


section \<open>Lemmas: how far the copy reaches\<close>

lemma last_seen_big:
  assumes "e \<in> set (ls_events s)" and "ev_peer e = peer" and "253402300799 < ev_ts e"
  shows "last_seen_for_peer s peer = Inl (ValueError ''year is out of range'')"
proof -
  let ?xs = "map sn_ts [r \<leftarrow> ls_raw s. sn_peer r = peer] @ map ev_ts [e \<leftarrow> ls_events s. ev_peer e = peer]
             @ map bk_end [b \<leftarrow> ls_buckets s. bk_peer b = peer]"
  have "ev_ts e \<in> set ?xs" using assms by auto
  then obtain m where m: "sql_max ?xs = Some m" "ev_ts e \<le> m" using sql_max_ge by blast
  have "from_epoch x = Inl (ValueError ''year is out of range'')" if "m \<le> x" for x
    using that m assms(3) by (simp add: from_epoch_def)
  then show ?thesis
    by (auto simp: last_seen_for_peer_def Let_def m(1) simp del: map_append append_assoc split: option.splits)
qed

lemma rmap_mem: "rmap f xs = Inr ys \<Longrightarrow> x \<in> set xs \<Longrightarrow> \<exists>y. f x = Inr y \<and> y \<in> set ys"
  by (auto simp: rmap_Inr_conv list_all2_conv_all_nth in_set_conv_nth)

lemma somes_mem: "Some x \<in> set rs \<Longrightarrow> x \<in> set (somes rs)"
  by (induction rs rule: somes.induct) auto

text \<open>
  The copy's reach is lost with its first event. After a payload with an event of any day
  since 1978 has been merged, asking how far the copy of this peer reaches raises
  \<open>ValueError\<close>: the event's milliseconds are read as seconds.
\<close>

theorem last_seen_mixes_units:
  assumes "merge_sync_payload env s peer p = (s', Inr c)"
    and "dget p ''events'' = JArr evs" and "JObj ev \<in> set evs"
    and "dget ev ''ts'' = JTime (Aware t)" and "usec 253402301 \<le> t"
  shows "last_seen_for_peer s' peer = Inl (ValueError ''year is out of range'')"
proof -
  from assms(1) obtain s1 n1 s2 n2 n3
    where m2: "run_merge (merge_event_row env) (put_peer_event peer) s1 (Inr evs) = (s2, Inr n2)"
      and m3: "run_merge (merge_bucket_row env peer) put_merged s2 (payload_list p ''buckets'') = (s', Inr n3)"
    by (auto simp: merge_sync_payload_def py_or_arr[OF assms(2)] split: prod.splits sum.splits)
  from run_merge_Inr[OF m2] obtain rs2 where r2: "rmap (merge_event_row env) evs = Inr rs2"
    "s2 = put_all (put_peer_event peer) rs2 s1" by auto
  from run_merge_Inr[OF m3] obtain rs3 where s': "s' = put_all put_merged rs3 s2" by auto
  have ms: "253402301000 \<le> to_millis t" using assms(5) by (simp add: usec_def to_millis_def)
  have "\<not> (of_int (to_millis t) :: rat) < 100000000000"
  proof -
    have "(of_int 253402301000 :: rat) \<le> of_int (to_millis t)" using ms by (simp only: of_int_le_iff)
    then show ?thesis by simp
  qed
  then have row: "merge_event_row env (JObj ev) = Inr y \<Longrightarrow> \<exists>nm d. y = Some (to_millis t, nm, d)" for y
    by (auto simp: merge_event_row_def need_dict_def assms(4) time_number_def instant_of_def Let_def split: if_splits)
  from rmap_mem[OF r2(1) assms(3)] row obtain nm d where "Some (to_millis t, nm, d) \<in> set rs2" by blast
  then have "(peer, to_millis t, nm, d) \<in> ev_key ` set (ls_events s2)"
    by (auto simp: r2(2) fold_put_event_keys dest: somes_mem)
  then obtain e where "e \<in> set (ls_events s')" "ev_peer e = peer" "ev_ts e = to_millis t"
    by (auto simp: s' fold_put_merged ev_key_def)
  then show ?thesis using ms by (intro last_seen_big) auto
qed

section \<open>Witnesses\<close>

definition demo_env :: merge_env where
  "demo_env = \<lparr>env_local = (\<lambda>t. t), env_str = (\<lambda>_. [])\<rparr>"

definition demo_sender :: log_store where
  "demo_sender = (record_event (new_log_store ''n1'') (usec 1700003000) EV_CONTAINER_EXITED
      (JObj [(''name'', JStr ''db'')]))\<lparr>ls_buckets := map demo_five [1700001000, 1700002200]\<rparr>"

definition demo_payload :: dict where
  "demo_payload = (case get_sync_payload demo_sender (usec 1700007200) (usec 1700000000) of Inl _ \<Rightarrow> [] | Inr p \<Rightarrow> p)"

lemma demo_payload_eq: "get_sync_payload demo_sender (usec 1700007200) (usec 1700000000) = Inr demo_payload"
proof -
  have "is_ok (get_sync_payload demo_sender (usec 1700007200) (usec 1700000000))" by code_simp
  then show ?thesis
    by (cases "get_sync_payload demo_sender (usec 1700007200) (usec 1700000000)") (simp_all add: demo_payload_def)
qed

definition demo_merged :: log_store where
  "demo_merged = fst (merge_sync_payload demo_env (new_log_store ''n2'') ''n1'' demo_payload)"

lemma demo_merge_ok:
  "\<exists>c. merge_sync_payload demo_env (new_log_store ''n2'') ''n1'' demo_payload = (demo_merged, Inr c)
     \<and> mc_events c = 1 \<and> mc_buckets c = 2"
proof -
  have "case snd (merge_sync_payload demo_env (new_log_store ''n2'') ''n1'' demo_payload) of
      Inl _ \<Rightarrow> False | Inr c \<Rightarrow> mc_events c = 1 \<and> mc_buckets c = 2" by code_simp
  then show ?thesis
    by (cases "merge_sync_payload demo_env (new_log_store ''n2'') ''n1'' demo_payload")
      (auto simp: demo_merged_def split: sum.splits)
qed

theorem merge_idempotent_witness:
  "\<exists>c. merge_sync_payload demo_env demo_merged ''n1'' demo_payload = (demo_merged, Inr c) \<and> mc_events c = 0"
proof -
  obtain c where "merge_sync_payload demo_env (new_log_store ''n2'') ''n1'' demo_payload = (demo_merged, Inr c)"
    using demo_merge_ok by blast
  from merge_idempotent[OF this] show ?thesis by blast
qed


theorem last_seen_mixes_units_witness:
  "last_seen_for_peer demo_merged ''n1'' = Inl (ValueError ''year is out of range'')"
proof -
  obtain c where m: "merge_sync_payload demo_env (new_log_store ''n2'') ''n1'' demo_payload = (demo_merged, Inr c)"
    using demo_merge_ok by blast
  have p: "dget demo_payload ''events'' = JArr [JObj [(''ts'', JTime (Aware (usec 1700003000))),
      (''event'', JStr EV_CONTAINER_EXITED), (''detail'', JObj [(''name'', JStr ''db'')])]]" by code_simp
  show ?thesis
    by (rule last_seen_mixes_units[OF m p, of "[(''ts'', JTime (Aware (usec 1700003000))),
      (''event'', JStr EV_CONTAINER_EXITED), (''detail'', JObj [(''name'', JStr ''db'')])]" "usec 1700003000"])
      (simp_all add: dict_simps usec_def)
qed

end
