(* ===== verification/Engine.thy ===== *)
theory Engine
  imports Trust History Sync_Payload
begin

text \<open>
  The monitoring engine (src/engine.py) with its heartbeat, push and dashboard-pull mixins
  (src/alpn/heartbeat.py, push.py, status.py) and the alert events of src/notifier.py.

  The asyncio loop runs one task at a time between awaits, so each definition is what happens
  between two awaits on the network: a finished probe, a received push, a finished pull. What the
  network, the clock and the disk answer are arguments. Log messages are left out.
\<close>

section \<open>State\<close>

record monitor_event =
  me_event :: string
  me_peer :: node_id
  me_alias :: "string option"
  me_source :: node_id
  me_time :: instant
  me_count :: nat
  me_reason :: "string option"

datatype bg_task = ReconnectSync node_id instant | RebuildIroh node_id

text \<open>\<open>eg_trust\<close> holds the trust log, which is also the engine's \<open>_log\<close>.
  \<open>eg_notified\<close> collects what was handed to the notifier, \<open>eg_tasks\<close> the background tasks
  spawned.\<close>

record engine =
  eg_node_id :: node_id
  eg_trust :: trust_mgr
  eg_history :: history_store
  eg_logstore :: "log_store option"
  eg_devices :: "(node_id \<times> peer_state) list"
  eg_last_alert :: "(node_id \<times> instant) list"
  eg_down_after :: nat
  eg_up_after :: nat
  eg_flap_dwell :: nat
  eg_refresh_after :: nat
  eg_refresh_cooldown :: nat
  eg_last_rebuild :: "instant option"
  eg_iroh :: bool
  eg_prev_containers :: "(json \<times> dict) list"
  eg_notified :: "monitor_event list"
  eg_tasks :: "bg_task list"

definition new_engine ::
  "node_id \<Rightarrow> trust_mgr \<Rightarrow> history_store \<Rightarrow> log_store option \<Rightarrow> int \<Rightarrow> int \<Rightarrow> int \<Rightarrow> int \<Rightarrow> int \<Rightarrow> engine" where
  "new_engine nid tm hist ls down_after up_after dwell refresh_after cooldown =
     \<lparr>eg_node_id = nid, eg_trust = tm, eg_history = hist, eg_logstore = ls, eg_devices = [],
      eg_last_alert = [], eg_down_after = nat (max 1 down_after), eg_up_after = nat (max 1 up_after),
      eg_flap_dwell = nat (max 0 dwell), eg_refresh_after = nat (max 0 refresh_after),
      eg_refresh_cooldown = nat (max 0 cooldown), eg_last_rebuild = None, eg_iroh = False,
      eg_prev_containers = [], eg_notified = [], eg_tasks = []\<rparr>"

section \<open>Device table\<close>

definition recent_history :: "engine \<Rightarrow> instant \<Rightarrow> node_id \<Rightarrow> probe_row list" where
  "recent_history g now n = recent_rows (eg_history g) now n 24 None"

definition row_record :: "probe_row \<Rightarrow> latency_record" where
  "row_record r = \<lparr>lr_timestamp = pw_ts r, lr_rtt_ms = pw_rtt r, lr_status = pw_status r\<rparr>"

text \<open>Length of the run of equal statuses at the end.\<close>

definition tail_run :: "probe_row list \<Rightarrow> nat" where
  "tail_run rows = length (takeWhile (\<lambda>r. pw_status r = pw_status (last rows)) (rev rows))"

definition hydrate_state :: "nat \<Rightarrow> probe_row list \<Rightarrow> peer_state \<Rightarrow> peer_state" where
  "hydrate_state down_after rows p =
     (if rows = [] then p
      else
        let p1 = p\<lparr>ps_latency_history :=
                     foldl (deque_push HISTORY_MAXLEN) (ps_latency_history p)
                       (map row_record (last_n HISTORY_MAXLEN rows)),
                   ps_last_seen := (case find (\<lambda>r. pw_status r = ALIVE) (rev rows) of
                                      None \<Rightarrow> ps_last_seen p | Some r \<Rightarrow> Some (pw_ts r))\<rparr>;
            run = tail_run rows in
        if pw_status (last rows) = ALIVE
        then p1\<lparr>ps_successes := run, ps_failures := 0, ps_status := ALIVE\<rparr>
        else p1\<lparr>ps_failures := run, ps_successes := 0,
                ps_status := (if run \<ge> down_after then DEAD else UNKNOWN)\<rparr>)"

text \<open>\<open>key_ok\<close> says whether \<open>iroh.PublicKey.from_string\<close> accepts an id. The dictionary keeps
  one entry per node id.\<close>

definition load_devices :: "(node_id \<Rightarrow> bool) \<Rightarrow> instant \<Rightarrow> engine \<Rightarrow> (node_id \<times> peer_state) list" where
  "load_devices key_ok now g =
     foldl (\<lambda>d p. if key_ok (tp_node_id p)
                  then AList.update (tp_node_id p)
                    (hydrate_state (eg_down_after g) (recent_history g now (tp_node_id p))
                      ((new_peer_state \<lparr>pe_node_id = tp_node_id p, pe_alias = tp_alias p\<rparr>)
                         \<lparr>ps_node_addr := Some (tp_node_id p)\<rparr>)) d
                  else d)
       [] (peers_with_permission (eg_trust g) ''monitor'')"

definition apply_devices_reload :: "(node_id \<Rightarrow> bool) \<Rightarrow> instant \<Rightarrow> engine \<Rightarrow> engine" where
  "apply_devices_reload key_ok now g = g\<lparr>eg_devices := load_devices key_ok now g\<rparr>"

definition check_reload :: "crypto \<Rightarrow> bool \<Rightarrow> (node_id \<Rightarrow> bool) \<Rightarrow> instant \<Rightarrow> engine \<Rightarrow> engine" where
  "check_reload C cache_ok key_ok now g =
     (case trust_reload_if_changed C cache_ok (eg_trust g) of
        (m, Inr True) \<Rightarrow> apply_devices_reload key_ok now (g\<lparr>eg_trust := m\<rparr>)
      | (m, _) \<Rightarrow> g\<lparr>eg_trust := m\<rparr>)"

section \<open>Transitions and alerts\<close>

definition transition_target :: "nat \<Rightarrow> nat \<Rightarrow> peer_state \<Rightarrow> peer_status \<Rightarrow> peer_status option" where
  "transition_target down_after up_after p observed =
     (if observed = ALIVE then
        if ps_status p = UNKNOWN then Some ALIVE
        else if ps_status p \<noteq> ALIVE \<and> ps_successes p \<ge> up_after then Some ALIVE
        else None
      else if ps_status p = ALIVE \<and> ps_failures p \<ge> down_after then Some DEAD
      else None)"

definition transition_data :: "string \<Rightarrow> peer_state \<Rightarrow> dict" where
  "transition_data ev p =
     [(''node_id'', JStr (pe_node_id (ps_entry p))),
      (''consecutive_count'', JInt (int (if ev = OP_MONITOR_DOWN then ps_failures p else ps_successes p)))]
     @ (case ps_fail_reason p of
          Some r \<Rightarrow> if ev = OP_MONITOR_DOWN \<and> r \<noteq> [] then [(''reason'', JStr r)] else []
        | None \<Rightarrow> [])"

definition alert_event :: "engine \<Rightarrow> string \<Rightarrow> peer_state \<Rightarrow> instant \<Rightarrow> monitor_event" where
  "alert_event g ev p now =
     \<lparr>me_event = ev, me_peer = pe_node_id (ps_entry p), me_alias = pe_alias (ps_entry p),
      me_source = eg_node_id g, me_time = now,
      me_count = (if ev = OP_MONITOR_DOWN then ps_failures p else ps_successes p),
      me_reason = (case ps_fail_reason p of
                     Some r \<Rightarrow> if ev = OP_MONITOR_DOWN \<and> r \<noteq> [] then Some r else None
                   | None \<Rightarrow> None)\<rparr>"

definition dwell_active :: "engine \<Rightarrow> node_id \<Rightarrow> instant \<Rightarrow> bool" where
  "dwell_active g nid now =
     (eg_flap_dwell g \<noteq> 0
      \<and> (case map_of (eg_last_alert g) nid of
           None \<Rightarrow> False
         | Some t \<Rightarrow> now - t < usec (int (eg_flap_dwell g))))"

text \<open>The webhook is called outside the state; its failure is only logged.\<close>

definition fire_alert :: "engine \<Rightarrow> string \<Rightarrow> peer_state \<Rightarrow> instant \<Rightarrow> engine" where
  "fire_alert g ev p now =
     (let nid = pe_node_id (ps_entry p) in
      if dwell_active g nid now then g
      else g\<lparr>eg_last_alert := AList.update nid now (eg_last_alert g),
             eg_notified := eg_notified g @ [alert_event g ev p now]\<rparr>)"

definition log_transition :: "crypto \<Rightarrow> io_env \<Rightarrow> engine \<Rightarrow> string \<Rightarrow> peer_state \<Rightarrow> engine" where
  "log_transition C io g ev p =
     (let (L, _) = log_append C (io_now io) (io_log_write io) (tm_log (eg_trust g)) ev (transition_data ev p) in
      g\<lparr>eg_trust := (eg_trust g)\<lparr>tm_log := L\<rparr>\<rparr>)"

text \<open>\<open>now\<close> is an aware datetime; comparing it with a naive maintenance bound raises.\<close>

definition maybe_transition ::
  "crypto \<Rightarrow> io_env \<Rightarrow> engine \<Rightarrow> peer_state \<Rightarrow> peer_status \<Rightarrow> instant \<Rightarrow> (engine \<times> peer_state) \<times> unit res" where
  "maybe_transition C io g p observed now =
     (case transition_target (eg_down_after g) (eg_up_after g) p observed of
        None \<Rightarrow> ((g, p), Inr ())
      | Some new \<Rightarrow>
          let prev = ps_status p;
              nid = pe_node_id (ps_entry p);
              p' = p\<lparr>ps_status := new\<rparr>;
              ev = (if new = ALIVE then OP_MONITOR_UP else OP_MONITOR_DOWN);
              g1 = (if new = ALIVE \<and> prev = DEAD
                    then g\<lparr>eg_tasks := eg_tasks g @ [ReconnectSync nid now]\<rparr> else g) in
          if prev = UNKNOWN then ((g1, p'), Inr ())
          else
            (case (case get_peer (eg_trust g1) nid of
                     None \<Rightarrow> Inr False | Some tp \<Rightarrow> in_maintenance tp (Aware now)) of
               Inl e \<Rightarrow> ((g1, p'), Inl e)
             | Inr True \<Rightarrow> ((g1, p'), Inr ())
             | Inr False \<Rightarrow> ((fire_alert (log_transition C io g1 ev p') ev p' now, p'), Inr ())))"

section \<open>Probes\<close>

text \<open>How the network part of a probe ends: the round-trip time in microseconds, or the reason.\<close>

datatype probe_result = Reached nat | Failed string

definition probe_record :: "instant \<Rightarrow> probe_result \<Rightarrow> latency_record" where
  "probe_record now r =
     (case r of
        Reached us \<Rightarrow> \<lparr>lr_timestamp = now, lr_rtt_ms = (if us \<noteq> 0 then Some (of_nat us / 1000) else None),
                       lr_status = ALIVE\<rparr>
      | Failed _ \<Rightarrow> \<lparr>lr_timestamp = now, lr_rtt_ms = None, lr_status = DEAD\<rparr>)"

definition note_probe :: "peer_state \<Rightarrow> instant \<Rightarrow> probe_result \<Rightarrow> peer_state" where
  "note_probe p now r =
     (case r of
        Reached _ \<Rightarrow> p\<lparr>ps_last_seen := Some now, ps_failures := 0, ps_successes := ps_successes p + 1,
                       ps_fail_reason := None,
                       ps_latency_history := deque_push HISTORY_MAXLEN (ps_latency_history p) (probe_record now r)\<rparr>
      | Failed why \<Rightarrow> p\<lparr>ps_failures := ps_failures p + 1, ps_successes := 0,
                       ps_fail_reason := Some (take 200 why),
                       ps_latency_history := deque_push HISTORY_MAXLEN (ps_latency_history p) (probe_record now r)\<rparr>)"

text \<open>\<open>Inr None\<close> is a probe skipped for maintenance.\<close>

definition probe_peer ::
  "crypto \<Rightarrow> io_env \<Rightarrow> engine \<Rightarrow> peer_state \<Rightarrow> instant \<Rightarrow> probe_result
   \<Rightarrow> (engine \<times> peer_state) \<times> latency_record option res" where
  "probe_peer C io g p now r =
     (case (case get_peer (eg_trust g) (pe_node_id (ps_entry p)) of
              None \<Rightarrow> Inr False | Some tp \<Rightarrow> in_maintenance tp (Aware now)) of
        Inl e \<Rightarrow> ((g, p), Inl e)
      | Inr True \<Rightarrow> ((g, p), Inr None)
      | Inr False \<Rightarrow>
          (case maybe_transition C io g (note_probe p now r) (lr_status (probe_record now r)) now of
             (gp, Inl e) \<Rightarrow> (gp, Inl e)
           | (gp, Inr _) \<Rightarrow> (gp, Inr (Some (probe_record now r)))))"

text \<open>One finished probe of the cycle; the device's \<open>PeerState\<close> is updated in place.\<close>

record probe_call =
  pc_node :: node_id
  pc_now :: instant
  pc_result :: probe_result
  pc_io :: io_env

definition run_probe :: "crypto \<Rightarrow> engine \<Rightarrow> probe_call \<Rightarrow> engine \<times> latency_record option res" where
  "run_probe C g c =
     (case map_of (eg_devices g) (pc_node c) of
        None \<Rightarrow> (g, Inr None)
      | Some p \<Rightarrow>
          (case probe_peer C (pc_io c) g p (pc_now c) (pc_result c) of
             ((g', p'), r) \<Rightarrow> (g'\<lparr>eg_devices := AList.update (pc_node c) p' (eg_devices g')\<rparr>, r)))"

text \<open>The probes in the order they finish; the results are collected per device.\<close>

fun run_probes ::
  "crypto \<Rightarrow> engine \<Rightarrow> probe_call list \<Rightarrow> engine \<times> (node_id \<times> latency_record) list" where
  "run_probes C g [] = (g, [])"
| "run_probes C g (c # cs) =
     (case run_probe C g c of (g', r) \<Rightarrow>
        (case run_probes C g' cs of (g'', rs) \<Rightarrow>
           (g'', (case r of Inr (Some x) \<Rightarrow> (pc_node c, x) # rs | _ \<Rightarrow> rs))))"

definition cycle_rows ::
  "(node_id \<times> peer_state) list \<Rightarrow> (node_id \<times> latency_record) list
   \<Rightarrow> (node_id \<times> instant \<times> rat option \<times> peer_status) list" where
  "cycle_rows devices results = List.map_filter (\<lambda>(n, _).
     case map_of results n of
       None \<Rightarrow> None
     | Some r \<Rightarrow> Some (n, lr_timestamp r, lr_rtt_ms r, lr_status r)) devices"

definition run_heartbeat_cycle ::
  "crypto \<Rightarrow> bool \<Rightarrow> (node_id \<Rightarrow> bool) \<Rightarrow> instant \<Rightarrow> bool \<Rightarrow> probe_call list \<Rightarrow> engine \<Rightarrow> engine" where
  "run_heartbeat_cycle C cache_ok key_ok now db_ok calls g =
     (if \<not> eg_iroh g then g
      else
        let g1 = check_reload C cache_ok key_ok now g in
        if eg_devices g1 = [] then g1
        else
          let (g2, results) = run_probes C g1 calls;
              rows = cycle_rows (eg_devices g1) results in
          if rows = [] then g2
          else g2\<lparr>eg_history := fst (hist_record_many db_ok (eg_history g2) rows)\<rparr>)"

section \<open>Pushes\<close>

definition record_push_from :: "crypto \<Rightarrow> io_env \<Rightarrow> bool \<Rightarrow> engine \<Rightarrow> node_id \<Rightarrow> instant \<Rightarrow> engine \<times> unit res" where
  "record_push_from C io db_ok g remote now =
     (let known = map_of (eg_devices g) remote;
          p = (case known of
                 Some p \<Rightarrow> p
               | None \<Rightarrow> new_peer_state \<lparr>pe_node_id = remote,
                   pe_alias = (case get_peer (eg_trust g) remote of None \<Rightarrow> None | Some tp \<Rightarrow> tp_alias tp)\<rparr>);
          p1 = p\<lparr>ps_last_seen := Some now, ps_failures := 0, ps_successes := ps_successes p + 1,
                 ps_fail_reason := None,
                 ps_latency_history := deque_push HISTORY_MAXLEN (ps_latency_history p)
                   \<lparr>lr_timestamp = now, lr_rtt_ms = None, lr_status = ALIVE\<rparr>\<rparr>;
          g1 = (if db_ok then g\<lparr>eg_history := hist_record (eg_history g) remote now None ALIVE\<rparr> else g) in
      case maybe_transition C io g1 p1 ALIVE now of
        ((g2, p2), r) \<Rightarrow>
          ((if known = None then g2
            else g2\<lparr>eg_devices := AList.update remote p2 (eg_devices g2)\<rparr>), r))"

text \<open>What the acceptor does with the connection.\<close>

datatype close_action = CloseForbidden string | CloseError string | CloseOk string

definition heartbeat_accept :: "trust_mgr \<Rightarrow> node_id \<Rightarrow> close_action" where
  "heartbeat_accept m remote =
     (let (ok, reason) = verify_and_authorize m remote ''monitor'' in
      if \<not> ok then CloseForbidden (take 120 reason) else CloseOk ''pong'')"

definition push_accept :: "crypto \<Rightarrow> io_env \<Rightarrow> bool \<Rightarrow> engine \<Rightarrow> node_id \<Rightarrow> instant \<Rightarrow> engine \<times> close_action" where
  "push_accept C io db_ok g remote now =
     (let (ok, reason) = verify_and_authorize (eg_trust g) remote ''monitor'' in
      if \<not> ok then (g, CloseForbidden (take 120 reason))
      else (fst (record_push_from C io db_ok g remote now), CloseOk ''push-ack''))"

end
