(* ===== verification/Engine_Jobs.thy ===== *)
theory Engine_Jobs
  imports Engine
begin

text \<open>
  The engine's other jobs and its interface (src/engine.py, src/alpn/status.py): history garbage
  collection, the collector's tick with the container events, the dashboard pull with its retry
  and the rebuild of the iroh node, and the peer management calls.
\<close>

section \<open>Retention\<close>

definition run_history_gc :: "instant \<Rightarrow> bool \<Rightarrow> engine \<Rightarrow> engine" where
  "run_history_gc now db_ok g =
     (let g1 = (if db_ok then g\<lparr>eg_history := fst (hist_prune_older_than now None (eg_history g))\<rparr> else g) in
      g1\<lparr>eg_last_alert := [x \<leftarrow> eg_last_alert g1. map_of (eg_devices g1) (fst x) \<noteq> None]\<rparr>)"

section \<open>Collector tick\<close>

text \<open>\<open>{c["name"]: c for c in cs}\<close>, which raises without a name, and
  \<open>{c.get("name", ""): c for c in cs if c.get("name")}\<close>.\<close>

definition index_by_name :: "dict list \<Rightarrow> (json \<times> dict) list res" where
  "index_by_name cs =
     rfold (\<lambda>d c. rbind (dindex c ''name'') (\<lambda>n.
        if hashable n then Inr (AList.update n c d) else Inl (TypeError ''unhashable type''))) [] cs"

definition index_named :: "dict list \<Rightarrow> (json \<times> dict) list" where
  "index_named cs = foldl (\<lambda>d c. AList.update (dget c ''name'') c d) [] [c \<leftarrow> cs. truthy (dget c ''name'')]"

definition container_detail :: "json \<Rightarrow> dict \<Rightarrow> json" where
  "container_detail name c = JObj [(''name'', name), (''image'', dget c ''image'')]"

text \<open>The events one container causes, given its previous entry.\<close>

definition container_events :: "dict \<Rightarrow> dict \<Rightarrow> (string \<times> json) list" where
  "container_events prev c =
     (let name = dget_default c ''name'' (JStr []);
          prev_status = dget prev ''status''; curr_status = dget c ''status'' in
      (if prev_status = JStr ''running'' \<and> curr_status = JStr ''exited''
       then [(EV_CONTAINER_EXITED, container_detail name c)]
       else if prev_status \<in> {JStr ''exited'', JStr ''stopped''} \<and> curr_status = JStr ''running''
       then [(EV_CONTAINER_RESTARTED, container_detail name c)]
       else [])
      @ (if dget c ''health'' = JStr ''unhealthy'' \<and> dget prev ''health'' \<noteq> JStr ''unhealthy''
         then [(EV_CONTAINER_UNHEALTHY, container_detail name c)] else []))"

definition container_changes :: "(json \<times> dict) list \<Rightarrow> dict list \<Rightarrow> (string \<times> json) list" where
  "container_changes prev_by_name cs = concat (map (\<lambda>c.
     case map_of prev_by_name (dget_default c ''name'' (JStr [])) of
       None \<Rightarrow> [] | Some prev \<Rightarrow> container_events prev c) cs)"

text \<open>The containers of a stored snapshot, as dictionaries.\<close>

definition snap_containers :: "dict \<Rightarrow> dict list res" where
  "snap_containers snap =
     rbind (py_list (dget_default snap ''containers'' (JArr []))) (rmap (\<lambda>v. case v of
       JObj d \<Rightarrow> Inr d | _ \<Rightarrow> Inl (TypeError ''indices must be integers'')))"

text \<open>The cache is updated in the \<open>finally\<close> block, also when the seeding raises.\<close>

definition check_container_events :: "engine \<Rightarrow> instant \<Rightarrow> dict list \<Rightarrow> engine \<times> unit res" where
  "check_container_events g now cs =
     (case eg_logstore g of
        None \<Rightarrow> (g, Inr ())
      | Some ls \<Rightarrow>
          let g' = g\<lparr>eg_prev_containers := index_named cs\<rparr>;
              prev = (if eg_prev_containers g \<noteq> [] then Inr (eg_prev_containers g)
                      else (case latest_snapshot ls None of
                              None \<Rightarrow> Inr []
                            | Some snap \<Rightarrow> rbind (snap_containers snap) index_by_name)) in
          (case prev of
             Inl e \<Rightarrow> (g', Inl e)
           | Inr by_name \<Rightarrow>
               (g'\<lparr>eg_logstore := Some (foldl (\<lambda>s (ev, d). record_event s now ev d) ls
                     (container_changes by_name cs))\<rparr>, Inr ())))"

text \<open>\<open>snap\<close> is the collector's answer: nothing, or a snapshot and its container list.\<close>

definition run_stats_cycle :: "engine \<Rightarrow> instant \<Rightarrow> (dict \<times> dict list) option \<Rightarrow> engine" where
  "run_stats_cycle g now snap =
     (case (eg_logstore g, snap) of
        (Some _, Some (d, cs)) \<Rightarrow>
          (case check_container_events g now cs of
             (g1, Inl _) \<Rightarrow> g1
           | (g1, Inr _) \<Rightarrow>
               (case eg_logstore g1 of
                  None \<Rightarrow> g1
                | Some ls \<Rightarrow> g1\<lparr>eg_logstore := Some (fst (record_snapshot ls now d))\<rparr>))
      | _ \<Rightarrow> g)"

definition run_rollup_5min :: "engine \<Rightarrow> instant \<Rightarrow> engine" where
  "run_rollup_5min g now =
     g\<lparr>eg_logstore := map_option (\<lambda>ls. fst (roll_up_5min ls now)) (eg_logstore g)\<rparr>"

text \<open>When the roll-up raises, the pruning after it is skipped.\<close>

definition run_rollup_hourly :: "engine \<Rightarrow> instant \<Rightarrow> engine" where
  "run_rollup_hourly g now =
     g\<lparr>eg_logstore := map_option (\<lambda>ls.
          case roll_hourly ls now of
            (ls', Inl _) \<Rightarrow> ls'
          | (ls', Inr _) \<Rightarrow> fst (ls_prune ls' now)) (eg_logstore g)\<rparr>"

definition run_rollup_daily :: "engine \<Rightarrow> instant \<Rightarrow> engine" where
  "run_rollup_daily g now =
     g\<lparr>eg_logstore := map_option (\<lambda>ls. fst (roll_daily ls now)) (eg_logstore g)\<rparr>"

definition get_own_stats :: "engine \<Rightarrow> dict option" where
  "get_own_stats g = (case eg_logstore g of None \<Rightarrow> None | Some ls \<Rightarrow> latest_snapshot ls None)"

section \<open>Serving and pulling the dashboard\<close>

definition status_response :: "engine \<Rightarrow> int \<Rightarrow> dict" where
  "status_response g since_seq =
     (let (latest, entries) = (case eg_logstore g of
            None \<Rightarrow> (0, []) | Some ls \<Rightarrow> get_delta_since_seq ls since_seq None 360) in
      [(''own_stats'', case get_own_stats g of None \<Rightarrow> JNull | Some d \<Rightarrow> JObj d),
       (''latest_seq'', JInt latest), (''entries'', JArr entries)])"

text \<open>\<open>view_dashboard\<close> or \<open>monitor\<close>; the reason sent is that of the second check.\<close>

definition status_authorize :: "trust_mgr \<Rightarrow> node_id \<Rightarrow> bool \<times> string" where
  "status_authorize m remote =
     (let (ok, reason) = verify_and_authorize m remote ''view_dashboard'' in
      if ok then (ok, reason) else verify_and_authorize m remote ''monitor'')"

text \<open>The request is the client's cursor, \<open>Inl\<close> when reading it failed.\<close>

definition status_accept :: "engine \<Rightarrow> node_id \<Rightarrow> int res \<Rightarrow> close_action \<times> dict option" where
  "status_accept g remote req =
     (let (ok, reason) = status_authorize (eg_trust g) remote in
      if \<not> ok then (CloseForbidden (take 120 reason), None)
      else (case req of
              Inl _ \<Rightarrow> (CloseOk ''done'', None)
            | Inr since_seq \<Rightarrow> (CloseOk ''done'', Some (status_response g since_seq))))"

definition set_device :: "node_id \<Rightarrow> (peer_state \<Rightarrow> peer_state) \<Rightarrow> engine \<Rightarrow> engine" where
  "set_device n f g =
     (case map_of (eg_devices g) n of
        None \<Rightarrow> g | Some p \<Rightarrow> g\<lparr>eg_devices := AList.update n (f p) (eg_devices g)\<rparr>)"

definition record_pull_failure :: "engine \<Rightarrow> node_id \<Rightarrow> engine" where
  "record_pull_failure g n =
     (case map_of (eg_devices g) n of
        None \<Rightarrow> g
      | Some p \<Rightarrow>
          let k = ps_pull_failures p + 1;
              g1 = set_device n (\<lambda>p. p\<lparr>ps_pull_failures := k\<rparr>) g in
          if eg_refresh_after g = 0 then g1
          else if k < eg_refresh_after g then g1
          else if ps_status p \<noteq> ALIVE then g1
          else g1\<lparr>eg_tasks := eg_tasks g1 @ [RebuildIroh n]\<rparr>)"

text \<open>How a fetch ends: a response, or an error that may be transient.\<close>

datatype fetch_result = Fetched dict | FetchFailed string bool

definition transient_error :: "string \<Rightarrow> bool \<Rightarrow> bool" where
  "transient_error msg is_timeout \<longleftrightarrow>
     is_substring ''reset by peer'' (py_lower msg) \<or> is_substring ''connection lost'' (py_lower msg)
     \<or> is_substring ''timed out'' (py_lower msg) \<or> is_timeout"

text \<open>The answer to a pull: the direct attempt, and after a transient error the relay attempt.\<close>

definition pull_response :: "fetch_result \<Rightarrow> fetch_result \<Rightarrow> dict option" where
  "pull_response direct relay =
     (case direct of
        Fetched d \<Rightarrow> Some d
      | FetchFailed msg timeout \<Rightarrow>
          if transient_error msg timeout
          then (case relay of Fetched d \<Rightarrow> Some d | FetchFailed _ _ \<Rightarrow> None)
          else None)"

text \<open>A Python bool is an \<open>int\<close>.\<close>

fun int_instance :: "json \<Rightarrow> int option" where
  "int_instance (JInt n) = Some n"
| "int_instance (JBool b) = Some (if b then 1 else 0)"
| "int_instance _ = None"

text \<open>\<open>deque.extend\<close> one by one; iterating what is not a list raises before the cursor moves.\<close>

definition apply_pull :: "dict \<Rightarrow> peer_state \<Rightarrow> peer_state \<times> unit res" where
  "apply_pull resp p =
     (let own = dget resp ''own_stats'';
          p1 = (if own \<noteq> JNull then p\<lparr>ps_last_stats := Some own\<rparr> else p) in
      case py_list (py_or (dget resp ''entries'') (JArr [])) of
        Inl e \<Rightarrow> (p1, Inl e)
      | Inr es \<Rightarrow>
          (p1\<lparr>ps_stats_history := foldl (deque_push STATS_HISTORY_MAXLEN) (ps_stats_history p1) es,
              ps_seq := (case int_instance (dget resp ''latest_seq'') of None \<Rightarrow> ps_seq p1 | Some n \<Rightarrow> n),
              ps_pull_failures := 0, ps_gap := False\<rparr>, Inr ()))"

definition live_payload :: "instant \<Rightarrow> dict \<Rightarrow> dict" where
  "live_payload now own =
     [(''raw_snapshots'', JArr [JObj (if map_of own ''ts'' = None then own @ [(''ts'', JTime (Aware now))] else own)]),
      (''events'', JArr []), (''sync_strategy'', JStr ''live'')]"

definition merge_live :: "merge_env \<Rightarrow> engine \<Rightarrow> node_id \<Rightarrow> instant \<Rightarrow> json \<Rightarrow> engine" where
  "merge_live env g n now own =
     (case (eg_logstore g, own) of
        (Some ls, JObj d) \<Rightarrow>
          g\<lparr>eg_logstore := Some (fst (merge_sync_payload env ls n (live_payload now d)))\<rparr>
      | _ \<Rightarrow> g)"

definition pull_one_peer ::
  "merge_env \<Rightarrow> engine \<Rightarrow> node_id \<Rightarrow> instant \<Rightarrow> fetch_result \<Rightarrow> fetch_result \<Rightarrow> engine" where
  "pull_one_peer env g n now direct relay =
     (case pull_response direct relay of
        None \<Rightarrow> record_pull_failure g n
      | Some resp \<Rightarrow>
          (case map_of (eg_devices g) n of
             None \<Rightarrow>
               if is_ok (py_list (py_or (dget resp ''entries'') (JArr [])))
               then merge_live env g n now (dget resp ''own_stats'') else g
           | Some p \<Rightarrow>
               let (p', r) = apply_pull resp p;
                   g1 = g\<lparr>eg_devices := AList.update n p' (eg_devices g)\<rparr> in
               if is_ok r then merge_live env g1 n now (dget resp ''own_stats'') else g1))"

text \<open>Peers granted either permission, once each.\<close>

definition pull_targets :: "trust_mgr \<Rightarrow> node_id list" where
  "pull_targets m =
     rev (remdups (rev (map tp_node_id (peers_with_permission m ''view_dashboard''
                                       @ peers_with_permission m ''monitor''))))"

section \<open>Rebuilding the iroh node\<close>

definition reset_pull_failures :: "engine \<Rightarrow> engine" where
  "reset_pull_failures g =
     g\<lparr>eg_devices := map (\<lambda>(n, p). (n, p\<lparr>ps_pull_failures := 0\<rparr>)) (eg_devices g)\<rparr>"

definition rebuild_cooling :: "engine \<Rightarrow> instant \<Rightarrow> bool" where
  "rebuild_cooling g now =
     (case eg_last_rebuild g of
        None \<Rightarrow> False | Some t \<Rightarrow> now - t < usec (int (eg_refresh_cooldown g)))"

text \<open>\<open>start\<close> is the clock under the lock, \<open>finish\<close> the clock after the attempt, \<open>built\<close>
  whether the new node came up.\<close>

definition maybe_rebuild_iroh :: "engine \<Rightarrow> instant \<Rightarrow> instant \<Rightarrow> bool \<Rightarrow> engine" where
  "maybe_rebuild_iroh g start finish built =
     (if rebuild_cooling g start then g
      else if built
      then (reset_pull_failures g)\<lparr>eg_iroh := True, eg_last_rebuild := Some finish\<rparr>
      else g\<lparr>eg_iroh := False, eg_last_rebuild := Some finish\<rparr>)"

section \<open>Peer management\<close>

text \<open>An error text, or \<open>None\<close>; an exception of the trust manager passes through.\<close>

type_synonym api_result = "string option res"

definition with_trust :: "engine \<Rightarrow> trust_mgr \<times> bool res \<Rightarrow> string \<Rightarrow> (engine \<Rightarrow> engine) \<Rightarrow> engine \<times> api_result" where
  "with_trust g mr msg reload =
     (case mr of
        (m, Inl e) \<Rightarrow> (g\<lparr>eg_trust := m\<rparr>, Inl e)
      | (m, Inr False) \<Rightarrow> (g\<lparr>eg_trust := m\<rparr>, Inr (Some msg))
      | (m, Inr True) \<Rightarrow> (reload (g\<lparr>eg_trust := m\<rparr>), Inr None))"

abbreviation BAD_NODE_ID :: string where
  "BAD_NODE_ID \<equiv> ''Node ID must be 64-char lowercase hex''"

definition add_peer ::
  "crypto \<Rightarrow> io_env \<Rightarrow> (node_id \<Rightarrow> bool) \<Rightarrow> instant \<Rightarrow> engine \<Rightarrow> node_id \<Rightarrow> string option \<Rightarrow> string list
   \<Rightarrow> string list \<Rightarrow> engine \<times> api_result" where
  "add_peer C io key_ok now g nid alias permissions tags =
     (if nid = [] then (g, Inr (Some ''Node ID cannot be empty''))
      else if \<not> validate_node_id nid then (g, Inr (Some BAD_NODE_ID))
      else if nid = eg_node_id g then (g, Inr (Some ''Cannot add yourself''))
      else if \<not> key_ok nid then (g, Inr (Some ''Invalid Node ID''))
      else with_trust g (trust_add_peer C io (eg_trust g) nid alias permissions tags)
             ''Peer already trusted (or invalid permissions)'' (apply_devices_reload key_ok now))"

definition revoke_peer ::
  "crypto \<Rightarrow> io_env \<Rightarrow> (node_id \<Rightarrow> bool) \<Rightarrow> instant \<Rightarrow> engine \<Rightarrow> node_id \<Rightarrow> engine \<times> api_result" where
  "revoke_peer C io key_ok now g nid =
     (if \<not> validate_node_id nid then (g, Inr (Some BAD_NODE_ID))
      else with_trust g (trust_revoke_peer C io (eg_trust g) nid)
             ''Peer not found or already revoked'' (apply_devices_reload key_ok now))"

definition update_peer_permissions ::
  "crypto \<Rightarrow> io_env \<Rightarrow> (node_id \<Rightarrow> bool) \<Rightarrow> instant \<Rightarrow> engine \<Rightarrow> node_id \<Rightarrow> string list \<Rightarrow> engine \<times> api_result" where
  "update_peer_permissions C io key_ok now g nid permissions =
     (if \<not> validate_node_id nid then (g, Inr (Some BAD_NODE_ID))
      else with_trust g (trust_update_permissions C io (eg_trust g) nid permissions)
             ''Failed to update permissions (peer missing, revoked, or invalid perms)''
             (apply_devices_reload key_ok now))"

definition set_peer_tags ::
  "crypto \<Rightarrow> io_env \<Rightarrow> (node_id \<Rightarrow> bool) \<Rightarrow> instant \<Rightarrow> engine \<Rightarrow> node_id \<Rightarrow> string list \<Rightarrow> engine \<times> api_result" where
  "set_peer_tags C io key_ok now g nid tags =
     (if \<not> validate_node_id nid then (g, Inr (Some BAD_NODE_ID))
      else with_trust g (trust_set_tags C io (eg_trust g) nid tags)
             ''Failed to set tags'' (apply_devices_reload key_ok now))"

definition add_peer_tag :: "crypto \<Rightarrow> io_env \<Rightarrow> engine \<Rightarrow> node_id \<Rightarrow> string \<Rightarrow> engine \<times> api_result" where
  "add_peer_tag C io g nid tag =
     (if \<not> validate_node_id nid then (g, Inr (Some BAD_NODE_ID))
      else with_trust g (trust_add_tag C io (eg_trust g) nid tag) ''Failed to add tag'' (\<lambda>g. g))"

definition remove_peer_tag :: "crypto \<Rightarrow> io_env \<Rightarrow> engine \<Rightarrow> node_id \<Rightarrow> string \<Rightarrow> engine \<times> api_result" where
  "remove_peer_tag C io g nid tag =
     (if \<not> validate_node_id nid then (g, Inr (Some BAD_NODE_ID))
      else with_trust g (trust_remove_tag C io (eg_trust g) nid tag) ''Failed to remove tag'' (\<lambda>g. g))"

definition set_peer_maintenance ::
  "crypto \<Rightarrow> io_env \<Rightarrow> engine \<Rightarrow> node_id \<Rightarrow> datetime \<Rightarrow> datetime \<Rightarrow> engine \<times> api_result" where
  "set_peer_maintenance C io g nid start end_t =
     (if \<not> validate_node_id nid then (g, Inr (Some BAD_NODE_ID))
      else (case dt_le end_t start of
              Inl e \<Rightarrow> (g, Inl e)
            | Inr True \<Rightarrow> (g, Inr (Some ''Maintenance end must be after start''))
            | Inr False \<Rightarrow> with_trust g (trust_set_maintenance C io (eg_trust g) nid start end_t)
                             ''Failed to schedule maintenance'' (\<lambda>g. g)))"

definition clear_peer_maintenance :: "crypto \<Rightarrow> io_env \<Rightarrow> engine \<Rightarrow> node_id \<Rightarrow> engine \<times> api_result" where
  "clear_peer_maintenance C io g nid =
     (if \<not> validate_node_id nid then (g, Inr (Some BAD_NODE_ID))
      else with_trust g (trust_clear_maintenance C io (eg_trust g) nid) ''Peer not found'' (\<lambda>g. g))"

definition get_device_states :: "engine \<Rightarrow> peer_state list" where
  "get_device_states g = map snd (eg_devices g)"

end
