(* ===== verification/Liveness.thy ===== *)
theory Liveness
  imports Engine_Jobs
begin

text \<open>
  What the liveness machine of the engine guarantees: the steps of the running engine as a
  relation, the invariants of the device table and of the alerts, the alert threshold, and what a
  restart does to a beginning outage.
\<close>

section \<open>Steps of the running engine\<close>

inductive live_step :: "crypto \<Rightarrow> merge_env \<Rightarrow> engine \<Rightarrow> engine \<Rightarrow> bool" for C :: crypto and env :: merge_env where
  probe: "live_step C env g (fst (run_probe C g c))"
| push: "live_step C env g (fst (push_accept C io db_ok g remote now))"
| gc: "live_step C env g (run_history_gc now db_ok g)"
| stats: "live_step C env g (run_stats_cycle g now snap)"
| rollup: "live_step C env g (run_rollup_5min g now)"
| rollup_hourly: "live_step C env g (run_rollup_hourly g now)"
| rollup_daily: "live_step C env g (run_rollup_daily g now)"
| pull: "live_step C env g (pull_one_peer env g n now direct relay)"
| rebuild: "live_step C env g (maybe_rebuild_iroh g start finish built)"

inductive_cases live_stepE: "live_step C env g g'"

section \<open>Frames\<close>

lemma log_transition_frame [simp]:
  "eg_devices (log_transition C io g ev p) = eg_devices g"
  "eg_last_alert (log_transition C io g ev p) = eg_last_alert g"
  "eg_notified (log_transition C io g ev p) = eg_notified g"
  "eg_flap_dwell (log_transition C io g ev p) = eg_flap_dwell g"
  "eg_down_after (log_transition C io g ev p) = eg_down_after g"
  "eg_up_after (log_transition C io g ev p) = eg_up_after g"
  "eg_node_id (log_transition C io g ev p) = eg_node_id g"
  "tm_by_nid (eg_trust (log_transition C io g ev p)) = tm_by_nid (eg_trust g)"
  "tm_store (eg_trust (log_transition C io g ev p)) = tm_store (eg_trust g)"
  by (simp_all add: log_transition_def Let_def split: prod.splits)

lemma fire_alert_frame [simp]:
  "eg_devices (fire_alert g ev p now) = eg_devices g"
  "eg_flap_dwell (fire_alert g ev p now) = eg_flap_dwell g"
  "eg_down_after (fire_alert g ev p now) = eg_down_after g"
  "eg_up_after (fire_alert g ev p now) = eg_up_after g"
  "eg_node_id (fire_alert g ev p now) = eg_node_id g"
  "eg_trust (fire_alert g ev p now) = eg_trust g"
  by (simp_all add: fire_alert_def Let_def)

lemma dwell_active_log [simp]:
  "dwell_active (log_transition C io g ev p) nid now = dwell_active g nid now"
  by (auto simp: dwell_active_def split: option.splits)

section \<open>The device table\<close>

text \<open>The entry's id is its key; the histories are bounded; one of the two counters is zero.\<close>

definition peer_ok :: "node_id \<Rightarrow> peer_state \<Rightarrow> bool" where
  "peer_ok n p \<longleftrightarrow> pe_node_id (ps_entry p) = n \<and> peer_bounded p \<and> (ps_failures p = 0 \<or> ps_successes p = 0)"

definition devices_ok :: "engine \<Rightarrow> bool" where
  "devices_ok g \<longleftrightarrow> distinct (map fst (eg_devices g)) \<and> (\<forall>(n, p) \<in> set (eg_devices g). peer_ok n p)"

definition alerts_ok :: "engine \<Rightarrow> bool" where
  "alerts_ok g \<longleftrightarrow>
     sorted_wrt (\<lambda>a b. me_peer a = me_peer b \<longrightarrow> usec (int (eg_flap_dwell g)) \<le> me_time b - me_time a)
       (eg_notified g)
     \<and> (\<forall>e \<in> set (eg_notified g). me_peer e \<in> fst ` set (eg_devices g)
          \<and> (\<exists>t. map_of (eg_last_alert g) (me_peer e) = Some t \<and> me_time e \<le> t))"

lemma maybe_transition_frame:
  assumes "maybe_transition C io g p observed now = ((g', p'), r)"
  shows "eg_devices g' = eg_devices g \<and> eg_flap_dwell g' = eg_flap_dwell g
    \<and> eg_down_after g' = eg_down_after g \<and> eg_up_after g' = eg_up_after g
    \<and> tm_by_nid (eg_trust g') = tm_by_nid (eg_trust g) \<and> eg_node_id g' = eg_node_id g
    \<and> (\<exists>s. p' = p\<lparr>ps_status := s\<rparr>)"
proof -
  have "\<exists>s. p = p\<lparr>ps_status := s\<rparr>" by (rule exI[of _ "ps_status p"]) simp
  then show ?thesis
    using assms
    by (auto simp: maybe_transition_def Let_def split: option.splits if_splits sum.splits bool.splits)
qed

text \<open>What a transition does to the alerts: nothing, or one alert outside the dwell time.\<close>

lemma maybe_transition_alerts:
  assumes "maybe_transition C io g p observed now = ((g', p'), r)"
  shows "(eg_notified g' = eg_notified g \<and> eg_last_alert g' = eg_last_alert g)
    \<or> (ps_status p \<noteq> UNKNOWN \<and> \<not> dwell_active g (pe_node_id (ps_entry p)) now
       \<and> eg_last_alert g' = AList.update (pe_node_id (ps_entry p)) now (eg_last_alert g)
       \<and> (\<exists>e. eg_notified g' = eg_notified g @ [e] \<and> me_peer e = pe_node_id (ps_entry p) \<and> me_time e = now))"
proof -
  have d: "dwell_active (g\<lparr>eg_tasks := ts\<rparr>) n t = dwell_active g n t" for ts n t
    by (auto simp: dwell_active_def split: option.splits)
  show ?thesis
    using assms d
    by (auto simp: maybe_transition_def Let_def fire_alert_def alert_event_def
        split: option.splits if_splits sum.splits bool.splits)
qed

lemma alerts_ok_fire:
  assumes ok: "alerts_ok g" and dwell: "0 < eg_flap_dwell g"
    and free: "\<not> dwell_active g n now"
    and last: "eg_last_alert g' = AList.update n now (eg_last_alert g)"
    and notified: "eg_notified g' = eg_notified g @ [e]" "me_peer e = n" "me_time e = now"
    and same: "eg_flap_dwell g' = eg_flap_dwell g" "fst ` set (eg_devices g') = fst ` set (eg_devices g)"
    and dev: "n \<in> fst ` set (eg_devices g)"
  shows "alerts_ok g'"
proof -
  have old: "usec (int (eg_flap_dwell g)) \<le> now - me_time x" if "x \<in> set (eg_notified g)" "me_peer x = n" for x
  proof -
    from ok that obtain t where t: "map_of (eg_last_alert g) n = Some t" "me_time x \<le> t"
      by (auto simp: alerts_ok_def)
    with free dwell have "usec (int (eg_flap_dwell g)) \<le> now - t" by (simp add: dwell_active_def)
    with t(2) show ?thesis by simp
  qed
  have pos: "0 < usec (int (eg_flap_dwell g))" using dwell by (simp add: usec_def)
  have "\<exists>t. map_of (eg_last_alert g') (me_peer x) = Some t \<and> me_time x \<le> t" if "x \<in> set (eg_notified g')" for x
  proof (cases "me_peer x = n")
    case True
    then have "me_time x \<le> now" using that old[of x] pos notified by fastforce
    with True show ?thesis by (simp add: last update_conv)
  next
    case False
    with that notified have "x \<in> set (eg_notified g)" by auto
    with ok False show ?thesis by (auto simp: alerts_ok_def last update_conv)
  qed
  then show ?thesis
    using ok old dev unfolding alerts_ok_def same notified(1)
    by (auto simp: sorted_wrt_append notified(2,3))
qed

lemma peer_ok_note: "peer_ok n p \<Longrightarrow> peer_ok n (note_probe p now r)"
  by (auto simp: peer_ok_def note_probe_def peer_bounded_def length_deque_push split: probe_result.splits)

lemma peer_ok_status: "peer_ok n (p\<lparr>ps_status := s\<rparr>) = peer_ok n p"
  by (simp add: peer_ok_def peer_bounded_def)

lemma in_set_update: "x \<in> set (AList.update k v d) \<Longrightarrow> x = (k, v) \<or> x \<in> set d"
  by (induction d) (auto split: if_splits)

lemma devices_ok_update:
  assumes "devices_ok g" and "peer_ok n p" and "eg_devices g' = AList.update n p (eg_devices g)"
  shows "devices_ok g'"
  using assms by (auto simp: devices_ok_def distinct_update dest!: in_set_update)

lemma devices_ok_lookup: "devices_ok g \<Longrightarrow> map_of (eg_devices g) n = Some p \<Longrightarrow> peer_ok n p"
  by (auto simp: devices_ok_def dest!: map_of_SomeD)

lemma update_present_keys: "map_of d n = Some q \<Longrightarrow> fst ` set (AList.update n p d) = fst ` set d"
  by (auto simp: dom_update rev_image_eqI dest!: map_of_SomeD)

text \<open>The two invariants together are kept by every step.\<close>

definition live_ok :: "engine \<Rightarrow> bool" where
  "live_ok g \<longleftrightarrow> devices_ok g \<and> alerts_ok g \<and> 0 < eg_flap_dwell g"

lemma alerts_ok_same:
  assumes "alerts_ok g" and "eg_notified g' = eg_notified g" and "eg_last_alert g' = eg_last_alert g"
    and "eg_flap_dwell g' = eg_flap_dwell g" and "fst ` set (eg_devices g') = fst ` set (eg_devices g)"
  shows "alerts_ok g'"
  using assms by (simp add: alerts_ok_def)

text \<open>A device's new state after a transition, in one place for probes and pushes.\<close>

lemma live_ok_transition:
  assumes ok: "live_ok g" and t: "maybe_transition C io g0 p observed now = ((g', p'), r)"
    and g0: "eg_devices g0 = eg_devices g" "eg_notified g0 = eg_notified g" "eg_last_alert g0 = eg_last_alert g"
      "eg_flap_dwell g0 = eg_flap_dwell g"
    and p: "peer_ok n p" and known: "map_of (eg_devices g) n = Some q"
  shows "live_ok (g'\<lparr>eg_devices := AList.update n p' (eg_devices g')\<rparr>)"
proof -
  let ?g = "g'\<lparr>eg_devices := AList.update n p' (eg_devices g')\<rparr>"
  note fr = maybe_transition_frame[OF t]
  have p': "peer_ok n p'" using p fr by (auto simp: peer_ok_status)
  have dev: "devices_ok ?g"
    by (rule devices_ok_update[of g n p']) (use ok p' fr g0 in \<open>auto simp: live_ok_def\<close>)
  have n: "pe_node_id (ps_entry p) = n" using p by (simp add: peer_ok_def)
  have keys: "fst ` set (eg_devices ?g) = fst ` set (eg_devices g)"
    using update_present_keys[OF known] fr g0 by simp
  have mem: "n \<in> fst ` set (eg_devices g)" using known by (force dest: map_of_SomeD)
  have dw: "dwell_active g0 m t' = dwell_active g m t'" for m t'
    using g0 by (auto simp: dwell_active_def split: option.splits)
  have "alerts_ok ?g"
    using maybe_transition_alerts[OF t]
  proof
    assume "eg_notified g' = eg_notified g0 \<and> eg_last_alert g' = eg_last_alert g0"
    note same = this
    show ?thesis
      by (rule alerts_ok_same[of g]) (use same ok keys fr g0 in \<open>auto simp: live_ok_def\<close>)
  next
    assume f: "ps_status p \<noteq> UNKNOWN \<and> \<not> dwell_active g0 (pe_node_id (ps_entry p)) now
       \<and> eg_last_alert g' = AList.update (pe_node_id (ps_entry p)) now (eg_last_alert g0)
       \<and> (\<exists>e. eg_notified g' = eg_notified g0 @ [e] \<and> me_peer e = pe_node_id (ps_entry p) \<and> me_time e = now)"
    then obtain e where "eg_notified g' = eg_notified g @ [e]" "me_peer e = n" "me_time e = now"
      using n g0 by auto
    note e = this
    show ?thesis
      by (rule alerts_ok_fire[of g n now _ e]) (use e f n ok keys fr g0 mem dw in \<open>auto simp: live_ok_def\<close>)
  qed
  moreover have "0 < eg_flap_dwell ?g" using fr g0 ok by (simp add: live_ok_def)
  ultimately show ?thesis using dev by (simp add: live_ok_def)
qed

lemma live_ok_probe: "live_ok g \<Longrightarrow> live_ok (fst (run_probe C g c))"
proof (cases "map_of (eg_devices g) (pc_node c)")
  case None
  assume "live_ok g"
  with None show ?thesis by (simp add: run_probe_def)
next
  case (Some p)
  assume ok: "live_ok g"
  then have p: "peer_ok (pc_node c) p" using Some by (auto simp: live_ok_def dest: devices_ok_lookup)
  obtain g' p' r where t: "maybe_transition C (pc_io c) g (note_probe p (pc_now c) (pc_result c))
      (lr_status (probe_record (pc_now c) (pc_result c))) (pc_now c) = ((g', p'), r)"
    by (metis prod.collapse)
  have keep: "live_ok (g\<lparr>eg_devices := AList.update (pc_node c) p (eg_devices g)\<rparr>)"
    using ok Some by (simp add: update_triv)
  have "live_ok (g'\<lparr>eg_devices := AList.update (pc_node c) p' (eg_devices g')\<rparr>)"
    by (rule live_ok_transition[OF ok t _ _ _ _ peer_ok_note[OF p] Some]) simp_all
  with keep show ?thesis
    by (auto simp: run_probe_def Some probe_peer_def t split: option.splits sum.splits bool.splits)
qed

lemma live_ok_frame:
  assumes "live_ok g" and "eg_devices g' = eg_devices g" and "eg_notified g' = eg_notified g"
    and "eg_last_alert g' = eg_last_alert g" and "eg_flap_dwell g' = eg_flap_dwell g"
  shows "live_ok g'"
  using assms by (simp add: live_ok_def devices_ok_def alerts_ok_def)

lemma live_ok_devices:
  assumes "live_ok g" and "devices_ok g'" and "fst ` set (eg_devices g') = fst ` set (eg_devices g)"
    and "eg_notified g' = eg_notified g" and "eg_last_alert g' = eg_last_alert g"
    and "eg_flap_dwell g' = eg_flap_dwell g"
  shows "live_ok g'"
  using assms by (simp add: live_ok_def alerts_ok_def)

text \<open>Changing one device in place, when its invariant stays.\<close>

lemma live_ok_set:
  assumes ok: "live_ok g" and known: "map_of (eg_devices g) n = Some p" and p: "peer_ok n p'"
    and g': "eg_devices g' = AList.update n p' (eg_devices g)" "eg_notified g' = eg_notified g"
      "eg_last_alert g' = eg_last_alert g" "eg_flap_dwell g' = eg_flap_dwell g"
  shows "live_ok g'"
proof (rule live_ok_devices[OF ok])
  show "devices_ok g'" by (rule devices_ok_update[OF _ p g'(1)]) (use ok in \<open>simp add: live_ok_def\<close>)
  show "fst ` set (eg_devices g') = fst ` set (eg_devices g)"
    by (simp add: g'(1) update_present_keys[OF known])
qed (simp_all add: g')

lemma peer_ok_new: "peer_ok (pe_node_id e) (new_peer_state e)"
  by (simp add: peer_ok_def peer_bounded_new) (simp add: new_peer_state_def)

lemma live_ok_push: "live_ok g \<Longrightarrow> live_ok (fst (push_accept C io db_ok g remote now))"
proof -
  assume ok: "live_ok g"
  let ?p = "\<lambda>p. p\<lparr>ps_last_seen := Some now, ps_failures := 0, ps_successes := ps_successes p + 1,
                 ps_fail_reason := None,
                 ps_latency_history := deque_push HISTORY_MAXLEN (ps_latency_history p)
                   \<lparr>lr_timestamp = now, lr_rtt_ms = None, lr_status = ALIVE\<rparr>\<rparr>"
  let ?g1 = "if db_ok then g\<lparr>eg_history := hist_record (eg_history g) remote now None ALIVE\<rparr> else g"
  have "live_ok (fst (record_push_from C io db_ok g remote now))"
  proof (cases "map_of (eg_devices g) remote")
    case None
    let ?new = "new_peer_state \<lparr>pe_node_id = remote,
                   pe_alias = (case get_peer (eg_trust g) remote of None \<Rightarrow> None | Some tp \<Rightarrow> tp_alias tp)\<rparr>"
    obtain g' p' r where t: "maybe_transition C io ?g1 (?p ?new) ALIVE now = ((g', p'), r)"
      by (metis prod.collapse)
    have "ps_status (?p ?new) = UNKNOWN" by (simp add: new_peer_state_def)
    with maybe_transition_alerts[OF t]
    have same: "eg_notified g' = eg_notified g" "eg_last_alert g' = eg_last_alert g" by (auto split: if_splits)
    have "live_ok g'"
      by (rule live_ok_frame[OF ok]) (use same maybe_transition_frame[OF t] in \<open>auto split: if_splits\<close>)
    with None t show ?thesis by (simp add: record_push_from_def Let_def)
  next
    case (Some p)
    obtain g' p' r where t: "maybe_transition C io ?g1 (?p p) ALIVE now = ((g', p'), r)"
      by (metis prod.collapse)
    have "peer_ok remote p" using ok Some by (auto simp: live_ok_def dest: devices_ok_lookup)
    then have p: "peer_ok remote (?p p)" by (simp add: peer_ok_def peer_bounded_def length_deque_push)
    have "live_ok (g'\<lparr>eg_devices := AList.update remote p' (eg_devices g')\<rparr>)"
      by (rule live_ok_transition[OF ok t _ _ _ _ p Some]) simp_all
    with Some t show ?thesis by (simp add: record_push_from_def Let_def)
  qed
  with ok show ?thesis by (simp add: push_accept_def split: prod.splits)
qed

lemma map_of_filter_keys: "map_of [x \<leftarrow> d. P (fst x)] k = (if P k then map_of d k else None)"
  by (induction d) auto

lemma live_ok_gc: "live_ok g \<Longrightarrow> live_ok (run_history_gc now db_ok g)"
proof -
  assume ok: "live_ok g"
  have "map_of (eg_devices g) (me_peer e) \<noteq> None" if "e \<in> set (eg_notified g)" for e
    using ok that by (simp add: live_ok_def alerts_ok_def map_of_eq_None_iff)
  then have "map_of [x \<leftarrow> eg_last_alert g. map_of (eg_devices g) (fst x) \<noteq> None] (me_peer e)
      = map_of (eg_last_alert g) (me_peer e)" if "e \<in> set (eg_notified g)" for e
    by (subst map_of_filter_keys[where P = "\<lambda>n. map_of (eg_devices g) n \<noteq> None"]) (use that in simp)
  then show ?thesis
    using ok unfolding live_ok_def devices_ok_def alerts_ok_def
    by (simp add: run_history_gc_def Let_def del: not_None_eq)
qed

lemma live_ok_stats: "live_ok g \<Longrightarrow> live_ok (run_stats_cycle g now snap)"
  by (rule live_ok_frame[of g], assumption)
    (auto simp: run_stats_cycle_def check_container_events_def Let_def split: option.splits sum.splits prod.splits)

lemma peer_ok_pull:
  assumes "peer_ok n p"
  shows "peer_ok n (fst (apply_pull resp p))"
proof -
  have "length (foldl (deque_push STATS_HISTORY_MAXLEN) q es) \<le> STATS_HISTORY_MAXLEN"
    if "length q \<le> STATS_HISTORY_MAXLEN" for q :: "json list" and es
    using that by (induction es arbitrary: q) (simp_all add: length_deque_push)
  with assms show ?thesis
    by (auto simp: apply_pull_def Let_def peer_ok_def peer_bounded_def split: sum.splits option.splits)
qed

lemma live_ok_pull: "live_ok g \<Longrightarrow> live_ok (pull_one_peer env g n now direct relay)"
proof -
  assume ok: "live_ok g"
  have fail: "live_ok (record_pull_failure g n)"
  proof (cases "map_of (eg_devices g) n")
    case None
    with ok show ?thesis by (simp add: record_pull_failure_def)
  next
    case (Some p)
    have p: "peer_ok n (p\<lparr>ps_pull_failures := ps_pull_failures p + 1\<rparr>)"
      using ok Some by (auto simp: live_ok_def peer_ok_def peer_bounded_def dest: devices_ok_lookup)
    show ?thesis
      by (rule live_ok_set[OF ok Some p]) (auto simp: record_pull_failure_def set_device_def Some Let_def)
  qed
  show ?thesis
  proof (cases "pull_response direct relay")
    case None
    with fail show ?thesis by (simp add: pull_one_peer_def)
  next
    case resp: (Some resp)
    have merge: "live_ok g1 \<Longrightarrow> live_ok (merge_live env g1 n now own)" for g1 own
      by (rule live_ok_frame[of g1], assumption) (auto simp: merge_live_def split: option.splits json.splits)
    show ?thesis
    proof (cases "map_of (eg_devices g) n")
      case None
      with ok merge resp show ?thesis by (simp add: pull_one_peer_def)
    next
      case (Some p)
      have "peer_ok n (fst (apply_pull resp p))"
        using ok Some by (auto simp: live_ok_def intro!: peer_ok_pull dest: devices_ok_lookup)
      then have "live_ok (g\<lparr>eg_devices := AList.update n (fst (apply_pull resp p)) (eg_devices g)\<rparr>)"
        by (rule live_ok_set[OF ok Some]) simp_all
      with merge resp Some show ?thesis by (simp add: pull_one_peer_def Let_def case_prod_beta)
    qed
  qed
qed

lemma live_ok_rebuild: "live_ok g \<Longrightarrow> live_ok (maybe_rebuild_iroh g start finish built)"
proof -
  assume ok: "live_ok g"
  have "devices_ok (reset_pull_failures g)"
    using ok by (force simp: live_ok_def devices_ok_def reset_pull_failures_def peer_ok_def peer_bounded_def
        comp_def case_prod_beta)
  moreover have "fst ` set (eg_devices (reset_pull_failures g)) = fst ` set (eg_devices g)"
    by (force simp: reset_pull_failures_def)
  ultimately have "live_ok (reset_pull_failures g)"
    by (intro live_ok_devices[OF ok]) (simp_all add: reset_pull_failures_def)
  then have "live_ok ((reset_pull_failures g)\<lparr>eg_iroh := True, eg_last_rebuild := Some finish\<rparr>)"
    by (rule live_ok_frame) simp_all
  moreover have "live_ok (g\<lparr>eg_iroh := False, eg_last_rebuild := Some finish\<rparr>)"
    by (rule live_ok_frame[OF ok]) simp_all
  ultimately show ?thesis using ok by (simp add: maybe_rebuild_iroh_def)
qed

lemma live_step_ok: "live_step C env g g' \<Longrightarrow> live_ok g \<Longrightarrow> live_ok g'"
proof (induction rule: live_step.induct)
  case (rollup g now)
  then show ?case by (rule live_ok_frame) (simp_all add: run_rollup_5min_def)
next
  case (rollup_hourly g now)
  then show ?case by (rule live_ok_frame) (simp_all add: run_rollup_hourly_def)
next
  case (rollup_daily g now)
  then show ?case by (rule live_ok_frame) (simp_all add: run_rollup_daily_def)
qed (blast intro: live_ok_probe live_ok_push live_ok_gc live_ok_stats live_ok_pull live_ok_rebuild)+

lemma live_run_ok: "rtranclp (live_step C env) g g' \<Longrightarrow> live_ok g \<Longrightarrow> live_ok g'"
  by (induction rule: rtranclp_induct) (auto dest: live_step_ok)

lemma load_devices_ok: "devices_ok (apply_devices_reload key_ok now g)"
proof -
  have pk: "peer_ok n (hydrate_state d rows p)" if "peer_ok n p" for n d rows p
  proof -
    have "length (foldl (deque_push HISTORY_MAXLEN) q xs) \<le> HISTORY_MAXLEN"
      if "length q \<le> HISTORY_MAXLEN" for q :: "latency_record list" and xs
      using that by (induction xs arbitrary: q) (simp_all add: length_deque_push)
    with that show ?thesis by (auto simp: hydrate_state_def Let_def peer_ok_def peer_bounded_def)
  qed
  let ?P = "\<lambda>d. distinct (map fst d) \<and> (\<forall>(n, p) \<in> set d. peer_ok n p)"
  let ?f = "\<lambda>d p. if key_ok (tp_node_id p)
                  then AList.update (tp_node_id p)
                    (hydrate_state (eg_down_after g) (recent_history g now (tp_node_id p))
                      ((new_peer_state \<lparr>pe_node_id = tp_node_id p, pe_alias = tp_alias p\<rparr>)
                         \<lparr>ps_node_addr := Some (tp_node_id p)\<rparr>)) d
                  else d"
  have np: "peer_ok n ((new_peer_state \<lparr>pe_node_id = n, pe_alias = a\<rparr>)\<lparr>ps_node_addr := x\<rparr>)" for n a x
    using peer_ok_new[of "\<lparr>pe_node_id = n, pe_alias = a\<rparr>"] by (simp add: peer_ok_def peer_bounded_def)
  have step: "?P (?f d p)" if "?P d" for d p
    using that by (auto simp: distinct_update pk np dest!: in_set_update)
  have "?P (foldl ?f [] (peers_with_permission (eg_trust g) ''monitor''))"
    by (rule foldl_keeps[where P = ?P]) (rule step, assumption, simp)
  then show ?thesis
    by (simp add: devices_ok_def apply_devices_reload_def load_devices_def)
qed


section \<open>The alert threshold\<close>

lemma run_probes_snoc:
  "fst (run_probes C g (cs @ [c])) = fst (run_probe C (fst (run_probes C g cs)) c)"
  by (induction cs arbitrary: g) (simp_all add: case_prod_beta)

definition no_window :: "engine \<Rightarrow> node_id \<Rightarrow> bool" where
  "no_window g n \<longleftrightarrow>
     (case get_peer (eg_trust g) n of None \<Rightarrow> True | Some tp \<Rightarrow> tp_mstart tp = None \<or> tp_mend tp = None)"

lemma no_window_check:
  "no_window g n \<Longrightarrow> (case get_peer (eg_trust g) n of None \<Rightarrow> Inr False | Some tp \<Rightarrow> in_maintenance tp (Aware now)) = Inr False"
  by (auto simp: no_window_def in_maintenance_def split: option.splits)

definition failing :: "node_id \<Rightarrow> probe_call \<Rightarrow> bool" where
  "failing n c \<longleftrightarrow> pc_node c = n \<and> (\<exists>why. pc_result c = Failed why)"

text \<open>One failed probe outside maintenance: counters, then the transition.\<close>

lemma run_probe_failing:
  assumes "failing n c" and "map_of (eg_devices g) n = Some p" and "no_window g n" and "pe_node_id (ps_entry p) = n"
  shows "\<exists>p1 g1. map_of (eg_devices (fst (run_probe C g c))) n = Some p1
    \<and> pe_node_id (ps_entry p1) = n \<and> ps_failures p1 = ps_failures p + 1 \<and> ps_successes p1 = 0
    \<and> ps_status p1 = (if ps_status p = ALIVE \<and> eg_down_after g \<le> ps_failures p + 1 then DEAD else ps_status p)
    \<and> no_window (fst (run_probe C g c)) n \<and> eg_down_after (fst (run_probe C g c)) = eg_down_after g
    \<and> eg_last_alert (fst (run_probe C g c)) = eg_last_alert g1 \<and> eg_notified (fst (run_probe C g c)) = eg_notified g1
    \<and> g1 = (if ps_status p = ALIVE \<and> eg_down_after g \<le> ps_failures p + 1
            then fire_alert (log_transition C (pc_io c) g OP_MONITOR_DOWN p1) OP_MONITOR_DOWN p1 (pc_now c) else g)"
proof -
  from assms(1) obtain why where c: "pc_node c = n" "pc_result c = Failed why" by (auto simp: failing_def)
  let ?p = "note_probe p (pc_now c) (pc_result c)"
  have e: "pe_node_id (ps_entry ?p) = n" "ps_failures ?p = ps_failures p + 1" "ps_successes ?p = 0"
    "ps_status ?p = ps_status p"
    using assms(4) by (simp_all add: note_probe_def c)
  have st: "lr_status (probe_record (pc_now c) (pc_result c)) = DEAD" by (simp add: probe_record_def c)
  have nw: "no_window (g'\<lparr>eg_devices := d\<rparr>) n \<longleftrightarrow> no_window g' n" for g' d by (simp add: no_window_def)
  show ?thesis
  proof (cases "ps_status p = ALIVE \<and> eg_down_after g \<le> ps_failures p + 1")
    case True
    then have t: "transition_target (eg_down_after g) (eg_up_after g) ?p DEAD = Some DEAD"
      by (simp add: transition_target_def e)
    let ?p1 = "?p\<lparr>ps_status := DEAD\<rparr>"
    let ?g1 = "fire_alert (log_transition C (pc_io c) g OP_MONITOR_DOWN ?p1) OP_MONITOR_DOWN ?p1 (pc_now c)"
    have m: "maybe_transition C (pc_io c) g ?p DEAD (pc_now c) = ((?g1, ?p1), Inr ())"
      unfolding maybe_transition_def t
      using no_window_check[OF assms(3)] True by (simp add: e Let_def)
    have r: "fst (run_probe C g c) = ?g1\<lparr>eg_devices := AList.update n ?p1 (eg_devices ?g1)\<rparr>"
      using m no_window_check[OF assms(3)] assms(2,4) by (simp add: run_probe_def probe_peer_def c(1) st)
    have "no_window ?g1 n = no_window g n" by (simp add: no_window_def get_peer_def)
    then show ?thesis using True assms(3) by (intro exI[of _ ?p1] exI[of _ ?g1]) (simp add: r e update_conv' nw)
  next
    case False
    then have t: "transition_target (eg_down_after g) (eg_up_after g) ?p DEAD = None"
      by (auto simp: transition_target_def e)
    have m: "maybe_transition C (pc_io c) g ?p DEAD (pc_now c) = ((g, ?p), Inr ())"
      by (simp add: maybe_transition_def t)
    have r: "fst (run_probe C g c) = g\<lparr>eg_devices := AList.update n ?p (eg_devices g)\<rparr>"
      using m no_window_check[OF assms(3)] assms(2,4) by (simp add: run_probe_def probe_peer_def c(1) st)
    show ?thesis using False assms(3) by (intro exI[of _ ?p] exI[of _ g]) (auto simp: r e update_conv' nw)
  qed
qed

text \<open>How far an outage that began in state \<open>g\<close> has come after the probes \<open>calls\<close>.\<close>

definition outage_seen :: "crypto \<Rightarrow> engine \<Rightarrow> node_id \<Rightarrow> probe_call list \<Rightarrow> peer_state \<Rightarrow> monitor_event list \<Rightarrow> bool" where
  "outage_seen C g n calls p alerts \<longleftrightarrow>
     (let g' = fst (run_probes C g calls); D = eg_down_after g in
      map_of (eg_devices g') n = Some p \<and> pe_node_id (ps_entry p) = n \<and> no_window g' n
      \<and> eg_down_after g' = D \<and> ps_failures p = length calls
      \<and> ps_status p = (if length calls < D then ALIVE else DEAD)
      \<and> (length calls < D \<longrightarrow> map_of (eg_last_alert g') n = None)
      \<and> eg_notified g' = eg_notified g @ alerts
      \<and> map (\<lambda>e. (me_event e, me_peer e, me_count e, me_time e)) alerts =
          (if length calls < D then []
           else [(OP_MONITOR_DOWN, n, D, pc_now (calls ! (D - 1)))]))"

lemma outage_seen_step:
  assumes "outage_seen C g n calls p1 alerts" and "failing n c" and "0 < eg_down_after g"
  shows "\<exists>p2 alerts'. outage_seen C g n (calls @ [c]) p2 alerts'"
proof -
  let ?D = "eg_down_after g" and ?g = "fst (run_probes C g calls)"
  have i: "map_of (eg_devices ?g) n = Some p1" "pe_node_id (ps_entry p1) = n"
    "no_window ?g n" "eg_down_after ?g = ?D" "ps_failures p1 = length calls"
    "ps_status p1 = (if length calls < ?D then ALIVE else DEAD)"
    "length calls < ?D \<longrightarrow> map_of (eg_last_alert ?g) n = None"
    "eg_notified ?g = eg_notified g @ alerts"
    "map (\<lambda>e. (me_event e, me_peer e, me_count e, me_time e)) alerts =
      (if length calls < ?D then [] else [(OP_MONITOR_DOWN, n, ?D, pc_now (calls ! (?D - 1)))])"
    using assms(1) by (simp_all add: outage_seen_def Let_def)
  obtain p2 g1 where s: "map_of (eg_devices (fst (run_probe C ?g c))) n = Some p2"
    "pe_node_id (ps_entry p2) = n" "ps_failures p2 = length calls + 1"
    "ps_status p2 = (if ps_status p1 = ALIVE \<and> ?D \<le> length calls + 1 then DEAD else ps_status p1)"
    "no_window (fst (run_probe C ?g c)) n" "eg_down_after (fst (run_probe C ?g c)) = ?D"
    "eg_last_alert (fst (run_probe C ?g c)) = eg_last_alert g1"
    "eg_notified (fst (run_probe C ?g c)) = eg_notified g1"
    "g1 = (if ps_status p1 = ALIVE \<and> ?D \<le> length calls + 1
          then fire_alert (log_transition C (pc_io c) ?g OP_MONITOR_DOWN p2) OP_MONITOR_DOWN p2 (pc_now c) else ?g)"
    using run_probe_failing[OF assms(2) i(1,3,2), of C] unfolding i(4,5) by blast
  show ?thesis
  proof (cases "length calls + 1 = ?D")
    case True
    have dw: "\<not> dwell_active ?g n (pc_now c)" using i(7) True by (simp add: dwell_active_def)
    define e where "e = alert_event (log_transition C (pc_io c) ?g OP_MONITOR_DOWN p2) OP_MONITOR_DOWN p2 (pc_now c)"
    have "eg_notified g1 = eg_notified ?g @ [e]"
      using s(2,9) i(6) True dw by (simp add: fire_alert_def Let_def e_def)
    moreover have "alerts = []" using i(9) True by simp
    moreover have "(me_event e, me_peer e, me_count e, me_time e) = (OP_MONITOR_DOWN, n, ?D, pc_now c)"
      using s(2,3) True by (simp add: e_def alert_event_def)
    moreover have "(calls @ [c]) ! (?D - 1) = c" using True by (simp add: nth_append)
    ultimately show ?thesis
      unfolding outage_seen_def Let_def run_probes_snoc
      using s i(6,8) True by (intro exI[of _ p2] exI[of _ "[e]"]) auto
  next
    case False
    have g1: "g1 = ?g" using s(9) i(6) False by (auto split: if_splits)
    have "?D \<le> length calls \<Longrightarrow> (calls @ [c]) ! (?D - 1) = calls ! (?D - 1)"
      using assms(3) by (simp add: nth_append)
    then show ?thesis
      unfolding outage_seen_def Let_def run_probes_snoc
      using s i False g1 by (intro exI[of _ p2] exI[of _ alerts]) auto
  qed
qed


text \<open>
  C39: A restart during the first failures loses the outage. When the last probes before the
  restart failed, but fewer than \<open>down_after\<close> of them, the restored peer is UNKNOWN; however
  many probes fail after that, it never becomes DEAD and no alert is sent.
\<close>

theorem restart_loses_outage:
  assumes "map_of (eg_devices g) n = Some (hydrate_state (eg_down_after g) rows p)"
    and "pe_node_id (ps_entry p) = n" and "rows \<noteq> []" and "pw_status (last rows) \<noteq> ALIVE"
    and "tail_run rows < eg_down_after g" and "no_window g n" and "\<forall>c \<in> set calls. failing n c"
  shows "\<exists>p'. map_of (eg_devices (fst (run_probes C g calls))) n = Some p'
    \<and> ps_failures p' = tail_run rows + length calls \<and> ps_status p' = UNKNOWN
    \<and> eg_notified (fst (run_probes C g calls)) = eg_notified g"
proof -
  let ?inv = "\<lambda>calls. \<exists>p'. map_of (eg_devices (fst (run_probes C g calls))) n = Some p'
    \<and> pe_node_id (ps_entry p') = n \<and> no_window (fst (run_probes C g calls)) n
    \<and> ps_failures p' = tail_run rows + length calls \<and> ps_status p' = UNKNOWN
    \<and> eg_notified (fst (run_probes C g calls)) = eg_notified g"
  have "?inv calls"
    using assms(7)
  proof (induction calls rule: rev_induct)
    case Nil
    show ?case using assms by (auto simp: hydrate_state_def Let_def)
  next
    case (snoc c calls)
    let ?g = "fst (run_probes C g calls)"
    from snoc obtain p1 where i: "map_of (eg_devices ?g) n = Some p1" "pe_node_id (ps_entry p1) = n"
      "no_window ?g n" "ps_failures p1 = tail_run rows + length calls" "ps_status p1 = UNKNOWN"
      "eg_notified ?g = eg_notified g" by auto
    have f: "failing n c" using snoc.prems by simp
    show ?case using run_probe_failing[OF f i(1,3,2), of C] i unfolding run_probes_snoc by auto
  qed
  then show ?thesis by blast
qed

section \<open>Witnesses\<close>

definition demo_watch_mgr :: trust_mgr where
  "demo_watch_mgr = demo_mgr\<lparr>tm_store := [demo_peer\<lparr>tp_permissions := [''monitor'']\<rparr>],
     tm_by_nid := [''p'' \<mapsto> demo_peer\<lparr>tp_permissions := [''monitor'']\<rparr>]\<rparr>"

definition demo_engine :: engine where
  "demo_engine = (new_engine ''me'' demo_watch_mgr \<lparr>hs_probes = [], hs_retain_days = 30\<rparr> None 3 1 60 5 60)
     \<lparr>eg_devices := [(''p'', (new_peer_state \<lparr>pe_node_id = ''p'', pe_alias = None\<rparr>)\<lparr>ps_status := ALIVE\<rparr>)]\<rparr>"

definition demo_fail :: "int \<Rightarrow> probe_call" where
  "demo_fail t = \<lparr>pc_node = ''p'', pc_now = usec t, pc_result = Failed ''timeout'', pc_io = demo_io\<rparr>"

lemma demo_failing: "failing ''p'' (demo_fail t)"
  by (simp add: failing_def demo_fail_def)

lemma demo_no_window: "no_window demo_engine ''p''"
  by (simp add: no_window_def demo_engine_def new_engine_def demo_watch_mgr_def get_peer_def demo_peer_def)



definition demo_outage :: "probe_row list" where
  "demo_outage = [\<lparr>pw_node = ''p'', pw_ts = usec 0, pw_rtt = Some 5, pw_status = ALIVE\<rparr>,
     \<lparr>pw_node = ''p'', pw_ts = usec 30, pw_rtt = None, pw_status = DEAD\<rparr>,
     \<lparr>pw_node = ''p'', pw_ts = usec 60, pw_rtt = None, pw_status = DEAD\<rparr>]"

theorem restart_loses_outage_witness:
  "\<exists>p'. map_of (eg_devices (fst (run_probes demo_crypto
       (demo_engine\<lparr>eg_devices := [(''p'', hydrate_state 3 demo_outage (new_peer_state \<lparr>pe_node_id = ''p'', pe_alias = None\<rparr>))]\<rparr>)
       (map demo_fail [90, 120, 150])))) ''p'' = Some p'
     \<and> ps_failures p' = 5 \<and> ps_status p' = UNKNOWN"
proof -
  let ?p = "new_peer_state \<lparr>pe_node_id = ''p'', pe_alias = None\<rparr>"
  let ?g = "demo_engine\<lparr>eg_devices := [(''p'', hydrate_state 3 demo_outage ?p)]\<rparr>"
  have d: "eg_down_after demo_engine = 3" by (simp add: demo_engine_def new_engine_def)
  have r: "tail_run demo_outage = 2" "demo_outage \<noteq> []" "pw_status (last demo_outage) \<noteq> ALIVE"
    by (simp_all add: tail_run_def demo_outage_def)
  have w: "no_window ?g ''p''" using demo_no_window by (simp add: no_window_def)
  have "\<exists>p'. map_of (eg_devices (fst (run_probes demo_crypto ?g (map demo_fail [90, 120, 150])))) ''p'' = Some p'
    \<and> ps_failures p' = tail_run demo_outage + length (map demo_fail [90, 120, 150]) \<and> ps_status p' = UNKNOWN
    \<and> eg_notified (fst (run_probes demo_crypto ?g (map demo_fail [90, 120, 150]))) = eg_notified ?g"
    by (rule restart_loses_outage[where p = ?p])
      (use r w in \<open>auto simp: d new_peer_state_def demo_failing\<close>)
  then show ?thesis by (auto simp: r(1))
qed

end
