(* ===== verification/Framing.thy ===== *)
theory Framing
  imports Json "HOL-Library.Sublist"
begin

text \<open>
  The wire layer of the iroh protocols (src/alpn/framing.py): length-prefixed frames over a
  byte stream, the tags of the remote shell (src/alpn/shell.py) and the container reference
  accepted by the logs protocol. A byte is an \<open>8 word\<close>, a stream is the list of bytes that
  arrive on it before it ends.
\<close>

type_synonym bytes = "8 word list"

section \<open>Big-endian fields\<close>

text \<open>\<open>struct.pack\<close> of an unsigned field of \<open>k\<close> bytes; a value that does not fit raises.\<close>

fun be_bytes :: "nat \<Rightarrow> nat \<Rightarrow> bytes" where
  "be_bytes 0 n = []"
| "be_bytes (Suc k) n = be_bytes k (n div 256) @ [word_of_nat n]"

definition be_value :: "bytes \<Rightarrow> nat" where
  "be_value bs = foldl (\<lambda>a b. 256 * a + unat b) 0 bs"

definition pack_field :: "nat \<Rightarrow> nat \<Rightarrow> bytes res" where
  "pack_field k n = (if n < 256 ^ k then Inr (be_bytes k n)
                     else Inl (StructError ''argument out of range''))"

lemma length_be_bytes [simp]: "length (be_bytes k n) = k"
  by (induction k arbitrary: n) simp_all

lemma be_value_snoc [simp]: "be_value (bs @ [b]) = 256 * be_value bs + unat b"
  by (simp add: be_value_def)

lemma be_value_be_bytes: "be_value (be_bytes k n) = n mod 256 ^ k"
proof (induction k arbitrary: n)
  case 0
  then show ?case by (simp add: be_value_def)
next
  case (Suc k)
  have "unat (word_of_nat n :: 8 word) = n mod 256"
    by (simp add: unat_of_nat)
  with Suc show ?case by (simp add: mod_mult2_eq)
qed

lemma be_bytes_4:
  "be_bytes 4 n = [word_of_nat (n div 16777216), word_of_nat (n div 65536), word_of_nat (n div 256),
                   word_of_nat n]"
proof -
  have "be_bytes (Suc (Suc (Suc (Suc 0)))) n =
      [word_of_nat (n div 16777216), word_of_nat (n div 65536), word_of_nat (n div 256), word_of_nat n]"
    by (simp add: div_mult2_eq[symmetric])
  moreover have "Suc (Suc (Suc (Suc 0))) = (4::nat)" by simp
  ultimately show ?thesis by (simp only:)
qed

section \<open>Frames\<close>

definition read_exact :: "nat \<Rightarrow> bytes \<Rightarrow> (bytes \<times> bytes) res" where
  "read_exact n s = (if n \<le> length s then Inr (take n s, drop n s)
                     else Inl (EOFError ''stream finished early''))"

definition write_framed :: "bytes \<Rightarrow> bytes \<Rightarrow> bytes res" where
  "write_framed out payload =
     rbind (pack_field 4 (length payload)) (\<lambda>prefix. Inr (out @ prefix @ payload))"

definition read_framed :: "nat \<Rightarrow> bytes \<Rightarrow> (bytes \<times> bytes) res" where
  "read_framed max_size s =
     rbind (read_exact 4 s) (\<lambda>(header, s1).
       let n = be_value header in
       if n > max_size then Inl (ValueError ''framed payload too large'')
       else if n = 0 then Inr ([], s1)
       else read_exact n s1)"

text \<open>A pump reads frames until one fails: the frames, and the error that ended it.\<close>

lemma read_framed_shorter: "read_framed m s = Inr (f, s') \<Longrightarrow> length s' < length s"
  by (auto simp: read_framed_def read_exact_def rbind_Inr_conv Let_def split: if_splits)

function read_frames :: "nat \<Rightarrow> bytes \<Rightarrow> bytes list \<times> py_error" where
  "read_frames m s =
     (case read_framed m s of
        Inl e \<Rightarrow> ([], e)
      | Inr (f, s') \<Rightarrow> (case read_frames m s' of (fs, e) \<Rightarrow> (f # fs, e)))"
  by auto
termination
  by (relation "measure (\<lambda>(m, s). length s)") (auto dest: read_framed_shorter)

declare read_frames.simps [simp del]

definition write_frames :: "bytes \<Rightarrow> bytes list \<Rightarrow> bytes res" where
  "write_frames = rfold write_framed"

lemma read_exact_Inr [simp]: "read_exact (length xs) (xs @ ys) = Inr (xs, ys)"
  by (simp add: read_exact_def)

lemma pack_field_Inr: "pack_field k n = Inr p \<longleftrightarrow> n < 256 ^ k \<and> p = be_bytes k n"
  by (auto simp: pack_field_def)

lemma write_framed_Inr:
  "write_framed out p = Inr s \<longleftrightarrow> length p < 2 ^ 32 \<and> s = out @ be_bytes 4 (length p) @ p"
  by (auto simp: write_framed_def rbind_Inr_conv pack_field_Inr)

lemma read_framed_frame:
  assumes "length p < 2 ^ 32" "length p \<le> m"
  shows "read_framed m (be_bytes 4 (length p) @ p @ s) = Inr (p, s)"
proof -
  have "read_exact 4 (be_bytes 4 (length p) @ p @ s) = Inr (be_bytes 4 (length p), p @ s)"
    using read_exact_Inr[of "be_bytes 4 (length p)" "p @ s"] by simp
  moreover have "be_value (be_bytes 4 (length p)) = length p"
    using assms by (simp add: be_value_be_bytes)
  ultimately show ?thesis using assms by (simp add: read_framed_def)
qed

lemma read_framed_partial:
  assumes "length p < 2 ^ 32" "strict_prefix s (be_bytes 4 (length p) @ p)"
  shows "\<exists>e. read_framed m s = Inl e"
proof (cases "length s < 4")
  case True
  then show ?thesis by (simp add: read_framed_def read_exact_def)
next
  case False
  from assms(2) obtain t where t: "be_bytes 4 (length p) @ p = s @ t" "t \<noteq> []"
    by (auto simp: strict_prefix_def prefix_def)
  have "take 4 s = be_bytes 4 (length p)" "p = drop 4 s @ t"
    using False arg_cong[OF t(1), of "take 4"] arg_cong[OF t(1), of "drop 4"] by simp_all
  then obtain q where q: "s = be_bytes 4 (length p) @ q" "p = q @ t"
    by (metis append_take_drop_id)
  have "read_exact 4 s = Inr (be_bytes 4 (length p), q)"
    using read_exact_Inr[of "be_bytes 4 (length p)" q] by (simp add: q(1))
  moreover have "be_value (be_bytes 4 (length p)) = length p"
    using assms(1) by (simp add: be_value_be_bytes)
  moreover have "length q < length p" using q(2) t(2) by simp
  then have "read_exact (length p) q = Inl (EOFError ''stream finished early'')" "length p \<noteq> 0"
    by (auto simp: read_exact_def)
  ultimately show ?thesis by (simp add: read_framed_def Let_def)
qed

fun frames_text :: "bytes list \<Rightarrow> bytes" where
  "frames_text [] = []"
| "frames_text (p # ps) = be_bytes 4 (length p) @ p @ frames_text ps"

lemma write_frames_Inr:
  "write_frames out ps = Inr s \<longleftrightarrow> list_all (\<lambda>p. length p < 2 ^ 32) ps \<and> s = out @ frames_text ps"
proof (induction ps arbitrary: out)
  case Nil
  then show ?case by (auto simp: write_frames_def)
next
  case (Cons p ps)
  then show ?case by (auto simp: write_frames_def rbind_Inr_conv write_framed_Inr)
qed

text \<open>A frame over the limit is refused as soon as its header is there.\<close>

lemma read_framed_oversize:
  assumes "length p < 2 ^ 32" "m < length p" "prefix s (be_bytes 4 (length p) @ t)"
  shows "\<exists>e. read_framed m s = Inl e"
proof (cases "length s < 4")
  case True
  then show ?thesis by (simp add: read_framed_def read_exact_def)
next
  case False
  from assms(3) obtain u where "be_bytes 4 (length p) @ t = s @ u" by (auto simp: prefix_def)
  from arg_cong[OF this, of "take 4"] False have "read_exact 4 s = Inr (be_bytes 4 (length p), drop 4 s)"
    by (simp add: read_exact_def)
  moreover have "be_value (be_bytes 4 (length p)) = length p"
    using assms(1) by (simp add: be_value_be_bytes)
  ultimately show ?thesis using assms(2) by (simp add: read_framed_def)
qed

lemma read_frames_error: "read_framed m s = Inl e \<Longrightarrow> read_frames m s = ([], e)"
  by (subst read_frames.simps) simp

lemma read_frames_step: "read_framed m s = Inr (f, s') \<Longrightarrow> fst (read_frames m s) = f # fst (read_frames m s')"
  by (subst read_frames.simps) (simp split: prod.split)

lemma read_frames_text:
  assumes "list_all (\<lambda>p. length p < 2 ^ 32) ps"
  shows "fst (read_frames m (frames_text ps)) = takeWhile (\<lambda>p. length p \<le> m) ps"
  using assms
proof (induction ps)
  case Nil
  then show ?case by (subst read_frames.simps) (simp add: read_framed_def read_exact_def)
next
  case (Cons p ps)
  have p: "length p < 2 ^ 32" using Cons.prems by simp
  show ?case
  proof (cases "length p \<le> m")
    case True
    with p have "read_framed m (frames_text (p # ps)) = Inr (p, frames_text ps)"
      by (simp add: read_framed_frame)
    with True Cons show ?thesis by (simp add: read_frames_step)
  next
    case False
    then obtain e where "read_framed m (frames_text (p # ps)) = Inl e"
      using read_framed_oversize[OF p, of m "frames_text (p # ps)"] by auto
    with False show ?thesis by (simp add: read_frames_error)
  qed
qed

lemma read_frames_prefix:
  assumes "list_all (\<lambda>p. length p < 2 ^ 32) ps" "prefix s (frames_text ps)"
  shows "prefix (fst (read_frames m s)) (takeWhile (\<lambda>p. length p \<le> m) ps)"
  using assms
proof (induction ps arbitrary: s)
  case Nil
  then show ?case by (subst read_frames.simps) (simp add: read_framed_def read_exact_def)
next
  case (Cons p ps)
  define F where "F = be_bytes 4 (length p) @ p"
  have p: "length p < 2 ^ 32" using Cons.prems by simp
  have pre: "prefix s (F @ frames_text ps)" using Cons.prems(2) by (simp add: F_def)
  then have "prefix s F \<or> (\<exists>s'. s = F @ s' \<and> prefix s' (frames_text ps))"
    by (rule prefix_append[THEN iffD1])
  then have "strict_prefix s F \<or> (\<exists>s'. s = F @ s' \<and> prefix s' (frames_text ps))"
    by (auto simp: strict_prefix_def)
  then consider "m < length p" | "strict_prefix s F"
    | s' where "length p \<le> m" "s = F @ s'" "prefix s' (frames_text ps)"
    using not_le[of "length p" m] by blast
  then show ?case
  proof cases
    case 1
    with pre obtain e where "read_framed m s = Inl e"
      using read_framed_oversize[OF p, of m s] by (auto simp: F_def)
    then show ?thesis by (simp add: read_frames_error)
  next
    case 2
    with p obtain e where "read_framed m s = Inl e" using read_framed_partial unfolding F_def by blast
    then show ?thesis by (simp add: read_frames_error)
  next
    case 3
    then have "read_framed m s = Inr (p, s')" using p by (simp add: F_def read_framed_frame)
    moreover have "prefix (fst (read_frames m s')) (takeWhile (\<lambda>p. length p \<le> m) ps)"
      using Cons.prems(1) by (intro Cons.IH 3(3)) simp
    ultimately show ?thesis using 3(1) by (simp add: read_frames_step)
  qed
qed

text \<open>
  What a sender frames arrives frame by frame: the reader gets the payloads up to the first one
  over its limit, and of a stream that breaks off anywhere it gets a prefix of them, never a
  truncated or merged payload.
\<close>

theorem frames_survive_cut:
  assumes "write_frames [] ps = Inr s" and "prefix s' s"
  shows "fst (read_frames m s) = takeWhile (\<lambda>p. length p \<le> m) ps
    \<and> prefix (fst (read_frames m s')) (takeWhile (\<lambda>p. length p \<le> m) ps)"
  using assms by (simp add: write_frames_Inr read_frames_text read_frames_prefix)

theorem frames_survive_cut_witness:
  "fst (read_frames 3 [0, 0, 0, 2, 65, 66, 0, 0, 0, 0]) = [[65, 66], []]
   \<and> prefix (fst (read_frames 3 [0, 0, 0, 2, 65])) [[65, 66], []]"
proof -
  have "write_frames [] [[65, 66], []] = Inr [0, 0, 0, 2, 65, 66, 0, 0, 0, 0]"
    by (simp add: write_frames_Inr be_bytes_4)
  from frames_survive_cut[OF this, of "[0, 0, 0, 2, 65]" 3] show ?thesis by simp
qed

end
