(* ===== verification/Shell.thy ===== *)
theory Shell
  imports Framing Trust
begin

text \<open>
  The remote shell (src/alpn/shell.py): the frames of a session, the pump from the client's
  stream to the pty and the pump back with its bounded queue, the registry of inbound sessions
  with its two caps and the signed audit of each session, and the client's session semaphore.
  The pty and the child process are outside: what they read, write and return is an argument.
\<close>

section \<open>Frames of a session\<close>

abbreviation SHELL_TAG_DATA :: "8 word" where "SHELL_TAG_DATA \<equiv> 0"
abbreviation SHELL_TAG_RESIZE :: "8 word" where "SHELL_TAG_RESIZE \<equiv> 1"
abbreviation SHELL_TAG_CLOSE :: "8 word" where "SHELL_TAG_CLOSE \<equiv> 2"
abbreviation SHELL_TAG_EXIT :: "8 word" where "SHELL_TAG_EXIT \<equiv> 3"

definition SHELL_FRAME_MAX :: nat where "SHELL_FRAME_MAX = 1048576"
definition SHELL_MAX_SESSIONS :: nat where "SHELL_MAX_SESSIONS = 4"
definition SHELL_MAX_PER_PEER :: nat where "SHELL_MAX_PER_PEER = 2"
definition SHELL_IDLE_TIMEOUT :: int where "SHELL_IDLE_TIMEOUT = 900"

text \<open>What a client sends, and its frame (the tags' description in src/alpn/framing.py).\<close>

datatype client_msg = Keys bytes | Resize "16 word" "16 word" | CloseShell

fun client_frame :: "client_msg \<Rightarrow> bytes" where
  "client_frame (Keys b) = SHELL_TAG_DATA # b"
| "client_frame (Resize rows cols) = SHELL_TAG_RESIZE # be_bytes 2 (unat rows) @ be_bytes 2 (unat cols)"
| "client_frame CloseShell = [SHELL_TAG_CLOSE]"

section \<open>Client stream to pty\<close>

datatype pty_effect = PtyWrite bytes | PtyWinsize nat nat

fun input_pump :: "bytes list \<Rightarrow> pty_effect list" where
  "input_pump [] = []"
| "input_pump ([] # fs) = input_pump fs"
| "input_pump ((tag # body) # fs) =
     (if tag = SHELL_TAG_DATA then PtyWrite body # input_pump fs
      else if tag = SHELL_TAG_RESIZE \<and> 4 \<le> length body
      then PtyWinsize (be_value (take 2 body)) (be_value (take 2 (drop 2 body))) # input_pump fs
      else if tag = SHELL_TAG_CLOSE then []
      else input_pump fs)"

text \<open>\<open>_pty_write_all\<close>: \<open>os.write\<close> takes some bytes, asks to wait, or fails.\<close>

datatype write_outcome = Took nat | WouldBlock | WriteError

datatype write_end = AllWritten | PtyGone | StillWaiting

fun pty_write_all :: "bytes \<Rightarrow> write_outcome list \<Rightarrow> bytes \<times> write_end" where
  "pty_write_all [] _ = ([], AllWritten)"
| "pty_write_all data [] = ([], StillWaiting)"
| "pty_write_all data (Took n # os) =
     (case pty_write_all (drop n data) os of (w, e) \<Rightarrow> (take n data @ w, e))"
| "pty_write_all data (WouldBlock # os) = pty_write_all data os"
| "pty_write_all data (WriteError # os) = ([], PtyGone)"

lemma pty_write_all_prefix:
  "prefix (fst (pty_write_all data os)) data
   \<and> (snd (pty_write_all data os) = AllWritten \<longrightarrow> fst (pty_write_all data os) = data)"
proof (induction data os rule: pty_write_all.induct)
  case (3 v va n os)
  let ?d = "v # va" and ?r = "pty_write_all (drop n (v # va)) os"
  have "prefix (take n ?d @ fst ?r) (take n ?d @ drop n ?d)"
    using 3 by (simp only: same_prefix_prefix)
  moreover have "snd ?r = AllWritten \<Longrightarrow> take n ?d @ fst ?r = take n ?d @ drop n ?d"
    using 3 by (simp only:)
  ultimately show ?case by (auto simp: append_take_drop_id split: prod.split simp del: drop_append)
qed simp_all

fun msg_effect :: "client_msg \<Rightarrow> pty_effect list" where
  "msg_effect (Keys b) = [PtyWrite b]"
| "msg_effect (Resize r c) = [PtyWinsize (unat r) (unat c)]"
| "msg_effect CloseShell = []"

lemma unat16_lt: "unat (w :: 16 word) < 65536"
  using unsigned_less[of w, where ?'a = nat] by simp

lemma input_pump_frame:
  "m \<noteq> CloseShell \<Longrightarrow> input_pump (client_frame m # fs) = msg_effect m @ input_pump fs"
  by (cases m) (simp_all add: be_value_be_bytes unat16_lt)

lemma input_pump_frames:
  "input_pump (takeWhile (\<lambda>f. length f \<le> k) (map client_frame ms)) =
   concat (map msg_effect (takeWhile (\<lambda>m. m \<noteq> CloseShell \<and> length (client_frame m) \<le> k) ms))"
proof (induction ms)
  case (Cons m ms)
  show ?case
  proof (cases "m = CloseShell")
    case True
    then show ?thesis by simp
  next
    case False
    with Cons show ?thesis by (simp add: input_pump_frame)
  qed
qed simp

text \<open>
  Everything the client sends reaches the pty in order: the messages are framed one by one
  behind the empty frame that opens the stream, and the server's pump writes the keys and sets
  the window sizes up to the first close message or the first frame over 1 MiB.
\<close>

theorem typed_input_reaches_pty:
  assumes "write_frames [] ([] # map client_frame ms) = Inr s"
  shows "input_pump (fst (read_frames SHELL_FRAME_MAX s)) =
    concat (map msg_effect
      (takeWhile (\<lambda>m. m \<noteq> CloseShell \<and> length (client_frame m) \<le> SHELL_FRAME_MAX) ms))"
proof -
  have "fst (read_frames SHELL_FRAME_MAX s) =
      [] # takeWhile (\<lambda>p. length p \<le> SHELL_FRAME_MAX) (map client_frame ms)"
    using assms by (auto simp: write_frames_Inr simp del: frames_text.simps simp: read_frames_text)
  then show ?thesis by (simp add: input_pump_frames)
qed

theorem typed_input_reaches_pty_witness:
  "input_pump (fst (read_frames SHELL_FRAME_MAX
     (frames_text ([] # map client_frame [Keys [108, 115], Resize 24 80, CloseShell, Keys [10]])))) =
   [PtyWrite [108, 115], PtyWinsize 24 80]"
proof -
  let ?ms = "[Keys [108, 115], Resize 24 80, CloseShell, Keys [10]]"
  have "write_frames [] ([] # map client_frame ?ms) = Inr (frames_text ([] # map client_frame ?ms))"
    by (simp add: write_frames_Inr del: frames_text.simps)
  from typed_input_reaches_pty[OF this] show ?thesis by (simp add: SHELL_FRAME_MAX_def del: frames_text.simps)
qed

section \<open>Pty to client stream\<close>

text \<open>
  \<open>_shell_pty_to_stream\<close>. The reader callback fills the queue while it is armed; \<open>None\<close> is
  the end-of-file sentinel. The drainer takes a chunk, writes it as a frame (other callbacks run
  meanwhile) and re-arms the reader when the queue is low. \<open>op_input\<close> records the bytes read
  before the end of file.
\<close>

definition HIGH_WATER :: nat where "HIGH_WATER = 64"
definition LOW_WATER :: nat where "LOW_WATER = 16"
definition PTY_CHUNK :: nat where "PTY_CHUNK = 65536"

record out_pump =
  op_queue :: "bytes option list"
  op_armed :: bool
  op_writing :: "bytes option"
  op_frames :: "bytes list"
  op_ended :: bool
  op_input :: bytes

definition new_out_pump :: out_pump where
  "new_out_pump = \<lparr>op_queue = [], op_armed = True, op_writing = None, op_frames = [],
                   op_ended = False, op_input = []\<rparr>"

datatype pty_read = ReadAgain | ReadError | ReadData bytes

definition on_readable :: "out_pump \<Rightarrow> pty_read \<Rightarrow> out_pump" where
  "on_readable p r =
     (let eof = p\<lparr>op_armed := False, op_queue := op_queue p @ [None]\<rparr> in
      case r of
        ReadAgain \<Rightarrow> p
      | ReadError \<Rightarrow> eof
      | ReadData d \<Rightarrow>
          if d = [] then eof
          else
            let q = op_queue p @ [Some d] in
            p\<lparr>op_queue := q, op_armed := (op_armed p \<and> length q < HIGH_WATER),
              op_input := (if None \<in> set (op_queue p) then op_input p else op_input p @ d)\<rparr>)"

text \<open>The exit code, as \<open>struct.pack(">i", rc)\<close>; out of range the frame is not sent.\<close>

definition exit_frame :: "int \<Rightarrow> bytes list" where
  "exit_frame rc =
     (if - (2 ^ 31) \<le> rc \<and> rc < 2 ^ 31
      then [SHELL_TAG_EXIT # be_bytes 4 (nat (rc mod 2 ^ 32))] else [])"

definition pump_get :: "int option \<Rightarrow> out_pump \<Rightarrow> out_pump" where
  "pump_get rc p =
     (case op_queue p of
        [] \<Rightarrow> p
      | None # q \<Rightarrow>
          p\<lparr>op_queue := q, op_frames := op_frames p @ exit_frame (case rc of None \<Rightarrow> -1 | Some c \<Rightarrow> c),
            op_armed := False, op_ended := True\<rparr>
      | Some c # q \<Rightarrow> p\<lparr>op_queue := q, op_writing := Some c\<rparr>)"

text \<open>The write of the frame finished, or raised.\<close>

definition pump_written :: "out_pump \<Rightarrow> bool \<Rightarrow> out_pump" where
  "pump_written p ok =
     (case op_writing p of
        None \<Rightarrow> p
      | Some c \<Rightarrow>
          if ok
          then p\<lparr>op_writing := None, op_frames := op_frames p @ [SHELL_TAG_DATA # c],
                 op_armed := (op_armed p \<or> length (op_queue p) \<le> LOW_WATER)\<rparr>
          else p\<lparr>op_armed := False, op_ended := True\<rparr>)"

text \<open>The callback runs while the reader is armed; one \<open>os.read\<close> gives at most 64 KiB.\<close>

inductive pump_step :: "out_pump \<Rightarrow> out_pump \<Rightarrow> bool" where
  readable: "\<not> op_ended p \<Longrightarrow> op_armed p \<Longrightarrow> (\<And>d. r = ReadData d \<Longrightarrow> length d \<le> PTY_CHUNK)
    \<Longrightarrow> pump_step p (on_readable p r)"
| get: "\<not> op_ended p \<Longrightarrow> op_writing p = None \<Longrightarrow> pump_step p (pump_get rc p)"
| written: "\<not> op_ended p \<Longrightarrow> pump_step p (pump_written p ok)"

text \<open>The terminal bytes in the frames sent; the chunks still ahead of the end of file.\<close>

fun frame_data :: "bytes \<Rightarrow> bytes" where
  "frame_data [] = []"
| "frame_data (tag # body) = (if tag = SHELL_TAG_DATA then body else [])"

definition sent_data :: "bytes list \<Rightarrow> bytes" where
  "sent_data fs = concat (map frame_data fs)"

fun queued_data :: "bytes option list \<Rightarrow> bytes" where
  "queued_data [] = []"
| "queued_data (None # q) = []"
| "queued_data (Some d # q) = d @ queued_data q"

definition is_exit :: "bytes \<Rightarrow> bool" where
  "is_exit f \<longleftrightarrow> f \<noteq> [] \<and> hd f = SHELL_TAG_EXIT"

lemma queued_data_append:
  "queued_data (q @ r) = queued_data q @ (if None \<in> set q then [] else queued_data r)"
  by (induction q rule: queued_data.induct) auto

lemma sent_data_append [simp]: "sent_data (fs @ gs) = sent_data fs @ sent_data gs"
  by (simp add: sent_data_def)

lemma sent_data_simps [simp]: "sent_data [] = []" "sent_data [SHELL_TAG_DATA # c] = c"
  "sent_data (exit_frame rc) = []"
  by (simp_all add: sent_data_def exit_frame_def)

definition pump_inv :: "out_pump \<Rightarrow> bool" where
  "pump_inv p \<longleftrightarrow>
     (\<not> op_ended p \<longrightarrow>
        sent_data (op_frames p) @ (case op_writing p of None \<Rightarrow> [] | Some c \<Rightarrow> c) @ queued_data (op_queue p)
          = op_input p)
     \<and> prefix (sent_data (op_frames p)) (op_input p)
     \<and> ((\<exists>f \<in> set (op_frames p). is_exit f) \<longrightarrow> op_ended p \<and> sent_data (op_frames p) = op_input p)
     \<and> length (op_queue p) \<le> HIGH_WATER
     \<and> (op_armed p \<longrightarrow> length (op_queue p) < HIGH_WATER)
     \<and> (\<forall>c. Some c \<in> set (op_queue p) \<longrightarrow> length c \<le> PTY_CHUNK)
     \<and> (\<forall>c. op_writing p = Some c \<longrightarrow> length c \<le> PTY_CHUNK)
     \<and> (\<forall>f \<in> set (op_frames p). length f \<le> SHELL_FRAME_MAX)"

lemma pump_inv_readable:
  assumes "pump_inv p" "\<not> op_ended p" "op_armed p" "\<And>d. r = ReadData d \<Longrightarrow> length d \<le> PTY_CHUNK"
  shows "pump_inv (on_readable p r)"
proof (cases "\<exists>d. r = ReadData d \<and> d \<noteq> []")
  case True
  then obtain d where "r = ReadData d" "d \<noteq> []" by blast
  with assms show ?thesis
    by (cases "None \<in> set (op_queue p)")
      (auto simp: pump_inv_def on_readable_def Let_def queued_data_append prefix_append split: option.splits)
next
  case False
  then have "on_readable p r = p
      \<or> on_readable p r = p\<lparr>op_armed := False, op_queue := op_queue p @ [None]\<rparr>"
    by (cases r) (auto simp: on_readable_def)
  with assms(1-3) show ?thesis by (auto simp: pump_inv_def queued_data_append)
qed

lemma is_exit_data [simp]: "\<not> is_exit (SHELL_TAG_DATA # c)"
  by (simp add: is_exit_def)

lemma pump_inv_get:
  assumes "pump_inv p" "\<not> op_ended p" "op_writing p = None"
  shows "pump_inv (pump_get rc p)"
proof (cases "op_queue p")
  case Nil
  with assms show ?thesis by (simp add: pump_get_def)
next
  case (Cons x q)
  show ?thesis
  proof (cases x)
    case None
    with Cons assms show ?thesis
      by (auto simp: pump_inv_def pump_get_def exit_frame_def SHELL_FRAME_MAX_def sent_data_def)
  next
    case (Some c)
    with Cons assms show ?thesis by (auto simp: pump_inv_def pump_get_def)
  qed
qed

lemma pump_inv_written:
  assumes "pump_inv p" "\<not> op_ended p"
  shows "pump_inv (pump_written p ok)"
proof (cases "op_writing p")
  case None
  with assms show ?thesis by (simp add: pump_written_def)
next
  case (Some c)
  then have "length c \<le> 65536" using assms by (simp add: pump_inv_def PTY_CHUNK_def)
  moreover have "op_input p = (sent_data (op_frames p) @ c) @ queued_data (op_queue p)"
    using Some assms by (simp add: pump_inv_def)
  then have "prefix (sent_data (op_frames p) @ c) (op_input p)" by (rule prefixI)
  ultimately show ?thesis using Some assms
    by (cases ok)
      (auto simp: pump_inv_def pump_written_def HIGH_WATER_def LOW_WATER_def SHELL_FRAME_MAX_def)
qed

lemma pump_inv_reachable: "rtranclp pump_step new_out_pump p \<Longrightarrow> pump_inv p"
proof (induction rule: rtranclp_induct)
  case base
  show ?case by (simp add: pump_inv_def new_out_pump_def HIGH_WATER_def)
next
  case (step p p')
  from step(2,3) show ?case
    by (cases rule: pump_step.cases) (auto intro: pump_inv_readable pump_inv_get pump_inv_written)
qed

text \<open>
  C7: However reads, writes and their failures interleave, the frames sent carry the terminal's
  output in order, without a gap; once the exit frame is out they carry all that was read before
  the end of file. The queue never holds more than 64 chunks and no frame is over the limit the
  client reads with.
\<close>

theorem shell_output_lossless:
  assumes "rtranclp pump_step new_out_pump p"
  shows "prefix (sent_data (op_frames p)) (op_input p)
    \<and> ((\<exists>f \<in> set (op_frames p). is_exit f) \<longrightarrow> sent_data (op_frames p) = op_input p)
    \<and> length (op_queue p) \<le> 64
    \<and> (\<forall>f \<in> set (op_frames p). length f \<le> SHELL_FRAME_MAX)"
  using pump_inv_reachable[OF assms] by (simp add: pump_inv_def HIGH_WATER_def)

definition demo_pump :: out_pump where
  "demo_pump = pump_get (Some 0) (pump_written (pump_get None
     (on_readable (on_readable new_out_pump (ReadData [36])) ReadError)) True)"

lemma demo_pump_reachable: "rtranclp pump_step new_out_pump demo_pump"
proof -
  let ?p1 = "on_readable new_out_pump (ReadData [36])"
  let ?p2 = "on_readable ?p1 ReadError"
  let ?p3 = "pump_get None ?p2"
  let ?p4 = "pump_written ?p3 True"
  have "pump_step new_out_pump ?p1"
    by (rule pump_step.readable) (simp_all add: new_out_pump_def PTY_CHUNK_def)
  moreover have "pump_step ?p1 ?p2"
    by (rule pump_step.readable) (simp_all add: new_out_pump_def on_readable_def HIGH_WATER_def)
  moreover have "pump_step ?p2 ?p3"
    by (rule pump_step.get) (simp_all add: new_out_pump_def on_readable_def HIGH_WATER_def)
  moreover have "pump_step ?p3 ?p4"
    by (rule pump_step.written) (simp add: new_out_pump_def on_readable_def HIGH_WATER_def pump_get_def)
  moreover have "pump_step ?p4 demo_pump" unfolding demo_pump_def
    by (rule pump_step.get)
      (simp_all add: new_out_pump_def on_readable_def HIGH_WATER_def pump_get_def pump_written_def)
  ultimately show ?thesis by (meson converse_rtranclp_into_rtranclp rtranclp.rtrancl_refl)
qed

theorem shell_output_lossless_witness:
  "op_frames demo_pump = [[0, 36], [3, 0, 0, 0, 0]] \<and> sent_data (op_frames demo_pump) = [36]"
proof -
  have f: "op_frames demo_pump = [[0, 36], [3, 0, 0, 0, 0]]" "op_input demo_pump = [36]"
    by (simp_all add: demo_pump_def new_out_pump_def on_readable_def HIGH_WATER_def pump_get_def
        pump_written_def exit_frame_def be_bytes_4)
  then have "\<exists>f \<in> set (op_frames demo_pump). is_exit f" by (simp add: is_exit_def)
  with f shell_output_lossless[OF demo_pump_reachable] show ?thesis by simp
qed

section \<open>Inbound sessions\<close>

text \<open>
  A session's teardown event is an object; its identity is a number here. \<open>sv_teardowns\<close> is
  \<open>_shell_server_teardowns\<close>, \<open>sv_counts\<close> is \<open>_shell_peer_counts\<close>.
\<close>

record shell_server =
  sv_trust :: trust_mgr
  sv_teardowns :: "nat list"
  sv_counts :: "(node_id \<times> nat) list"

record shell_session =
  ss_event :: nat
  ss_remote :: node_id
  ss_id :: string
  ss_started :: instant

definition sv_count :: "shell_server \<Rightarrow> node_id \<Rightarrow> nat" where
  "sv_count sv n = (case map_of (sv_counts sv) n of None \<Rightarrow> 0 | Some k \<Rightarrow> k)"

text \<open>The audit append; its failure is only logged.\<close>

definition audit :: "crypto \<Rightarrow> io_env \<Rightarrow> shell_server \<Rightarrow> string \<Rightarrow> dict \<Rightarrow> shell_server" where
  "audit C io sv op d =
     sv\<lparr>sv_trust := (sv_trust sv)\<lparr>tm_log :=
         fst (log_append C (io_now io) (io_log_write io) (tm_log (sv_trust sv)) op d)\<rparr>\<rparr>"

text \<open>\<open>_serve_shell\<close> up to its first await, and its \<open>finally\<close>.\<close>

definition serve_shell ::
  "crypto \<Rightarrow> io_env \<Rightarrow> shell_server \<Rightarrow> node_id \<Rightarrow> instant \<Rightarrow> nat \<Rightarrow> string
   \<Rightarrow> shell_server \<times> (int \<times> string + shell_session)" where
  "serve_shell C io sv remote started ev sid =
     (if length (sv_teardowns sv) \<ge> SHELL_MAX_SESSIONS
      then (sv, Inl (429, ''too many shell sessions''))
      else if sv_count sv remote \<ge> SHELL_MAX_PER_PEER
      then (sv, Inl (429, ''too many shell sessions for peer''))
      else
        let sv1 = sv\<lparr>sv_teardowns := sv_teardowns sv @ [ev],
                     sv_counts := AList.update remote (sv_count sv remote + 1) (sv_counts sv)\<rparr> in
        (audit C io sv1 OP_SHELL_OPEN
           [(''node_id'', JStr remote), (''ts'', JTime (Aware started)), (''session_id'', JStr sid)],
         Inr \<lparr>ss_event = ev, ss_remote = remote, ss_id = sid, ss_started = started\<rparr>))"

definition end_shell :: "crypto \<Rightarrow> io_env \<Rightarrow> shell_server \<Rightarrow> shell_session \<Rightarrow> instant \<Rightarrow> int option \<Rightarrow> shell_server" where
  "end_shell C io sv s now returncode =
     (let n = ss_remote s;
          k = (case map_of (sv_counts sv) n of None \<Rightarrow> 1 | Some k \<Rightarrow> k) - 1;
          counts = AList.update n k (sv_counts sv);
          sv1 = sv\<lparr>sv_teardowns := removeAll (ss_event s) (sv_teardowns sv),
                   sv_counts := (if k = 0 then AList.delete n counts else counts)\<rparr> in
      audit C io sv1 OP_SHELL_CLOSE
        [(''node_id'', JStr n), (''session_id'', JStr (ss_id s)), (''ts'', JTime (Aware now)),
         (''exit_code'', JInt (case returncode of None \<Rightarrow> -1 | Some c \<Rightarrow> c)),
         (''duration_s'', JNum (round2 (of_int (now - ss_started s) / 1000000)))])"

definition shell_accept ::
  "crypto \<Rightarrow> io_env \<Rightarrow> shell_server \<Rightarrow> node_id \<Rightarrow> instant \<Rightarrow> nat \<Rightarrow> string
   \<Rightarrow> shell_server \<times> (int \<times> string + shell_session)" where
  "shell_accept C io sv remote started ev sid =
     (let (ok, reason) = verify_and_authorize (sv_trust sv) remote ''shell'' in
      if \<not> ok then (sv, Inl (403, take 120 reason))
      else serve_shell C io sv remote started ev sid)"

text \<open>
  The registry and the sessions whose tasks run. Other parts of the program append to the same
  log between the steps, never a shell operation.
\<close>

inductive shell_step ::
  "crypto \<Rightarrow> shell_server \<times> shell_session list \<Rightarrow> shell_server \<times> shell_session list \<Rightarrow> bool" for C where
  opened: "shell_accept C io sv remote now ev sid = (sv', Inr s) \<Longrightarrow> ev \<notin> ss_event ` set live
    \<Longrightarrow> shell_step C (sv, live) (sv', live @ [s])"
| refused: "shell_accept C io sv remote now ev sid = (sv', Inl e) \<Longrightarrow> shell_step C (sv, live) (sv', live)"
| ended: "s \<in> set live \<Longrightarrow> shell_step C (sv, live) (end_shell C io sv s now rc, remove1 s live)"
| logged: "t \<noteq> OP_SHELL_OPEN \<Longrightarrow> t \<noteq> OP_SHELL_CLOSE \<Longrightarrow> shell_step C (sv, live) (audit C io sv t d, live)"

definition live_of :: "node_id \<Rightarrow> shell_session list \<Rightarrow> nat" where
  "live_of n live = length [s \<leftarrow> live. ss_remote s = n]"

definition registry_inv :: "shell_server \<Rightarrow> shell_session list \<Rightarrow> bool" where
  "registry_inv sv live \<longleftrightarrow>
     sv_teardowns sv = map ss_event live \<and> distinct (map ss_event live)
     \<and> distinct (map fst (sv_counts sv))
     \<and> (\<forall>n. map_of (sv_counts sv) n = (if live_of n live = 0 then None else Some (live_of n live)))
     \<and> length live \<le> SHELL_MAX_SESSIONS \<and> (\<forall>n. live_of n live \<le> SHELL_MAX_PER_PEER)"

lemma audit_simps [simp]:
  "sv_teardowns (audit C io sv t d) = sv_teardowns sv" "sv_counts (audit C io sv t d) = sv_counts sv"
  by (simp_all add: audit_def)

lemma registry_inv_audit [simp]: "registry_inv (audit C io sv t d) live = registry_inv sv live"
  by (simp add: registry_inv_def)

lemma live_of_snoc [simp]: "live_of n (live @ [s]) = live_of n live + (if ss_remote s = n then 1 else 0)"
  by (simp add: live_of_def)

lemma live_of_remove1:
  "s \<in> set live \<Longrightarrow> live_of n live = live_of n (remove1 s live) + (if ss_remote s = n then 1 else 0)"
  by (induction live) (auto simp: live_of_def)

lemma sv_count_live: "registry_inv sv live \<Longrightarrow> sv_count sv n = live_of n live"
  by (simp add: registry_inv_def sv_count_def)

lemma shell_accept_opened:
  assumes "shell_accept C io sv remote now ev sid = (sv', Inr s)"
  shows "length (sv_teardowns sv) < SHELL_MAX_SESSIONS" "sv_count sv remote < SHELL_MAX_PER_PEER"
    "s = \<lparr>ss_event = ev, ss_remote = remote, ss_id = sid, ss_started = now\<rparr>"
    "sv' = audit C io (sv\<lparr>sv_teardowns := sv_teardowns sv @ [ev],
         sv_counts := AList.update remote (sv_count sv remote + 1) (sv_counts sv)\<rparr>) OP_SHELL_OPEN
           [(''node_id'', JStr remote), (''ts'', JTime (Aware now)), (''session_id'', JStr sid)]"
    "fst (verify_and_authorize (sv_trust sv) remote ''shell'')"
  using assms by (auto simp: shell_accept_def serve_shell_def Let_def split: if_splits prod.splits)

lemma shell_accept_refused: "shell_accept C io sv remote now ev sid = (sv', Inl e) \<Longrightarrow> sv' = sv"
  by (auto simp: shell_accept_def serve_shell_def Let_def split: if_splits prod.splits)

lemma registry_inv_opened:
  assumes "registry_inv sv live" "shell_accept C io sv remote now ev sid = (sv', Inr s)"
    "ev \<notin> ss_event ` set live"
  shows "registry_inv sv' (live @ [s])"
  using assms(1,3) shell_accept_opened[OF assms(2)]
  by (auto simp: registry_inv_def sv_count_def distinct_update update_conv' split: if_splits)

lemma removeAll_remove1_map:
  "distinct (map f xs) \<Longrightarrow> x \<in> set xs \<Longrightarrow> removeAll (f x) (map f xs) = map f (remove1 x xs)"
  by (induction xs) (auto simp: image_iff)

lemma registry_inv_ended:
  assumes "registry_inv sv live" "s \<in> set live"
  shows "registry_inv (end_shell C io sv s now rc) (remove1 s live)"
proof -
  have live: "live_of n live = live_of n (remove1 s live) + (if ss_remote s = n then 1 else 0)" for n
    by (rule live_of_remove1[OF assms(2)])
  have le: "live_of n (remove1 s live) \<le> SHELL_MAX_PER_PEER" for n
  proof -
    have "live_of n live \<le> SHELL_MAX_PER_PEER" using assms(1) by (simp add: registry_inv_def)
    then show ?thesis using live[of n] by simp
  qed
  have "distinct (map ss_event (remove1 s live))"
    using assms by (auto simp: registry_inv_def distinct_map intro: distinct_remove1 inj_on_subset
        dest: set_remove1_subset[THEN subsetD])
  moreover have "length (remove1 s live) \<le> SHELL_MAX_SESSIONS"
    using assms by (auto simp: registry_inv_def length_remove1)
  ultimately show ?thesis
    using assms le live[of "ss_remote s"] live
    by (auto simp: registry_inv_def end_shell_def Let_def removeAll_remove1_map distinct_update
        distinct_delete update_conv' delete_conv' split: if_splits)
qed

lemma registry_inv_reachable:
  "rtranclp (shell_step C) (sv, live) (sv', live') \<Longrightarrow> registry_inv sv live \<Longrightarrow> registry_inv sv' live'"
proof (induction rule: rtranclp_induct2)
  case (step sv1 live1 sv2 live2)
  from step(2) step(3)[OF step(4)] show ?case
    by (cases rule: shell_step.cases)
      (auto intro: registry_inv_opened registry_inv_ended dest: shell_accept_refused)
qed

text \<open>
  C20: However sessions open, end and interleave with other appends, no more than four inbound
  shells run, no more than two for one peer, and the two registries say exactly which run: a
  counter is never lost or left behind.
\<close>

theorem shell_sessions_capped:
  assumes "rtranclp (shell_step C) (sv, []) (sv', live)" and "sv_teardowns sv = []" and "sv_counts sv = []"
  shows "length live \<le> 4 \<and> live_of n live \<le> 2 \<and> sv_count sv' n = live_of n live
    \<and> sv_teardowns sv' = map ss_event live"
proof -
  have "registry_inv sv []" using assms(2,3) by (simp add: registry_inv_def live_of_def)
  from registry_inv_reachable[OF assms(1) this] have i: "registry_inv sv' live" .
  then have "length live \<le> 4" "live_of n live \<le> 2" "sv_teardowns sv' = map ss_event live"
    by (simp_all add: registry_inv_def SHELL_MAX_SESSIONS_def SHELL_MAX_PER_PEER_def)
  with sv_count_live[OF i] show ?thesis by simp
qed

text \<open>The session ids an operation of the log names.\<close>

definition audit_ids :: "string \<Rightarrow> log_entry list \<Rightarrow> json multiset" where
  "audit_ids t es = mset (map (\<lambda>e. dget (le_data e) ''session_id'') [e \<leftarrow> es. le_type e = t])"

definition sv_entries :: "shell_server \<Rightarrow> log_entry list" where
  "sv_entries sv = tl_entries (tm_log (sv_trust sv))"

definition sv_signs :: "shell_server \<Rightarrow> bool" where
  "sv_signs sv \<longleftrightarrow> tl_key (tm_log (sv_trust sv)) \<noteq> None"

lemma audit_ids_snoc:
  "audit_ids t (es @ [e]) =
   audit_ids t es + (if le_type e = t then {#dget (le_data e) ''session_id''#} else {#})"
  by (simp add: audit_ids_def)

lemma audit_entries:
  assumes "sv_signs sv" "t \<in> set OP_TYPES"
  shows "\<exists>e. sv_entries (audit C io sv t d) = sv_entries sv @ [e] \<and> le_type e = t \<and> le_data e = d"
  using assms
  by (auto simp: sv_entries_def sv_signs_def audit_def log_append_def Let_def split: option.splits)

lemma audit_signs [simp]: "sv_signs (audit C io sv t d) = sv_signs sv"
  by (auto simp: sv_signs_def audit_def log_append_def Let_def split: option.splits)

lemma audit_other_ids:
  assumes "t \<noteq> u"
  shows "audit_ids u (sv_entries (audit C io sv t d)) = audit_ids u (sv_entries sv)"
  using assms
  by (auto simp: sv_entries_def audit_def log_append_def Let_def audit_ids_snoc split: option.splits)

lemma audit_same_ids:
  assumes "sv_signs sv" "t \<in> set OP_TYPES"
  shows "audit_ids t (sv_entries (audit C io sv t d)) =
    audit_ids t (sv_entries sv) + {#dget d ''session_id''#}"
proof -
  obtain e where "sv_entries (audit C io sv t d) = sv_entries sv @ [e]" "le_type e = t" "le_data e = d"
    using audit_entries[OF assms] by blast
  then show ?thesis by (simp add: audit_ids_snoc)
qed

definition audit_balanced :: "shell_server \<Rightarrow> shell_session list \<Rightarrow> bool" where
  "audit_balanced sv live \<longleftrightarrow>
     audit_ids OP_SHELL_OPEN (sv_entries sv)
       = audit_ids OP_SHELL_CLOSE (sv_entries sv) + mset (map (\<lambda>s. JStr (ss_id s)) live)"

lemma shell_ops_known: "OP_SHELL_OPEN \<in> set OP_TYPES" "OP_SHELL_CLOSE \<in> set OP_TYPES"
  by (simp_all add: OP_TYPES_def)

lemma mset_map_remove1: "x \<in> set xs \<Longrightarrow> mset (map f xs) = mset (map f (remove1 x xs)) + {#f x#}"
  by (induction xs) auto

lemma audit_balanced_step:
  assumes "shell_step C (sv, live) (sv', live')" "sv_signs sv" "audit_balanced sv live"
  shows "sv_signs sv' \<and> audit_balanced sv' live'"
  using assms(1)
proof (cases rule: shell_step.cases)
  case (opened io remote now ev sid s)
  define sv1 where "sv1 = sv\<lparr>sv_teardowns := sv_teardowns sv @ [ev],
      sv_counts := AList.update remote (sv_count sv remote + 1) (sv_counts sv)\<rparr>"
  have same: "sv_entries sv1 = sv_entries sv" "sv_signs sv1"
    using assms(2) by (simp_all add: sv1_def sv_entries_def sv_signs_def)
  have "sv' = audit C io sv1 OP_SHELL_OPEN
      [(''node_id'', JStr remote), (''ts'', JTime (Aware now)), (''session_id'', JStr sid)]"
    "ss_id s = sid"
    using shell_accept_opened(3,4)[OF opened(2)] by (simp_all add: sv1_def)
  then show ?thesis using assms(3) same opened(1)
    by (simp add: audit_balanced_def audit_same_ids audit_other_ids shell_ops_known dict_simps)
next
  case (refused io remote now ev sid e)
  then show ?thesis using assms(2,3) shell_accept_refused[OF refused(2)] by simp
next
  case (ended s io now rc)
  obtain sv1 d where e: "sv' = audit C io sv1 OP_SHELL_CLOSE d" "sv_entries sv1 = sv_entries sv"
    "sv_signs sv1" "dget d ''session_id'' = JStr (ss_id s)"
    using ended(1) assms(2)
    by (simp add: end_shell_def Let_def) (auto simp: sv_entries_def sv_signs_def dict_simps)
  have "mset (map (\<lambda>s. JStr (ss_id s)) live) =
      mset (map (\<lambda>s. JStr (ss_id s)) live') + {#JStr (ss_id s)#}"
    using mset_map_remove1[OF ended(3), of "\<lambda>s. JStr (ss_id s)"] ended(2) by simp
  then show ?thesis using assms(3) e
    by (simp add: audit_balanced_def audit_same_ids audit_other_ids shell_ops_known)
next
  case (logged t io d)
  then show ?thesis using assms(2,3) by (simp add: audit_balanced_def audit_other_ids)
qed

text \<open>
  C22: The signed audit of a node that has its key is complete: at any time the log names a
  \<open>shell_open\<close> without a \<open>shell_close\<close> for exactly the sessions that run, and both for every
  session that ended, on whatever path it ended.
\<close>

theorem shell_audit_complete:
  assumes "rtranclp (shell_step C) (sv, []) (sv', live)" and "sv_signs sv"
    and "audit_ids OP_SHELL_OPEN (sv_entries sv) = audit_ids OP_SHELL_CLOSE (sv_entries sv)"
  shows "audit_ids OP_SHELL_OPEN (sv_entries sv')
    = audit_ids OP_SHELL_CLOSE (sv_entries sv') + mset (map (\<lambda>s. JStr (ss_id s)) live)"
proof -
  have "sv_signs sv' \<and> audit_balanced sv' live"
    using assms(1)
  proof (induction rule: rtranclp_induct2)
    case refl
    show ?case using assms(2,3) by (simp add: audit_balanced_def)
  next
    case (step a b c d)
    then show ?case using audit_balanced_step by blast
  qed
  then show ?thesis by (simp add: audit_balanced_def)
qed

definition demo_shell :: shell_server where
  "demo_shell = \<lparr>sv_trust = demo_mgr, sv_teardowns = [], sv_counts = []\<rparr>"

definition demo_session :: "nat \<Rightarrow> shell_session" where
  "demo_session ev = \<lparr>ss_event = ev, ss_remote = ''me'', ss_id = [CHR ''s'', char_of ev], ss_started = 0\<rparr>"

lemma demo_shell_opens:
  assumes "sv_teardowns sv = []" "sv_counts sv = []" "tm_own (sv_trust sv) = ''me''"
  shows "shell_accept C io sv ''me'' 0 ev [CHR ''s'', char_of ev] =
    (fst (shell_accept C io sv ''me'' 0 ev [CHR ''s'', char_of ev]), Inr (demo_session ev))"
  using assms
  by (simp add: shell_accept_def serve_shell_def Let_def verify_and_authorize_def sv_count_def
      SHELL_MAX_SESSIONS_def SHELL_MAX_PER_PEER_def demo_session_def)

lemma demo_shell_run:
  "\<exists>sv. rtranclp (shell_step demo_crypto) (demo_shell, []) (sv, [demo_session 1])"
proof -
  have "shell_step demo_crypto (demo_shell, [])
      (fst (shell_accept demo_crypto demo_io demo_shell ''me'' 0 1 [CHR ''s'', char_of (1::nat)]), [] @ [demo_session 1])"
    by (rule shell_step.opened) (rule demo_shell_opens, simp_all add: demo_shell_def demo_mgr_def)
  then show ?thesis by (auto intro: r_into_rtranclp)
qed

theorem shell_sessions_capped_witness:
  "\<exists>sv. rtranclp (shell_step demo_crypto) (demo_shell, []) (sv, [demo_session 1]) \<and> sv_count sv ''me'' = 1"
proof -
  obtain sv where run: "rtranclp (shell_step demo_crypto) (demo_shell, []) (sv, [demo_session 1])"
    using demo_shell_run by blast
  have "sv_teardowns demo_shell = []" "sv_counts demo_shell = []" by (simp_all add: demo_shell_def)
  from shell_sessions_capped[OF run this, of "''me''"] run show ?thesis
    by (auto simp: live_of_def demo_session_def)
qed

theorem shell_audit_complete_witness:
  "\<exists>sv. rtranclp (shell_step demo_crypto) (demo_shell, []) (sv, [demo_session 1])
     \<and> audit_ids OP_SHELL_OPEN (sv_entries sv) =
        audit_ids OP_SHELL_CLOSE (sv_entries sv) + {#JStr (ss_id (demo_session 1))#}"
proof -
  obtain sv where run: "rtranclp (shell_step demo_crypto) (demo_shell, []) (sv, [demo_session 1])"
    using demo_shell_run by blast
  have "sv_signs demo_shell" using demo_mgr_key by (simp add: sv_signs_def demo_shell_def)
  moreover have "audit_ids OP_SHELL_OPEN (sv_entries demo_shell) = audit_ids OP_SHELL_CLOSE (sv_entries demo_shell)"
    by (simp add: audit_ids_def sv_entries_def demo_shell_def demo_mgr_def demo_genesis_def demo_add_def)
  ultimately show ?thesis using shell_audit_complete[OF run] run by auto
qed

section \<open>Outbound sessions\<close>

text \<open>
  The client's semaphore and its open sessions (\<open>open_peer_shell\<close>, \<open>ShellSession._aclose\<close>).
  A coroutine that waits in \<open>acquire\<close> changes nothing; \<open>sc_opening\<close> counts those between
  \<open>acquire\<close> and the end of the set-up. \<open>_aclose\<close> marks its session closed, awaits, then
  discards the session and releases.
\<close>

record shell_client =
  sc_permits :: nat
  sc_opening :: nat
  sc_sessions :: "nat list"
  sc_closed :: "nat list"
  sc_closing :: "nat list"

definition new_shell_client :: shell_client where
  "new_shell_client = \<lparr>sc_permits = SHELL_MAX_SESSIONS, sc_opening = 0, sc_sessions = [],
                       sc_closed = [], sc_closing = []\<rparr>"

definition client_acquire :: "shell_client \<Rightarrow> shell_client" where
  "client_acquire c =
     (if sc_permits c = 0 then c
      else c\<lparr>sc_permits := sc_permits c - 1, sc_opening := sc_opening c + 1\<rparr>)"

text \<open>The set-up ends: with a session, or with an exception that releases.\<close>

definition client_opened :: "shell_client \<Rightarrow> nat option \<Rightarrow> shell_client" where
  "client_opened c r =
     (case r of
        None \<Rightarrow> c\<lparr>sc_opening := sc_opening c - 1, sc_permits := sc_permits c + 1\<rparr>
      | Some h \<Rightarrow> c\<lparr>sc_opening := sc_opening c - 1, sc_sessions := sc_sessions c @ [h]\<rparr>)"

definition aclose_start :: "shell_client \<Rightarrow> nat \<Rightarrow> shell_client" where
  "aclose_start c h =
     (if h \<in> set (sc_closed c) then c
      else c\<lparr>sc_closed := h # sc_closed c, sc_closing := h # sc_closing c\<rparr>)"

definition aclose_finish :: "shell_client \<Rightarrow> nat \<Rightarrow> shell_client" where
  "aclose_finish c h =
     c\<lparr>sc_closing := remove1 h (sc_closing c), sc_sessions := removeAll h (sc_sessions c),
       sc_permits := sc_permits c + 1\<rparr>"

inductive client_step :: "shell_client \<Rightarrow> shell_client \<Rightarrow> bool" where
  acquire: "client_step c (client_acquire c)"
| failed: "0 < sc_opening c \<Longrightarrow> client_step c (client_opened c None)"
| opened: "0 < sc_opening c \<Longrightarrow> h \<notin> set (sc_sessions c) \<Longrightarrow> h \<notin> set (sc_closed c)
    \<Longrightarrow> client_step c (client_opened c (Some h))"
| close: "h \<in> set (sc_sessions c) \<or> h \<in> set (sc_closed c) \<Longrightarrow> client_step c (aclose_start c h)"
| closed: "h \<in> set (sc_closing c) \<Longrightarrow> client_step c (aclose_finish c h)"

definition client_inv :: "shell_client \<Rightarrow> bool" where
  "client_inv c \<longleftrightarrow>
     sc_permits c + sc_opening c + length (sc_sessions c) = SHELL_MAX_SESSIONS
     \<and> distinct (sc_sessions c) \<and> distinct (sc_closing c)
     \<and> set (sc_closing c) \<subseteq> set (sc_sessions c)
     \<and> set (sc_closing c) = set (sc_sessions c) \<inter> set (sc_closed c)"

lemma client_inv_step: "client_step c c' \<Longrightarrow> client_inv c \<Longrightarrow> client_inv c'"
proof (induction rule: client_step.induct)
  case (closed h c)
  then have "h \<in> set (sc_sessions c)" "distinct (sc_sessions c)" by (auto simp: client_inv_def)
  then have "length (sc_sessions c) = Suc (length (removeAll h (sc_sessions c)))"
    "distinct (removeAll h (sc_sessions c))"
    using length_pos_if_in_set[of h "sc_sessions c"]
    by (simp_all add: distinct_remove1_removeAll[symmetric] length_remove1)
  with closed show ?case by (auto simp: client_inv_def aclose_finish_def)
qed (auto simp: client_inv_def client_acquire_def client_opened_def aclose_start_def)

text \<open>
  The client's permits are never lost and never returned twice, although a session may be closed
  from several threads: the permits left, the set-ups under way and the open sessions are four.
\<close>

theorem shell_permits_conserved:
  assumes "rtranclp client_step new_shell_client c"
  shows "sc_permits c + sc_opening c + length (sc_sessions c) = 4
    \<and> (\<forall>h \<in> set (sc_sessions c). h \<in> set (sc_closed c) \<longrightarrow> h \<in> set (sc_closing c))"
proof -
  have "client_inv c"
    using assms
  proof (induction rule: rtranclp_induct)
    case base
    show ?case by (simp add: client_inv_def new_shell_client_def)
  next
    case (step c c')
    then show ?case using client_inv_step by blast
  qed
  then show ?thesis by (auto simp: client_inv_def SHELL_MAX_SESSIONS_def)
qed

theorem shell_permits_conserved_witness:
  "sc_permits (client_opened (client_acquire new_shell_client) (Some 7)) = 3"
proof -
  let ?c = "client_opened (client_acquire new_shell_client) (Some 7)"
  have "client_step new_shell_client (client_acquire new_shell_client)" by (rule client_step.acquire)
  moreover have "client_step (client_acquire new_shell_client) ?c"
    by (rule client_step.opened) (simp_all add: client_acquire_def new_shell_client_def SHELL_MAX_SESSIONS_def)
  ultimately have "rtranclp client_step new_shell_client ?c" by auto
  from shell_permits_conserved[OF this] show ?thesis
    by (simp add: client_opened_def client_acquire_def new_shell_client_def SHELL_MAX_SESSIONS_def)
qed

end
