(* ===== verification/Alpn.thy ===== *)
theory Alpn
  imports Liveness Shell
begin

text \<open>
  The remaining protocols and all inbound handlers side by side: historical sync
  (src/alpn/sync.py), container logs (src/alpn/logs.py), and the dispatch of a connection on each
  of the six ALPNs to its handler. What arrives on a stream is a value or the error that ended
  reading it; a docker client is a function from reference and tail to text.
\<close>

section \<open>Sync, serving side\<close>

definition SYNC_RESPONSE_MAX :: nat where "SYNC_RESPONSE_MAX = 33554432"

datatype sync_answer = SyncPayload dict | SyncBadRequest string

text \<open>\<open>enc_size\<close> is the length of the encoded payload. The smaller payload is not measured again.\<close>

definition sync_serve :: "(dict \<Rightarrow> nat) \<Rightarrow> log_store \<Rightarrow> instant \<Rightarrow> json res \<Rightarrow> sync_answer res" where
  "sync_serve enc_size s now req =
     rbind req (\<lambda>j. rbind (need_dict j) (\<lambda>d.
       let raw = dget d ''last_seen_timestamp'' in
       if \<not> truthy raw then Inr (SyncBadRequest ''missing last_seen_timestamp'')
       else
         rbind (fromisoformat raw) (\<lambda>t.
           case t of
             Naive _ \<Rightarrow> Inl (TypeError ''can't subtract offset-naive and offset-aware datetimes'')
           | Aware last_seen \<Rightarrow>
               rbind (get_sync_payload s now last_seen) (\<lambda>p.
                 if enc_size p > SYNC_RESPONSE_MAX
                 then Inr (SyncPayload (AList.update ''sync_strategy'' (JStr ''daily_fallback'')
                        (AList.update ''buckets'' (JArr (get_daily_summaries s last_seen))
                          (AList.update ''raw_snapshots'' (JArr []) p))))
                 else Inr (SyncPayload p)))))"

section \<open>Sync, asking side\<close>

definition sync_cursor :: "log_store \<Rightarrow> node_id \<Rightarrow> datetime option \<Rightarrow> datetime res" where
  "sync_cursor s n since =
     (case since of
        Some t \<Rightarrow> Inr t
      | None \<Rightarrow> rbind (last_seen_for_peer s n) (\<lambda>c. Inr (Aware (case c of None \<Rightarrow> 0 | Some t \<Rightarrow> t))))"

fun resolve_message :: "resolve_error \<Rightarrow> string" where
  "resolve_message (NoActivePeer _) = ''no active peer''"
| "resolve_message (AmbiguousAlias _ _) = ''ambiguous alias''"

definition synced_device :: "instant \<Rightarrow> peer_state \<Rightarrow> peer_state" where
  "synced_device now p = p\<lparr>ps_sync := SYNCED, ps_last_sync := Some now, ps_gap := False\<rparr>"

text \<open>\<open>answer c\<close> is what the other node returns for cursor \<open>c\<close>.\<close>

definition sync_peer ::
  "merge_env \<Rightarrow> (node_id \<Rightarrow> bool) \<Rightarrow> engine \<Rightarrow> string \<Rightarrow> datetime option \<Rightarrow> (datetime \<Rightarrow> json res)
   \<Rightarrow> instant \<Rightarrow> engine \<times> merge_counts res" where
  "sync_peer env key_ok g target since answer now =
     (if \<not> eg_iroh g then (g, Inl (RuntimeError ''engine not initialized''))
      else case eg_logstore g of
        None \<Rightarrow> (g, Inl (RuntimeError ''logstore not initialized''))
      | Some s \<Rightarrow>
          (case resolve_target (eg_trust g) target of
             Inl err \<Rightarrow> (g, Inl (ValueError (resolve_message err)))
           | Inr n \<Rightarrow>
               (case rbind (sync_cursor s n since) (\<lambda>c.
                       if key_ok n then rbind (answer c) need_dict
                       else Inl (ValueError ''invalid node_id'')) of
                  Inl e \<Rightarrow> (g, Inl e)
                | Inr payload \<Rightarrow>
                    (case merge_sync_payload env s n payload of
                       (s', Inl e) \<Rightarrow> (g\<lparr>eg_logstore := Some s'\<rparr>, Inl e)
                     | (s', Inr counts) \<Rightarrow>
                         (set_device n (synced_device now) (g\<lparr>eg_logstore := Some s'\<rparr>), Inr counts)))))"

text \<open>The start-up fill, in the order the syncs finish; a failed one is skipped.\<close>

definition startup_sync_all ::
  "merge_env \<Rightarrow> (node_id \<Rightarrow> bool) \<Rightarrow> (node_id \<Rightarrow> datetime \<Rightarrow> json res) \<Rightarrow> instant \<Rightarrow> engine \<Rightarrow> engine" where
  "startup_sync_all env key_ok answer now g =
     (if eg_logstore g = None then g
      else foldl (\<lambda>g n. fst (sync_peer env key_ok g n None (answer n) now)) g (map fst (eg_devices g)))"

definition reconnect_gap :: "peer_state \<Rightarrow> instant \<Rightarrow> nat \<Rightarrow> bool" where
  "reconnect_gap p now interval =
     (case ps_last_seen p of
        None \<Rightarrow> False
      | Some t \<Rightarrow> \<not> now - t < usec (5 * max 1 (int interval)))"

text \<open>The task spawned by a transition; its peer is the entry of the device table.\<close>

definition maybe_schedule_reconnect_sync ::
  "merge_env \<Rightarrow> (node_id \<Rightarrow> bool) \<Rightarrow> nat \<Rightarrow> engine \<Rightarrow> node_id \<Rightarrow> instant \<Rightarrow> (datetime \<Rightarrow> json res) \<Rightarrow> instant
   \<Rightarrow> engine" where
  "maybe_schedule_reconnect_sync env key_ok interval g n now answer finish =
     (if eg_logstore g = None then g
      else case map_of (eg_devices g) n of
        None \<Rightarrow> g
      | Some p \<Rightarrow>
          if \<not> reconnect_gap p now interval then g
          else
            (case sync_peer env key_ok
                    (set_device n (\<lambda>p. p\<lparr>ps_sync := SYNCING, ps_gap := True\<rparr>) g) n None answer finish of
               (g', Inl _) \<Rightarrow> set_device n (\<lambda>p. p\<lparr>ps_sync := GAP\<rparr>) g'
             | (g', Inr _) \<Rightarrow> g'))"

section \<open>Container logs\<close>

definition ref_char :: "char \<Rightarrow> bool" where
  "ref_char c \<longleftrightarrow>
     c \<in> set ''ABCDEFGHIJKLMNOPQRSTUVWXYZabcdefghijklmnopqrstuvwxyz0123456789._-''"

text \<open>\<open>^[A-Za-z0-9._-]{1,128}$\<close> with \<open>re.match\<close>: one trailing newline passes.\<close>

definition container_ref_ok :: "string \<Rightarrow> bool" where
  "container_ref_ok s \<longleftrightarrow>
     (s \<noteq> [] \<and> length s \<le> 128 \<and> list_all ref_char s)
     \<or> (2 \<le> length s \<and> length s \<le> 129 \<and> list_all ref_char (butlast s) \<and> last s = CHR 0x0A)"

definition MAX_LOG_CHARS :: nat where "MAX_LOG_CHARS = 2000000"

text \<open>\<open>int(text)\<close>: blanks around, a sign, digits with single underscores between them.\<close>

fun digit_groups :: "string \<Rightarrow> string option" where
  "digit_groups [] = None"
| "digit_groups [c] = (if digits_value [c] = None then None else Some [c])"
| "digit_groups (c # d # cs) =
     (if digits_value [c] = None then None
      else if d = CHR ''_'' then map_option (Cons c) (digit_groups cs)
      else map_option (Cons c) (digit_groups (d # cs)))"

definition int_of_text :: "string \<Rightarrow> int option" where
  "int_of_text s0 =
     (let s = py_strip s0 in
      if s = [] then None
      else if hd s = CHR ''-'' then map_option uminus (Option.bind (digit_groups (drop 1 s)) digits_value)
      else if hd s = CHR ''+'' then Option.bind (digit_groups (drop 1 s)) digits_value
      else Option.bind (digit_groups s) digits_value)"

fun int_of_json :: "json \<Rightarrow> int option" where
  "int_of_json (JInt n) = Some n"
| "int_of_json (JNum x) = Some (py_int x)"
| "int_of_json (JBool b) = Some (if b then 1 else 0)"
| "int_of_json (JStr s) = int_of_text s"
| "int_of_json _ = None"

definition clamp_tail :: "json \<Rightarrow> int" where
  "clamp_tail v = max 1 (min (case int_of_json v of None \<Rightarrow> 20 | Some n \<Rightarrow> n) 200)"

text \<open>What docker is asked, if anything.\<close>

definition logs_query :: "json \<Rightarrow> (string \<times> int) option res" where
  "logs_query req =
     rbind (need_dict req) (\<lambda>d.
       Inr (case dget d ''cid'' of
              JStr cid \<Rightarrow> if container_ref_ok cid then Some (cid, clamp_tail (dget_default d ''tail'' (JInt 20))) else None
            | _ \<Rightarrow> None))"

definition logs_serve :: "(string \<Rightarrow> int \<Rightarrow> string res) option \<Rightarrow> (py_error \<Rightarrow> string) \<Rightarrow> json res \<Rightarrow> dict res" where
  "logs_serve docker show_error req =
     rbind req (\<lambda>j. rbind (logs_query j) (\<lambda>q.
       Inr (case q of
              None \<Rightarrow> [(''error'', JStr ''invalid container id'')]
            | Some (cid, tail_n) \<Rightarrow>
                (case docker of
                   None \<Rightarrow> [(''error'', JStr ''docker unavailable'')]
                 | Some ask \<Rightarrow>
                     (case ask cid tail_n of
                        Inl e \<Rightarrow> [(''error'', JStr (show_error e))]
                      | Inr text \<Rightarrow> [(''logs'', JStr (last_n MAX_LOG_CHARS text))])))))"

text \<open>
  Whatever a peer asks for, docker sees only a reference of 1 to 128 plain characters (or one
  followed by a newline) and a tail between 1 and 200.
\<close>

theorem logs_query_bounded:
  assumes "logs_query req = Inr (Some (cid, n))"
  shows "1 \<le> n \<and> n \<le> 200
    \<and> (\<exists>s. list_all ref_char s \<and> 1 \<le> length s \<and> length s \<le> 128 \<and> (cid = s \<or> cid = s @ [CHR 0x0A]))"
proof -
  from assms obtain d where d: "need_dict req = Inr d" "dget d ''cid'' = JStr cid" "container_ref_ok cid"
      "n = clamp_tail (dget_default d ''tail'' (JInt 20))"
  proof -
    obtain d where d: "need_dict req = Inr d" using assms by (auto simp: logs_query_def rbind_Inr_conv)
    with assms that show thesis
      by (cases "dget d ''cid''") (auto simp: logs_query_def split: if_splits)
  qed
  have "1 \<le> n \<and> n \<le> 200" by (simp add: d(4) clamp_tail_def)
  moreover from d(3) consider "cid \<noteq> []" "length cid \<le> 128" "list_all ref_char cid"
    | "2 \<le> length cid" "length cid \<le> 129" "list_all ref_char (butlast cid)" "last cid = CHR 0x0A"
    unfolding container_ref_ok_def by blast
  then have "\<exists>s. list_all ref_char s \<and> 1 \<le> length s \<and> length s \<le> 128 \<and> (cid = s \<or> cid = s @ [CHR 0x0A])"
  proof cases
    case 1
    then show ?thesis by (intro exI[of _ cid]) (simp add: Suc_le_eq)
  next
    case 2
    then have "cid = butlast cid @ [CHR 0x0A]" by (metis append_butlast_last_id list.size(3) not_numeral_le_zero)
    with 2 show ?thesis by (intro exI[of _ "butlast cid"]) auto
  qed
  ultimately show ?thesis by blast
qed

theorem logs_query_bounded_witness:
  "logs_query (JObj [(''cid'', JStr ''web-1''), (''tail'', JInt 5000)]) = Inr (Some (''web-1'', 200))
   \<and> (200::int) \<le> 200"
proof -
  have "logs_query (JObj [(''cid'', JStr ''web-1''), (''tail'', JInt 5000)]) = Inr (Some (''web-1'', 200))"
    by (simp add: logs_query_def need_dict_def dict_simps container_ref_ok_def ref_char_def clamp_tail_def)
  with logs_query_bounded[OF this] show ?thesis by simp
qed

section \<open>Reconnect sync\<close>

lemma maybe_transition_tasks:
  assumes "maybe_transition C io g p observed now = ((g', p'), r)"
    and "ReconnectSync n t \<in> set (eg_tasks g')" and "ReconnectSync n t \<notin> set (eg_tasks g)"
  shows "n = pe_node_id (ps_entry p) \<and> t = now \<and> observed = ALIVE
    \<and> ps_last_seen p' = ps_last_seen p"
  using assms
  by (auto simp: maybe_transition_def Let_def fire_alert_def log_transition_def transition_target_def
      split: option.splits if_splits prod.splits sum.splits bool.splits)

lemma reconnect_gap_now [simp]: "ps_last_seen p = Some t \<Longrightarrow> \<not> reconnect_gap p t interval"
proof -
  assume "ps_last_seen p = Some t"
  moreover have "0 < usec (5 * max 1 (int interval))" by (simp add: usec_def)
  ultimately show ?thesis by (simp add: reconnect_gap_def)
qed

text \<open>
  C38: The fill after an outage never runs: the probe that brings a peer back sets its
  \<open>last_seen\<close> to the very time the spawned task compares it with.
\<close>

theorem reconnect_sync_never_due:
  assumes "map_of (eg_devices g) (pc_node c) = Some p" and "pe_node_id (ps_entry p) = pc_node c"
    and "run_probe C g c = (g', r)"
    and "ReconnectSync n t \<in> set (eg_tasks g')" and "ReconnectSync n t \<notin> set (eg_tasks g)"
  shows "maybe_schedule_reconnect_sync env key_ok interval g' n t answer finish = g'"
proof -
  obtain g1 p1 where pp: "probe_peer C (pc_io c) g p (pc_now c) (pc_result c) = ((g1, p1), r)"
      "g' = g1\<lparr>eg_devices := AList.update (pc_node c) p1 (eg_devices g1)\<rparr>"
    using assms(1,3) by (auto simp: run_probe_def split: prod.splits)
  then have tasks: "eg_tasks g' = eg_tasks g1" by simp
  have "\<exists>r'. maybe_transition C (pc_io c) g (note_probe p (pc_now c) (pc_result c))
      (lr_status (probe_record (pc_now c) (pc_result c))) (pc_now c) = ((g1, p1), r')"
    using pp(1) assms(4,5) tasks
    by (auto simp: probe_peer_def Let_def split: sum.splits prod.splits bool.splits option.splits)
  then obtain r' where mt: "maybe_transition C (pc_io c) g (note_probe p (pc_now c) (pc_result c))
      (lr_status (probe_record (pc_now c) (pc_result c))) (pc_now c) = ((g1, p1), r')" by blast
  have m: "n = pe_node_id (ps_entry (note_probe p (pc_now c) (pc_result c)))" "t = pc_now c"
      "lr_status (probe_record (pc_now c) (pc_result c)) = ALIVE"
      "ps_last_seen p1 = ps_last_seen (note_probe p (pc_now c) (pc_result c))"
    using maybe_transition_tasks[OF mt] assms(4,5) tasks by auto
  obtain us where res: "pc_result c = Reached us"
    using m(3) by (cases "pc_result c") (auto simp: probe_record_def)
  have "n = pc_node c" using m(1) assms(2) by (simp add: note_probe_def res)
  moreover have "ps_last_seen p1 = Some t" using m(2,4) by (simp add: note_probe_def res)
  ultimately show ?thesis
    by (simp add: maybe_schedule_reconnect_sync_def pp(2) update_conv')
qed

definition demo_dead :: engine where
  "demo_dead = demo_engine\<lparr>eg_devices := [(''p'', (new_peer_state \<lparr>pe_node_id = ''p'', pe_alias = None\<rparr>)
     \<lparr>ps_status := DEAD, ps_failures := 9, ps_last_seen := Some 0\<rparr>)],
     eg_logstore := Some (new_log_store ''me'')\<rparr>"

definition demo_back :: probe_call where
  "demo_back = \<lparr>pc_node = ''p'', pc_now = usec 90000, pc_result = Reached 5, pc_io = demo_io\<rparr>"

theorem reconnect_sync_never_due_witness:
  "maybe_schedule_reconnect_sync demo_env (\<lambda>_. True) 30 (fst (run_probe demo_crypto demo_dead demo_back))
     ''p'' (usec 90000) (\<lambda>_. Inl TimeoutError) 0 = fst (run_probe demo_crypto demo_dead demo_back)"
proof -
  have "ReconnectSync ''p'' (usec 90000) \<in> set (eg_tasks (fst (run_probe demo_crypto demo_dead demo_back)))"
    using demo_no_window
    by (auto simp: run_probe_def demo_dead_def demo_back_def probe_peer_def note_probe_def probe_record_def
        maybe_transition_def transition_target_def demo_engine_def new_engine_def new_peer_state_def Let_def
        no_window_def fire_alert_def log_transition_def get_peer_def demo_watch_mgr_def in_maintenance_def demo_peer_def
        split: prod.splits option.splits sum.splits)
  then show ?thesis
    by (intro reconnect_sync_never_due[where c = demo_back and g = demo_dead and C = demo_crypto
          and r = "snd (run_probe demo_crypto demo_dead demo_back)"
          and p = "(new_peer_state \<lparr>pe_node_id = ''p'', pe_alias = None\<rparr>)
            \<lparr>ps_status := DEAD, ps_failures := 9, ps_last_seen := Some 0\<rparr>"])
      (simp_all add: demo_dead_def demo_back_def demo_engine_def new_engine_def new_peer_state_def)
qed

section \<open>All inbound handlers\<close>

text \<open>
  One connection: the peer's node id (which iroh authenticates), and what the handler of its
  ALPN reads, with the clock and the environment it runs in.
\<close>

record node_state =
  nd_engine :: engine
  nd_shell :: shell_server

datatype alpn_request =
    Heartbeat
  | Push io_env bool instant
  | Status "int res"
  | Sync "json res" instant
  | Logs "json res"
  | ShellOpen io_env instant nat string

record alpn_call =
  ac_remote :: node_id
  ac_request :: alpn_request

datatype alpn_answer =
    Refused string
  | Busy string
  | NotReady string
  | Done
  | Reply dict
  | BadRequest string
  | Broken py_error
  | Session shell_session

record alpn_env =
  ae_crypto :: crypto
  ae_size :: "dict \<Rightarrow> nat"
  ae_docker :: "(string \<Rightarrow> int \<Rightarrow> string res) option"
  ae_show :: "py_error \<Rightarrow> string"

definition sync_accept :: "alpn_env \<Rightarrow> engine \<Rightarrow> node_id \<Rightarrow> instant \<Rightarrow> json res \<Rightarrow> alpn_answer" where
  "sync_accept env g remote now req =
     (let (ok, reason) = verify_and_authorize (eg_trust g) remote ''monitor'' in
      if \<not> ok then Refused (take 120 reason)
      else case eg_logstore g of
        None \<Rightarrow> NotReady ''logstore not ready''
      | Some s \<Rightarrow>
          (case sync_serve (ae_size env) s now req of
             Inl e \<Rightarrow> Broken e
           | Inr (SyncBadRequest m) \<Rightarrow> BadRequest m
           | Inr (SyncPayload p) \<Rightarrow> Reply p))"

text \<open>\<open>view_dashboard\<close> or \<open>monitor\<close>, as for the status protocol.\<close>

definition logs_accept :: "alpn_env \<Rightarrow> engine \<Rightarrow> node_id \<Rightarrow> json res \<Rightarrow> alpn_answer" where
  "logs_accept env g remote req =
     (let (ok, reason) = status_authorize (eg_trust g) remote in
      if \<not> ok then Refused (take 120 reason)
      else case logs_serve (ae_docker env) (ae_show env) req of
             Inl e \<Rightarrow> Broken e | Inr d \<Rightarrow> Reply d)"

fun of_close :: "close_action \<Rightarrow> alpn_answer" where
  "of_close (CloseForbidden r) = Refused r"
| "of_close (CloseError m) = NotReady m"
| "of_close (CloseOk _) = Done"

text \<open>The shell handler signs into the engine's own log.\<close>

definition shell_call ::
  "alpn_env \<Rightarrow> node_state \<Rightarrow> node_id \<Rightarrow> io_env \<Rightarrow> instant \<Rightarrow> nat \<Rightarrow> string \<Rightarrow> node_state \<times> alpn_answer" where
  "shell_call env nd remote io now ev sid =
     (case shell_accept (ae_crypto env) io ((nd_shell nd)\<lparr>sv_trust := eg_trust (nd_engine nd)\<rparr>) remote now ev sid of
        (_, Inl (code, msg)) \<Rightarrow> (nd, if code = 403 then Refused msg else Busy msg)
      | (sv, Inr s) \<Rightarrow>
          (nd\<lparr>nd_engine := (nd_engine nd)\<lparr>eg_trust := sv_trust sv\<rparr>, nd_shell := sv\<rparr>, Session s))"

definition alpn_serve :: "alpn_env \<Rightarrow> node_state \<Rightarrow> alpn_call \<Rightarrow> node_state \<times> alpn_answer" where
  "alpn_serve env nd c =
     (let g = nd_engine nd; remote = ac_remote c in
      case ac_request c of
        Heartbeat \<Rightarrow> (nd, of_close (heartbeat_accept (eg_trust g) remote))
      | Push io db_ok now \<Rightarrow>
          (case push_accept (ae_crypto env) io db_ok g remote now of
             (g', a) \<Rightarrow> (nd\<lparr>nd_engine := g'\<rparr>, of_close a))
      | Status req \<Rightarrow>
          (nd, case status_accept g remote req of
                 (CloseForbidden r, _) \<Rightarrow> Refused r
               | (_, None) \<Rightarrow> Done
               | (_, Some d) \<Rightarrow> Reply d)
      | Sync req now \<Rightarrow> (nd, sync_accept env g remote now req)
      | Logs req \<Rightarrow> (nd, logs_accept env g remote req)
      | ShellOpen io now ev sid \<Rightarrow> shell_call env nd remote io now ev sid)"

text \<open>The permissions that open a protocol; \<open>*\<close> opens all.\<close>

fun grants :: "alpn_request \<Rightarrow> string list" where
  "grants Heartbeat = [''monitor'', ''*'']"
| "grants (Push _ _ _) = [''monitor'', ''*'']"
| "grants (Status _) = [''view_dashboard'', ''monitor'', ''*'']"
| "grants (Sync _ _) = [''monitor'', ''*'']"
| "grants (Logs _) = [''view_dashboard'', ''monitor'', ''*'']"
| "grants (ShellOpen _ _ _ _) = [''shell'', ''*'']"

definition may_call :: "trust_mgr \<Rightarrow> alpn_call \<Rightarrow> bool" where
  "may_call m c \<longleftrightarrow>
     ac_remote c = tm_own m
     \<or> (case tm_by_nid m (ac_remote c) of
          None \<Rightarrow> False
        | Some p \<Rightarrow> tp_revoked p = None \<and> set (tp_permissions p) \<inter> set (grants (ac_request c)) \<noteq> {})"

definition is_refused :: "alpn_answer \<Rightarrow> bool" where
  "is_refused a = (case a of Refused _ \<Rightarrow> True | _ \<Rightarrow> False)"

lemma authorize_split:
  "fst (verify_and_authorize m n pr) \<longleftrightarrow>
     n = tm_own m
     \<or> (case tm_by_nid m n of
          None \<Rightarrow> False
        | Some p \<Rightarrow> tp_revoked p = None \<and> set (tp_permissions p) \<inter> {pr, ''*''} \<noteq> {})"
  by (auto simp: verify_and_authorize_def split: option.splits)

lemma status_authorize_split:
  "fst (status_authorize m n) \<longleftrightarrow>
     fst (verify_and_authorize m n ''view_dashboard'') \<or> fst (verify_and_authorize m n ''monitor'')"
  by (auto simp: status_authorize_def Let_def split: prod.splits)

lemma may_call_split:
  "may_call m c \<longleftrightarrow>
     (case ac_request c of
        Status _ \<Rightarrow> fst (status_authorize m (ac_remote c))
      | Logs _ \<Rightarrow> fst (status_authorize m (ac_remote c))
      | ShellOpen _ _ _ _ \<Rightarrow> fst (verify_and_authorize m (ac_remote c) ''shell'')
      | _ \<Rightarrow> fst (verify_and_authorize m (ac_remote c) ''monitor''))"
  by (cases "ac_request c")
    (auto simp: may_call_def status_authorize_split authorize_split split: option.splits)

lemma shell_refused_iff:
  "is_refused (snd (shell_call env nd remote io now ev sid)) \<longleftrightarrow>
     \<not> fst (verify_and_authorize (eg_trust (nd_engine nd)) remote ''shell'')"
  by (auto simp: shell_call_def shell_accept_def serve_shell_def Let_def is_refused_def
      split: prod.splits if_splits sum.splits)

lemma alpn_refused_iff: "is_refused (snd (alpn_serve env nd c)) \<longleftrightarrow> \<not> may_call (eg_trust (nd_engine nd)) c"
proof (cases "ac_request c")
  case (ShellOpen io now ev sid)
  then show ?thesis by (simp add: alpn_serve_def Let_def may_call_split shell_refused_iff)
qed (auto simp: alpn_serve_def Let_def may_call_split heartbeat_accept_def push_accept_def
    status_accept_def sync_accept_def logs_accept_def is_refused_def
    split: prod.splits option.splits sum.splits sync_answer.splits if_splits)

lemma alpn_refused_inert: "\<not> may_call (eg_trust (nd_engine nd)) c \<Longrightarrow> fst (alpn_serve env nd c) = nd"
  by (cases "ac_request c")
    (auto simp: alpn_serve_def Let_def may_call_split push_accept_def shell_call_def shell_accept_def
      split: prod.splits)

section \<open>Strangers\<close>

text \<open>
  A service that answers callers without access with a refusal and nothing else, and whose
  answers change nobody's access.
\<close>

locale gated_service =
  fixes allowed :: "'s \<Rightarrow> 'r \<Rightarrow> bool" and serve :: "'s \<Rightarrow> 'r \<Rightarrow> 's \<times> 'a" and refusal :: "'a \<Rightarrow> bool"
  assumes refused_iff: "refusal (snd (serve s r)) \<longleftrightarrow> \<not> allowed s r"
    and inert: "\<not> allowed s r \<Longrightarrow> fst (serve s r) = s"
    and stable: "allowed (fst (serve s r)) q \<longleftrightarrow> allowed s q"
begin

text \<open>Dropping the calls of strangers from a run changes nothing.\<close>

lemma run_without_strangers:
  "foldl (\<lambda>s r. fst (serve s r)) s rs = foldl (\<lambda>s r. fst (serve s r)) s (filter (allowed s) rs)"
proof (induction rs arbitrary: s)
  case (Cons r rs)
  have same: "allowed (fst (serve s r)) = allowed s" by (rule ext) (rule stable)
  show ?case
    using Cons[of "fst (serve s r)"] by (simp add: same inert)
qed simp

text \<open>A run never opens the service to someone.\<close>

lemma run_stable: "allowed (foldl (\<lambda>s r. fst (serve s r)) s rs) q \<longleftrightarrow> allowed s q"
  by (induction rs arbitrary: s) (simp_all add: stable)

lemma refused_after_run:
  "refusal (snd (serve (foldl (\<lambda>s r. fst (serve s r)) s rs) q)) \<longleftrightarrow> \<not> allowed s q"
  by (simp add: refused_iff run_stable)

end

lemma log_transition_own [simp]:
  "tm_own (eg_trust (log_transition C io g ev p)) = tm_own (eg_trust g)"
  by (simp add: log_transition_def Let_def split: prod.splits)

lemma maybe_transition_access:
  assumes "maybe_transition C io g p observed now = ((g', p'), r)"
  shows "tm_by_nid (eg_trust g') = tm_by_nid (eg_trust g) \<and> tm_own (eg_trust g') = tm_own (eg_trust g)"
  using assms
  by (auto simp: maybe_transition_def Let_def split: option.splits if_splits sum.splits bool.splits)

lemma push_keeps_access:
  "tm_by_nid (eg_trust (fst (push_accept C io ok g n now))) = tm_by_nid (eg_trust g)
   \<and> tm_own (eg_trust (fst (push_accept C io ok g n now))) = tm_own (eg_trust g)"
proof (cases "fst (verify_and_authorize (eg_trust g) n ''monitor'')")
  case False
  then show ?thesis by (auto simp: push_accept_def split: prod.splits)
next
  case True
  have "tm_by_nid (eg_trust (fst (record_push_from C io ok g n now))) = tm_by_nid (eg_trust g)
    \<and> tm_own (eg_trust (fst (record_push_from C io ok g n now))) = tm_own (eg_trust g)"
    unfolding record_push_from_def Let_def
    by (auto split: prod.splits option.splits dest!: maybe_transition_access)
  with True show ?thesis by (auto simp: push_accept_def split: prod.splits)
qed

lemma alpn_keeps_access:
  "tm_by_nid (eg_trust (nd_engine (fst (alpn_serve env nd c)))) = tm_by_nid (eg_trust (nd_engine nd))
   \<and> tm_own (eg_trust (nd_engine (fst (alpn_serve env nd c)))) = tm_own (eg_trust (nd_engine nd))"
proof (cases "ac_request c")
  case (Push io ok now)
  then show ?thesis
    using push_keeps_access[of "ae_crypto env" io ok "nd_engine nd" "ac_remote c" now]
    by (auto simp: alpn_serve_def split: prod.splits)
next
  case (ShellOpen io now ev sid)
  then show ?thesis
    by (auto simp: alpn_serve_def Let_def shell_call_def audit_def
        split: prod.splits sum.splits dest!: shell_accept_opened(4))
qed (simp_all add: alpn_serve_def Let_def)

lemma may_call_stable:
  "may_call (eg_trust (nd_engine (fst (alpn_serve env nd c)))) q = may_call (eg_trust (nd_engine nd)) q"
  using alpn_keeps_access[of env nd c] by (simp add: may_call_def)

interpretation inbound: gated_service
  "\<lambda>nd. may_call (eg_trust (nd_engine nd))" "alpn_serve env" is_refused for env
  by unfold_locales (rule alpn_refused_iff, erule alpn_refused_inert, rule may_call_stable)

text \<open>
  C1: The access matrix of the inbound protocols: whatever was served before, a connection is refused
  exactly when the caller is not this node and is unknown, revoked, or without one of the
  permissions that open the protocol.
\<close>

theorem access_matrix:
  "is_refused (snd (alpn_serve env (foldl (\<lambda>nd c. fst (alpn_serve env nd c)) nd cs) q))
   \<longleftrightarrow> \<not> may_call (eg_trust (nd_engine nd)) q"
  by (rule inbound.refused_after_run)

text \<open>
  C24: Callers without access leave no trace: in any sequence of connections on the six protocols,
  the state at the end is the state the other callers' connections alone would have made. No
  device, history row, log entry or session is theirs.
\<close>

theorem strangers_leave_no_trace:
  "foldl (\<lambda>nd c. fst (alpn_serve env nd c)) nd cs =
   foldl (\<lambda>nd c. fst (alpn_serve env nd c)) nd (filter (may_call (eg_trust (nd_engine nd))) cs)"
  by (rule inbound.run_without_strangers)

end
