(* ===== verification/Statuspage.thy ===== *)
theory Statuspage
  imports Alpn
begin

text \<open>
  The dashboard snapshot and the local status page (src/statuspage.py): what one view of the
  monitoring state holds, the one-second cache in front of it, the bind address and the routes.
  The HTML template is not modelled.
\<close>

section \<open>The snapshot\<close>

record spark_point =
  sp_ts :: instant
  sp_rtt :: "rat option"
  sp_status :: peer_status

record peer_panel =
  pp_node :: node_id
  pp_alias :: "string option"
  pp_tags :: "string list"
  pp_status :: peer_status
  pp_maint :: bool
  pp_mstart :: "datetime option"
  pp_mend :: "datetime option"
  pp_last_seen :: "instant option"
  pp_failures :: nat
  pp_successes :: nat
  pp_uptime :: "(string \<times> rat option) list"
  pp_hourly :: "rat option list"
  pp_rtt_now :: "rat option"
  pp_rtt :: rtt_summary
  pp_spark :: "spark_point list"
  pp_sync :: sync_status
  pp_last_sync :: "instant option"
  pp_gap :: bool
  pp_stats :: "json option"

record event_panel =
  ep_seq :: int
  ep_type :: string
  ep_time :: json
  ep_data :: dict
  ep_alias :: "string option"
  ep_node :: json

record snapshot =
  dsn_node :: node_id
  dsn_now :: instant
  dsn_targets :: nat
  dsn_alive :: nat
  dsn_dead :: nat
  dsn_unknown :: nat
  dsn_maintenance :: nat
  dsn_peers_total :: nat
  dsn_peers_revoked :: nat
  dsn_probes_24h :: nat
  dsn_avg_uptime :: "rat option"
  dsn_events_24h :: nat
  dsn_peers :: "peer_panel list"
  dsn_events :: "event_panel list"
  dsn_own_stats :: "dict option"
  dsn_own_history :: "dict list"

abbreviation SPARKLINE_POINTS :: nat where "SPARKLINE_POINTS \<equiv> 120"
abbreviation EVENTS_FEED_LIMIT :: nat where "EVENTS_FEED_LIMIT \<equiv> 30"

text \<open>The memory's records, or the last six hours on disk when there are none.\<close>

definition sparkline :: "engine \<Rightarrow> instant \<Rightarrow> peer_state \<Rightarrow> spark_point list" where
  "sparkline g now p =
     (let mem = last_n SPARKLINE_POINTS (ps_latency_history p) in
      if mem \<noteq> []
      then map (\<lambda>r. \<lparr>sp_ts = lr_timestamp r, sp_rtt = lr_rtt_ms r, sp_status = lr_status r\<rparr>) mem
      else map (\<lambda>r. \<lparr>sp_ts = pw_ts r, sp_rtt = pw_rtt r, sp_status = pw_status r\<rparr>)
             (last_n SPARKLINE_POINTS (recent_rows (eg_history g) now (pe_node_id (ps_entry p)) 6 None)))"

definition panel_windows :: "engine \<Rightarrow> instant \<Rightarrow> node_id \<Rightarrow> (string \<times> rat option) list" where
  "panel_windows g now n =
     map (\<lambda>(k, w). (k, uptime_percent (eg_history g) now n w))
       [(''1h'', hours_us 1), (''24h'', hours_us 24), (''7d'', days_us 7), (''30d'', days_us 30)]"

definition peer_panel_of :: "engine \<Rightarrow> instant \<Rightarrow> peer_state \<Rightarrow> peer_panel res" where
  "peer_panel_of g now p =
     (let n = pe_node_id (ps_entry p); trusted = get_peer (eg_trust g) n in
      rbind (case trusted of None \<Rightarrow> Inr False | Some t \<Rightarrow> in_maintenance t (Aware now)) (\<lambda>maint.
        Inr \<lparr>pp_node = n, pp_alias = pe_alias (ps_entry p),
             pp_tags = (case trusted of None \<Rightarrow> [] | Some t \<Rightarrow> tp_tags t),
             pp_status = ps_status p, pp_maint = maint,
             pp_mstart = Option.bind trusted tp_mstart, pp_mend = Option.bind trusted tp_mend,
             pp_last_seen = ps_last_seen p, pp_failures = ps_failures p, pp_successes = ps_successes p,
             pp_uptime = panel_windows g now n,
             pp_hourly = hourly_uptime_buckets (eg_history g) now n 24,
             pp_rtt_now = (if ps_latency_history p = [] then None else lr_rtt_ms (last (ps_latency_history p))),
             pp_rtt = rtt_stats (eg_history g) now n 24,
             pp_spark = sparkline g now p, pp_sync = ps_sync p, pp_last_sync = ps_last_sync p,
             pp_gap = ps_gap p, pp_stats = ps_last_stats p\<rparr>))"

text \<open>\<open>alias_by_nid\<close> keeps the last peer of an id; a list or object as node id is no key.\<close>

definition alias_by_nid :: "trusted_peer list \<Rightarrow> node_id \<rightharpoonup> string option" where
  "alias_by_nid ps = map_of (rev (map (\<lambda>p. (tp_node_id p, tp_alias p)) ps))"

definition event_panel_of :: "trusted_peer list \<Rightarrow> log_entry \<Rightarrow> event_panel res" where
  "event_panel_of ps e =
     (let nid = dget (le_data e) ''node_id'' in
      rbind (if \<not> truthy nid then Inr None
             else case nid of
               JStr s \<Rightarrow> Inr (case alias_by_nid ps s of None \<Rightarrow> None | Some a \<Rightarrow> a)
             | _ \<Rightarrow> if hashable nid then Inr None else Inl (TypeError ''unhashable type'')) (\<lambda>alias.
        Inr \<lparr>ep_seq = le_seq e, ep_type = le_type e, ep_time = le_timestamp e, ep_data = le_data e,
             ep_alias = alias, ep_node = nid\<rparr>))"

definition recent_event :: "instant \<Rightarrow> event_panel \<Rightarrow> bool res" where
  "recent_event now e =
     rbind (fromisoformat (ep_time e)) (\<lambda>d.
       case d of
         Naive _ \<Rightarrow> Inl (TypeError ''can't subtract offset-naive and offset-aware datetimes'')
       | Aware t \<Rightarrow> Inr (now - t \<le> usec 86400))"

definition average_uptime :: "peer_panel list \<Rightarrow> rat option" where
  "average_uptime ps =
     (let xs = List.map_filter (\<lambda>p. case map_of (pp_uptime p) ''24h'' of Some x \<Rightarrow> x | None \<Rightarrow> None) ps in
      if xs = [] then None else Some (sum_list xs / of_nat (length xs)))"

definition build_snapshot :: "engine \<Rightarrow> instant \<Rightarrow> snapshot res" where
  "build_snapshot g now =
     (let devices = get_device_states g; all_peers = tm_store (eg_trust g) in
      rbind (rmap (peer_panel_of g now) devices) (\<lambda>panels.
      rbind (rmap (event_panel_of all_peers)
               (rev (last_n EVENTS_FEED_LIMIT (monitor_events (tm_log (eg_trust g)) None)))) (\<lambda>events.
      rbind (rmap (recent_event now) events) (\<lambda>recent.
        Inr \<lparr>dsn_node = eg_node_id g, dsn_now = now, dsn_targets = length devices,
             dsn_alive = length [d \<leftarrow> devices. ps_status d = ALIVE],
             dsn_dead = length [d \<leftarrow> devices. ps_status d = DEAD],
             dsn_unknown = length [d \<leftarrow> devices. ps_status d = UNKNOWN],
             dsn_maintenance = length (filter pp_maint panels),
             dsn_peers_total = length [p \<leftarrow> all_peers. tp_revoked p = None],
             dsn_peers_revoked = length [p \<leftarrow> all_peers. tp_revoked p \<noteq> None],
             dsn_probes_24h = count_in_window (eg_history g) now 24 None,
             dsn_avg_uptime = average_uptime panels,
             dsn_events_24h = length (filter id recent),
             dsn_peers = panels, dsn_events = events, dsn_own_stats = get_own_stats g,
             dsn_own_history = (case eg_logstore g of
                                 None \<Rightarrow> []
                               | Some s \<Rightarrow> recent_snapshots_for_peer s now (eg_node_id g) 1)\<rparr>))))"

text \<open>The cache holds the monotonic time (in microseconds) it was filled at, and the snapshot;
  a computation that raises leaves it.\<close>

type_synonym snap_cache = "(int \<times> snapshot) option"

definition cached_snapshot :: "int \<Rightarrow> instant \<Rightarrow> engine \<Rightarrow> snap_cache \<Rightarrow> snap_cache \<times> snapshot res" where
  "cached_snapshot clk now g c =
     (case (case c of Some (t, s) \<Rightarrow> if clk - t < 1000000 then Some s else None | None \<Rightarrow> None) of
        Some s \<Rightarrow> (c, Inr s)
      | None \<Rightarrow>
          (case build_snapshot g now of
             Inl e \<Rightarrow> (c, Inl e)
           | Inr s \<Rightarrow> (Some (clk, s), Inr s)))"

section \<open>The page\<close>

text \<open>\<open>rpartition(":")\<close>: the part before the last colon and the part after it.\<close>

definition rpartition :: "char \<Rightarrow> string \<Rightarrow> (string \<times> string) option" where
  "rpartition c s =
     (if c \<in> set s
      then let after = rev (takeWhile (\<lambda>x. x \<noteq> c) (rev s)) in
           Some (take (length s - length after - 1) s, after)
      else None)"

datatype bind_addr = Disabled | Bind string int

definition parse_bind :: "string \<Rightarrow> bind_addr res" where
  "parse_bind v0 =
     (let v = py_strip v0 in
      if v = [] then Inr Disabled
      else case rpartition (CHR '':'') v of
        None \<Rightarrow> Inl (ValueError ''invalid status-bind'')
      | Some (host, port) \<Rightarrow>
          if host = [] \<or> port = [] then Inl (ValueError ''invalid status-bind'')
          else (case int_of_text port of
                  None \<Rightarrow> Inl (ValueError ''invalid literal for int()'')
                | Some p \<Rightarrow> Inr (Bind host p)))"

datatype page =
    Html
  | SnapshotJson snapshot
  | HistoryJson "probe_row list"
  | HttpError int

text \<open>\<open>q\<close> is the parsed query string.\<close>

definition first_of :: "(string \<times> string list) list \<Rightarrow> string \<Rightarrow> string \<Rightarrow> string" where
  "first_of q k dflt = (case map_of q k of Some (v # _) \<Rightarrow> v | _ \<Rightarrow> dflt)"

definition status_get ::
  "int \<Rightarrow> instant \<Rightarrow> engine option \<Rightarrow> snap_cache \<Rightarrow> string \<Rightarrow> (string \<times> string list) list \<Rightarrow> snap_cache \<times> page" where
  "status_get clk now eng c path q =
     (case eng of
        None \<Rightarrow> (c, HttpError 503)
      | Some g \<Rightarrow>
          if path = ''/'' \<or> path = ''/index.html'' then (c, Html)
          else if path = ''/status.json'' then
            (case cached_snapshot clk now g c of
               (c', Inl _) \<Rightarrow> (c', HttpError 500)
             | (c', Inr s) \<Rightarrow> (c', SnapshotJson s))
          else if path = ''/history.json'' then
            (let n = first_of q ''node_id'' [] in
             if n = [] then (c, HttpError 400)
             else case int_of_text (first_of q ''hours'' ''24'') of
               None \<Rightarrow> (c, HttpError 500)
             | Some h \<Rightarrow> (c, HistoryJson (recent_rows (eg_history g) now n (min h 720) None)))
          else (c, HttpError 404))"

section \<open>Lemmas\<close>

lemma rmap_length: "rmap f xs = Inr ys \<Longrightarrow> length ys = length xs"
  by (simp add: rmap_Inr_conv list_all2_lengthD)

lemma percent_alive_range: "percent_alive rows = Some x \<Longrightarrow> 0 \<le> x \<and> x \<le> 100"
proof -
  assume "percent_alive rows = Some x"
  then have r: "rows \<noteq> []" "x = 100 * of_nat (length (filter is_alive rows)) / of_nat (length rows)"
    by (auto simp: percent_alive_def split: if_splits)
  then have "0 < (of_nat (length rows) :: rat)" by simp
  moreover have "(of_nat (length (filter is_alive rows)) :: rat) \<le> of_nat (length rows)"
    using length_filter_le[of is_alive rows] by (simp only: of_nat_le_iff)
  ultimately show ?thesis by (simp add: r(2) divide_le_eq)
qed

lemma sum_list_range:
  fixes xs :: "rat list"
  assumes "\<And>x. x \<in> set xs \<Longrightarrow> 0 \<le> x \<and> x \<le> 100"
  shows "0 \<le> sum_list xs \<and> sum_list xs \<le> 100 * of_nat (length xs)"
  using assms
proof (induction xs)
  case (Cons x xs)
  then have "0 \<le> sum_list xs \<and> sum_list xs \<le> 100 * of_nat (length xs)" "0 \<le> x" "x \<le> 100" by simp_all
  then show ?case by (simp add: algebra_simps)
qed simp

lemma average_range:
  fixes xs :: "rat list"
  assumes "\<And>x. x \<in> set xs \<Longrightarrow> 0 \<le> x \<and> x \<le> 100" "xs \<noteq> []"
  shows "0 \<le> sum_list xs / of_nat (length xs) \<and> sum_list xs / of_nat (length xs) \<le> 100"
proof -
  have "0 < (of_nat (length xs) :: rat)" using assms(2) by simp
  with sum_list_range[of xs] assms(1) show ?thesis by (simp add: divide_le_eq)
qed

lemma panel_uptime_range:
  assumes "peer_panel_of g now p = Inr q" "map_of (pp_uptime q) k = Some (Some x)"
  shows "0 \<le> x \<and> x \<le> 100"
proof -
  obtain n where "pp_uptime q = panel_windows g now n"
    using assms(1) by (auto simp: peer_panel_of_def Let_def rbind_Inr_conv)
  with assms(2) obtain w where "uptime_percent (eg_history g) now n w = Some x"
    by (auto simp: panel_windows_def split: if_splits)
  then show ?thesis by (simp add: uptime_percent_def percent_alive_range)
qed

lemma build_snapshot_Inr:
  assumes "build_snapshot g now = Inr s"
  shows "rmap (peer_panel_of g now) (get_device_states g) = Inr (dsn_peers s)"
    "dsn_targets s = length (get_device_states g)"
    "dsn_alive s = length [d \<leftarrow> get_device_states g. ps_status d = ALIVE]"
    "dsn_dead s = length [d \<leftarrow> get_device_states g. ps_status d = DEAD]"
    "dsn_unknown s = length [d \<leftarrow> get_device_states g. ps_status d = UNKNOWN]"
    "dsn_maintenance s = length (filter pp_maint (dsn_peers s))"
    "dsn_peers_total s = length [p \<leftarrow> tm_store (eg_trust g). tp_revoked p = None]"
    "dsn_peers_revoked s = length [p \<leftarrow> tm_store (eg_trust g). tp_revoked p \<noteq> None]"
    "dsn_avg_uptime s = average_uptime (dsn_peers s)"
    "\<exists>recent. rmap (recent_event now) (dsn_events s) = Inr recent \<and> dsn_events_24h s = length (filter id recent)"
    "length (dsn_events s) \<le> EVENTS_FEED_LIMIT"
  using assms
  by (auto simp: build_snapshot_def Let_def rbind_Inr_conv dest: rmap_length)

lemma statuses_partition:
  "length [d \<leftarrow> ds. ps_status d = ALIVE] + length [d \<leftarrow> ds. ps_status d = DEAD]
   + length [d \<leftarrow> ds. ps_status d = UNKNOWN] + length [d \<leftarrow> ds. ps_status d = UNREACHABLE] = length ds"
proof (induction ds)
  case (Cons d ds)
  then show ?case by (cases "ps_status d") auto
qed simp



text \<open>
  The cache never serves a snapshot older than one second of the monotonic clock: every answer is
  the current state's, or one computed less than a second before.
\<close>

theorem snapshot_cache_fresh:
  assumes "cached_snapshot clk now g c = (c', Inr s)"
  shows "build_snapshot g now = Inr s \<and> c' = Some (clk, s)
    \<or> (\<exists>t. c = Some (t, s) \<and> c' = c \<and> clk - t < 1000000)"
  using assms by (auto simp: cached_snapshot_def split: option.splits if_splits sum.splits)

end
