(* ===== verification/Identity.thy ===== *)
theory Identity
  imports Framing Trust
begin

text \<open>
  The sealed identity (src/identity.py): the ed25519 seed encrypted under a key derived from the
  password, its metadata file, and the life of the pair: creation, sealing a raw key, unlocking,
  changing the password. Each file is replaced atomically; the two are written one after the
  other, and either write may fail (or the process may stop between them).
\<close>

section \<open>Hex text\<close>

text \<open>\<open>bytes.hex\<close> and \<open>bytes.fromhex\<close> (which also takes blanks between bytes and upper
  case).\<close>

definition hex_digit :: "nat \<Rightarrow> char" where
  "hex_digit n = ''0123456789abcdef'' ! (n mod 16)"

definition hex_of :: "bytes \<Rightarrow> string" where
  "hex_of bs = concat (map (\<lambda>b. [hex_digit (unat b div 16), hex_digit (unat b)]) bs)"

definition hex_value :: "char \<Rightarrow> nat option" where
  "hex_value c =
     (let n = of_char c :: nat in
      if 48 \<le> n \<and> n \<le> 57 then Some (n - 48)
      else if 97 \<le> n \<and> n \<le> 102 then Some (n - 87)
      else if 65 \<le> n \<and> n \<le> 70 then Some (n - 55)
      else None)"

fun from_hex :: "string \<Rightarrow> bytes res" where
  "from_hex [] = Inr []"
| "from_hex (c # cs) =
     (if py_space c then from_hex cs
      else case cs of
        [] \<Rightarrow> Inl (ValueError ''non-hexadecimal number'')
      | d # ds \<Rightarrow>
          (case (hex_value c, hex_value d) of
             (Some h, Some l) \<Rightarrow> rbind (from_hex ds) (\<lambda>bs. Inr (word_of_nat (16 * h + l) # bs))
           | _ \<Rightarrow> Inl (ValueError ''non-hexadecimal number'')))"

section \<open>Files and parameters\<close>

definition SECRET_KEY_LENGTH :: nat where "SECRET_KEY_LENGTH = 32"
definition MIN_PASSWORD_LENGTH :: nat where "MIN_PASSWORD_LENGTH = 12"
definition ARGON2_COSTS :: "nat \<times> nat \<times> nat" where "ARGON2_COSTS = (3, 65536, 4)"

record id_meta =
  im_version :: int
  im_node_id :: string
  im_salt :: string
  im_costs :: "nat \<times> nat \<times> nat"

text \<open>A metadata file validates or not; the directory holds the two files.\<close>

datatype meta_file = MetaOk id_meta | MetaInvalid

record id_dir =
  id_key :: "bytes option"
  id_metafile :: "meta_file option"

text \<open>
  argon2id and NaCl are parameters: the derived key of a password, salt and costs; the
  encryption under a nonce; the decryption, which fails on a wrong key; and the node id of a seed.
\<close>

record sealing =
  sl_kdf :: "string \<Rightarrow> bytes \<Rightarrow> nat \<times> nat \<times> nat \<Rightarrow> bytes"
  sl_encrypt :: "bytes \<Rightarrow> bytes \<Rightarrow> bytes \<Rightarrow> bytes"
  sl_decrypt :: "bytes \<Rightarrow> bytes \<Rightarrow> bytes option"
  sl_node_id :: "bytes \<Rightarrow> string"

text \<open>What one sealing draws and how its two writes end.\<close>

record seal_env =
  se_salt :: bytes
  se_nonce :: bytes
  se_key_ok :: bool
  se_meta_ok :: bool

section \<open>Operations\<close>

text \<open>\<open>_atomic_write_bytes\<close>: the new contents, or the old ones and the exception.\<close>

definition atomic_write :: "bool \<Rightarrow> 'a option \<Rightarrow> 'a \<Rightarrow> 'a option \<times> unit res" where
  "atomic_write ok old new = (if ok then (Some new, Inr ()) else (old, Inl (OSError ''write failed'')))"

definition seal_identity ::
  "sealing \<Rightarrow> seal_env \<Rightarrow> bytes \<Rightarrow> string \<Rightarrow> id_dir \<Rightarrow> id_dir \<times> id_meta res" where
  "seal_identity S v seed password d =
     (let meta = \<lparr>im_version = 1, im_node_id = sl_node_id S seed, im_salt = hex_of (se_salt v),
                  im_costs = ARGON2_COSTS\<rparr>;
          kek = sl_kdf S password (se_salt v) ARGON2_COSTS;
          (key, r1) = atomic_write (se_key_ok v) (id_key d) (sl_encrypt S kek (se_nonce v) seed);
          d1 = d\<lparr>id_key := key\<rparr> in
      case r1 of
        Inl e \<Rightarrow> (d1, Inl e)
      | Inr _ \<Rightarrow>
          (case atomic_write (se_meta_ok v) (id_metafile d1) (MetaOk meta) of
             (mf, Inl e) \<Rightarrow> (d1\<lparr>id_metafile := mf\<rparr>, Inl e)
           | (mf, Inr _) \<Rightarrow> (d1\<lparr>id_metafile := mf\<rparr>, Inr meta)))"

definition is_sealed :: "id_dir \<Rightarrow> bool" where
  "is_sealed d \<longleftrightarrow> id_key d \<noteq> None \<and> id_metafile d \<noteq> None"

definition is_raw :: "id_dir \<Rightarrow> bool" where
  "is_raw d =
     (case (id_metafile d, id_key d) of
        (None, Some k) \<Rightarrow> length k = SECRET_KEY_LENGTH
      | _ \<Rightarrow> False)"

definition load_meta :: "meta_file \<Rightarrow> id_meta res" where
  "load_meta f = (case f of MetaOk m \<Rightarrow> Inr m | MetaInvalid \<Rightarrow> Inl (ValueError ''secret.meta''))"

definition init_sealed_identity ::
  "sealing \<Rightarrow> seal_env \<Rightarrow> bytes \<Rightarrow> string \<Rightarrow> id_dir \<Rightarrow> id_dir \<times> (bytes \<times> id_meta) res" where
  "init_sealed_identity S v seed password d =
     (if length password < MIN_PASSWORD_LENGTH then (d, Inl (ValueError ''Password too short''))
      else case seal_identity S v seed password d of
             (d', r) \<Rightarrow> (d', rbind r (\<lambda>m. Inr (seed, m))))"

definition seal_existing_identity ::
  "sealing \<Rightarrow> seal_env \<Rightarrow> string \<Rightarrow> id_dir \<Rightarrow> id_dir \<times> (bytes \<times> id_meta) res" where
  "seal_existing_identity S v password d =
     (if length password < MIN_PASSWORD_LENGTH then (d, Inl (ValueError ''Password too short''))
      else case id_key d of
        None \<Rightarrow> (d, Inl (FileNotFoundError ''secret.key''))
      | Some raw \<Rightarrow>
          if length raw \<noteq> SECRET_KEY_LENGTH
          then (d, Inl (ValueError ''secret.key is not an unsealed ed25519 seed''))
          else (case seal_identity S v raw password d of
                  (d', r) \<Rightarrow> (d', rbind r (\<lambda>m. Inr (raw, m)))))"

definition unlock_identity :: "sealing \<Rightarrow> string \<Rightarrow> id_dir \<Rightarrow> (bytes \<times> id_meta) res" where
  "unlock_identity S password d =
     (case id_key d of
        None \<Rightarrow> Inl (FileNotFoundError ''Identity not found'')
      | Some ct \<Rightarrow>
     (case id_metafile d of
        None \<Rightarrow> Inl (FileNotFoundError ''secret.meta missing'')
      | Some f \<Rightarrow>
          rbind (load_meta f) (\<lambda>m.
          rbind (from_hex (im_salt m)) (\<lambda>salt.
            case sl_decrypt S (sl_kdf S password salt (im_costs m)) ct of
              None \<Rightarrow> Inl (ValueError ''wrong password or corrupted secret.key'')
            | Some seed \<Rightarrow>
                if length seed \<noteq> SECRET_KEY_LENGTH then Inl (ValueError ''decrypted seed has the wrong length'')
                else if sl_node_id S seed \<noteq> im_node_id m
                then Inl (ValueError ''secret.key or secret.meta has been tampered with'')
                else Inr (seed, m)))))"

definition reset_password ::
  "sealing \<Rightarrow> seal_env \<Rightarrow> string \<Rightarrow> string \<Rightarrow> id_dir \<Rightarrow> id_dir \<times> id_meta res" where
  "reset_password S v old_password new_password d =
     (if length new_password < MIN_PASSWORD_LENGTH then (d, Inl (ValueError ''New password too short''))
      else case unlock_identity S old_password d of
        Inl e \<Rightarrow> (d, Inl e)
      | Inr (seed, _) \<Rightarrow> seal_identity S v seed new_password d)"

text \<open>
  \<open>MonitorEngine.verify_identity_password\<close>: gates the sensitive mutations. Other exceptions
  than the two caught pass through.
\<close>

definition verify_identity_password :: "sealing \<Rightarrow> id_dir option \<Rightarrow> string \<Rightarrow> bool res" where
  "verify_identity_password S d password =
     (if password = [] then Inr False
      else case d of
        None \<Rightarrow> Inr False
      | Some dir \<Rightarrow>
          (case unlock_identity S password dir of
             Inr _ \<Rightarrow> Inr True
           | Inl (ValueError _) \<Rightarrow> Inr False
           | Inl (FileNotFoundError _) \<Rightarrow> Inr False
           | Inl e \<Rightarrow> Inl e))"

section \<open>Hex round trip\<close>

lemma hex_digits_table:
  "list_all (\<lambda>n. hex_value (hex_digit n) = Some n \<and> \<not> py_space (hex_digit n)) [0..<16]"
  by code_simp

lemma hex_digit_table: "n < 16 \<Longrightarrow> hex_value (hex_digit n) = Some n \<and> \<not> py_space (hex_digit n)"
  using hex_digits_table by (simp only: list_all_iff set_upt) simp

lemma hex_digit_mod: "hex_digit n = hex_digit (n mod 16)"
  by (simp add: hex_digit_def)

lemma hex_digit_value: "hex_value (hex_digit n) = Some (n mod 16)"
  by (subst hex_digit_mod) (simp add: hex_digit_table)

lemma hex_digit_no_space: "\<not> py_space (hex_digit n)"
  by (subst hex_digit_mod) (simp add: hex_digit_table)

lemma from_hex_hex_of: "from_hex (hex_of bs) = Inr bs"
proof (induction bs)
  case (Cons b bs)
  have "unat b < 256" using unsigned_less[of b, where ?'a = nat] by simp
  then have "unat b div 16 mod 16 = unat b div 16" by simp
  moreover have "16 * (unat b div 16) + unat b mod 16 = unat b" by (rule mult_div_mod_eq)
  ultimately show ?case
    using Cons by (simp add: hex_of_def hex_digit_value hex_digit_no_space)
qed (simp add: hex_of_def)

section \<open>Properties\<close>

text \<open>
  The documented behaviour of the two libraries: decryption inverts encryption under the same
  key and fails under another one, and the derived key determines password and salt.
\<close>

definition good_sealing :: "sealing \<Rightarrow> bool" where
  "good_sealing S \<longleftrightarrow>
     (\<forall>k n m. sl_decrypt S k (sl_encrypt S k n m) = Some m)
     \<and> (\<forall>k k' n m. k \<noteq> k' \<longrightarrow> sl_decrypt S k' (sl_encrypt S k n m) = None)
     \<and> (\<forall>p p' s s' c c'. sl_kdf S p s c = sl_kdf S p' s' c' \<longrightarrow> p = p' \<and> s = s')"

lemma sl_same: "good_sealing S \<Longrightarrow> sl_decrypt S k (sl_encrypt S k n m) = Some m"
  by (simp add: good_sealing_def)

lemma sl_other: "good_sealing S \<Longrightarrow> k \<noteq> k' \<Longrightarrow> sl_decrypt S k' (sl_encrypt S k n m) = None"
  by (simp add: good_sealing_def)

lemma sl_keys: "good_sealing S \<Longrightarrow> sl_kdf S p s c = sl_kdf S p' s' c' \<Longrightarrow> p = p' \<and> s = s'"
  unfolding good_sealing_def by blast

lemma seal_identity_cases:
  obtains (key_failed) "\<not> se_key_ok v" "seal_identity S v seed pw d = (d, Inl (OSError ''write failed''))"
  | (meta_failed) "se_key_ok v" "\<not> se_meta_ok v" "seal_identity S v seed pw d =
      (d\<lparr>id_key := Some (sl_encrypt S (sl_kdf S pw (se_salt v) ARGON2_COSTS) (se_nonce v) seed)\<rparr>,
       Inl (OSError ''write failed''))"
  | (sealed) m where "se_key_ok v" "se_meta_ok v"
      "m = \<lparr>im_version = 1, im_node_id = sl_node_id S seed, im_salt = hex_of (se_salt v), im_costs = ARGON2_COSTS\<rparr>"
      "seal_identity S v seed pw d =
        (\<lparr>id_key = Some (sl_encrypt S (sl_kdf S pw (se_salt v) ARGON2_COSTS) (se_nonce v) seed),
          id_metafile = Some (MetaOk m)\<rparr>, Inr m)"
proof -
  have "d\<lparr>id_key := id_key d\<rparr> = d" by simp
  moreover have "d\<lparr>id_key := k, id_metafile := f\<rparr> = \<lparr>id_key = k, id_metafile = f\<rparr>" for k f
    by (cases d) simp
  ultimately show thesis
    using that by (cases "se_key_ok v"; cases "se_meta_ok v")
      (simp_all add: seal_identity_def atomic_write_def Let_def)
qed

lemma unlock_sealed:
  assumes "good_sealing S" "length seed = SECRET_KEY_LENGTH"
    and "m = \<lparr>im_version = 1, im_node_id = sl_node_id S seed, im_salt = hex_of salt, im_costs = ARGON2_COSTS\<rparr>"
  shows "unlock_identity S p \<lparr>id_key = Some (sl_encrypt S (sl_kdf S pw salt ARGON2_COSTS) nonce seed),
      id_metafile = Some (MetaOk m)\<rparr> =
    (if p = pw then Inr (seed, m) else Inl (ValueError ''wrong password or corrupted secret.key''))"
proof (cases "p = pw")
  case True
  with assms show ?thesis by (simp add: unlock_identity_def load_meta_def from_hex_hex_of sl_same)
next
  case False
  then have "sl_kdf S pw salt ARGON2_COSTS \<noteq> sl_kdf S p salt ARGON2_COSTS"
    using sl_keys[OF assms(1)] by blast
  with assms False show ?thesis by (simp add: unlock_identity_def load_meta_def from_hex_hex_of sl_other)
qed

text \<open>
  C10: A created identity opens with its password and with no other: unlocking gives back the very
  seed, and the public node id is that seed's.
\<close>

theorem unlock_iff_password:
  assumes "good_sealing S" and "length seed = SECRET_KEY_LENGTH"
    and "init_sealed_identity S v seed pw d = (d', Inr (seed', m))"
  shows "seed' = seed \<and> im_node_id m = sl_node_id S seed \<and> is_sealed d'
    \<and> unlock_identity S p d' =
        (if p = pw then Inr (seed, m) else Inl (ValueError ''wrong password or corrupted secret.key''))
    \<and> verify_identity_password S (Some d') p = Inr (p = pw)"
proof -
  have len: "\<not> length pw < MIN_PASSWORD_LENGTH" and seal: "seal_identity S v seed pw d = (d', Inr m)"
      and seed: "seed' = seed"
    using assms(3) by (auto simp: init_sealed_identity_def rbind_Inr_conv split: if_splits prod.splits)
  then have pw: "pw \<noteq> []" by (auto simp: MIN_PASSWORD_LENGTH_def)
  from seal obtain
    d': "d' = \<lparr>id_key = Some (sl_encrypt S (sl_kdf S pw (se_salt v) ARGON2_COSTS) (se_nonce v) seed),
          id_metafile = Some (MetaOk m)\<rparr>"
    and m: "m = \<lparr>im_version = 1, im_node_id = sl_node_id S seed, im_salt = hex_of (se_salt v), im_costs = ARGON2_COSTS\<rparr>"
  proof (cases rule: seal_identity_cases[of v S seed pw d])
    case (sealed m1)
    have eq: "m1 = m" and dir: "d' = \<lparr>id_key = Some (sl_encrypt S (sl_kdf S pw (se_salt v) ARGON2_COSTS) (se_nonce v) seed),
          id_metafile = Some (MetaOk m1)\<rparr>"
      using seal sealed(4) by auto
    show ?thesis by (rule that) (use dir sealed(3) in \<open>simp_all only: eq\<close>)
  qed (use seal in simp_all)
  have un: "unlock_identity S p d' =
      (if p = pw then Inr (seed, m) else Inl (ValueError ''wrong password or corrupted secret.key''))"
    unfolding d' by (rule unlock_sealed[OF assms(1,2) m])
  have "verify_identity_password S (Some d') p = Inr (p = pw)"
    using pw by (cases "p = []") (simp_all add: verify_identity_password_def un)
  moreover have "is_sealed d'" by (simp add: d' is_sealed_def)
  moreover have "im_node_id m = sl_node_id S seed" by (subst m) simp
  ultimately show ?thesis using seed un by blast
qed

text \<open>
  Changing the password keeps the identity: afterwards the new password opens the same seed and
  the old one does not. A refused or failed change leaves the directory as it was, unless it is
  the second write that fails.
\<close>

theorem reset_password_keeps_identity:
  assumes "good_sealing S" and "unlock_identity S old d = Inr (seed, m)"
    and "reset_password S v old new d = (d', r)"
  shows "case r of
      Inr m' \<Rightarrow> unlock_identity S new d' = Inr (seed, m') \<and> im_node_id m' = im_node_id m
        \<and> (old \<noteq> new \<longrightarrow> \<not> is_ok (unlock_identity S old d'))
    | Inl _ \<Rightarrow> d' = d \<or> (se_key_ok v \<and> \<not> se_meta_ok v)"
proof (cases "length new < MIN_PASSWORD_LENGTH")
  case True
  with assms(3) show ?thesis by (auto simp: reset_password_def)
next
  case False
  then have seal: "seal_identity S v seed new d = (d', r)" using assms(2,3) by (simp add: reset_password_def)
  have seed: "length seed = SECRET_KEY_LENGTH" "sl_node_id S seed = im_node_id m"
    using assms(2) by (auto simp: unlock_identity_def rbind_Inr_conv split: option.splits if_splits)
  show ?thesis
  proof (cases rule: seal_identity_cases[of v S seed new d])
    case (sealed m')
    have d': "d' = \<lparr>id_key = Some (sl_encrypt S (sl_kdf S new (se_salt v) ARGON2_COSTS) (se_nonce v) seed),
          id_metafile = Some (MetaOk m')\<rparr>" "r = Inr m'"
      using seal sealed(4) by simp_all
    have "unlock_identity S p d' =
        (if p = new then Inr (seed, m') else Inl (ValueError ''wrong password or corrupted secret.key''))" for p
      unfolding d'(1) by (rule unlock_sealed[OF assms(1) seed(1) sealed(3)])
    then show ?thesis using d'(2) sealed(3) seed(2) by auto
  qed (use seal in auto)
qed

text \<open>
  C40: When the process stops between the two writes, the identity is gone: the directory looks
  sealed, and neither the old nor the new nor any other password opens it.
\<close>

theorem reset_crash_loses_identity:
  assumes "good_sealing S" and "unlock_identity S old d = Inr (seed, m)"
    and "MIN_PASSWORD_LENGTH \<le> length new" and "se_key_ok v" and "\<not> se_meta_ok v"
    and "from_hex (im_salt m) \<noteq> Inr (se_salt v)"
  shows "is_sealed (fst (reset_password S v old new d))
    \<and> \<not> is_ok (unlock_identity S p (fst (reset_password S v old new d)))"
proof -
  let ?ct = "sl_encrypt S (sl_kdf S new (se_salt v) ARGON2_COSTS) (se_nonce v) seed"
  have d': "fst (reset_password S v old new d) = d\<lparr>id_key := Some ?ct\<rparr>"
    using assms(2-5)
    by (cases rule: seal_identity_cases[of v S seed new d]) (simp_all add: reset_password_def)
  obtain salt where md: "id_metafile d = Some (MetaOk m)" "from_hex (im_salt m) = Inr salt"
    using assms(2)
    by (auto simp: unlock_identity_def rbind_Inr_conv load_meta_def split: option.splits if_splits meta_file.splits)
  have "sl_kdf S new (se_salt v) ARGON2_COSTS \<noteq> sl_kdf S p salt (im_costs m)"
  proof
    assume "sl_kdf S new (se_salt v) ARGON2_COSTS = sl_kdf S p salt (im_costs m)"
    from sl_keys[OF assms(1) this] show False using assms(6) md(2) by simp
  qed
  then have "unlock_identity S p (d\<lparr>id_key := Some ?ct\<rparr>) = Inl (ValueError ''wrong password or corrupted secret.key'')"
    by (simp add: unlock_identity_def md load_meta_def sl_other[OF assms(1)])
  then show ?thesis by (simp add: d' is_sealed_def md)
qed

section \<open>Witnesses\<close>

text \<open>A sealing for which the laws hold: the key is written before the plain text.\<close>

definition self_delimited :: "bytes \<Rightarrow> bytes" where
  "self_delimited xs = replicate (length xs) 1 @ 0 # xs"

lemma self_delimited_inj: "self_delimited xs @ r = self_delimited ys @ t \<Longrightarrow> xs = ys \<and> r = t"
proof -
  assume e: "self_delimited xs @ r = self_delimited ys @ t"
  have tw: "takeWhile (\<lambda>b. b = 1) (self_delimited zs @ u) = replicate (length zs) 1" for zs u
    by (simp add: self_delimited_def takeWhile_append)
  have "length xs = length ys" using arg_cong[OF e, of "takeWhile (\<lambda>b. b = 1)"] unfolding tw by simp
  then show ?thesis using e by (simp add: self_delimited_def)
qed

definition char_byte :: "char \<Rightarrow> 8 word" where
  "char_byte c = word_of_nat (of_char c)"

lemma char_byte_inj: "char_byte c = char_byte d \<Longrightarrow> c = d"
proof -
  assume "char_byte c = char_byte d"
  then have "unat (char_byte c) = unat (char_byte d)" by simp
  moreover have "unat (char_byte x) = of_char x" for x
    using of_char_mod_256[of x, where ?'a = nat] by (simp add: char_byte_def unat_of_nat)
  ultimately show ?thesis by simp
qed

definition demo_sealing :: sealing where
  "demo_sealing =
     \<lparr>sl_kdf = (\<lambda>p s c. self_delimited (map char_byte p) @ s),
      sl_encrypt = (\<lambda>k n m. self_delimited k @ m),
      sl_decrypt = (\<lambda>k ct. if prefix (self_delimited k) ct then Some (drop (length (self_delimited k)) ct) else None),
      sl_node_id = (\<lambda>seed. hex_of seed)\<rparr>"

lemma demo_sealing_good: "good_sealing demo_sealing"
proof -
  have "xs = ys" if "map char_byte xs = map char_byte ys" for xs ys
    by (rule list.inj_map_strong[OF _ that]) (rule char_byte_inj)
  then show ?thesis
    by (auto simp: good_sealing_def demo_sealing_def prefix_def dest: self_delimited_inj)
qed

definition demo_seal :: "bool \<Rightarrow> 8 word \<Rightarrow> seal_env" where
  "demo_seal ok b = \<lparr>se_salt = [b], se_nonce = [], se_key_ok = True, se_meta_ok = ok\<rparr>"

definition demo_seed :: bytes where
  "demo_seed = replicate 32 7"

definition demo_id_dir :: id_dir where
  "demo_id_dir = fst (init_sealed_identity demo_sealing (demo_seal True 1) demo_seed ''correct horse''
     \<lparr>id_key = None, id_metafile = None\<rparr>)"

definition demo_meta :: id_meta where
  "demo_meta = \<lparr>im_version = 1, im_node_id = hex_of demo_seed, im_salt = hex_of [1], im_costs = ARGON2_COSTS\<rparr>"

lemma demo_seed_length: "length demo_seed = SECRET_KEY_LENGTH"
  by (simp add: demo_seed_def SECRET_KEY_LENGTH_def)

lemma demo_init: "init_sealed_identity demo_sealing (demo_seal True 1) demo_seed ''correct horse''
     \<lparr>id_key = None, id_metafile = None\<rparr> = (demo_id_dir, Inr (demo_seed, demo_meta))"
  by (simp add: demo_id_dir_def init_sealed_identity_def MIN_PASSWORD_LENGTH_def seal_identity_def Let_def
      atomic_write_def demo_seal_def demo_meta_def demo_sealing_def)

lemma demo_unlock: "unlock_identity demo_sealing ''correct horse'' demo_id_dir = Inr (demo_seed, demo_meta)"
proof -
  have "demo_id_dir = \<lparr>id_key = Some (sl_encrypt demo_sealing (sl_kdf demo_sealing ''correct horse'' [1] ARGON2_COSTS) [] demo_seed),
      id_metafile = Some (MetaOk demo_meta)\<rparr>"
    by (simp add: demo_id_dir_def init_sealed_identity_def MIN_PASSWORD_LENGTH_def seal_identity_def Let_def
      atomic_write_def demo_seal_def demo_meta_def demo_sealing_def)
  then have dir: "demo_id_dir = \<lparr>id_key = Some (sl_encrypt demo_sealing (sl_kdf demo_sealing ''correct horse'' [1] ARGON2_COSTS) [] demo_seed),
      id_metafile = Some (MetaOk demo_meta)\<rparr>" .
  have "demo_meta = \<lparr>im_version = 1, im_node_id = sl_node_id demo_sealing demo_seed, im_salt = hex_of [1], im_costs = ARGON2_COSTS\<rparr>"
    by (simp add: demo_meta_def demo_sealing_def)
  from unlock_sealed[OF demo_sealing_good demo_seed_length this, of "''correct horse''" "''correct horse''" "[]"]
  show ?thesis unfolding dir by simp
qed

theorem unlock_iff_password_witness:
  "unlock_identity demo_sealing ''wrong horse'' demo_id_dir = Inl (ValueError ''wrong password or corrupted secret.key'')
   \<and> verify_identity_password demo_sealing (Some demo_id_dir) ''correct horse'' = Inr True"
  using unlock_iff_password[OF demo_sealing_good demo_seed_length demo_init, of "''wrong horse''"]
    unlock_iff_password[OF demo_sealing_good demo_seed_length demo_init, of "''correct horse''"]
  by simp

theorem reset_password_keeps_identity_witness:
  "\<exists>d' m'. reset_password demo_sealing (demo_seal True 2) ''correct horse'' ''battery staple'' demo_id_dir = (d', Inr m')
     \<and> unlock_identity demo_sealing ''battery staple'' d' = Inr (demo_seed, m')"
proof -
  let ?R = "reset_password demo_sealing (demo_seal True 2) ''correct horse'' ''battery staple'' demo_id_dir"
  obtain m' where r: "?R = (fst ?R, Inr m')"
    by (simp add: reset_password_def MIN_PASSWORD_LENGTH_def demo_unlock seal_identity_def atomic_write_def
        demo_seal_def Let_def)
  from reset_password_keeps_identity[OF demo_sealing_good demo_unlock r] r show ?thesis by auto
qed

theorem reset_crash_loses_identity_witness:
  "is_sealed (fst (reset_password demo_sealing (demo_seal False 2) ''correct horse'' ''battery staple'' demo_id_dir))
   \<and> \<not> is_ok (unlock_identity demo_sealing ''battery staple''
        (fst (reset_password demo_sealing (demo_seal False 2) ''correct horse'' ''battery staple'' demo_id_dir)))"
  by (rule reset_crash_loses_identity[OF demo_sealing_good demo_unlock])
    (simp_all add: MIN_PASSWORD_LENGTH_def demo_seal_def demo_meta_def from_hex_hex_of)

end
