(* ===== verification/Controlsock.thy ===== *)
theory Controlsock
  imports Statuspage Identity
begin

text \<open>
  The local control socket (src/controlsock.py): who may connect, the routes, and for each route
  the call into the engine and the answer. A request carries the parsed path, the first \<open>tag\<close> of
  the query string and the body; an answer is a status code and what is sent back.
\<close>

datatype http_method = GET | POST | PUT | DELETE

text \<open>An absent body reads as an empty object; a body that is no JSON raises \<open>ValueError\<close>.\<close>

record control_request =
  cr_uid :: "int option"
  cr_method :: http_method
  cr_path :: string
  cr_query_tag :: "string option"
  cr_body :: "json res"

text \<open>
  What the handler finds around it: the daemon's user, the sealed identity, the outcome of the
  log and cache writes, the clock, iroh's key check, and the answers of the network.
\<close>

record control_env =
  ce_euid :: int
  ce_crypto :: crypto
  ce_io :: io_env
  ce_key_ok :: "node_id \<Rightarrow> bool"
  ce_now :: instant
  ce_clock :: int
  ce_sealing :: sealing
  ce_identity :: "id_dir option"
  ce_text :: "datetime \<Rightarrow> string"
  ce_merge :: merge_env
  ce_sync :: "node_id \<Rightarrow> datetime \<Rightarrow> json res"
  ce_fetch :: "string \<Rightarrow> json res"

datatype control_body =
    Ok
  | OkNode node_id
  | IdentityView node_id
  | Snapshot snapshot
  | Peers "trusted_peer list"
  | Peer trusted_peer
  | Synced merge_counts
  | Json json
  | Failure string

type_synonym control_answer = "int \<times> control_body"

record control_state =
  cs_engine :: engine
  cs_cache :: snap_cache

section \<open>Untyped arguments\<close>

text \<open>
  A body's fields arrive as JSON. A text that reads as a time is a plain string for the fields
  that want text.
\<close>

definition plain :: "control_env \<Rightarrow> json \<Rightarrow> json" where
  "plain env v = (case v of JTime d \<Rightarrow> JStr (ce_text env d) | _ \<Rightarrow> v)"

lemma plain_simps [simp]:
  "plain env (JStr t) = JStr t" "plain env (JInt i) = JInt i" "plain env JNull = JNull"
  by (simp_all add: plain_def)

definition field :: "control_env \<Rightarrow> dict \<Rightarrow> string \<Rightarrow> json" where
  "field env d k = plain env (dget d k)"

definition plain_items :: "control_env \<Rightarrow> json \<Rightarrow> json" where
  "plain_items env v = (case v of JArr xs \<Rightarrow> JArr (map (plain env) xs) | _ \<Rightarrow> plain env v)"

definition grantable :: "json \<Rightarrow> bool" where
  "grantable j \<longleftrightarrow> j \<in> JStr ` set (''*'' # VALID_PROTOCOLS)"

text \<open>
  \<open>PeerTrustManager.add_peer\<close> on the values a request brings: nothing checks that the alias is
  text or that the tags are a list of texts.
\<close>

definition trust_add_untyped ::
  "crypto \<Rightarrow> io_env \<Rightarrow> trust_mgr \<Rightarrow> node_id \<Rightarrow> json \<Rightarrow> json \<Rightarrow> json \<Rightarrow> trust_mgr \<times> bool res" where
  "trust_add_untyped C io m nid alias permissions tags =
     (case (if truthy permissions then py_list permissions else Inr [JStr ''monitor'']) of
        Inl e \<Rightarrow> (m, Inl e)
      | Inr perms \<Rightarrow>
          if \<not> list_all hashable perms then (m, Inl (TypeError ''unhashable type''))
          else if \<not> list_all grantable perms then (m, Inr False)
          else if (\<exists>p. tm_by_nid m nid = Some p \<and> tp_revoked p = None) then (m, Inr False)
          else
            (case (if truthy tags then py_list tags else Inr []) of
               Inl e \<Rightarrow> (m, Inl e)
             | Inr ts \<Rightarrow>
                 commit C io m OP_ADD_PEER
                   ([(''node_id'', JStr nid), (''alias'', alias), (''permissions'', JArr perms)]
                    @ (if truthy tags then [(''tags'', JArr ts)] else []))))"

text \<open>\<open>MonitorEngine.add_peer\<close> and the calls below it.\<close>

definition add_peer_untyped ::
  "control_env \<Rightarrow> engine \<Rightarrow> json \<Rightarrow> json \<Rightarrow> json \<Rightarrow> json \<Rightarrow> engine \<times> api_result" where
  "add_peer_untyped env g nid alias permissions tags =
     (if \<not> truthy nid then (g, Inr (Some ''Node ID cannot be empty''))
      else case nid of
        JStr n \<Rightarrow>
          if \<not> validate_node_id n then (g, Inr (Some BAD_NODE_ID))
          else if n = eg_node_id g then (g, Inr (Some ''Cannot add yourself''))
          else if \<not> ce_key_ok env n then (g, Inr (Some ''Invalid Node ID''))
          else with_trust g (trust_add_untyped (ce_crypto env) (ce_io env) (eg_trust g) n alias permissions tags)
                 ''Peer already trusted (or invalid permissions)''
                 (apply_devices_reload (ce_key_ok env) (ce_now env))
      | _ \<Rightarrow> (g, Inl (TypeError ''expected string'')))"

definition update_permissions_untyped :: "control_env \<Rightarrow> engine \<Rightarrow> node_id \<Rightarrow> json list \<Rightarrow> engine \<times> api_result" where
  "update_permissions_untyped env g nid perms =
     (if \<not> validate_node_id nid then (g, Inr (Some BAD_NODE_ID))
      else if \<not> list_all hashable perms then (g, Inl (TypeError ''unhashable type''))
      else case rmap as_str perms of
        Inl _ \<Rightarrow> (g, Inr (Some ''Failed to update permissions (peer missing, revoked, or invalid perms)''))
      | Inr ps \<Rightarrow> update_peer_permissions (ce_crypto env) (ce_io env) (ce_key_ok env) (ce_now env) g nid ps)"

definition set_tags_untyped :: "control_env \<Rightarrow> engine \<Rightarrow> node_id \<Rightarrow> json list \<Rightarrow> engine \<times> api_result" where
  "set_tags_untyped env g nid tags =
     (if \<not> validate_node_id nid then (g, Inr (Some BAD_NODE_ID))
      else case rmap as_str tags of
        Inl _ \<Rightarrow> (g, Inl (AttributeError ''strip''))
      | Inr ts \<Rightarrow> set_peer_tags (ce_crypto env) (ce_io env) (ce_key_ok env) (ce_now env) g nid ts)"

definition remove_tag_untyped :: "control_env \<Rightarrow> engine \<Rightarrow> node_id \<Rightarrow> json \<Rightarrow> engine \<times> api_result" where
  "remove_tag_untyped env g nid tag =
     (if \<not> validate_node_id nid then (g, Inr (Some BAD_NODE_ID))
      else case tag of
        JStr t \<Rightarrow> remove_peer_tag (ce_crypto env) (ce_io env) g nid t
      | _ \<Rightarrow> (g, Inl (AttributeError ''strip'')))"

text \<open>\<open>engine.verify_identity_password(body.get("password") or "")\<close>\<close>

definition password_ok :: "control_env \<Rightarrow> dict \<Rightarrow> bool res" where
  "password_ok env body =
     (let p = field env body ''password'' in
      if \<not> truthy p \<or> ce_identity env = None then Inr False
      else case p of
        JStr s \<Rightarrow> verify_identity_password (ce_sealing env) (ce_identity env) s
      | _ \<Rightarrow> Inl (AttributeError ''encode''))"

section \<open>Routes\<close>

text \<open>A route answers, or raises; an exception becomes a 500 in the dispatcher.\<close>

type_synonym routed = "control_state \<times> control_answer res"

definition say :: "control_state \<Rightarrow> int \<Rightarrow> control_body \<Rightarrow> routed" where
  "say s code b = (s, Inr (code, b))"

definition reply :: "control_state \<Rightarrow> engine \<times> api_result \<Rightarrow> int \<Rightarrow> control_body \<Rightarrow> routed" where
  "reply s r code ok =
     (case r of
        (g, Inl e) \<Rightarrow> (s\<lparr>cs_engine := g\<rparr>, Inl e)
      | (g, Inr (Some err)) \<Rightarrow>
          if err = [] then (s\<lparr>cs_engine := g\<rparr>, Inr (code, ok))
          else (s\<lparr>cs_engine := g\<rparr>, Inr (400, Failure err))
      | (g, Inr None) \<Rightarrow> (s\<lparr>cs_engine := g\<rparr>, Inr (code, ok)))"

definition with_body :: "control_state \<Rightarrow> control_request \<Rightarrow> (dict \<Rightarrow> routed) \<Rightarrow> routed" where
  "with_body s q k =
     (case rbind (cr_body q) need_dict of Inl e \<Rightarrow> (s, Inl e) | Inr d \<Rightarrow> k d)"

definition with_password :: "control_env \<Rightarrow> control_state \<Rightarrow> dict \<Rightarrow> routed \<Rightarrow> routed" where
  "with_password env s body k =
     (case password_ok env body of
        Inl e \<Rightarrow> (s, Inl e)
      | Inr ok \<Rightarrow> if ok then k else say s 403 (Failure ''password verification failed''))"

abbreviation not_allowed :: "control_state \<Rightarrow> routed" where
  "not_allowed s \<equiv> say s 405 (Failure ''method not allowed'')"

definition route_collection :: "control_env \<Rightarrow> control_state \<Rightarrow> control_request \<Rightarrow> routed" where
  "route_collection env s q =
     (let g = cs_engine s in
      case cr_method q of
        GET \<Rightarrow> say s 200 (Peers (tm_store (eg_trust g)))
      | POST \<Rightarrow>
          with_body s q (\<lambda>d. with_password env s d
            (let nid = field env d ''node_id'';
                 r = add_peer_untyped env g nid (field env d ''alias'')
                       (plain_items env (py_or (dget d ''permissions'') (JArr [JStr ''monitor''])))
                       (plain_items env (py_or (dget d ''tags'') (JArr []))) in
             reply s r 201 (OkNode (case nid of JStr n \<Rightarrow> n | _ \<Rightarrow> []))))
      | _ \<Rightarrow> not_allowed s)"

definition route_peer :: "control_env \<Rightarrow> control_state \<Rightarrow> control_request \<Rightarrow> node_id \<Rightarrow> routed" where
  "route_peer env s q nid =
     (let g = cs_engine s in
      case cr_method q of
        DELETE \<Rightarrow>
          reply s (revoke_peer (ce_crypto env) (ce_io env) (ce_key_ok env) (ce_now env) g nid) 200 Ok
      | GET \<Rightarrow> (case get_peer (eg_trust g) nid of
                  None \<Rightarrow> say s 404 (Failure ''peer not found'') | Some p \<Rightarrow> say s 200 (Peer p))
      | _ \<Rightarrow> not_allowed s)"

definition route_perms :: "control_env \<Rightarrow> control_state \<Rightarrow> control_request \<Rightarrow> node_id \<Rightarrow> routed" where
  "route_perms env s q nid =
     (if cr_method q \<noteq> PUT then say s 405 (Failure ''use PUT'')
      else with_body s q (\<lambda>d. with_password env s d
        (case dget d ''permissions'' of
           JArr ps \<Rightarrow> reply s (update_permissions_untyped env (cs_engine s) nid (map (plain env) ps)) 200 Ok
         | _ \<Rightarrow> say s 400 (Failure ''permissions must be a list''))))"

definition route_tags :: "control_env \<Rightarrow> control_state \<Rightarrow> control_request \<Rightarrow> node_id \<Rightarrow> routed" where
  "route_tags env s q nid =
     (case cr_method q of
        PUT \<Rightarrow> with_body s q (\<lambda>d.
          case dget d ''tags'' of
            JArr ts \<Rightarrow> reply s (set_tags_untyped env (cs_engine s) nid (map (plain env) ts)) 200 Ok
          | _ \<Rightarrow> say s 400 (Failure ''tags must be a list''))
      | POST \<Rightarrow> with_body s q (\<lambda>d.
          case field env d ''tag'' of
            JStr t \<Rightarrow>
              if t = [] then say s 400 (Failure ''tag must be a non-empty string'')
              else reply s (add_peer_tag (ce_crypto env) (ce_io env) (cs_engine s) nid t) 200 Ok
          | _ \<Rightarrow> say s 400 (Failure ''tag must be a non-empty string''))
      | DELETE \<Rightarrow>
          (case cr_query_tag q of
             Some t \<Rightarrow>
               if t \<noteq> [] then reply s (remove_tag_untyped env (cs_engine s) nid (JStr t)) 200 Ok
               else with_body s q (\<lambda>d.
                 if truthy (field env d ''tag'')
                 then reply s (remove_tag_untyped env (cs_engine s) nid (field env d ''tag'')) 200 Ok
                 else say s 400 (Failure ''tag must be specified''))
           | None \<Rightarrow> with_body s q (\<lambda>d.
               if truthy (field env d ''tag'')
               then reply s (remove_tag_untyped env (cs_engine s) nid (field env d ''tag'')) 200 Ok
               else say s 400 (Failure ''tag must be specified'')))
      | GET \<Rightarrow> (case cr_body q of Inl e \<Rightarrow> (s, Inl e) | Inr _ \<Rightarrow> not_allowed s))"

text \<open>Only the \<open>ValueError\<close> of \<open>fromisoformat\<close> is caught.\<close>

definition route_maint :: "control_env \<Rightarrow> control_state \<Rightarrow> control_request \<Rightarrow> node_id \<Rightarrow> routed" where
  "route_maint env s q nid =
     (case cr_method q of
        PUT \<Rightarrow> with_body s q (\<lambda>d.
          let a = dget d ''start''; b = dget d ''end'' in
          if \<not> truthy a \<or> \<not> truthy b then say s 400 (Failure ''start and end required (ISO 8601)'')
          else (case rbind (fromisoformat a) (\<lambda>x. rbind (fromisoformat b) (\<lambda>y. Inr (x, y))) of
                  Inl (ValueError _) \<Rightarrow> say s 400 (Failure ''invalid timestamp'')
                | Inl e \<Rightarrow> (s, Inl e)
                | Inr (x, y) \<Rightarrow>
                    reply s (set_peer_maintenance (ce_crypto env) (ce_io env) (cs_engine s) nid x y) 200 Ok))
      | DELETE \<Rightarrow> reply s (clear_peer_maintenance (ce_crypto env) (ce_io env) (cs_engine s) nid) 200 Ok
      | _ \<Rightarrow> not_allowed s)"

definition route_sync :: "control_env \<Rightarrow> control_state \<Rightarrow> control_request \<Rightarrow> node_id \<Rightarrow> routed" where
  "route_sync env s q nid =
     (if cr_method q \<noteq> POST then say s 405 (Failure ''use POST'')
      else with_body s q (\<lambda>d.
        let run = (\<lambda>since.
              (case sync_peer (ce_merge env) (ce_key_ok env) (cs_engine s) nid since (ce_sync env nid) (ce_now env) of
                 (g, Inr counts) \<Rightarrow> say (s\<lparr>cs_engine := g\<rparr>) 200 (Synced counts)
               | (g, Inl (AttributeError _)) \<Rightarrow> say (s\<lparr>cs_engine := g\<rparr>) 501 (Failure ''sync_peer not implemented'')
               | (g, Inl _) \<Rightarrow> say (s\<lparr>cs_engine := g\<rparr>) 500 (Failure ''sync failed''))) in
        if \<not> truthy (dget d ''since'') then run None
        else (case fromisoformat (dget d ''since'') of
                Inr t \<Rightarrow> run (Some t)
              | Inl (ValueError _) \<Rightarrow> say s 400 (Failure ''invalid since'')
              | Inl e \<Rightarrow> (s, Inl e))))"

definition route_dashboard :: "control_env \<Rightarrow> control_state \<Rightarrow> control_request \<Rightarrow> node_id \<Rightarrow> routed" where
  "route_dashboard env s q nid =
     (if cr_method q \<noteq> GET then say s 405 (Failure ''use GET'')
      else case ce_fetch env nid of
        Inl _ \<Rightarrow> say s 500 (Failure ''fetch failed'') | Inr j \<Rightarrow> say s 200 (Json j))"

definition route_peers :: "control_env \<Rightarrow> control_state \<Rightarrow> control_request \<Rightarrow> string list \<Rightarrow> routed" where
  "route_peers env s q rest =
     (case rest of
        [] \<Rightarrow> route_collection env s q
      | [nid] \<Rightarrow> route_peer env s q nid
      | nid # sub # _ \<Rightarrow>
          if sub = ''perms'' then route_perms env s q nid
          else if sub = ''tags'' then route_tags env s q nid
          else if sub = ''maint'' then route_maint env s q nid
          else if sub = ''sync'' then route_sync env s q nid
          else if sub = ''dashboard'' then route_dashboard env s q nid
          else say s 404 (Failure ''unknown peer endpoint''))"

text \<open>\<open>path.rstrip("/") or "/"\<close>, then \<open>lstrip("/").split("/")\<close>\<close>

definition rstrip_slash :: "string \<Rightarrow> string" where
  "rstrip_slash p =
     (let q = rev (dropWhile (\<lambda>c. c = CHR ''/'') (rev p)) in if q = [] then ''/'' else q)"

fun split_on :: "char \<Rightarrow> string \<Rightarrow> string list" where
  "split_on c [] = [[]]"
| "split_on c (x # xs) =
     (if x = c then [] # split_on c xs
      else case split_on c xs of [] \<Rightarrow> [[x]] | y # ys \<Rightarrow> (x # y) # ys)"

definition route :: "control_env \<Rightarrow> control_state \<Rightarrow> control_request \<Rightarrow> routed" where
  "route env s q =
     (let path = rstrip_slash (cr_path q);
          parts = split_on (CHR ''/'') (dropWhile (\<lambda>c. c = CHR ''/'') path);
          g = cs_engine s in
      if path = ''/v1/identity'' \<and> cr_method q = GET then say s 200 (IdentityView (eg_node_id g))
      else if path = ''/v1/status'' \<and> cr_method q = GET then
        (case cached_snapshot (ce_clock env) (ce_now env) g (cs_cache s) of
           (c, Inl e) \<Rightarrow> (s\<lparr>cs_cache := c\<rparr>, Inl e)
         | (c, Inr snap) \<Rightarrow> say (s\<lparr>cs_cache := c\<rparr>) 200 (Snapshot snap))
      else if path = ''/v1/reload'' \<and> cr_method q = POST then
        say (s\<lparr>cs_engine := check_reload (ce_crypto env) (io_cache_ok (ce_io env)) (ce_key_ok env) (ce_now env) g\<rparr>) 200 Ok
      else if take 2 parts = [''v1'', ''peers''] then route_peers env s q (drop 2 parts)
      else say s 404 (Failure ''unknown endpoint''))"

definition control_authorized :: "control_env \<Rightarrow> control_request \<Rightarrow> string option" where
  "control_authorized env q =
     (case cr_uid q of
        None \<Rightarrow> Some ''peer credentials unavailable''
      | Some u \<Rightarrow> if u \<noteq> ce_euid env then Some ''peer euid != daemon euid'' else None)"

text \<open>\<open>do_GET\<close>, \<open>do_POST\<close>, \<open>do_PUT\<close> and \<open>do_DELETE\<close>.\<close>

definition control_handle :: "control_env \<Rightarrow> control_state \<Rightarrow> control_request \<Rightarrow> control_state \<times> control_answer" where
  "control_handle env s q =
     (case control_authorized env q of
        Some why \<Rightarrow> (s, (403, Failure why))
      | None \<Rightarrow>
          (case route env s q of
             (s', Inr a) \<Rightarrow> (s', a)
           | (s', Inl e) \<Rightarrow> (s', (500, Failure ''exception''))))"

section \<open>What a request can grant\<close>

definition granted :: "trust_mgr \<Rightarrow> node_id \<Rightarrow> string set" where
  "granted m n =
     (case tm_by_nid m n of
        None \<Rightarrow> {} | Some p \<Rightarrow> if tp_revoked p = None then set (tp_permissions p) else {})"

definition granted_in :: "trusted_peer list \<Rightarrow> node_id \<Rightarrow> string set" where
  "granted_in st n =
     (case find_peer st n of
        None \<Rightarrow> {} | Some p \<Rightarrow> if tp_revoked p = None then set (tp_permissions p) else {})"

definition no_new :: "trust_mgr \<Rightarrow> trust_mgr \<Rightarrow> bool" where
  "no_new m m' \<longleftrightarrow> (\<forall>n. granted m' n \<subseteq> granted m n)"

definition quiet_op :: "trust_op \<Rightarrow> bool" where
  "quiet_op op = (case op of AddPeer _ _ _ _ \<Rightarrow> False | UpdatePermissions _ _ \<Rightarrow> False | _ \<Rightarrow> True)"

lemma granted_view: "tm_ok m \<Longrightarrow> granted m n = granted_in (tm_store m) n"
  by (simp add: granted_def granted_in_def tm_ok_lookup)

lemma on_peer_granted:
  assumes "on_peer st k f = (st', b)"
    and "\<And>p q b. find_peer st k = Some p \<Longrightarrow> f p = (Some q, b) \<Longrightarrow> tp_node_id q = tp_node_id p
        \<and> tp_permissions q = tp_permissions p \<and> (tp_revoked q = None \<longrightarrow> tp_revoked p = None)"
  shows "granted_in st' n \<subseteq> granted_in st n"
  using assms(1)
proof (cases rule: on_peer_cases)
  case (upd p q)
  from assms(2)[OF upd(1,2)] find_peer_mem[OF upd(1)] upd show ?thesis
    by (auto simp: granted_in_def find_peer_upsert)
qed simp

lemma spec_op_quiet:
  assumes "spec_op now st op = Some (st', b)" and "quiet_op op"
  shows "granted_in st' n \<subseteq> granted_in st n"
  using assms
  by (cases op) (auto simp: quiet_op_def split: if_splits sum.splits bool.splits elim!: on_peer_granted[THEN subsetD])

lemma run_op_quiet:
  assumes "tm_ok m" "tl_key (tm_log m) \<noteq> None" "io_good io now" "quiet_op op"
  shows "no_new m (fst (run_op C io m op))"
proof (cases "spec_op now (tm_store m) op")
  case None
  with run_op_refines[OF assms(1-3), of C op] have "fst (run_op C io m op) = m" by force
  then show ?thesis by (simp add: no_new_def)
next
  case (Some sb)
  obtain st' b where sb: "sb = (st', b)" by (cases sb)
  with Some run_op_refines[OF assms(1-3), of C op] obtain m' where
    "run_op C io m op = (m', Inr b)" "tm_ok m'" "tm_store m' = st'" by auto
  with spec_op_quiet[OF Some[unfolded sb] assms(4)] show ?thesis
    by (simp add: no_new_def granted_view assms(1))
qed

lemma with_trust_trust:
  assumes "\<And>g. eg_trust (f g) = eg_trust g"
  shows "eg_trust (fst (with_trust g mr msg f)) = fst mr"
  using assms by (auto simp: with_trust_def split: prod.splits sum.splits bool.splits)

lemma reload_trust [simp]: "eg_trust (apply_devices_reload k now g) = eg_trust g"
  by (simp add: apply_devices_reload_def)

lemma set_device_trust [simp]: "eg_trust (set_device n f g) = eg_trust g"
  by (simp add: set_device_def split: option.splits)

lemma sync_peer_trust: "eg_trust (fst (sync_peer env k g target since answer now)) = eg_trust g"
  by (auto simp: sync_peer_def split: option.splits sum.splits prod.splits)

lemma reply_engine [simp]: "cs_engine (fst (reply s r code ok)) = fst r"
  by (auto simp: reply_def split: prod.splits sum.splits option.splits)

lemma say_state [simp]: "fst (say s code b) = s"
  by (simp add: say_def)

definition has_password :: "control_env \<Rightarrow> control_request \<Rightarrow> bool" where
  "has_password env q \<longleftrightarrow>
     (\<exists>d pw dir. cr_body q = Inr (JObj d) \<and> field env d ''password'' = JStr pw
        \<and> ce_identity env = Some dir \<and> is_ok (unlock_identity (ce_sealing env) pw dir))"

lemma need_dict_Inr: "need_dict j = Inr d \<longleftrightarrow> j = JObj d"
  by (cases j) (auto simp: need_dict_def)

lemma password_ok_has:
  assumes "rbind (cr_body q) need_dict = Inr d" "password_ok env d = Inr True"
  shows "has_password env q"
proof -
  have body: "cr_body q = Inr (JObj d)"
    using assms(1) by (simp add: rbind_Inr_conv need_dict_Inr)
  obtain dir where dir: "ce_identity env = Some dir"
    using assms(2) by (auto simp: password_ok_def Let_def split: if_splits)
  obtain pw where pw: "field env d ''password'' = JStr pw"
    using assms(2) by (cases "field env d ''password''") (auto simp: password_ok_def Let_def split: if_splits)
  have "verify_identity_password (ce_sealing env) (Some dir) pw = Inr True"
    using assms(2) dir pw by (auto simp: password_ok_def Let_def split: if_splits)
  then have "is_ok (unlock_identity (ce_sealing env) pw dir)"
    by (auto simp: verify_identity_password_def is_ok_def split: if_splits sum.splits py_error.splits)
  with body dir pw show ?thesis by (auto simp: has_password_def)
qed

lemma gated_inert:
  assumes "\<not> has_password env q"
  shows "fst (with_body s q (\<lambda>d. with_password env s d (k d))) = s"
proof (cases "rbind (cr_body q) need_dict")
  case (Inr d)
  with assms password_ok_has[OF Inr] have "password_ok env d \<noteq> Inr True" by blast
  then show ?thesis
    using Inr by (cases "password_ok env d") (simp_all add: with_body_def with_password_def)
qed (simp add: with_body_def)

lemma with_body_state:
  assumes "\<And>d. P (fst (k d))" "P s"
  shows "P (fst (with_body s q k))"
  using assms by (auto simp: with_body_def split: sum.splits)

lemma no_new_refl [simp]: "no_new m m"
  by (simp add: no_new_def)

text \<open>The engine calls behind the routes that ask for no password.\<close>

lemma engine_quiet:
  assumes "tm_ok (eg_trust g)" "tl_key (tm_log (eg_trust g)) \<noteq> None" "io_good io now"
  shows "no_new (eg_trust g) (eg_trust (fst (revoke_peer C io k t g n)))"
    "no_new (eg_trust g) (eg_trust (fst (set_peer_tags C io k t g n tags)))"
    "no_new (eg_trust g) (eg_trust (fst (add_peer_tag C io g n tag)))"
    "no_new (eg_trust g) (eg_trust (fst (remove_peer_tag C io g n tag)))"
    "no_new (eg_trust g) (eg_trust (fst (set_peer_maintenance C io g n a b)))"
    "no_new (eg_trust g) (eg_trust (fst (clear_peer_maintenance C io g n)))"
proof -
  note q = run_op_quiet[OF assms, of _ C]
  note defs = with_trust_trust quiet_op_def
  show "no_new (eg_trust g) (eg_trust (fst (revoke_peer C io k t g n)))"
    using q[of "RevokePeer n"] by (simp add: revoke_peer_def defs)
  show "no_new (eg_trust g) (eg_trust (fst (set_peer_tags C io k t g n tags)))"
    using q[of "SetTags n tags"] by (simp add: set_peer_tags_def defs)
  show "no_new (eg_trust g) (eg_trust (fst (add_peer_tag C io g n tag)))"
    using q[of "AddTag n tag"] by (simp add: add_peer_tag_def defs)
  show "no_new (eg_trust g) (eg_trust (fst (remove_peer_tag C io g n tag)))"
    using q[of "RemoveTag n tag"] by (simp add: remove_peer_tag_def defs)
  show "no_new (eg_trust g) (eg_trust (fst (set_peer_maintenance C io g n a b)))"
    using q[of "SetMaintenance n a b"]
    by (auto simp: set_peer_maintenance_def defs split: sum.splits bool.splits)
  show "no_new (eg_trust g) (eg_trust (fst (clear_peer_maintenance C io g n)))"
    using q[of "ClearMaintenance n"] by (simp add: clear_peer_maintenance_def defs)
qed

definition keeps_grants :: "control_state \<Rightarrow> routed \<Rightarrow> bool" where
  "keeps_grants s r \<longleftrightarrow> no_new (eg_trust (cs_engine s)) (eg_trust (cs_engine (fst r)))"

lemma keeps_say [simp]: "keeps_grants s (say s code b)"
  by (simp add: keeps_grants_def)

lemma keeps_raise [simp]: "keeps_grants s (s, r)"
  by (simp add: keeps_grants_def)

lemma keeps_reply:
  "no_new (eg_trust (cs_engine s)) (eg_trust (fst r)) \<Longrightarrow> keeps_grants s (reply s r code ok)"
  by (simp add: keeps_grants_def)

lemma keeps_with_body: "(\<And>d. keeps_grants s (k d)) \<Longrightarrow> keeps_grants s (with_body s q k)"
  by (auto simp: with_body_def split: sum.splits)

lemma keeps_gated:
  "\<not> has_password env q \<Longrightarrow> keeps_grants s (with_body s q (\<lambda>d. with_password env s d (k d)))"
  by (simp add: keeps_grants_def gated_inert)

lemma keeps_tags_untyped:
  assumes "tm_ok (eg_trust (cs_engine s))" "tl_key (tm_log (eg_trust (cs_engine s))) \<noteq> None"
    "io_good (ce_io env) now"
  shows "keeps_grants s (reply s (set_tags_untyped env (cs_engine s) n ts) code ok)"
    "keeps_grants s (reply s (remove_tag_untyped env (cs_engine s) n t) code ok)"
  using engine_quiet[OF assms]
  by (auto simp: set_tags_untyped_def remove_tag_untyped_def intro!: keeps_reply split: sum.splits json.splits)

lemma keeps_sync: "keeps_grants s (route_sync env s q n)"
proof -
  have run: "keeps_grants s
      (case sync_peer (ce_merge env) (ce_key_ok env) (cs_engine s) n since (ce_sync env n) (ce_now env) of
         (g, Inr counts) \<Rightarrow> say (s\<lparr>cs_engine := g\<rparr>) 200 (Synced counts)
       | (g, Inl (AttributeError _)) \<Rightarrow> say (s\<lparr>cs_engine := g\<rparr>) 501 (Failure ''sync_peer not implemented'')
       | (g, Inl _) \<Rightarrow> say (s\<lparr>cs_engine := g\<rparr>) 500 (Failure ''sync failed''))" for since
    using sync_peer_trust[of "ce_merge env" "ce_key_ok env" "cs_engine s" n since "ce_sync env n" "ce_now env"]
    by (auto simp: keeps_grants_def split: prod.splits sum.splits py_error.splits)
  show ?thesis
    unfolding route_sync_def Let_def
    by (auto intro!: keeps_with_body run split: sum.splits py_error.splits)
qed

lemma route_keeps_grants:
  assumes "tm_ok (eg_trust (cs_engine s))" "tl_key (tm_log (eg_trust (cs_engine s))) \<noteq> None"
    "io_good (ce_io env) now" "\<not> has_password env q" "rstrip_slash (cr_path q) \<noteq> ''/v1/reload''"
  shows "keeps_grants s (route env s q)"
proof -
  note quiet = engine_quiet[OF assms(1-3)] and tags = keeps_tags_untyped[OF assms(1-3)]
  have collection: "keeps_grants s (route_collection env s q)"
    using keeps_gated[OF assms(4)] by (auto simp: route_collection_def Let_def split: http_method.splits)
  have peer: "keeps_grants s (route_peer env s q n)" for n
    using quiet by (auto simp: route_peer_def Let_def intro!: keeps_reply split: http_method.splits option.splits)
  have perms: "keeps_grants s (route_perms env s q n)" for n
    using keeps_gated[OF assms(4)] by (simp add: route_perms_def)
  have tag: "keeps_grants s (route_tags env s q n)" for n
    unfolding route_tags_def using quiet tags
    by (auto intro!: keeps_with_body keeps_reply split: http_method.splits json.splits option.splits sum.splits)
  have maint: "keeps_grants s (route_maint env s q n)" for n
    unfolding route_maint_def Let_def using quiet
    by (auto intro!: keeps_with_body keeps_reply split: http_method.splits sum.splits py_error.splits prod.splits)
  have dash: "keeps_grants s (route_dashboard env s q n)" for n
    by (auto simp: route_dashboard_def split: sum.splits)
  have peers: "keeps_grants s (route_peers env s q rest)" for rest
    using collection peer perms tag maint dash keeps_sync
    by (auto simp: route_peers_def split: list.splits)
  show ?thesis
    using assms(5) peers
    by (auto simp: route_def Let_def keeps_grants_def split: prod.splits sum.splits)
qed


text \<open>On texts the untyped call is the typed one.\<close>

lemma list_all_grantable: "list_all grantable (map JStr ps) \<longleftrightarrow> \<not> invalid_permissions ps"
  by (auto simp: grantable_def invalid_permissions_def list_all_iff)

lemma trust_add_untyped_typed:
  "trust_add_untyped C io m n (opt_json a) (str_list ps) (str_list ts) = trust_add_peer C io m n a ps ts"
proof -
  have h: "list_all hashable (map JStr xs)" for xs by (simp add: list_all_iff)
  have one: "list_all grantable [JStr ''monitor''] \<longleftrightarrow> \<not> invalid_permissions [''monitor'']"
      "list_all hashable [JStr ''monitor'']"
    using list_all_grantable[of "[''monitor'']"] by simp_all
  show ?thesis
    by (cases "ps = []"; cases "ts = []")
      (auto simp: trust_add_untyped_def trust_add_peer_def str_list_def Let_def h list_all_grantable one
        simp del: list.pred_inject)
qed

definition demo_id :: node_id where
  "demo_id = replicate 64 (CHR ''a'')"

definition demo_control :: control_env where
  "demo_control = \<lparr>ce_euid = 1000, ce_crypto = demo_crypto, ce_io = demo_io, ce_key_ok = (\<lambda>_. True),
     ce_now = 0, ce_clock = 0, ce_sealing = demo_sealing, ce_identity = Some demo_id_dir,
     ce_text = (\<lambda>_. []), ce_merge = demo_env, ce_sync = (\<lambda>_ _. Inl TimeoutError), ce_fetch = (\<lambda>_. Inl TimeoutError)\<rparr>"

definition demo_control_state :: control_state where
  "demo_control_state = \<lparr>cs_engine = demo_engine\<lparr>eg_trust := demo_mgr\<rparr>, cs_cache = None\<rparr>"

definition demo_request :: "string \<Rightarrow> json \<Rightarrow> control_request" where
  "demo_request pw alias = \<lparr>cr_uid = Some 1000, cr_method = POST, cr_path = ''/v1/peers/'', cr_query_tag = None,
     cr_body = Inr (JObj [(''password'', JStr pw), (''node_id'', JStr demo_id), (''alias'', alias)])\<rparr>"

lemma demo_id_other: "length s \<noteq> 64 \<Longrightarrow> s \<noteq> demo_id"
  by (auto simp: demo_id_def)

lemma demo_id_valid: "validate_node_id demo_id"
  by (simp add: validate_node_id_def demo_id_def list_all_iff hex_char_def)

lemma demo_control_simps [simp]:
  "ce_euid demo_control = 1000" "ce_crypto demo_control = demo_crypto" "ce_io demo_control = demo_io"
  "ce_key_ok demo_control = (\<lambda>_. True)" "ce_now demo_control = 0"
  by (simp_all add: demo_control_def)

lemma demo_password: "password_ok demo_control [(''password'', JStr ''correct horse''), x, y] = Inr True"
  by (simp add: password_ok_def Let_def field_def plain_def dict_simps demo_control_def
      verify_identity_password_def demo_unlock)

lemma demo_route:
  "route demo_control demo_control_state (demo_request pw alias) =
   route_collection demo_control demo_control_state (demo_request pw alias)"
  by (simp add: route_def Let_def demo_request_def rstrip_slash_def route_peers_def)

lemma demo_request_runs:
  "route_collection demo_control demo_control_state (demo_request ''correct horse'' alias) =
   reply demo_control_state
     (with_trust (cs_engine demo_control_state)
        (trust_add_untyped demo_crypto demo_io demo_mgr demo_id (plain demo_control alias) (str_list [''monitor'']) (str_list []))
        ''Peer already trusted (or invalid permissions)'' (apply_devices_reload (\<lambda>_. True) 0))
     201 (OkNode demo_id)"
proof -
  have ne: "demo_id \<noteq> []" "demo_id \<noteq> ''me''" using demo_id_other[of "[]"] demo_id_other[of "''me''"] by auto
  show ?thesis
    using demo_id_valid ne
    by (simp add: route_collection_def Let_def demo_request_def with_body_def need_dict_def with_password_def
        demo_password add_peer_untyped_def field_def plain_items_def py_or_def dict_simps str_list_def
        demo_control_state_def demo_engine_def new_engine_def)
qed


section \<open>A request that stops the trust store\<close>

lemma mat_step_keeps:
  assumes "mat_step ps e = Inr ps'" "entry_nid e \<noteq> Inr k"
  shows "map_of ps' k = map_of ps k"
  using assms
  by (auto simp: mat_step_def Let_def mat_update_def rbind_Inr_conv update_conv' split: if_splits option.splits)

lemma materialize_keeps:
  assumes "rfold mat_step ps es = Inr ps'" "\<forall>e \<in> set es. entry_nid e \<noteq> Inr k"
  shows "map_of ps' k = map_of ps k"
  using assms
proof (induction es arbitrary: ps)
  case (Cons e es)
  then obtain ps1 where "mat_step ps e = Inr ps1" "rfold mat_step ps1 es = Inr ps'"
    by (auto simp: rbind_Inr_conv)
  with Cons mat_step_keeps show ?case by auto
qed simp

lemma rmap_bad: "x \<in> set xs \<Longrightarrow> f x = Inl e \<Longrightarrow> \<not> is_ok (rmap f xs)"
  by (cases "rmap f xs") (auto simp: rmap_Inr_conv list_all2_conv_all_nth in_set_conv_nth)

lemma bad_alias_stops_view:
  assumes "materialize_peers es = Inr ps" "map_of ps k = Some p" "as_opt_str (mp_alias p) = Inl err"
    and "\<forall>e \<in> set es'. entry_nid e \<noteq> Inr k"
  shows "\<not> is_ok (peer_view (es @ es'))"
proof (cases "materialize_peers (es @ es')")
  case (Inr ps')
  then have "rfold mat_step ps es' = Inr ps'"
    using assms(1) by (simp add: materialize_peers_def rfold_append)
  from materialize_keeps[OF this assms(4)] assms(2) have "(k, p) \<in> set ps'" by (simp add: map_of_SomeD)
  moreover have "\<exists>e. project_peer (k, p) = Inl e"
    using assms(3) by (cases "project_peer (k, p)") (auto simp: project_peer_Inr)
  ultimately show ?thesis using rmap_bad[of "(k, p)" ps' project_peer] Inr by (auto simp: peer_view_def)
qed (simp add: peer_view_def)

lemma as_opt_str_bad: "alias \<noteq> JNull \<Longrightarrow> \<forall>t. alias \<noteq> JStr t \<Longrightarrow> \<exists>err. as_opt_str alias = Inl err"
  by (cases "alias") auto

lemma untyped_add_poisons:
  assumes "tm_ok m" "tl_key (tm_log m) \<noteq> None" "io_good io now" "tm_by_nid m n = None"
    and "alias \<noteq> JNull" "\<forall>t. alias \<noteq> JStr t"
  shows "\<exists>m' e. trust_add_untyped C io m n alias (str_list [''monitor'']) (str_list []) = (m', Inl e)
    \<and> (\<forall>es'. (\<forall>e \<in> set es'. entry_nid e \<noteq> Inr (JStr n))
         \<longrightarrow> \<not> is_ok (peer_view (tl_entries (tm_log m') @ es')))"
proof -
  let ?d = "[(''node_id'', JStr n), (''alias'', alias), (''permissions'', JArr [JStr ''monitor''])]"
  have call: "trust_add_untyped C io m n alias (str_list [''monitor'']) (str_list []) = commit C io m OP_ADD_PEER ?d"
    using assms(4) by (simp add: trust_add_untyped_def str_list_def grantable_def VALID_PROTOCOLS_def)
  from assms(2) obtain k where k: "tl_key (tm_log m) = Some k" by blast
  from assms(3) obtain w where w: "io_log_write io = Some w" by (auto simp: io_good_def)
  obtain L e where L: "log_append C (io_now io) (Some w) (tm_log m) OP_ADD_PEER ?d = (L, Inr e)"
      and e: "tl_entries L = tl_entries (tm_log m) @ [e]" "le_type e = OP_ADD_PEER" "le_data e = ?d"
    using k by (simp add: log_append_def Let_def OP_TYPES_def)
  obtain ps where ps: "materialize_peers (tl_entries (tm_log m)) = Inr ps"
    using assms(1) by (auto simp: tm_ok_def split: sum.splits)
  obtain p where p: "mat_step ps e = Inr (AList.update (JStr n) p ps)" "mp_alias p = alias"
    by (simp add: mat_step_def e(2,3) Let_def entry_nid_def mat_add_def dict_simps)
  have mat: "materialize_peers (tl_entries L) = Inr (AList.update (JStr n) p ps)"
    using ps p(1) by (simp add: e(1) materialize_peers_def)
  obtain err where bad: "as_opt_str (mp_alias p) = Inl err"
    using as_opt_str_bad[OF assms(5,6)] p(2) by auto
  have poison: "\<not> is_ok (peer_view (tl_entries L @ es'))"
    if "\<forall>e \<in> set es'. entry_nid e \<noteq> Inr (JStr n)" for es'
    using bad_alias_stops_view[OF mat _ bad that] by (simp add: update_conv')
  obtain err' where "peer_view (tl_entries L) = Inl err'"
    using poison[of "[]"] by (cases "peer_view (tl_entries L)") auto
  then have "commit C io m OP_ADD_PEER ?d = (m\<lparr>tm_log := L\<rparr>, Inl err')"
    by (simp add: commit_def w L refresh_def rebuild_from_log_def)
  then show ?thesis using call poison by auto
qed



end
