(* ===== verification/Host_Env.thy ===== *)
theory Host_Env
  imports Identity
begin

text \<open>
  What the program takes from its host: the directories of src/paths.py, the environment of
  spawned system programs (src/sysenv.py), and the password providers of src/password.py with the
  password sealed to the machine id. The environment, the files and the terminal are a record;
  a path is its text.
\<close>

record host =
  ho_env :: "string \<rightharpoonup> string"
  ho_frozen :: bool
  ho_euid :: int
  ho_uid_text :: string
  ho_home :: string
  ho_tty :: bool
  ho_stdin :: string
  ho_prompt :: "string option"
  ho_keyring :: "string option option"
  ho_text :: "string \<rightharpoonup> string"
  ho_bytes :: "string \<rightharpoonup> bytes"

section \<open>Directories\<close>

definition path_join :: "string \<Rightarrow> string \<Rightarrow> string" where
  "path_join d n = d @ ''/'' @ n"

abbreviation APP_NAME :: string where "APP_NAME \<equiv> ''panic-monitor''"

text \<open>\<open>os.environ.get(k)\<close> tested for truth: an empty value counts as unset.\<close>

definition env_set :: "host \<Rightarrow> string \<Rightarrow> string option" where
  "env_set h k = (case ho_env h k of Some v \<Rightarrow> if v = [] then None else Some v | None \<Rightarrow> None)"

definition system_mode :: "host \<Rightarrow> bool" where
  "system_mode h \<longleftrightarrow> ho_euid h = 0"

definition config_dir :: "host \<Rightarrow> string" where
  "config_dir h =
     (case env_set h ''PANIC_MONITOR_CONFIG_DIR'' of
        Some d \<Rightarrow> d
      | None \<Rightarrow>
          if system_mode h then path_join ''/etc'' APP_NAME
          else path_join (case env_set h ''XDG_CONFIG_HOME'' of
                            Some x \<Rightarrow> x | None \<Rightarrow> path_join (ho_home h) ''.config'') APP_NAME)"

definition data_dir :: "host \<Rightarrow> string" where
  "data_dir h =
     (case env_set h ''PANIC_MONITOR_DATA_DIR'' of
        Some d \<Rightarrow> d
      | None \<Rightarrow>
          if system_mode h then path_join ''/var/lib'' APP_NAME
          else path_join (case env_set h ''XDG_DATA_HOME'' of
                            Some x \<Rightarrow> x | None \<Rightarrow> path_join (path_join (ho_home h) ''.local'') ''share'') APP_NAME)"

definition runtime_dir :: "host \<Rightarrow> string" where
  "runtime_dir h =
     (if system_mode h then path_join ''/run'' APP_NAME
      else case env_set h ''XDG_RUNTIME_DIR'' of
        Some x \<Rightarrow> path_join x APP_NAME
      | None \<Rightarrow> path_join ''/tmp'' (APP_NAME @ ''-'' @ ho_uid_text h))"

definition default_paths :: "host \<Rightarrow> (string \<times> string) list" where
  "default_paths h =
     [(''identity'', path_join (config_dir h) ''secret.key''), (''meta'', path_join (config_dir h) ''secret.meta''),
      (''log'', path_join (config_dir h) ''log.jsonl''), (''peers'', path_join (config_dir h) ''peers.json''),
      (''history'', path_join (data_dir h) ''history.db''), (''logstore'', path_join (data_dir h) ''logstore.db''),
      (''socket'', path_join (runtime_dir h) ''control.sock'')]"

section \<open>Environment of system programs\<close>

definition LIB_PATH_VARS :: "string list" where
  "LIB_PATH_VARS = [''LD_LIBRARY_PATH'', ''DYLD_LIBRARY_PATH'']"

definition restore_var :: "(string \<rightharpoonup> string) \<Rightarrow> string \<Rightarrow> (string \<rightharpoonup> string)" where
  "restore_var env var = env(var := env (var @ ''_ORIG''))"

definition system_env :: "host \<Rightarrow> (string \<rightharpoonup> string) \<Rightarrow> (string \<rightharpoonup> string)" where
  "system_env h extra =
     (if ho_frozen h then foldl restore_var (ho_env h) LIB_PATH_VARS else ho_env h) ++ extra"

text \<open>A frozen build never passes its own library path to a system program.\<close>

theorem system_env_restores:
  "extra v = None \<Longrightarrow> system_env h extra v =
     (if ho_frozen h \<and> v \<in> set LIB_PATH_VARS then ho_env h (v @ ''_ORIG'') else ho_env h v)"
  by (auto simp: system_env_def LIB_PATH_VARS_def restore_var_def map_add_def)

section \<open>Choosing a password backend\<close>

definition BACKENDS :: "string list" where
  "BACKENDS = [''systemd-creds'', ''machine-id'', ''keyring'', ''stdin'', ''env'', ''pinentry'']"

definition credential_path :: "host \<Rightarrow> string option" where
  "credential_path h = map_option (\<lambda>d. path_join d ''panic-monitor-password'') (env_set h ''CREDENTIALS_DIRECTORY'')"

definition enc_path :: "host \<Rightarrow> string" where "enc_path h = path_join (config_dir h) ''password.enc''"
definition salt_path :: "host \<Rightarrow> string" where "salt_path h = path_join (config_dir h) ''password.salt''"

definition detect_backend :: "host \<Rightarrow> string" where
  "detect_backend h =
     (if (case credential_path h of None \<Rightarrow> False | Some p \<Rightarrow> ho_text h p \<noteq> None) then ''systemd-creds''
      else if ho_bytes h (enc_path h) \<noteq> None then ''machine-id''
      else if env_set h ''PANIC_MONITOR_PASSWORD'' \<noteq> None then ''env''
      else if ho_tty h then ''pinentry''
      else ''stdin'')"

definition select_backend :: "host \<Rightarrow> string option \<Rightarrow> string res" where
  "select_backend h explicit =
     (case (case explicit of Some (c # cs) \<Rightarrow> Some (c # cs) | _ \<Rightarrow> env_set h ''PANIC_MONITOR_PASSWORD_FROM'') of
        Some b \<Rightarrow> if b \<in> set BACKENDS then Inr b else Inl (ValueError ''unknown password backend'')
      | None \<Rightarrow> Inr (detect_backend h))"

section \<open>The password sealed to the machine\<close>

definition KDF_COSTS :: "nat \<times> nat \<times> nat" where "KDF_COSTS = (3, 32768, 4)"

definition machine_id :: "host \<Rightarrow> string res" where
  "machine_id h =
     (case [v \<leftarrow> map py_strip (List.map_filter (ho_text h) [''/etc/machine-id'', ''/var/lib/dbus/machine-id'']). v \<noteq> []] of
        [] \<Rightarrow> Inl (RuntimeError ''no machine-id found'')
      | v # _ \<Rightarrow> Inr v)"

definition byte_char :: "8 word \<Rightarrow> char" where
  "byte_char b = char_of (unat b)"

text \<open>The salt is written first, then the ciphertext; each write may fail.\<close>

definition seal_password_to_disk ::
  "sealing \<Rightarrow> seal_env \<Rightarrow> host \<Rightarrow> string \<Rightarrow> host \<times> unit res" where
  "seal_password_to_disk S v h password =
     (case machine_id h of
        Inl e \<Rightarrow> (h, Inl e)
      | Inr mid \<Rightarrow>
          let ct = sl_encrypt S (sl_kdf S mid (se_salt v) KDF_COSTS) (se_nonce v) (map char_byte password) in
          if \<not> se_meta_ok v then (h, Inl (OSError ''password.salt''))
          else
            let h1 = h\<lparr>ho_bytes := (ho_bytes h)(salt_path h \<mapsto> se_salt v)\<rparr> in
            if \<not> se_key_ok v then (h1, Inl (OSError ''password.enc''))
            else (h1\<lparr>ho_bytes := (ho_bytes h1)(enc_path h \<mapsto> ct)\<rparr>, Inr ()))"

definition machine_id_get :: "sealing \<Rightarrow> host \<Rightarrow> string res" where
  "machine_id_get S h =
     (case (ho_bytes h (enc_path h), ho_bytes h (salt_path h)) of
        (Some ct, Some salt) \<Rightarrow>
          rbind (machine_id h) (\<lambda>mid.
            case sl_decrypt S (sl_kdf S mid salt KDF_COSTS) ct of
              None \<Rightarrow> Inl (RuntimeError ''failed to decrypt password'')
            | Some pw \<Rightarrow> Inr (map byte_char pw))
      | _ \<Rightarrow> Inl (RuntimeError ''encrypted password not found''))"

definition rstrip_newlines :: "string \<Rightarrow> string" where
  "rstrip_newlines s = rev (dropWhile (\<lambda>c. c = CHR 0x0A) (rev s))"

definition first_line :: "string \<Rightarrow> string" where
  "first_line s = (let l = takeWhile (\<lambda>c. c \<noteq> CHR 0x0A) s in l @ take 1 (drop (length l) s))"

definition provider_get :: "sealing \<Rightarrow> host \<Rightarrow> string \<Rightarrow> string res" where
  "provider_get S h b =
     (if b = ''systemd-creds'' then
        (case credential_path h of
           None \<Rightarrow> Inl (RuntimeError ''$CREDENTIALS_DIRECTORY not set'')
         | Some p \<Rightarrow>
             (case ho_text h p of
                None \<Rightarrow> Inl (RuntimeError ''credential file missing'')
              | Some t \<Rightarrow> Inr (rstrip_newlines t)))
      else if b = ''machine-id'' then machine_id_get S h
      else if b = ''keyring'' then
        (case ho_keyring h of
           None \<Rightarrow> Inl (RuntimeError ''keyring package not installed'')
         | Some None \<Rightarrow> Inl (RuntimeError ''no keyring entry'')
         | Some (Some pw) \<Rightarrow> if pw = [] then Inl (RuntimeError ''no keyring entry'') else Inr pw)
      else if b = ''stdin'' then
        (if ho_stdin h = [] then Inl (RuntimeError ''no password on stdin'')
         else Inr (rstrip_newlines (first_line (ho_stdin h))))
      else if b = ''env'' then
        (case env_set h ''PANIC_MONITOR_PASSWORD'' of
           None \<Rightarrow> Inl (RuntimeError ''PANIC_MONITOR_PASSWORD is not set'') | Some v \<Rightarrow> Inr v)
      else (case ho_prompt h of None \<Rightarrow> Inl (RuntimeError ''password prompt aborted'') | Some pw \<Rightarrow> Inr pw))"

definition get_password :: "sealing \<Rightarrow> host \<Rightarrow> string option \<Rightarrow> string res" where
  "get_password S h explicit = rbind (select_backend h explicit) (provider_get S h)"

lemma byte_char_char_byte [simp]: "map (byte_char \<circ> char_byte) s = s"
proof -
  have "byte_char (char_byte c) = c" for c
    using of_char_mod_256[of c, where ?'a = nat]
    by (simp add: byte_char_def char_byte_def unat_of_nat)
  then show ?thesis by (simp add: comp_def)
qed

lemma env_set_files [simp]: "env_set (h\<lparr>ho_bytes := b, ho_text := u\<rparr>) k = env_set h k"
  by (simp add: env_set_def)

lemma config_dir_files [simp]: "config_dir (h\<lparr>ho_bytes := b, ho_text := u\<rparr>) = config_dir h"
  by (auto simp: config_dir_def system_mode_def split: option.splits)

lemma seal_password_files:
  assumes "seal_password_to_disk S v h pw = (h', Inr ())"
  obtains own where "machine_id h = Inr own"
    and "h' = h\<lparr>ho_bytes := (ho_bytes h)(salt_path h \<mapsto> se_salt v,
           enc_path h \<mapsto> sl_encrypt S (sl_kdf S own (se_salt v) KDF_COSTS) (se_nonce v) (map char_byte pw))\<rparr>"
proof -
  obtain own where own: "machine_id h = Inr own"
    using assms by (cases "machine_id h") (simp_all add: seal_password_to_disk_def)
  from assms own show thesis
    by (intro that[OF own]) (auto simp: seal_password_to_disk_def Let_def split: if_splits)
qed

lemma sealed_reads_back:
  assumes "good_sealing S"
    and "ho_bytes d (enc_path d) = Some (sl_encrypt S (sl_kdf S own salt KDF_COSTS) nonce (map char_byte pw))"
    and "ho_bytes d (salt_path d) = Some salt"
  shows "machine_id_get S d = rbind (machine_id d) (\<lambda>mid.
    if mid = own then Inr pw else Inl (RuntimeError ''failed to decrypt password''))"
proof -
  have "mid \<noteq> own \<Longrightarrow> sl_kdf S own salt KDF_COSTS \<noteq> sl_kdf S mid salt KDF_COSTS" for mid
    using sl_keys[OF assms(1)] by blast
  then show ?thesis
    by (cases "machine_id d")
      (auto simp: machine_id_get_def assms(2,3) sl_same[OF assms(1)] sl_other[OF assms(1)])
qed

lemma enc_not_salt [simp]: "enc_path h \<noteq> salt_path h" "salt_path h \<noteq> enc_path h"
  by (simp_all add: enc_path_def salt_path_def path_join_def)

text \<open>
  A password sealed on a host comes back from the service's start when nothing else is chosen
  (no explicit backend, no variable naming one, no systemd credential): the files written select
  the machine-id backend, which gives back exactly that password. On a host with another machine
  id the same files give an error and not a wrong password.
\<close>

theorem sealed_password_returns:
  assumes "good_sealing S" and "seal_password_to_disk S v h pw = (h', Inr ())"
    and "env_set h ''PANIC_MONITOR_PASSWORD_FROM'' = None" and "credential_path h = None"
  shows "get_password S h' None = Inr pw
    \<and> (machine_id (h'\<lparr>ho_text := t\<rparr>) = Inr mid \<and> machine_id h \<noteq> Inr mid
       \<longrightarrow> get_password S (h'\<lparr>ho_text := t\<rparr>) None = Inl (RuntimeError ''failed to decrypt password''))"
proof -
  obtain own where own: "machine_id h = Inr own" and h': "h' = h\<lparr>ho_bytes := (ho_bytes h)(salt_path h \<mapsto> se_salt v,
      enc_path h \<mapsto> sl_encrypt S (sl_kdf S own (se_salt v) KDF_COSTS) (se_nonce v) (map char_byte pw))\<rparr>"
    using seal_password_files[OF assms(2)] .
  have env: "env_set (h'\<lparr>ho_text := u\<rparr>) k = env_set h k" "config_dir (h'\<lparr>ho_text := u\<rparr>) = config_dir h" for u k
    unfolding h' by (simp_all only: env_set_files config_dir_files)
  have paths: "enc_path (h'\<lparr>ho_text := u\<rparr>) = enc_path h" "salt_path (h'\<lparr>ho_text := u\<rparr>) = salt_path h" for u
    by (simp_all add: enc_path_def salt_path_def env)
  have cred: "credential_path (h'\<lparr>ho_text := u\<rparr>) = None" for u
    using assms(4) by (simp add: credential_path_def env)
  have files: "ho_bytes h' (enc_path h) = Some (sl_encrypt S (sl_kdf S own (se_salt v) KDF_COSTS) (se_nonce v) (map char_byte pw))"
    "ho_bytes h' (salt_path h) = Some (se_salt v)"
    by (simp_all add: h')
  have sel: "get_password S (h'\<lparr>ho_text := u\<rparr>) None = machine_id_get S (h'\<lparr>ho_text := u\<rparr>)" for u
    using assms(3)
    by (simp add: get_password_def select_backend_def env detect_backend_def cred paths files provider_get_def)
  have get: "machine_id_get S (h'\<lparr>ho_text := u\<rparr>) = rbind (machine_id (h'\<lparr>ho_text := u\<rparr>)) (\<lambda>mid.
      if mid = own then Inr pw else Inl (RuntimeError ''failed to decrypt password''))" for u
    by (rule sealed_reads_back[OF assms(1)]) (simp_all add: paths files)
  have same: "h'\<lparr>ho_text := ho_text h\<rparr> = h'" by (simp add: h')
  have "machine_id h' = Inr own" using own by (simp add: machine_id_def h')
  then show ?thesis using sel[of "ho_text h"] get[of "ho_text h"] sel[of t] get[of t] own by (simp add: same)
qed

definition demo_host :: host where
  "demo_host = \<lparr>ho_env = Map.empty, ho_frozen = True, ho_euid = 1000, ho_uid_text = ''1000'', ho_home = ''/home/u'',
     ho_tty = False, ho_stdin = [], ho_prompt = None, ho_keyring = None,
     ho_text = [''/etc/machine-id'' \<mapsto> ''m1''], ho_bytes = Map.empty\<rparr>"

theorem sealed_password_returns_witness:
  "get_password demo_sealing (fst (seal_password_to_disk demo_sealing (demo_seal True 1) demo_host ''s3cret'')) None
   = Inr ''s3cret''"
proof -
  let ?r = "seal_password_to_disk demo_sealing (demo_seal True 1) demo_host ''s3cret''"
  have "machine_id demo_host = Inr ''m1''"
    by (simp add: machine_id_def demo_host_def py_strip_def py_space_def List.map_filter_def)
  then have "?r = (fst ?r, Inr ())"
    by (simp add: seal_password_to_disk_def demo_seal_def Let_def)
  moreover have "env_set demo_host k = None" for k by (simp add: env_set_def demo_host_def)
  ultimately show ?thesis
    using sealed_password_returns[OF demo_sealing_good, of "demo_seal True 1" demo_host "''s3cret''" "fst ?r"]
    by (simp add: credential_path_def)
qed

end
