(* ===== verification/Stats.thy ===== *)
theory Stats
  imports Alpn
begin

text \<open>
  The statistics collector (src/stats.py). What psutil and docker answer is an argument: a
  reading, or the exception the call raised. A container's attributes and statistics are JSON,
  read key by key the way the code reads them; each assignment is a step of its \<open>try\<close> block,
  so that a step that raises keeps what was assigned before.
\<close>

section \<open>Times of docker\<close>

text \<open>
  \<open>datetime.fromisoformat\<close> on text in extended format, the format of docker's times: a date of
  ten characters, a separator, hours, minutes and seconds with a fraction of any length, an offset.
\<close>

definition fraction_micros :: "string \<Rightarrow> int option" where
  "fraction_micros f =
     (if digits_value f = None then None
      else map_option (\<lambda>n. n * 10 ^ (6 - length (take 6 f))) (digits_value (take 6 f)))"

definition clock_micros :: "string \<Rightarrow> string \<Rightarrow> string \<Rightarrow> int \<Rightarrow> int option" where
  "clock_micros h m s us =
     (case (digits_value h, digits_value m, digits_value s) of
        (Some h', Some m', Some s') \<Rightarrow>
          if h' < 24 \<and> m' < 60 \<and> s' < 60 then Some (usec (h' * 3600 + m' * 60 + s') + us) else None
      | _ \<Rightarrow> None)"

fun parse_clock :: "string \<Rightarrow> int option" where
  "parse_clock [a, b] = clock_micros [a, b] [] [] 0"
| "parse_clock [a, b, x, c, d] = (if x = CHR '':'' then clock_micros [a, b] [c, d] [] 0 else None)"
| "parse_clock (a # b # x # c # d # y # e # f # r) =
     (if x = CHR '':'' \<and> y = CHR '':'' \<and> (r = [] \<or> hd r \<in> {CHR ''.'', CHR '',''})
      then Option.bind (fraction_micros (drop 1 r)) (clock_micros [a, b] [c, d] [e, f])
      else None)"
| "parse_clock _ = None"

definition parse_offset :: "string \<Rightarrow> int option" where
  "parse_offset s =
     (if s = ''Z'' then Some 0
      else if s \<noteq> [] \<and> hd s = CHR ''+'' then parse_clock (drop 1 s)
      else if s \<noteq> [] \<and> hd s = CHR ''-'' then map_option uminus (parse_clock (drop 1 s))
      else None)"

definition iso_text :: "string \<Rightarrow> datetime option" where
  "iso_text s =
     (let t = drop 11 s; clock = takeWhile (\<lambda>c. c \<notin> set ''+-Z'') t; off = drop (length clock) t in
      case (parse_date True (take 10 s), parse_clock clock) of
        (Some n, Some us) \<Rightarrow>
          if off = [] then Some (Naive (usec (n * 86400) + us))
          else map_option (\<lambda>z. Aware (usec (n * 86400) + us - z)) (parse_offset off)
      | _ \<Rightarrow> None)"

text \<open>The collector's own trimming of \<open>StartedAt\<close> and the uptime it takes from it.\<close>

definition zulu :: "string \<Rightarrow> string" where
  "zulu s = concat (map (\<lambda>c. if c = CHR ''Z'' then ''+00:00'' else [c]) s)"

definition rstrip_zeros :: "string \<Rightarrow> string" where
  "rstrip_zeros s = rev (dropWhile (\<lambda>c. c = CHR ''0'') (rev s))"

definition trim_started :: "string \<Rightarrow> string res" where
  "trim_started started =
     (let st = zulu started; i = length (takeWhile (\<lambda>c. c \<noteq> CHR ''.'') st) in
      if CHR ''.'' \<notin> set st then Inr st
      else if CHR ''+'' \<notin> set st then Inl (ValueError ''substring not found'')
      else Inr (rstrip_zeros (take (i + 7) st) @ dropWhile (\<lambda>c. c \<noteq> CHR ''+'') st))"

definition uptime_of :: "instant \<Rightarrow> string \<Rightarrow> int" where
  "uptime_of now started =
     (case trim_started started of
        Inl _ \<Rightarrow> 0
      | Inr st \<Rightarrow>
          (case iso_text st of
             Some (Aware t) \<Rightarrow> py_int (of_int (now - t) / 1000000)
           | _ \<Rightarrow> 0))"

abbreviation NO_TIME :: string where "NO_TIME \<equiv> ''0001-01-01T00:00:00Z''"

section \<open>One container\<close>

record container_info =
  ct_id :: string
  ct_name :: string
  ct_image :: string
  ct_status :: string
  ct_health :: json
  ct_cpu :: rat
  ct_mem :: json
  ct_mem_limit :: json
  ct_rx :: rat
  ct_tx :: rat
  ct_uptime :: int
  ct_restarts :: int
  ct_read :: int
  ct_write :: int
  ct_ports :: "string list"
  ct_mounts :: "string list"
  ct_streak :: int
  ct_output :: "string option"
  ct_created :: json
  ct_command :: "string option"

text \<open>
  A docker container: its image's tags and id, its attributes, and the answer to the request
  for its statistics.
\<close>

record container =
  dk_id :: string
  dk_name :: "string option"
  dk_image :: "(string list \<times> string) option res"
  dk_status :: "string option"
  dk_attrs :: json
  dk_stats :: "json res"

text \<open>The statements of a \<open>try\<close> block whose handler does nothing.\<close>

fun try_steps :: "('s \<Rightarrow> 's res) list \<Rightarrow> 's \<Rightarrow> 's" where
  "try_steps [] s = s"
| "try_steps (f # fs) s = (case f s of Inl _ \<Rightarrow> s | Inr s' \<Rightarrow> try_steps fs s')"

text \<open>\<open>d.get(k, {}) or {}\<close>, then read as a dictionary; \<open>int(v or 0)\<close>; \<open>str(v)\<close>.\<close>

definition sub_dict :: "json \<Rightarrow> dict res" where
  "sub_dict v = (if truthy v then need_dict v else Inr [])"

definition int_or_zero :: "json \<Rightarrow> int res" where
  "int_or_zero v =
     (case int_of_json (py_or v (JInt 0)) of None \<Rightarrow> Inl (ValueError ''int()'') | Some n \<Rightarrow> Inr n)"

definition py_str :: "(json \<Rightarrow> string) \<Rightarrow> json \<Rightarrow> string" where
  "py_str show v = (case v of JStr s \<Rightarrow> s | _ \<Rightarrow> show v)"

text \<open>The arrow U+2192 in UTF-8.\<close>

abbreviation ARROW :: string where "ARROW \<equiv> [char_of (226::nat), char_of (134::nat), char_of (146::nat)]"

definition health_output :: "json \<Rightarrow> container_info \<Rightarrow> container_info res" where
  "health_output entries c =
     (if \<not> truthy entries then Inr c
      else case entries of
        JArr xs \<Rightarrow>
          rbind (sub_dict (last xs)) (\<lambda>d.
            Inr (c\<lparr>ct_output := (case py_or (dget d ''Output'') (JStr []) of
                                    JStr s \<Rightarrow> Some (take 400 s) | _ \<Rightarrow> None)\<rparr>))
      | _ \<Rightarrow> Inl (TypeError ''get''))"

definition joined :: "(json \<Rightarrow> string) \<Rightarrow> json list \<Rightarrow> string" where
  "joined show xs = take 200 (join_with '' '' (map (py_str show) xs))"

definition command_step :: "(json \<Rightarrow> string) \<Rightarrow> dict \<Rightarrow> container_info \<Rightarrow> container_info res" where
  "command_step show cfg c =
     (let cmd = dget cfg ''Cmd''; ep = dget cfg ''Entrypoint'' in
      if truthy cmd then rbind (py_list cmd) (\<lambda>xs. Inr (c\<lparr>ct_command := Some (joined show xs)\<rparr>))
      else if truthy ep then
        Inr (c\<lparr>ct_command := Some (case ep of JArr xs \<Rightarrow> joined show xs | _ \<Rightarrow> take 200 (py_str show ep))\<rparr>)
      else Inr c)"

definition add_port :: "string \<Rightarrow> container_info \<Rightarrow> container_info res" where
  "add_port p c = Inr (c\<lparr>ct_ports := ct_ports c @ [p]\<rparr>)"

definition binding_step :: "(json \<Rightarrow> string) \<Rightarrow> string \<Rightarrow> json \<Rightarrow> container_info \<Rightarrow> container_info res" where
  "binding_step show port b c =
     rbind (sub_dict b) (\<lambda>d.
       let hp = dget d ''HostPort'' in
       add_port (if truthy hp then py_str show hp @ ARROW @ port else port) c)"

definition port_steps :: "(json \<Rightarrow> string) \<Rightarrow> string \<times> json \<Rightarrow> (container_info \<Rightarrow> container_info res) list" where
  "port_steps show x =
     (case x of (port, bindings) \<Rightarrow>
        if \<not> truthy bindings then [add_port port]
        else case py_list bindings of
          Inl e \<Rightarrow> [\<lambda>_. Inl e]
        | Inr bs \<Rightarrow> map (binding_step show port) bs)"

definition mount_step :: "(json \<Rightarrow> string) \<Rightarrow> json \<Rightarrow> container_info \<Rightarrow> container_info res" where
  "mount_step show m c =
     rbind (need_dict m) (\<lambda>d.
       let src = py_or (py_or (dget d ''Source'') (dget d ''Name'')) (JStr ''?'');
           dst = py_or (dget d ''Destination'') (JStr ''?'');
           ro = (if truthy (dget_default d ''RW'' (JBool True)) then [] else '':ro'') in
       Inr (c\<lparr>ct_mounts := ct_mounts c @ [py_str show src @ ARROW @ py_str show dst @ ro]\<rparr>))"

definition started_step :: "instant \<Rightarrow> json \<Rightarrow> container_info \<Rightarrow> container_info res" where
  "started_step now started c =
     (if truthy started \<and> started \<noteq> JStr NO_TIME
      then Inr (c\<lparr>ct_uptime := (case started of JStr s \<Rightarrow> uptime_of now s | _ \<Rightarrow> 0)\<rparr>)
      else Inr c)"

text \<open>The steps that read the attributes. A step that cannot reach its dictionary raises.\<close>

definition failing_steps :: "'a list res \<Rightarrow> ('a \<Rightarrow> ('s \<Rightarrow> 's res) list) \<Rightarrow> ('s \<Rightarrow> 's res) list" where
  "failing_steps r f = (case r of Inl e \<Rightarrow> [\<lambda>_. Inl e] | Inr xs \<Rightarrow> concat (map f xs))"

definition attr_steps ::
  "(json \<Rightarrow> string) \<Rightarrow> instant \<Rightarrow> dict \<Rightarrow> dict \<Rightarrow> (container_info \<Rightarrow> container_info res) list" where
  "attr_steps show now attrs state =
     (let health = dget state ''Health'';
          created = dget_default attrs ''Created'' (JStr []);
          mounts = dget attrs ''Mounts'' in
      [\<lambda>c. rbind (sub_dict health) (\<lambda>h. Inr (c\<lparr>ct_health := (if h = [] then JNull else dget h ''Status'')\<rparr>)),
       \<lambda>c. rbind (sub_dict health) (\<lambda>h. rbind (int_or_zero (dget h ''FailingStreak'')) (\<lambda>n.
             Inr (c\<lparr>ct_streak := n\<rparr>))),
       \<lambda>c. rbind (sub_dict health) (\<lambda>h. health_output (dget h ''Log'') c),
       \<lambda>c. rbind (int_or_zero (dget state ''RestartCount'')) (\<lambda>n. Inr (c\<lparr>ct_restarts := n\<rparr>)),
       \<lambda>c. Inr (if truthy created \<and> created \<noteq> JStr NO_TIME then c\<lparr>ct_created := created\<rparr> else c),
       \<lambda>c. rbind (sub_dict (dget attrs ''Config'')) (\<lambda>cfg. command_step show cfg c)]
      @ failing_steps (rbind (sub_dict (dget attrs ''NetworkSettings'')) (\<lambda>net. sub_dict (dget net ''Ports'')))
          (port_steps show)
      @ failing_steps (if truthy mounts then py_list mounts else Inr []) (\<lambda>m. [mount_step show m])
      @ [started_step now (dget_default state ''StartedAt'' (JStr []))])"

text \<open>The steps that read the statistics of a running container.\<close>

definition json_len :: "json \<Rightarrow> nat res" where
  "json_len v = (case v of JArr xs \<Rightarrow> Inr (length xs) | JStr s \<Rightarrow> Inr (length s) | JObj d \<Rightarrow> Inr (length d)
                 | _ \<Rightarrow> Inl (TypeError ''object has no len()''))"

definition key_path :: "dict \<Rightarrow> string list \<Rightarrow> json res" where
  "key_path d ks = rfold (\<lambda>v k. rbind (need_dict v) (\<lambda>d. dindex d k)) (JObj d) ks"

definition cpu_step :: "dict \<Rightarrow> container_info \<Rightarrow> container_info res" where
  "cpu_step st c =
     (let total = (\<lambda>k. rbind (key_path st [k, ''cpu_usage'', ''total_usage'']) need_number);
          sys = (\<lambda>k. rbind (key_path st [k]) (\<lambda>v. rbind (need_dict v) (\<lambda>d.
                  need_number (dget_default d ''system_cpu_usage'' (JInt 0))))) in
      rbind (total ''cpu_stats'') (\<lambda>t1. rbind (total ''precpu_stats'') (\<lambda>t0.
      rbind (sys ''cpu_stats'') (\<lambda>s1. rbind (sys ''precpu_stats'') (\<lambda>s0.
      rbind (key_path st [''cpu_stats'']) (\<lambda>v. rbind (need_dict v) (\<lambda>cpu.
      rbind (if truthy (dget cpu ''online_cpus'') then need_number (dget cpu ''online_cpus'')
             else rbind (dindex cpu ''cpu_usage'') (\<lambda>u. rbind (need_dict u) (\<lambda>ud.
                    rbind (json_len (dget_default ud ''percpu_usage'' (JArr [JInt 1]))) (\<lambda>n. Inr (of_nat n))))) (\<lambda>n.
        Inr (if s1 - s0 > 0 then c\<lparr>ct_cpu := round2 ((t1 - t0) / (s1 - s0) * n * 100)\<rparr> else c)))))))))"

definition memory_step ::
  "(json \<Rightarrow> container_info \<Rightarrow> container_info) \<Rightarrow> string \<Rightarrow> dict \<Rightarrow> container_info \<Rightarrow> container_info res" where
  "memory_step put key st c =
     rbind (key_path st [''memory_stats'']) (\<lambda>v. rbind (need_dict v) (\<lambda>d.
       Inr (put (dget_default d key (JInt 0)) c)))"

definition iface_steps :: "string \<times> json \<Rightarrow> (container_info \<Rightarrow> container_info res) list" where
  "iface_steps x =
     (let num = (\<lambda>k. rbind (need_dict (snd x)) (\<lambda>d. need_number (dget_default d k (JInt 0)))) in
      [\<lambda>c. rbind (num ''rx_bytes'') (\<lambda>n. Inr (c\<lparr>ct_rx := ct_rx c + n\<rparr>)),
       \<lambda>c. rbind (num ''tx_bytes'') (\<lambda>n. Inr (c\<lparr>ct_tx := ct_tx c + n\<rparr>))])"

definition block_step :: "json \<Rightarrow> container_info \<Rightarrow> container_info res" where
  "block_step entry c =
     rbind (sub_dict entry) (\<lambda>d.
       case int_of_json (dget_default d ''value'' (JInt 0)) of
         None \<Rightarrow> Inl (ValueError ''int()'')
       | Some n \<Rightarrow>
           (case dget_default d ''op'' (JStr []) of
              JStr op \<Rightarrow>
                Inr (if py_lower op = ''read'' then c\<lparr>ct_read := ct_read c + n\<rparr>
                     else if py_lower op = ''write'' then c\<lparr>ct_write := ct_write c + n\<rparr> else c)
            | _ \<Rightarrow> Inl (AttributeError ''lower'')))"

definition stat_steps :: "dict \<Rightarrow> (container_info \<Rightarrow> container_info res) list" where
  "stat_steps st =
     [cpu_step st, memory_step (\<lambda>v c. c\<lparr>ct_mem := v\<rparr>) ''usage'' st,
      memory_step (\<lambda>v c. c\<lparr>ct_mem_limit := v\<rparr>) ''limit'' st]
     @ failing_steps (need_dict (dget_default st ''networks'' (JObj []))) iface_steps
     @ failing_steps (rbind (sub_dict (dget st ''blkio_stats'')) (\<lambda>b.
          let es = dget b ''io_service_bytes_recursive'' in if truthy es then py_list es else Inr []))
         (\<lambda>e. [block_step e])"

definition container_name :: "container \<Rightarrow> string" where
  "container_name c = dropWhile (\<lambda>x. x = CHR ''/'') (case dk_name c of None \<Rightarrow> [] | Some n \<Rightarrow> n)"

definition blank_info :: "container \<Rightarrow> string \<Rightarrow> container_info" where
  "blank_info c img =
     \<lparr>ct_id = take 12 (dk_id c), ct_name = container_name c, ct_image = img,
      ct_status = (case dk_status c of None \<Rightarrow> ''unknown'' | Some s \<Rightarrow> if s = [] then ''unknown'' else s),
      ct_health = JNull, ct_cpu = 0, ct_mem = JInt 0, ct_mem_limit = JInt 0, ct_rx = 0, ct_tx = 0,
      ct_uptime = 0, ct_restarts = 0, ct_read = 0, ct_write = 0, ct_ports = [], ct_mounts = [],
      ct_streak = 0, ct_output = None, ct_created = JNull, ct_command = None\<rparr>"

definition collect_one_container :: "(json \<Rightarrow> string) \<Rightarrow> instant \<Rightarrow> container \<Rightarrow> container_info res" where
  "collect_one_container show now c =
     rbind (dk_image c) (\<lambda>im.
       let img = (case im of None \<Rightarrow> ''unknown'' | Some (t # _, _) \<Rightarrow> t | Some ([], i) \<Rightarrow> take 12 i);
           c0 = blank_info c img;
           c1 = (case rbind (sub_dict (dk_attrs c)) (\<lambda>a. rbind (sub_dict (dget a ''State'')) (\<lambda>s. Inr (a, s))) of
                   Inl _ \<Rightarrow> c0 | Inr (attrs, state) \<Rightarrow> try_steps (attr_steps show now attrs state) c0);
           c2 = (if ct_status c1 = ''running''
                 then (case rbind (dk_stats c) need_dict of
                         Inl _ \<Rightarrow> c1 | Inr st \<Rightarrow> try_steps (stat_steps st) c1)
                 else c1) in
       Inr (c2\<lparr>ct_uptime := max 0 (ct_uptime c2)\<rparr>))"

text \<open>A container that raises is skipped; no docker, or no list, gives no containers.\<close>

definition collect_containers :: "(json \<Rightarrow> string) \<Rightarrow> instant \<Rightarrow> container list res option \<Rightarrow> container_info list" where
  "collect_containers show now docker =
     (case docker of
        Some (Inr cs) \<Rightarrow> List.map_filter (\<lambda>c. case collect_one_container show now c of
                                            Inl _ \<Rightarrow> None | Inr i \<Rightarrow> Some i) cs
      | _ \<Rightarrow> [])"

section \<open>Processes\<close>

text \<open>What psutil tells about a process; its CPU reading may raise because it is gone.\<close>

record process_reading =
  px_pid :: "int option"
  px_ppid :: "int option"
  px_name :: "string option"
  px_user :: "string option"
  px_state :: "string option"
  px_mem :: "rat option"
  px_rss :: "int option"
  px_threads :: "int option"
  px_nice :: "int option"
  px_cmdline :: "string list option"
  px_uid :: "int option"
  px_cpu :: "rat res"

record process_info =
  pi_pid :: int
  pi_ppid :: int
  pi_name :: string
  pi_user :: string
  pi_state :: string
  pi_cpu :: rat
  pi_mem :: rat
  pi_rss :: int
  pi_threads :: int
  pi_nice :: int
  pi_cmdline :: string

definition round1 :: "rat \<Rightarrow> rat" where
  "round1 x = of_int (round_half_even (x * 10)) / 10"

abbreviation or_zero :: "int option \<Rightarrow> int" where
  "or_zero x \<equiv> (case x of None \<Rightarrow> 0 | Some n \<Rightarrow> n)"

abbreviation or_empty :: "'a list option \<Rightarrow> 'a list" where
  "or_empty x \<equiv> (case x of None \<Rightarrow> [] | Some s \<Rightarrow> s)"

definition process_user :: "int option \<Rightarrow> string option \<Rightarrow> string" where
  "process_user uid user =
     (let low = (case uid of None \<Rightarrow> False | Some u \<Rightarrow> u < 1000); name = or_empty user in
      if uid = Some 0 then ''root''
      else if low then ''system''
      else if name = ''nobody'' \<or> name = []
      then (if low then ''system'' else if name = [] then ''unknown'' else name)
      else name)"

definition process_row :: "int \<Rightarrow> process_reading \<Rightarrow> process_info option" where
  "process_row ncpus p =
     (case px_cpu p of
        Inl _ \<Rightarrow> None
      | Inr raw \<Rightarrow>
          let cpu = (if ncpus > 0 then raw / of_int ncpus else raw);
              rss = or_zero (px_rss p); parts = or_empty (px_cmdline p);
              cmd = (if parts \<noteq> [] then join_with '' '' parts else or_empty (px_name p)) in
          if rss = 0 \<and> parts = [] then None
          else Some \<lparr>pi_pid = or_zero (px_pid p), pi_ppid = or_zero (px_ppid p), pi_name = or_empty (px_name p),
                     pi_user = process_user (px_uid p) (px_user p), pi_state = or_empty (px_state p),
                     pi_cpu = round1 cpu,
                     pi_mem = round2 (case px_mem p of None \<Rightarrow> 0 | Some m \<Rightarrow> m), pi_rss = rss,
                     pi_threads = or_zero (px_threads p), pi_nice = or_zero (px_nice p),
                     pi_cmdline = take 200 cmd\<rparr>)"

text \<open>The number of processors (psutil may not know it) and the readings, or what raised.\<close>

definition collect_processes :: "int option \<Rightarrow> process_reading list res \<Rightarrow> int \<Rightarrow> process_info list" where
  "collect_processes cpus readings top_n =
     (let n = (case cpus of None \<Rightarrow> 1 | Some k \<Rightarrow> if k = 0 then 1 else k) in
      case readings of
        Inl _ \<Rightarrow> []
      | Inr ps \<Rightarrow> py_slice_to (max 1 top_n)
                    (sort_key (\<lambda>r. - pi_cpu r) (List.map_filter (process_row n) ps)))"

section \<open>The system\<close>

text \<open>
  What psutil tells about the system. \<open>None\<close> for the load, the disk and the counters is a call
  that raised or had no answer; the calls that are not guarded one by one are one argument of
  \<open>collect_system\<close>.
\<close>

record system_reading =
  sr_time :: instant
  sr_host :: string
  sr_cpu :: rat
  sr_cpus :: "int option"
  sr_load :: "(rat \<times> rat \<times> rat) option"
  sr_mem :: "int \<times> int \<times> int \<times> rat"
  sr_swap :: "int \<times> int \<times> rat"
  sr_disk :: "(int \<times> int \<times> int \<times> rat) option"
  sr_disk_io :: "(int \<times> int) option"
  sr_net_io :: "(int \<times> int) option"
  sr_temps :: "(string \<times> rat list) list"
  sr_pids :: nat

definition SENSORS :: "string list" where
  "SENSORS = [''coretemp'', ''cpu-thermal'', ''cpu_thermal'', ''acpitz'']"

definition cpu_temperature :: "(string \<times> rat list) list \<Rightarrow> rat option" where
  "cpu_temperature temps =
     (case List.map_filter (\<lambda>s. case map_of temps s of Some (t # _) \<Rightarrow> Some t | _ \<Rightarrow> None) SENSORS of
        [] \<Rightarrow> None | t # _ \<Rightarrow> Some t)"

definition process_json :: "process_info \<Rightarrow> json" where
  "process_json p = JObj
     [(''pid'', JInt (pi_pid p)), (''ppid'', JInt (pi_ppid p)), (''name'', JStr (pi_name p)),
      (''username'', JStr (pi_user p)), (''status'', JStr (pi_state p)), (''cpu_percent'', JNum (pi_cpu p)),
      (''mem_percent'', JNum (pi_mem p)), (''mem_rss_bytes'', JInt (pi_rss p)),
      (''threads'', JInt (pi_threads p)), (''nice'', JInt (pi_nice p)), (''cmdline'', JStr (pi_cmdline p))]"

definition opt_str :: "string option \<Rightarrow> json" where
  "opt_str x = (case x of None \<Rightarrow> JNull | Some s \<Rightarrow> JStr s)"

definition container_json :: "container_info \<Rightarrow> json" where
  "container_json c = JObj
     [(''id'', JStr (ct_id c)), (''name'', JStr (ct_name c)), (''image'', JStr (ct_image c)),
      (''status'', JStr (ct_status c)), (''health'', ct_health c), (''cpu_percent'', JNum (ct_cpu c)),
      (''mem_usage_bytes'', ct_mem c), (''mem_limit_bytes'', ct_mem_limit c),
      (''net_rx_bytes'', JNum (ct_rx c)), (''net_tx_bytes'', JNum (ct_tx c)),
      (''uptime_seconds'', JInt (ct_uptime c)), (''restart_count'', JInt (ct_restarts c)),
      (''block_read_bytes'', JInt (ct_read c)), (''block_write_bytes'', JInt (ct_write c)),
      (''ports'', JArr (map JStr (ct_ports c))), (''mounts'', JArr (map JStr (ct_mounts c))),
      (''health_failing_streak'', JInt (ct_streak c)), (''health_last_output'', opt_str (ct_output c)),
      (''created_at'', ct_created c), (''command'', opt_str (ct_command c))]"

text \<open>The snapshot as a dictionary, in the order of its fields (\<open>SystemSnapshot.to_dict\<close>).\<close>

definition collect_system :: "system_reading option \<Rightarrow> dict option" where
  "collect_system reading =
     (case reading of
        None \<Rightarrow> None
      | Some r \<Rightarrow>
          let (l1, l5, l15) = (case sr_load r of None \<Rightarrow> (0, 0, 0) | Some l \<Rightarrow> l);
              (mt, mu, ma, mp) = sr_mem r; (st, su, sp) = sr_swap r;
              (dt, du, df, dp) = (case sr_disk r of None \<Rightarrow> (0, 0, 0, 0) | Some d \<Rightarrow> d);
              (dr, dw) = (case sr_disk_io r of None \<Rightarrow> (0, 0) | Some d \<Rightarrow> d);
              (ns, nr) = (case sr_net_io r of None \<Rightarrow> (0, 0) | Some d \<Rightarrow> d) in
          Some [(''timestamp'', JTime (Aware (sr_time r))), (''hostname'', JStr (sr_host r)),
            (''cpu_percent'', JNum (round2 (sr_cpu r))),
            (''cpu_count'', JInt (case sr_cpus r of None \<Rightarrow> 1 | Some n \<Rightarrow> if n = 0 then 1 else n)),
            (''load_avg_1m'', JNum (round2 l1)), (''load_avg_5m'', JNum (round2 l5)),
            (''load_avg_15m'', JNum (round2 l15)), (''mem_total_bytes'', JInt mt),
            (''mem_used_bytes'', JInt mu), (''mem_available_bytes'', JInt ma),
            (''mem_percent'', JNum (round2 mp)), (''swap_total_bytes'', JInt st),
            (''swap_used_bytes'', JInt su), (''swap_percent'', JNum (round2 sp)),
            (''disk_total_bytes'', JInt dt), (''disk_used_bytes'', JInt du), (''disk_free_bytes'', JInt df),
            (''disk_percent'', JNum (round2 dp)), (''disk_read_bytes'', JInt dr),
            (''disk_write_bytes'', JInt dw), (''net_sent_bytes'', JInt ns), (''net_recv_bytes'', JInt nr),
            (''cpu_temp'', (case cpu_temperature (sr_temps r) of None \<Rightarrow> JNull | Some t \<Rightarrow> JNum t)),
            (''process_count'', JInt (int (sr_pids r)))])"

definition collect_all ::
  "(json \<Rightarrow> string) \<Rightarrow> instant \<Rightarrow> system_reading option \<Rightarrow> container list res option \<Rightarrow> int option
   \<Rightarrow> process_reading list res \<Rightarrow> int \<Rightarrow> dict option" where
  "collect_all show now reading docker cpus procs top_n =
     map_option (\<lambda>d. d @ [(''containers'', JArr (map container_json (collect_containers show now docker))),
                          (''processes'', JArr (map process_json (collect_processes cpus procs top_n)))])
       (collect_system reading)"

section \<open>Uptime from docker's start time\<close>

lemma zulu_append: "zulu (s @ t) = zulu s @ zulu t"
  by (simp add: zulu_def)

lemma zulu_Cons: "zulu (c # s) = (if c = CHR ''Z'' then ''+00:00'' else [c]) @ zulu s"
  and zulu_Nil: "zulu [] = []"
  by (simp_all add: zulu_def)

lemma zulu_plain: "CHR ''Z'' \<notin> set s \<Longrightarrow> zulu s = s"
  by (induction s) (auto simp: zulu_def)

lemma rstrip_zeros_append: "set s \<subseteq> {CHR ''0''} \<Longrightarrow> rstrip_zeros (t @ s) = rstrip_zeros t"
  by (auto simp: rstrip_zeros_def dropWhile_append1 dropWhile_append intro: dropWhile_cong)

lemma rstrip_zeros_keep: "c \<noteq> CHR ''0'' \<Longrightarrow> rstrip_zeros (s @ c # t) = s @ c # rstrip_zeros t"
  by (cases "\<forall>x \<in> set t. x = CHR ''0''")
    (auto simp: rstrip_zeros_def dropWhile_append dropWhile_eq_Nil_conv[THEN iffD2])

lemma rstrip_zeros_pad: "\<exists>k. s = rstrip_zeros s @ replicate k (CHR ''0'')"
proof -
  let ?z = "takeWhile (\<lambda>c. c = CHR ''0'') (rev s)"
  have "rev s = ?z @ dropWhile (\<lambda>c. c = CHR ''0'') (rev s)" by simp
  then have "s = rstrip_zeros s @ rev ?z" unfolding rstrip_zeros_def by (metis rev_append rev_rev_ident)
  moreover have "rev ?z = replicate (length ?z) (CHR ''0'')"
    by (rule replicate_eqI) (auto dest: set_takeWhileD)
  ultimately show ?thesis by metis
qed

lemma digits_value_pad:
  "digits_value (s @ replicate k (CHR ''0'')) = map_option (\<lambda>n. n * 10 ^ k) (digits_value s)"
proof -
  have "foldl (\<lambda>a c. 10 * a + (of_char c - 48)) x (replicate k (CHR ''0'')) = x * 10 ^ k" for x :: int
    by (induction k arbitrary: x) simp_all
  moreover have "list_all (\<lambda>c. 48 \<le> (of_char c :: nat) \<and> (of_char c :: nat) \<le> 57) (replicate k (CHR ''0''))"
    by (induction k) simp_all
  ultimately show ?thesis by (auto simp: digits_value_def)
qed

lemma fraction_rstrip:
  assumes "length g = 6" and "digits_value g = Some v"
  shows "fraction_micros (rstrip_zeros g) = Some v"
proof -
  obtain k where k: "g = rstrip_zeros g @ replicate k (CHR ''0'')" using rstrip_zeros_pad by blast
  then have len: "length (rstrip_zeros g) + k = 6" using assms(1) by (metis length_append length_replicate)
  from k have "digits_value g = map_option (\<lambda>n. n * 10 ^ k) (digits_value (rstrip_zeros g))"
    by (metis digits_value_pad)
  with assms(2) obtain u where u: "digits_value (rstrip_zeros g) = Some u" "v = u * 10 ^ k" by auto
  have "take 6 (rstrip_zeros g) = rstrip_zeros g" "6 - length (rstrip_zeros g) = k" using len by simp_all
  with u show ?thesis by (simp add: fraction_micros_def)
qed

lemma parse_clock_fraction:
  assumes "length hms = 8" and "parse_clock hms = Some us" and "fraction_micros g = Some v"
  shows "parse_clock (hms @ CHR ''.'' # g) = Some (us + v)"
proof -
  from assms(1) obtain a b x c d y e f where h: "hms = [a, b, x, c, d, y, e, f]"
    by (auto simp: numeral_eq_Suc length_Suc_conv)
  have "fraction_micros [] = Some 0" by (simp add: fraction_micros_def digits_value_def)
  with assms(2,3) show ?thesis
    by (auto simp: h clock_micros_def split: if_splits option.splits)
qed

lemma parse_offset_tails:
  "parse_offset ''+00:00'' = Some 0" "parse_offset ''++00:00'' = None" "parse_offset ''+00:+00:00'' = None"
  by code_simp+

text \<open>The clock of a trimmed time, up to its offset.\<close>

lemma iso_text_parts:
  assumes "length d = 10" and "parse_date True d = Some n" and "parse_clock clock = Some us"
    and "set clock \<inter> set ''+-Z'' = {}" and "off \<noteq> []" and "hd off \<in> set ''+-Z''"
  shows "iso_text (d @ CHR ''T'' # clock @ off)
    = map_option (\<lambda>z. Aware (usec (n * 86400) + us - z)) (parse_offset off)"
proof -
  have "takeWhile (\<lambda>c. c \<notin> set ''+-Z'') (clock @ off) = clock"
    using assms(4-6) by (cases off) (auto simp: takeWhile_append)
  moreover have "drop 11 (d @ CHR ''T'' # clock @ off) = clock @ off" using assms(1) by simp
  moreover have "take 10 (d @ CHR ''T'' # clock @ off) = d" using assms(1) by simp
  ultimately show ?thesis using assms(2,3,5) unfolding iso_text_def Let_def by simp
qed

lemma trim_docker:
  assumes "length d = 10" and "length hms = 8" and "set (d @ hms @ f) \<inter> set ''Z.+'' = {}"
  shows "trim_started (d @ CHR ''T'' # hms @ CHR ''.'' # f @ ''Z'')
    = Inr (d @ CHR ''T'' # hms @ CHR ''.'' # rstrip_zeros (take 6 (f @ ''+00:00'')) @ ''+00:00'')"
proof -
  let ?x = "d @ CHR ''T'' # hms"
  have x: "set ?x \<inter> set ''Z.+'' = {}" "length ?x = 19" using assms by auto
  have z: "zulu (?x @ CHR ''.'' # f @ ''Z'') = ?x @ CHR ''.'' # f @ ''+00:00''"
    using x(1) assms(3) by (simp add: zulu_append zulu_Cons zulu_Nil zulu_plain)
  have i: "takeWhile (\<lambda>c. c \<noteq> CHR ''.'') (?x @ CHR ''.'' # f @ ''+00:00'') = ?x"
    using x(1) by (subst takeWhile_append2) auto
  have p: "dropWhile (\<lambda>c. c \<noteq> CHR ''+'') (?x @ CHR ''.'' # f @ ''+00:00'') = ''+00:00''"
    using x(1) assms(3) by (auto simp: dropWhile_append)
  have t: "take (19 + 7) (?x @ CHR ''.'' # f @ ''+00:00'') = ?x @ CHR ''.'' # take 6 (f @ ''+00:00'')"
    using x(2) by (simp only: take_append take_Suc_Cons) simp
  show ?thesis
    unfolding trim_started_def Let_def using z i p t x(2)
    by (simp add: rstrip_zeros_keep)
qed

lemma short_fraction:
  assumes "f \<noteq> []" and "length f < 6"
  shows "rstrip_zeros (take 6 (f @ ''+00:00'')) = f @ ''+'' \<or> rstrip_zeros (take 6 (f @ ''+00:00'')) = f @ ''+00:''"
proof -
  have "length f \<noteq> 0" using assms(1) by simp
  with assms(2) have "length f = 1 \<or> length f = 2 \<or> length f = 3 \<or> length f = 4 \<or> length f = 5" by arith
  then have "take 6 (f @ ''+00:00'') \<in> (\<lambda>t. f @ t) ` {''+'', ''+0'', ''+00'', ''+00:'', ''+00:0''}"
    by (auto simp: numeral_eq_Suc)
  moreover have "rstrip_zeros (f @ CHR ''+'' # t) = f @ CHR ''+'' # rstrip_zeros t" for t
    by (rule rstrip_zeros_keep) simp
  moreover have "rstrip_zeros [] = []" "rstrip_zeros ''0'' = []" "rstrip_zeros ''00'' = []"
    "rstrip_zeros ''00:'' = ''00:''" "rstrip_zeros ''00:0'' = ''00:''"
    by (simp_all add: rstrip_zeros_def)
  ultimately show ?thesis by auto
qed

text \<open>
  The uptime of a container is the time since docker's start time, cut to microseconds, when
  docker writes at least six digits of the second. Docker drops trailing zeros: when it writes
  one to five digits, the collector cuts into the offset and the uptime is 0.
\<close>

theorem docker_uptime:
  assumes "length d = 10" and "parse_date True d = Some n"
    and "length hms = 8" and "parse_clock hms = Some us"
    and "set (d @ hms) \<inter> set ''Z.+-'' \<subseteq> {CHR ''-''}" and "CHR ''-'' \<notin> set hms"
    and "f \<noteq> []" and "digits_value f = Some w" and "digits_value (take 6 f) = Some v"
  shows "uptime_of now (d @ CHR ''T'' # hms @ CHR ''.'' # f @ ''Z'') =
    (if length f < 6 then 0 else py_int (of_int (now - (usec (n * 86400) + us + v)) / 1000000))"
proof -
  have "list_all (\<lambda>c. 48 \<le> (of_char c :: nat) \<and> (of_char c :: nat) \<le> 57) f"
    using assms(8) by (simp add: digits_value_def split: if_splits)
  then have f: "set f \<inter> set ''Z.+-'' = {}" by (auto simp: list_all_iff)
  have h: "set hms \<inter> set ''+-Z'' = {}" "set (d @ hms @ f) \<inter> set ''Z.+'' = {}"
    using assms(5,6) f by auto
  note trim = trim_docker[OF assms(1,3) h(2)]
  show ?thesis
  proof (cases "length f < 6")
    case True
    from short_fraction[OF assms(7) this] obtain p where
      p: "rstrip_zeros (take 6 (f @ ''+00:00'')) = f @ p" "p = ''+'' \<or> p = ''+00:''" by blast
    obtain us' where c: "parse_clock (hms @ CHR ''.'' # f) = Some us'"
      using parse_clock_fraction[OF assms(3,4), of f] assms(8,9) by (auto simp: fraction_micros_def)
    have s: "set (hms @ CHR ''.'' # f) \<inter> set ''+-Z'' = {}" using h(1) f by auto
    have "iso_text (d @ CHR ''T'' # (hms @ CHR ''.'' # f) @ (p @ ''+00:00'')) = None"
      using iso_text_parts[OF assms(1,2) c s, of "p @ ''+00:00''"] p(2) parse_offset_tails by auto
    then show ?thesis using True trim p(1) by (simp add: uptime_of_def)
  next
    case False
    define g where "g = rstrip_zeros (take 6 f)"
    have "length (take 6 f) = 6" using False by simp
    from parse_clock_fraction[OF assms(3,4) fraction_rstrip[OF this assms(9)]]
    have c: "parse_clock (hms @ CHR ''.'' # g) = Some (us + v)" by (simp add: g_def)
    have "set g \<subseteq> set f" using rstrip_zeros_pad[of "take 6 f"] set_take_subset[of 6 f]
      unfolding g_def by (metis Un_upper1 set_append subset_trans)
    then have s: "set (hms @ CHR ''.'' # g) \<inter> set ''+-Z'' = {}" using h(1) f by auto
    have "iso_text (d @ CHR ''T'' # (hms @ CHR ''.'' # g) @ ''+00:00'') = Some (Aware (usec (n * 86400) + (us + v)))"
      using iso_text_parts[OF assms(1,2) c s, of "''+00:00''"] parse_offset_tails(1) by simp
    then show ?thesis using False trim by (simp add: uptime_of_def g_def add.assoc)
  qed
qed

theorem docker_uptime_witness:
  "uptime_of 1704164745123457 ''2024-01-02T03:04:05.123456789Z'' = 100
   \<and> uptime_of 1704164745123457 ''2024-01-02T03:04:05.12345Z'' = 0"
proof -
  have d: "length ''2024-01-02'' = 10" "parse_date True ''2024-01-02'' = Some 19724"
    "length ''03:04:05'' = 8" "parse_clock ''03:04:05'' = Some 11045000000"
    "set (''2024-01-02'' @ ''03:04:05'') \<inter> set ''Z.+-'' \<subseteq> {CHR ''-''}" "CHR ''-'' \<notin> set ''03:04:05''"
    by code_simp+
  have f: "''123456789'' \<noteq> ([] :: string)" "digits_value ''123456789'' = Some 123456789"
    "digits_value (take 6 ''123456789'') = Some 123456"
    "''12345'' \<noteq> ([] :: string)" "digits_value ''12345'' = Some 12345"
    "digits_value (take 6 ''12345'') = Some 12345"
    by code_simp+
  from docker_uptime[OF d f(1-3), of 1704164745123457] docker_uptime[OF d f(4-6), of 1704164745123457]
  show ?thesis by (simp add: usec_def py_int_def floor_divide_of_int_eq[of 100000001 1000000, where ?'a = rat, simplified])
qed

section \<open>The process list\<close>

lemma sort_key_desc_sorted: "sorted_wrt (\<lambda>a b. (f b :: rat) \<le> f a) (sort_key (\<lambda>x. - f x) xs)"
proof -
  have "sorted (map (\<lambda>x. - f x) (sort_key (\<lambda>x. - f x) xs))" by (rule sorted_sort_key)
  then show ?thesis by (simp add: sorted_map)
qed

definition process_rows :: "int option \<Rightarrow> process_reading list \<Rightarrow> process_info list" where
  "process_rows cpus ps =
     List.map_filter (process_row (case cpus of None \<Rightarrow> 1 | Some k \<Rightarrow> if k = 0 then 1 else k)) ps"

lemma collect_processes_rows:
  "collect_processes cpus (Inr ps) top_n =
   take (nat (max 1 top_n)) (sort_key (\<lambda>r. - pi_cpu r) (process_rows cpus ps))"
  by (simp add: collect_processes_def process_rows_def py_slice_to_def Let_def)

text \<open>
  The process list is the busiest processes: as many as asked for (at least one) or all there
  are, in descending order of CPU share, every listed process at least as busy as every one
  left out, and none listed twice or made up.
\<close>

theorem busiest_processes:
  "\<exists>rest. mset (process_rows cpus ps) = mset (collect_processes cpus (Inr ps) top_n) + mset rest
    \<and> length (collect_processes cpus (Inr ps) top_n) = min (length (process_rows cpus ps)) (nat (max 1 top_n))
    \<and> sorted_wrt (\<lambda>a b. pi_cpu b \<le> pi_cpu a) (collect_processes cpus (Inr ps) top_n @ rest)"
proof -
  let ?s = "sort_key (\<lambda>r. - pi_cpu r) (process_rows cpus ps)" and ?k = "nat (max 1 top_n)"
  have "mset (take ?k ?s) + mset (drop ?k ?s) = mset (take ?k ?s @ drop ?k ?s)" by (simp only: mset_append)
  then have "mset (process_rows cpus ps) = mset (take ?k ?s) + mset (drop ?k ?s)" by simp
  moreover have "sorted_wrt (\<lambda>a b. pi_cpu b \<le> pi_cpu a) (take ?k ?s @ drop ?k ?s)"
    by (simp only: append_take_drop_id) (rule sort_key_desc_sorted)
  ultimately show ?thesis
    by (intro exI[of _ "drop ?k ?s"]) (simp add: collect_processes_rows)
qed

text \<open>
  No kernel thread is listed, and the user shown is \<open>root\<close> for user id 0, \<open>system\<close> for the other
  ids below 1000, and the name psutil gives otherwise: \<open>nobody\<close>, whose id is 65534 on Linux, is
  shown as \<open>nobody\<close>, although the comment wants it shown as \<open>system\<close>.
\<close>

theorem nobody_is_not_system:
  assumes "process_row n p = Some r"
  shows "(pi_rss r \<noteq> 0 \<or> or_empty (px_cmdline p) \<noteq> [])
    \<and> pi_user r = (case px_uid p of
        Some u \<Rightarrow> if u = 0 then ''root'' else if u < 1000 then ''system''
                  else if or_empty (px_user p) = [] then ''unknown'' else or_empty (px_user p)
      | None \<Rightarrow> if or_empty (px_user p) = [] then ''unknown'' else or_empty (px_user p))
    \<and> (px_user p = Some ''nobody'' \<and> px_uid p = Some 65534 \<longrightarrow> pi_user r = ''nobody'')"
proof -
  have r: "pi_user r = process_user (px_uid p) (px_user p)" "pi_rss r = or_zero (px_rss p)"
    "\<not> (or_zero (px_rss p) = 0 \<and> or_empty (px_cmdline p) = [])"
    using assms by (auto simp: process_row_def Let_def split: sum.splits if_splits)
  have "process_user (px_uid p) (px_user p) = (case px_uid p of
        Some u \<Rightarrow> if u = 0 then ''root'' else if u < 1000 then ''system''
                  else if or_empty (px_user p) = [] then ''unknown'' else or_empty (px_user p)
      | None \<Rightarrow> if or_empty (px_user p) = [] then ''unknown'' else or_empty (px_user p))"
    by (cases "px_uid p") (auto simp: process_user_def Let_def)
  with r show ?thesis by auto
qed

definition demo_nobody :: process_reading where
  "demo_nobody = \<lparr>px_pid = Some 7, px_ppid = Some 1, px_name = Some ''dnsmasq'', px_user = Some ''nobody'',
     px_state = Some ''sleeping'', px_mem = Some 1, px_rss = Some 4096, px_threads = Some 1, px_nice = Some 0,
     px_cmdline = Some [''dnsmasq''], px_uid = Some 65534, px_cpu = Inr 8\<rparr>"

theorem nobody_is_not_system_witness: "\<exists>r. process_row 4 demo_nobody = Some r \<and> pi_user r = ''nobody''"
proof -
  obtain r where r: "process_row 4 demo_nobody = Some r"
    by (simp add: process_row_def demo_nobody_def Let_def)
  with nobody_is_not_system[OF r] show ?thesis by (simp add: demo_nobody_def)
qed

section \<open>Containers\<close>

lemma try_steps_invariant:
  assumes "\<And>f s s'. f \<in> set fs \<Longrightarrow> P s \<Longrightarrow> f s = Inr s' \<Longrightarrow> P s'" and "P s"
  shows "P (try_steps fs s)"
  using assms by (induction fs arbitrary: s) (auto split: sum.splits)

definition info_bounded :: "container_info \<Rightarrow> bool" where
  "info_bounded c \<longleftrightarrow>
     (\<forall>s. ct_output c = Some s \<longrightarrow> length s \<le> 400) \<and> (\<forall>s. ct_command c = Some s \<longrightarrow> length s \<le> 200)"

lemma failing_steps_mem:
  "f \<in> set (failing_steps r g) \<Longrightarrow> (\<exists>e. f = (\<lambda>_. Inl e)) \<or> (\<exists>xs x. r = Inr xs \<and> x \<in> set xs \<and> f \<in> set (g x))"
  by (auto simp: failing_steps_def split: sum.splits)

lemma info_bounded_updates [simp]:
  "info_bounded (c\<lparr>ct_ports := x1\<rparr>) = info_bounded c" "info_bounded (c\<lparr>ct_mounts := x1\<rparr>) = info_bounded c"
  "info_bounded (c\<lparr>ct_rx := x2\<rparr>) = info_bounded c" "info_bounded (c\<lparr>ct_tx := x2\<rparr>) = info_bounded c"
  "info_bounded (c\<lparr>ct_cpu := x2\<rparr>) = info_bounded c" "info_bounded (c\<lparr>ct_mem := x3\<rparr>) = info_bounded c"
  "info_bounded (c\<lparr>ct_mem_limit := x3\<rparr>) = info_bounded c" "info_bounded (c\<lparr>ct_read := x4\<rparr>) = info_bounded c"
  "info_bounded (c\<lparr>ct_write := x4\<rparr>) = info_bounded c" "info_bounded (c\<lparr>ct_uptime := x4\<rparr>) = info_bounded c"
  "info_bounded (c\<lparr>ct_restarts := x4\<rparr>) = info_bounded c" "info_bounded (c\<lparr>ct_streak := x4\<rparr>) = info_bounded c"
  "info_bounded (c\<lparr>ct_created := x3\<rparr>) = info_bounded c" "info_bounded (c\<lparr>ct_health := x3\<rparr>) = info_bounded c"
  by (simp_all add: info_bounded_def)

lemma add_port_bounded: "add_port p c = Inr c' \<Longrightarrow> info_bounded c \<Longrightarrow> info_bounded c'"
  by (auto simp: add_port_def)

lemma binding_step_bounded: "binding_step show p b c = Inr c' \<Longrightarrow> info_bounded c \<Longrightarrow> info_bounded c'"
  unfolding binding_step_def rbind_Inr_conv Let_def by (auto intro: add_port_bounded)

lemma port_steps_mem:
  assumes "f \<in> set (port_steps show x)"
  shows "f = add_port (fst x) \<or> (\<exists>e. f = (\<lambda>_. Inl e)) \<or> (\<exists>b. f = binding_step show (fst x) b)"
  using assms unfolding port_steps_def by (cases "py_list (snd x)") (auto split: prod.splits if_splits)

lemma port_steps_bounded:
  assumes "f \<in> set (port_steps show x)" "info_bounded c" "f c = Inr c'"
  shows "info_bounded c'"
  using port_steps_mem[OF assms(1)] assms(2,3) by (auto intro: add_port_bounded binding_step_bounded)

lemma iface_steps_bounded:
  "f \<in> set (iface_steps x) \<Longrightarrow> info_bounded c \<Longrightarrow> f c = Inr c' \<Longrightarrow> info_bounded c'"
  by (auto simp: iface_steps_def rbind_Inr_conv Let_def)

lemma command_step_bounded:
  assumes "command_step show cfg c = Inr c'" "info_bounded c"
  shows "info_bounded c'"
proof -
  from assms(1) have "c' = c \<or> (\<exists>s. c' = c\<lparr>ct_command := Some (take 200 s)\<rparr>)"
    unfolding command_step_def Let_def rbind_Inr_conv joined_def
    by (cases "dget cfg ''Entrypoint''") (auto simp: rbind_Inr_conv split: if_splits)
  then show ?thesis using assms(2) by (auto simp: info_bounded_def)
qed

lemma health_output_bounded:
  assumes "health_output e c = Inr c'" "info_bounded c"
  shows "info_bounded c'"
proof (cases "truthy e")
  case True
  with assms(1) obtain xs where xs: "e = JArr xs" by (cases e) (simp_all add: health_output_def)
  then obtain v where v: "c' = c\<lparr>ct_output := (case v of JStr s \<Rightarrow> Some (take 400 s) | _ \<Rightarrow> None)\<rparr>"
    using assms(1) True by (auto simp: health_output_def rbind_Inr_conv)
  show ?thesis using assms(2) unfolding v by (cases v) (simp_all add: info_bounded_def)
next
  case False
  with assms show ?thesis by (simp add: health_output_def)
qed

lemma mount_step_bounded: "mount_step show m c = Inr c' \<Longrightarrow> info_bounded c \<Longrightarrow> info_bounded c'"
  by (auto simp: mount_step_def rbind_Inr_conv Let_def)

lemma cpu_step_bounded: "cpu_step st c = Inr c' \<Longrightarrow> info_bounded c \<Longrightarrow> info_bounded c'"
  unfolding cpu_step_def Let_def rbind_Inr_conv by (elim exE conjE) (auto split: if_splits)

lemma block_step_bounded: "block_step e c = Inr c' \<Longrightarrow> info_bounded c \<Longrightarrow> info_bounded c'"
  unfolding block_step_def rbind_Inr_conv
  by (elim exE conjE) (auto split: if_splits option.splits json.splits)

lemma attr_steps_bounded:
  assumes "f \<in> set (attr_steps show now attrs state)" "info_bounded c" "f c = Inr c'"
  shows "info_bounded c'"
  using assms(1) unfolding attr_steps_def Let_def set_append list.set Un_iff insert_iff
proof (elim disjE)
  assume "f \<in> set (failing_steps (rbind (sub_dict (dget attrs ''NetworkSettings'')) (\<lambda>net. sub_dict (dget net ''Ports'')))
          (port_steps show))"
  then show ?thesis using assms(2,3) by (auto dest!: failing_steps_mem intro: port_steps_bounded)
next
  assume "f \<in> set (failing_steps (if truthy (dget attrs ''Mounts'') then py_list (dget attrs ''Mounts'') else Inr [])
          (\<lambda>m. [mount_step show m]))"
  then show ?thesis using assms(2,3) by (auto dest!: failing_steps_mem intro: mount_step_bounded)
qed (use assms(2,3) in \<open>auto simp: rbind_Inr_conv started_step_def split: if_splits
      dest: health_output_bounded command_step_bounded\<close>)

lemma stat_steps_bounded:
  assumes "f \<in> set (stat_steps st)" "info_bounded c" "f c = Inr c'"
  shows "info_bounded c'"
  using assms(1) unfolding stat_steps_def set_append list.set Un_iff insert_iff
proof (elim disjE)
  assume "f \<in> set (failing_steps (need_dict (dget_default st ''networks'' (JObj []))) iface_steps)"
  then show ?thesis using assms(2,3) by (auto dest!: failing_steps_mem intro: iface_steps_bounded)
next
  assume "f \<in> set (failing_steps (rbind (sub_dict (dget st ''blkio_stats'')) (\<lambda>b.
      let es = dget b ''io_service_bytes_recursive'' in if truthy es then py_list es else Inr [])) (\<lambda>e. [block_step e]))"
  then show ?thesis using assms(2,3) by (auto dest!: failing_steps_mem intro: block_step_bounded)
qed (use assms(2,3) in \<open>auto simp: rbind_Inr_conv memory_step_def dest: cpu_step_bounded\<close>)

lemma attr_block_bounded: "info_bounded c \<Longrightarrow> info_bounded (try_steps (attr_steps show now attrs state) c)"
  by (rule try_steps_invariant[where P = info_bounded]) (auto intro: attr_steps_bounded)

lemma stat_block_bounded: "info_bounded c \<Longrightarrow> info_bounded (try_steps (stat_steps st) c)"
  by (rule try_steps_invariant[where P = info_bounded]) (auto intro: stat_steps_bounded)

lemma blank_info_bounded [simp]: "info_bounded (blank_info c img)"
  by (simp add: info_bounded_def blank_info_def)

text \<open>
  Whatever docker answers (attributes and statistics of any shape), a container is reported
  unless its image is unreadable, with an uptime that is not negative, at most 400 characters of
  health-check output and at most 200 of its command.
\<close>

theorem container_report_bounded:
  "case collect_one_container show now c of
     Inl e \<Rightarrow> dk_image c = Inl e
   | Inr i \<Rightarrow> is_ok (dk_image c) \<and> info_bounded i \<and> 0 \<le> ct_uptime i"
proof (cases "dk_image c")
  case (Inr im)
  then obtain i where i: "collect_one_container show now c = Inr i"
    by (simp add: collect_one_container_def Let_def)
  then have "info_bounded i \<and> 0 \<le> ct_uptime i"
    unfolding collect_one_container_def Let_def rbind_Inr_conv
    by (elim exE conjE) (auto intro!: attr_block_bounded stat_block_bounded split: sum.splits)
  with i Inr show ?thesis by simp
qed (simp add: collect_one_container_def)

section \<open>Snapshots on their way to the log store\<close>

text \<open>A dictionary the collector returned, for some answers of psutil and docker.\<close>

definition collected :: "dict \<Rightarrow> bool" where
  "collected d \<longleftrightarrow>
     (\<exists>show now r docker cpus procs top_n. collect_all show now (Some r) docker cpus procs top_n = Some d)"

lemma collect_system_numbers:
  assumes "k \<in> {''cpu_percent'', ''mem_percent'', ''disk_percent'', ''net_recv_bytes'', ''net_sent_bytes''}"
  shows "\<exists>d v. collect_system (Some r) = Some d \<and> map_of d k = Some v \<and> is_ok (need_number v)"
proof -
  obtain l1 l5 l15 where l: "(case sr_load r of None \<Rightarrow> (0, 0, 0) | Some l \<Rightarrow> l) = (l1, l5, l15)"
    by (rule prod_cases3)
  obtain mt mu ma mp where m: "sr_mem r = (mt, mu, ma, mp)" by (rule prod_cases4)
  obtain st su sp where s: "sr_swap r = (st, su, sp)" by (rule prod_cases3)
  obtain dt du df dp where d: "(case sr_disk r of None \<Rightarrow> (0, 0, 0, 0) | Some d \<Rightarrow> d) = (dt, du, df, dp)"
    by (rule prod_cases4)
  obtain dr dw where dd: "(case sr_disk_io r of None \<Rightarrow> (0, 0) | Some d \<Rightarrow> d) = (dr, dw)" by (rule prod.exhaust)
  obtain ns nr where n: "(case sr_net_io r of None \<Rightarrow> (0, 0) | Some d \<Rightarrow> d) = (ns, nr)" by (rule prod.exhaust)
  show ?thesis using assms
    unfolding collect_system_def Let_def option.case l m s d dd n prod.case
    by (elim insertE emptyE) (simp_all add: need_number_def)
qed

lemma collected_numbers:
  assumes "collected d"
    and "k \<in> {''cpu_percent'', ''mem_percent'', ''disk_percent'', ''net_recv_bytes'', ''net_sent_bytes''}"
  shows "\<exists>v. map_of d k = Some v \<and> is_ok (need_number v)"
proof -
  obtain f now r docker cpus procs top_n where
    "collect_all f now (Some r) docker cpus procs top_n = Some d"
    using assms(1) unfolding collected_def by blast
  with collect_system_numbers[OF assms(2), of r] show ?thesis
    by (auto simp: collect_all_def map_add_Some_iff)
qed

lemma rmap_total: "(\<And>x. x \<in> set xs \<Longrightarrow> is_ok (f x)) \<Longrightarrow> is_ok (rmap f xs)"
proof (induction xs)
  case (Cons x xs)
  obtain y ys where "f x = Inr y" "rmap f xs = Inr ys"
    using Cons.prems[of x] Cons.IH Cons.prems by (cases "f x"; cases "rmap f xs") auto
  then show ?case by simp
qed simp

lemma rfold_total: "(\<And>s x. x \<in> set xs \<Longrightarrow> is_ok (f s x)) \<Longrightarrow> is_ok (rfold f s xs)"
proof (induction xs arbitrary: s)
  case (Cons x xs)
  obtain s' where "f s x = Inr s'" using Cons.prems[of x s] by (cases "f s x") auto
  then show ?case using Cons by simp
qed simp

lemma net_delta_total: "(\<And>v. v \<in> set vals \<Longrightarrow> is_ok (need_number v)) \<Longrightarrow> is_ok (net_delta vals)"
proof -
  assume n: "\<And>v. v \<in> set vals \<Longrightarrow> is_ok (need_number v)"
  show ?thesis
  proof (cases "2 \<le> length vals")
    case True
    then have "vals \<noteq> []" by auto
    then obtain a b where "need_number (last vals) = Inr b" "need_number (hd vals) = Inr a"
      using n[of "last vals"] n[of "hd vals"] by (auto simp: is_ok_def split: sum.splits)
    then show ?thesis by (simp add: net_delta_def)
  qed (simp add: net_delta_def)
qed

lemma aggregate_total:
  assumes "\<And>d. d \<in> set ds \<Longrightarrow> collected d" and "is_ok (from_epoch w)" and "is_ok (from_epoch e)"
  shows "is_ok (aggregate_snaps own ds w e sz)"
proof -
  have v: "is_ok (need_number v)" if "v \<in> set (snap_values k ds)"
    and "k \<in> {''cpu_percent'', ''mem_percent'', ''disk_percent'', ''net_recv_bytes'', ''net_sent_bytes''}" for v k
    using that assms(1) collected_numbers by (fastforce simp: snap_values_def map_filter_def)
  have "is_ok (net_delta (snap_values ''net_recv_bytes'' ds))" "is_ok (net_delta (snap_values ''net_sent_bytes'' ds))"
    "is_ok (rmap need_number (snap_values ''cpu_percent'' ds))" "is_ok (rmap need_number (snap_values ''mem_percent'' ds))"
    "is_ok (rmap need_number (snap_values ''disk_percent'' ds))"
    by (rule net_delta_total rmap_total, erule v, simp)+
  with assms(2,3) show ?thesis unfolding aggregate_snaps_def
    by (auto simp: is_ok_def split: sum.splits)
qed

lemma run_ls_payloads:
  assumes "r \<in> set (own_snaps (run_ls s ops))" and "\<And>x. x \<in> set ops \<Longrightarrow> 0 \<le> op_time x"
  shows "r \<in> set (own_snaps s) \<or> (0 \<le> sn_ts r \<and> (\<exists>t. Snap t (sn_payload r) \<in> set ops))"
  using assms
proof (induction ops arbitrary: s)
  case (Cons x ops)
  have t: "0 \<le> op_time x" using Cons.prems(2) by simp
  have "r \<in> set (own_snaps (run_ls_op s x)) \<or> (0 \<le> sn_ts r \<and> (\<exists>t. Snap t (sn_payload r) \<in> set ops))"
    using Cons.IH[of "run_ls_op s x"] Cons.prems by (simp add: run_ls_def)
  moreover have "r \<in> set (own_snaps s) \<or> (0 \<le> sn_ts r \<and> (\<exists>t. x = Snap t (sn_payload r)))"
    if "r \<in> set (own_snaps (run_ls_op s x))"
    using that t
    by (cases x) (auto simp: record_snapshot_def roll_up_5min_def insert_or_replace_def own_snaps_def Let_def
        own_id_def to_epoch_def split: sum.splits)
  ultimately show ?case by auto
qed (simp add: run_ls_def)

text \<open>
  C30: What the collector records, the roll-up can always aggregate: when every snapshot of a run was
  collected (whatever psutil and docker answered), the next roll-up returns, with as many new
  buckets as there are windows to close. A snapshot from elsewhere could raise in it for ever.
\<close>

theorem collected_snapshots_roll_up:
  assumes "sorted (map op_time ops)" and "\<forall>x \<in> set ops. 0 \<le> op_time x"
    and "\<forall>t d. Snap t d \<in> set ops \<longrightarrow> collected d" and "to_epoch now \<le> 253402280999"
  shows "\<exists>s' n. roll_up_5min (run_ls (new_log_store own) ops) now = (s', Inr n)"
proof -
  let ?s = "run_ls (new_log_store own) ops"
  have "\<forall>x \<in> set ops. roll_lower (new_log_store own) \<le> to_epoch (op_time x)"
    using assms(2) by (auto simp: roll_lower_def five_min_buckets_def new_log_store_def to_epoch_def)
  then have lower: "0 \<le> roll_lower ?s"
    using run_ls_ok[OF roll_ok_new assms(1)] by (auto simp: roll_ok_def)
  define rows where "rows = sort_key sn_ts [r \<leftarrow> ls_raw ?s. sn_peer r = own_id ?s
    \<and> roll_lower ?s \<le> sn_ts r \<and> sn_ts r < roll_cutoff now]"
  have row: "collected (sn_payload r) \<and> is_ok (from_epoch (window_start (sn_ts r)))
      \<and> is_ok (from_epoch (window_start (sn_ts r) + BUCKET_5MIN_SECS))" if "r \<in> set rows" for r
  proof -
    have r: "r \<in> set (own_snaps ?s)" "roll_lower ?s \<le> sn_ts r" "sn_ts r < roll_cutoff now"
      using that by (auto simp: rows_def own_snaps_def)
    from run_ls_payloads[OF r(1)] assms(2) have "\<exists>t. Snap t (sn_payload r) \<in> set ops"
      by (auto simp: own_snaps_def new_log_store_def)
    moreover have "0 \<le> window_start (sn_ts r) \<and> window_start (sn_ts r) + BUCKET_5MIN_SECS \<le> roll_cutoff now"
      using window_start_between[of 0 "roll_cutoff now" "sn_ts r"] roll_cutoff_dvd[of now] lower r(2,3) by auto
    moreover have "roll_cutoff now \<le> to_epoch now" by (simp add: roll_cutoff_def)
    ultimately show ?thesis using assms(3,4) by (auto simp: from_epoch_def)
  qed
  define groups where "groups = group_rows (\<lambda>r. window_start (sn_ts r)) sn_payload rows"
  have "is_ok (rfold (roll_window (own_id ?s)) (ls_buckets ?s, 0) groups)"
  proof (rule rfold_total)
    fix acc x
    assume "x \<in> set groups"
    obtain w ds where w: "x = (w, ds)" by (cases x)
    with \<open>x \<in> set groups\<close> have x: "x = (w, ds)" "w \<in> (\<lambda>r. window_start (sn_ts r)) ` set rows"
      "ds = map sn_payload [r \<leftarrow> rows. window_start (sn_ts r) = w]"
      unfolding groups_def w group_rows_mem by simp_all
    then have "is_ok (aggregate_snaps (own_id ?s) ds w (w + BUCKET_5MIN_SECS) BUCKET_5MIN_SECS)"
      using row by (intro aggregate_total) auto
    then show "is_ok (roll_window (own_id ?s) acc x)"
      by (auto simp: x(1) roll_window_eval is_ok_def split: sum.splits)
  qed
  then obtain t n where "rfold (roll_window (own_id ?s)) (ls_buckets ?s, 0) groups = Inr (t, n)"
    by (auto simp: is_ok_def split: sum.splits)
  then show ?thesis
    by (auto simp: roll_up_5min_def Let_def rows_def groups_def)
qed

definition demo_reading :: system_reading where
  "demo_reading = \<lparr>sr_time = 0, sr_host = ''host'', sr_cpu = 5, sr_cpus = Some 4, sr_load = None,
     sr_mem = (100, 50, 50, 50), sr_swap = (0, 0, 0), sr_disk = None, sr_disk_io = None, sr_net_io = Some (1, 2),
     sr_temps = [(''acpitz'', [40])], sr_pids = 3\<rparr>"

theorem collected_snapshots_roll_up_witness:
  "\<exists>d s' n. collect_all (\<lambda>_. []) 0 (Some demo_reading) None None (Inr []) 20 = Some d
     \<and> roll_up_5min (run_ls (new_log_store ''me'') [Snap 5000000 d]) 600000000 = (s', Inr n)"
proof -
  obtain d where d: "collect_all (\<lambda>_. []) 0 (Some demo_reading) None None (Inr []) 20 = Some d"
    by (simp add: collect_all_def collect_system_def demo_reading_def)
  then have "collected d" unfolding collected_def by blast
  then have "\<forall>t e. Snap t e \<in> set [Snap 5000000 d] \<longrightarrow> collected e" by simp
  from collected_snapshots_roll_up[OF _ _ this, of 600000000 "''me''"] d
  show ?thesis by (simp add: to_epoch_def)
qed

end
