(* ===== verification/Webapp.thy ===== *)
theory Webapp
  imports Controlsock
begin

text \<open>
  The web dashboard (src/webapp.py): its text helpers, the guard in front of every request, the
  login with its lock, the routes that change the trust store, the container logs, the incident
  page, the dashboard's summary, and the two relays of the browser terminal. Flask is outside: a
  request comes with its route, its headers, its form and whether its session cookie is one the
  daemon signed; the answer says what becomes of the session. HTML is represented by the data
  that is put into it.
\<close>

section \<open>Text\<close>

fun nat_text :: "nat \<Rightarrow> string" where
  "nat_text n = (if n < 10 then [digit (int n)] else nat_text (n div 10) @ [digit (int (n mod 10))])"

declare nat_text.simps [simp del]

definition int_text :: "int \<Rightarrow> string" where
  "int_text n = (if n < 0 then CHR ''-'' # nat_text (nat (- n)) else nat_text (nat n))"

text \<open>\<open>_rel\<close>: how long ago.\<close>

definition rel :: "instant \<Rightarrow> instant option \<Rightarrow> string" where
  "rel now dt =
     (case dt of
        None \<Rightarrow> ''never''
      | Some t \<Rightarrow>
          let delta = py_int (of_int (now - t) / 1000000) in
          if delta < 60 then int_text delta @ ''s ago''
          else if delta < 3600 then int_text (delta div 60) @ ''m ago''
          else if delta < 86400 then int_text (delta div 3600) @ ''h ago''
          else int_text (delta div 86400) @ ''d ago'')"

definition fmt_dur :: "int \<Rightarrow> string" where
  "fmt_dur s =
     (if s < 60 then int_text s @ ''s''
      else if s < 3600 then int_text (s div 60) @ ''m '' @ int_text (s mod 60) @ ''s''
      else if s < 86400 then int_text (s div 3600) @ ''h '' @ int_text ((s mod 3600) div 60) @ ''m''
      else int_text (s div 86400) @ ''d '' @ int_text ((s mod 86400) div 3600) @ ''h'')"

text \<open>\<open>_esc\<close>: the replacements one after the other, the ampersand first.\<close>

definition replace_char :: "char \<Rightarrow> string \<Rightarrow> string \<Rightarrow> string" where
  "replace_char c t s = concat (map (\<lambda>x. if x = c then t else [x]) s)"

definition esc :: "string \<Rightarrow> string" where
  "esc s = replace_char (CHR 0x22) ''&quot;'' (replace_char (CHR ''>'') ''&gt;''
             (replace_char (CHR ''<'') ''&lt;'' (replace_char (CHR ''&'') ''&amp;'' s)))"

text \<open>\<open>^[0-9a-fA-F]{8,64}$\<close>, with \<open>match\<close>: a final newline is accepted.\<close>

definition any_hex :: "char \<Rightarrow> bool" where
  "any_hex c \<longleftrightarrow> c \<in> set ''0123456789abcdefABCDEF''"

definition short_node_id :: "string \<Rightarrow> bool" where
  "short_node_id s \<longleftrightarrow>
     (8 \<le> length s \<and> length s \<le> 64 \<and> list_all any_hex s)
     \<or> (9 \<le> length s \<and> length s \<le> 65 \<and> list_all any_hex (butlast s) \<and> last s = CHR 0x0A)"

section \<open>Requests and answers\<close>

datatype web_route =
    Login
  | Logout
  | Index
  | ApiDashboard
  | ApiPeers
  | ApiPeer string
  | Incidents string
  | ApiLogs string
  | ApiNodeLogs string string
  | ApiShell string
  | NoRoute string

fun route_text :: "web_route \<Rightarrow> string" where
  "route_text Login = ''/login''"
| "route_text Logout = ''/logout''"
| "route_text Index = ''/''"
| "route_text ApiDashboard = ''/api/dashboard''"
| "route_text ApiPeers = ''/api/peers''"
| "route_text (ApiPeer n) = ''/api/peers/'' @ n"
| "route_text (Incidents n) = ''/incidents/'' @ n"
| "route_text (ApiLogs c) = ''/api/container/'' @ c @ ''/logs''"
| "route_text (ApiNodeLogs n c) = ''/api/node/'' @ n @ ''/container/'' @ c @ ''/logs''"
| "route_text (ApiShell n) = ''/api/node/'' @ n @ ''/shell''"
| "route_text (NoRoute p) = p"

text \<open>
  A request: method, route, the \<open>Origin\<close> and \<open>Host\<close> headers, the password of the form, the JSON
  body (\<open>JNull\<close> when there is none), the \<open>tail\<close> argument, and whether its session is logged in.
\<close>

record web_request =
  wq_method :: http_method
  wq_route :: web_route
  wq_origin :: "string option"
  wq_host :: string
  wq_password :: "string option"
  wq_json :: json
  wq_tail :: "string option"
  wq_authed :: bool

datatype shell_start = LocalShell | PeerShell node_id

datatype web_answer =
    Page
  | LoginPage "string option"
  | GoTo string
  | WebError int string
  | IncidentsPage string string "incident list"
  | WebJson json
  | WebFailed int json
  | WebOk
  | Dashboard
  | Terminal shell_start
  | ClosedSocket
  | WebRaised py_error

text \<open>What the answer does to the session: nothing, log it in, clear it.\<close>

datatype session_change = KeepSession | LogIn | ClearSession

section \<open>The guard\<close>

definition allowed_origins :: "nat \<Rightarrow> string list" where
  "allowed_origins port = map (\<lambda>h. ''http://'' @ h @ '':'' @ nat_text port) [''127.0.0.1'', ''localhost'', ''[::1]'']"

definition allowed_hosts :: "nat \<Rightarrow> string list" where
  "allowed_hosts port =
     map (\<lambda>h. h @ '':'' @ nat_text port) [''127.0.0.1'', ''localhost'', ''[::1]'']
     @ [''127.0.0.1'', ''localhost'', ''[::1]'']"

definition starts_with :: "string \<Rightarrow> string \<Rightarrow> bool" where
  "starts_with p s \<longleftrightarrow> take (length p) s = p"

definition web_guard :: "nat \<Rightarrow> web_request \<Rightarrow> web_answer option" where
  "web_guard port q =
     (let path = route_text (wq_route q) in
      if (case wq_origin q of None \<Rightarrow> False | Some og \<Rightarrow> og \<notin> set (allowed_origins port))
      then Some (WebError 403 ''forbidden origin'')
      else if wq_host q \<noteq> [] \<and> wq_host q \<notin> set (allowed_hosts port)
      then Some (WebError 403 ''forbidden host'')
      else if path = ''/login'' then None
      else if wq_authed q then None
      else if starts_with ''/api/'' path then Some (WebError 401 ''unauthorized'')
      else Some (GoTo ''/login''))"

section \<open>The login\<close>

text \<open>The lock against guessing; times are microseconds of the monotonic clock.\<close>

record login_guard =
  lg_fails :: nat
  lg_until :: int

definition LOGIN_MAX_FAILS :: nat where "LOGIN_MAX_FAILS = 5"
definition LOGIN_LOCK_SECS :: int where "LOGIN_LOCK_SECS = 60"

definition new_login_guard :: login_guard where
  "new_login_guard = \<lparr>lg_fails = 0, lg_until = 0\<rparr>"

definition login_locked :: "login_guard \<Rightarrow> int \<Rightarrow> bool" where
  "login_locked lg now \<longleftrightarrow> now < lg_until lg"

definition login_failed :: "login_guard \<Rightarrow> int \<Rightarrow> login_guard" where
  "login_failed lg now =
     (if LOGIN_MAX_FAILS \<le> lg_fails lg + 1
      then \<lparr>lg_fails = 0, lg_until = now + usec LOGIN_LOCK_SECS\<rparr>
      else lg\<lparr>lg_fails := lg_fails lg + 1\<rparr>)"

definition login_done :: "login_guard \<Rightarrow> int \<Rightarrow> bool \<Rightarrow> login_guard" where
  "login_done lg now ok = (if ok then new_login_guard else login_failed lg now)"

abbreviation EM_DASH :: string where
  "EM_DASH \<equiv> [char_of (226::nat), char_of (128::nat), char_of (148::nat)]"

definition wait_message :: "login_guard \<Rightarrow> int \<Rightarrow> string" where
  "wait_message lg now =
     ''Too many attempts '' @ EM_DASH @ '' wait ''
     @ int_text (py_int (of_int (lg_until lg - now) / 1000000) + 1) @ ''s and try again.''"

definition login_message :: "login_guard \<Rightarrow> string" where
  "login_message lg =
     (if LOGIN_MAX_FAILS \<le> lg_fails lg + 1
      then ''Too many attempts '' @ EM_DASH @ '' locked for '' @ int_text LOGIN_LOCK_SECS @ ''s.''
      else ''Incorrect password.'')"

record web_state =
  ws_engine :: engine
  ws_guard :: login_guard

definition login ::
  "control_env \<Rightarrow> web_state \<Rightarrow> web_request \<Rightarrow> web_state \<times> session_change \<times> web_answer" where
  "login env s q =
     (let now = ce_clock env; lg = ws_guard s in
      if wq_authed q then (s, KeepSession, GoTo ''/'')
      else if wq_method q \<noteq> POST then (s, KeepSession, LoginPage None)
      else if login_locked lg now then (s, KeepSession, LoginPage (Some (wait_message lg now)))
      else case verify_identity_password (ce_sealing env) (ce_identity env) (case wq_password q of None \<Rightarrow> [] | Some p \<Rightarrow> p) of
        Inl e \<Rightarrow> (s, KeepSession, WebRaised e)
      | Inr ok \<Rightarrow>
          (s\<lparr>ws_guard := login_done lg now ok\<rparr>, if ok then LogIn else KeepSession,
           if ok then GoTo ''/'' else LoginPage (Some (login_message lg))))"

section \<open>Trust routes\<close>

text \<open>\<open>(data.get(k) or "").strip()\<close>; an attribute of a value that is not text raises.\<close>

definition stripped :: "control_env \<Rightarrow> dict \<Rightarrow> string \<Rightarrow> string res" where
  "stripped env d k =
     (case py_or (field env d k) (JStr []) of
        JStr s \<Rightarrow> Inr (py_strip s) | _ \<Rightarrow> Inl (AttributeError ''strip''))"

definition web_reply :: "web_state \<Rightarrow> engine \<times> api_result \<Rightarrow> web_state \<times> web_answer" where
  "web_reply s r =
     (case r of
        (g, Inl e) \<Rightarrow> (s\<lparr>ws_engine := g\<rparr>, WebRaised e)
      | (g, Inr (Some err)) \<Rightarrow> (s\<lparr>ws_engine := g\<rparr>, if err = [] then WebOk else WebError 400 err)
      | (g, Inr None) \<Rightarrow> (s\<lparr>ws_engine := g\<rparr>, WebOk))"

definition api_add_peer :: "control_env \<Rightarrow> web_state \<Rightarrow> json \<Rightarrow> web_state \<times> web_answer" where
  "api_add_peer env s body =
     (case rbind (need_dict (py_or body (JObj []))) (\<lambda>d.
             rbind (stripped env d ''node_id'') (\<lambda>nid.
             rbind (stripped env d ''alias'') (\<lambda>al. Inr (d, py_lower nid, al)))) of
        Inl e \<Rightarrow> (s, WebRaised e)
      | Inr (d, nid, al) \<Rightarrow>
          (case py_or (dget d ''permissions'') (JArr [JStr ''monitor'']) of
             JArr perms \<Rightarrow>
               web_reply s (add_peer_untyped env (ws_engine s) (JStr nid) (if al = [] then JNull else JStr al)
                              (plain_items env (JArr perms)) JNull)
           | _ \<Rightarrow> (s, WebError 400 ''permissions must be a list'')))"

definition api_remove_peer :: "control_env \<Rightarrow> web_state \<Rightarrow> string \<Rightarrow> web_state \<times> web_answer" where
  "api_remove_peer env s nid =
     web_reply s (revoke_peer (ce_crypto env) (ce_io env) (ce_key_ok env) (ce_now env) (ws_engine s)
                    (py_lower (py_strip nid)))"

section \<open>Reading routes\<close>

text \<open>
  What the handlers use besides the daemon: the port, docker (the name of a container and the end
  of its log), the text of an exception, the fetch of a peer's container log, and whether the
  web socket library is installed.
\<close>

record web_env =
  we_control :: control_env
  we_port :: nat
  we_docker :: "(string \<Rightarrow> int \<Rightarrow> (string \<times> string) res) option"
  we_show :: "py_error \<Rightarrow> string"
  we_fetch_logs :: "string \<Rightarrow> string \<Rightarrow> int \<Rightarrow> json res"
  we_sock :: bool

abbreviation ELLIPSIS :: string where
  "ELLIPSIS \<equiv> [char_of (226::nat), char_of (128::nat), char_of (166::nat)]"

definition incidents_alias :: "engine \<Rightarrow> string \<Rightarrow> string" where
  "incidents_alias g nid =
     (let live = (case filter (\<lambda>st. pe_node_id (ps_entry st) = nid) (get_device_states g) of
                    [] \<Rightarrow> None | st # _ \<Rightarrow> pe_alias (ps_entry st));
          al = (case live of Some a \<Rightarrow> Some a | None \<Rightarrow> Option.bind (get_peer (eg_trust g) nid) tp_alias) in
      case al of
        Some (c # cs) \<Rightarrow> c # cs
      | _ \<Rightarrow> take 12 nid @ ELLIPSIS)"

definition incidents_page :: "engine \<Rightarrow> instant \<Rightarrow> string \<Rightarrow> web_answer" where
  "incidents_page g now nid =
     (if \<not> short_node_id nid then WebError 400 ''invalid node id''
      else IncidentsPage (incidents_alias g nid) nid (incidents (eg_history g) now nid 720 2000))"

text \<open>The numbers at the head of the page.\<close>

definition page_totals :: "incident list \<Rightarrow> nat \<times> int \<times> int \<times> bool" where
  "page_totals is =
     (length is, sum_list (map ic_duration is), foldl max 0 (map ic_duration is), list_ex ic_ongoing is)"

definition query_tail :: "web_request \<Rightarrow> int" where
  "query_tail q = clamp_tail (case wq_tail q of None \<Rightarrow> JInt 20 | Some s \<Rightarrow> JStr s)"

definition api_logs :: "web_env \<Rightarrow> web_request \<Rightarrow> string \<Rightarrow> web_answer" where
  "api_logs env q cid =
     (if \<not> container_ref_ok cid then WebError 400 ''invalid container id''
      else case we_docker env of
        None \<Rightarrow> WebError 503 ''docker unavailable''
      | Some ask \<Rightarrow>
          (case ask cid (query_tail q) of
             Inr (name, text) \<Rightarrow>
               WebJson (JObj [(''id'', JStr cid), (''name'', JStr (dropWhile (\<lambda>c. c = CHR ''/'') name)),
                              (''tail'', JInt (query_tail q)), (''logs'', JStr text)])
           | Inl e \<Rightarrow>
               let msg = we_show env e in
               WebError (if is_substring ''not found'' (py_lower msg) then 404 else 500) (take 300 msg)))"

text \<open>\<open>"error" in res\<close> on a decoded JSON value.\<close>

definition error_in :: "json \<Rightarrow> bool res" where
  "error_in v =
     (case v of
        JObj d \<Rightarrow> Inr (map_of d ''error'' \<noteq> None)
      | JArr xs \<Rightarrow> Inr (JStr ''error'' \<in> set xs)
      | JStr s \<Rightarrow> Inr (is_substring ''error'' s)
      | _ \<Rightarrow> Inl (TypeError ''argument is not iterable''))"

definition api_node_logs :: "web_env \<Rightarrow> engine \<Rightarrow> web_request \<Rightarrow> string \<Rightarrow> string \<Rightarrow> web_answer" where
  "api_node_logs env g q nid cid =
     (if \<not> container_ref_ok cid then WebError 400 ''invalid container id''
      else if nid = eg_node_id g then
        (case we_docker env of
           None \<Rightarrow> WebError 503 ''docker unavailable''
         | Some ask \<Rightarrow>
             (case ask cid (query_tail q) of
                Inr (_, text) \<Rightarrow> WebJson (JObj [(''id'', JStr cid), (''logs'', JStr text)])
              | Inl e \<Rightarrow> WebError 500 (take 300 (we_show env e))))
      else
        (case rbind (we_fetch_logs env nid cid (query_tail q)) (\<lambda>r. rbind (error_in r) (\<lambda>b. Inr (r, b))) of
           Inl TimeoutError \<Rightarrow> WebError 504 ''timed out fetching logs from peer''
         | Inl e \<Rightarrow> WebError 500 (take 300 (we_show env e))
         | Inr (r, failed) \<Rightarrow> if failed then WebFailed 500 r else WebJson r))"

definition node_shell :: "web_env \<Rightarrow> engine \<Rightarrow> web_request \<Rightarrow> string \<Rightarrow> web_answer" where
  "node_shell env g q nid =
     (if (case wq_origin q of None \<Rightarrow> False | Some og \<Rightarrow> og \<notin> set (allowed_origins (we_port env))) then ClosedSocket
      else if \<not> wq_authed q then ClosedSocket
      else if \<not> validate_node_id nid then ClosedSocket
      else if nid = eg_node_id g then Terminal LocalShell
      else Terminal (PeerShell nid))"

section \<open>Dispatch\<close>

abbreviation kept :: "web_state \<times> web_answer \<Rightarrow> web_state \<times> session_change \<times> web_answer" where
  "kept r \<equiv> (fst r, KeepSession, snd r)"

definition web_dispatch :: "web_env \<Rightarrow> web_state \<Rightarrow> web_request \<Rightarrow> web_state \<times> session_change \<times> web_answer" where
  "web_dispatch env s q =
     (let c = we_control env; g = ws_engine s; m = wq_method q;
          get = (\<lambda>a. kept (s, if m = GET then a else WebError 405 ''method not allowed'')) in
      case wq_route q of
        Login \<Rightarrow> if m = GET \<or> m = POST then login c s q else kept (s, WebError 405 ''method not allowed'')
      | Logout \<Rightarrow> if m = GET then (s, ClearSession, GoTo ''/login'') else get Page
      | Index \<Rightarrow> get Page
      | ApiDashboard \<Rightarrow> get Dashboard
      | ApiPeers \<Rightarrow> if m = POST then kept (api_add_peer c s (wq_json q)) else kept (s, WebError 405 ''method not allowed'')
      | ApiPeer nid \<Rightarrow> if m = DELETE then kept (api_remove_peer c s nid) else kept (s, WebError 405 ''method not allowed'')
      | Incidents nid \<Rightarrow> get (incidents_page g (ce_now c) nid)
      | ApiLogs cid \<Rightarrow> get (api_logs env q cid)
      | ApiNodeLogs nid cid \<Rightarrow> get (api_node_logs env g q nid cid)
      | ApiShell nid \<Rightarrow> if we_sock env then get (node_shell env g q nid) else kept (s, WebError 404 ''not found'')
      | NoRoute _ \<Rightarrow> kept (s, WebError 404 ''not found''))"

definition web_handle :: "web_env \<Rightarrow> web_state \<Rightarrow> web_request \<Rightarrow> web_state \<times> session_change \<times> web_answer" where
  "web_handle env s q =
     (case web_guard (we_port env) q of
        Some a \<Rightarrow> (s, KeepSession, a)
      | None \<Rightarrow> web_dispatch env s q)"

section \<open>The browser terminal\<close>

text \<open>
  What the web socket receives: binary or text messages (text as its UTF-8 bytes), or the end.
\<close>

datatype ws_msg = WsBytes bytes | WsText bytes | WsEnd

fun ws_data :: "ws_msg \<Rightarrow> bytes" where
  "ws_data (WsBytes b) = b"
| "ws_data (WsText b) = b"
| "ws_data WsEnd = []"

text \<open>\<open>_serve_peer_shell\<close>: what is sent to the peer, up to the end; then the session is closed.\<close>

fun relay_to_peer :: "ws_msg list \<Rightarrow> bytes list" where
  "relay_to_peer [] = []"
| "relay_to_peer (m # ms) =
     (if m = WsEnd then [] else if ws_data m = [] then relay_to_peer ms else ws_data m # relay_to_peer ms)"

text \<open>The frames from the peer that reach the browser: \<open>None\<close> is the end of the stream.\<close>

fun relay_to_browser :: "bytes option list \<Rightarrow> bytes list" where
  "relay_to_browser [] = []"
| "relay_to_browser (None # fs) = []"
| "relay_to_browser (Some f # fs) =
     (if f \<noteq> [] \<and> hd f = SHELL_TAG_EXIT then [f] else f # relay_to_browser fs)"

text \<open>\<open>ShellSession._recv_pump\<close>: the frames read from the peer, and the sentinel at the end.\<close>

fun recv_pump :: "bytes list \<Rightarrow> bytes option list" where
  "recv_pump [] = [None]"
| "recv_pump (f # fs) = (if f \<noteq> [] \<and> hd f = SHELL_TAG_EXIT then [Some f, None] else Some f # recv_pump fs)"

text \<open>\<open>_serve_local_shell\<close>: the same messages handled without a network.\<close>

fun local_input :: "ws_msg list \<Rightarrow> pty_effect list" where
  "local_input [] = []"
| "local_input (m # ms) =
     (if m = WsEnd then []
      else case ws_data m of
        [] \<Rightarrow> local_input ms
      | tag # body \<Rightarrow>
          if tag = SHELL_TAG_DATA then PtyWrite body # local_input ms
          else if tag = SHELL_TAG_RESIZE \<and> 4 \<le> length body
          then PtyWinsize (be_value (take 2 body)) (be_value (take 2 (drop 2 body))) # local_input ms
          else if tag = SHELL_TAG_CLOSE then []
          else local_input ms)"

text \<open>The reads of the local pty until its end, and the exit frame.\<close>

fun local_output :: "pty_read list \<Rightarrow> int option \<Rightarrow> bytes list" where
  "local_output (ReadData d # rs) rc =
     (if d = [] then exit_frame (case rc of None \<Rightarrow> -1 | Some c \<Rightarrow> c)
      else (SHELL_TAG_DATA # d) # local_output rs rc)"
| "local_output (ReadAgain # rs) rc = local_output rs rc"
| "local_output _ rc = exit_frame (case rc of None \<Rightarrow> -1 | Some c \<Rightarrow> c)"

section \<open>The dashboard\<close>

text \<open>
  One row of the peer list. \<open>wp_rtt\<close> is the last round trip, shown with two decimals; a round
  trip of 0 or none is not shown.
\<close>

record web_peer =
  wp_node :: node_id
  wp_alias :: "string option"
  wp_status :: peer_status
  wp_sync :: sync_status
  wp_maint :: bool
  wp_rtt :: "rat option"
  wp_uptime_24h :: "rat option"
  wp_windows :: "(string \<times> rat option) list"
  wp_beats :: "beat list"
  wp_incidents :: "incident list"
  wp_rtt_stats :: rtt_summary
  wp_last_seen :: string
  wp_tags :: "string option"
  wp_stats :: "json option"
  wp_history :: "json list"

definition build_web_peer :: "engine \<Rightarrow> instant \<Rightarrow> peer_state \<Rightarrow> web_peer res" where
  "build_web_peer g now p =
     (let n = pe_node_id (ps_entry p); h = eg_history g; trusted = get_peer (eg_trust g) n in
      rbind (case trusted of None \<Rightarrow> Inr False | Some t \<Rightarrow> in_maintenance t (Aware now)) (\<lambda>maint.
        Inr \<lparr>wp_node = n, wp_alias = pe_alias (ps_entry p), wp_status = ps_status p, wp_sync = ps_sync p,
             wp_maint = maint,
             wp_rtt = (if ps_latency_history p = [] then None
                       else case lr_rtt_ms (last (ps_latency_history p)) of
                         None \<Rightarrow> None | Some x \<Rightarrow> if x = 0 then None else Some (round2 x)),
             wp_uptime_24h = uptime_percent h now n (hours_us 24),
             wp_windows = uptime_windows h now n, wp_beats = recent_beats h n 50,
             wp_incidents = incidents h now n 720 20, wp_rtt_stats = rtt_stats h now n 24,
             wp_last_seen = rel now (ps_last_seen p),
             wp_tags = (case trusted of
                          Some t \<Rightarrow> if tp_tags t = [] then None else Some (join_with '', '' (tp_tags t))
                        | None \<Rightarrow> None),
             wp_stats = ps_last_stats p, wp_history = ps_stats_history p\<rparr>))"

record dashboard =
  db_now :: instant
  db_node :: node_id
  db_targets :: nat
  db_alive :: nat
  db_dead :: nat
  db_maint :: nat
  db_avg_uptime :: "rat option"
  db_probes :: nat
  db_fleet :: string
  db_worst :: "(string option \<times> rat) option"
  db_own_stats :: "dict option"
  db_processes :: json
  db_peers :: "web_peer list"
  db_chart :: "(json \<times> json \<times> json) list"

definition fleet_status :: "nat \<Rightarrow> nat \<Rightarrow> string" where
  "fleet_status dead maint =
     (if 0 < dead then ''down'' else if 0 < maint then ''degraded'' else ''operational'')"

definition worst_step :: "(string option \<times> rat) option \<Rightarrow> web_peer \<Rightarrow> (string option \<times> rat) option" where
  "worst_step w p =
     (case wp_uptime_24h p of
        None \<Rightarrow> w
      | Some u \<Rightarrow>
          if wp_maint p then w
          else (case w of
                  None \<Rightarrow> Some (wp_alias p, u)
                | Some (_, v) \<Rightarrow> if u < v then Some (wp_alias p, u) else w))"

definition build_dashboard :: "engine \<Rightarrow> instant \<Rightarrow> dashboard res" where
  "build_dashboard g now =
     (let own = get_own_stats g in
      rbind (rmap (build_web_peer g now) (get_device_states g)) (\<lambda>peers.
        let alive = length [p \<leftarrow> peers. wp_status p = ALIVE \<and> \<not> wp_maint p];
            dead = length [p \<leftarrow> peers. wp_status p = DEAD];
            maint = length [p \<leftarrow> peers. wp_maint p];
            ups = List.map_filter wp_uptime_24h peers in
        Inr \<lparr>db_now = now, db_node = eg_node_id g, db_targets = length peers, db_alive = alive,
             db_dead = dead, db_maint = maint,
             db_avg_uptime = (if ups = [] then None else Some (round2 (sum_list ups / of_nat (length ups)))),
             db_probes = count_in_window (eg_history g) now 24 None,
             db_fleet = fleet_status dead maint, db_worst = foldl worst_step None peers,
             db_own_stats = own,
             db_processes = (case own of None \<Rightarrow> JArr [] | Some d \<Rightarrow> py_or (dget d ''processes'') (JArr [])),
             db_peers = peers,
             db_chart = (case (own, eg_logstore g) of
                (Some _, Some s) \<Rightarrow>
                  map (\<lambda>d. (dget_default d ''timestamp'' (JStr []), dget_default d ''cpu_percent'' (JInt 0),
                             dget_default d ''mem_percent'' (JInt 0)))
                    (recent_snapshots s now 60 None)
              | _ \<Rightarrow> [])\<rparr>))"

section \<open>Escaping\<close>

definition esc_char :: "char \<Rightarrow> string" where
  "esc_char c =
     (if c = CHR ''&'' then ''&amp;'' else if c = CHR ''<'' then ''&lt;''
      else if c = CHR ''>'' then ''&gt;'' else if c = CHR 0x22 then ''&quot;'' else [c])"

lemma replace_char_append [simp]: "replace_char c t (a @ b) = replace_char c t a @ replace_char c t b"
  by (simp add: replace_char_def)

lemma replace_char_simps [simp]:
  "replace_char c t [] = []" "replace_char c t (x # s) = (if x = c then t else [x]) @ replace_char c t s"
  by (simp_all add: replace_char_def)

text \<open>The four passes are one: no pass touches what an earlier one wrote.\<close>

lemma esc_by_char: "esc s = concat (map esc_char s)"
  by (induction s) (simp_all add: esc_def esc_char_def)

text \<open>How a browser reads the text back (the four references the program writes).\<close>

fun unescape :: "string \<Rightarrow> string" where
  "unescape [] = []"
| "unescape (c # s) =
     (if c \<noteq> CHR ''&'' then c # unescape s
      else if take 4 s = ''amp;'' then CHR ''&'' # unescape (drop 4 s)
      else if take 3 s = ''lt;'' then CHR ''<'' # unescape (drop 3 s)
      else if take 3 s = ''gt;'' then CHR ''>'' # unescape (drop 3 s)
      else if take 5 s = ''quot;'' then CHR 0x22 # unescape (drop 5 s)
      else c # unescape s)"

lemma unescape_esc_char: "unescape (esc_char c @ s) = c # unescape s"
  by (auto simp: esc_char_def numeral_eq_Suc)

text \<open>
  Escaped text has no markup in it (no angle bracket and no quote, so it stays text between tags
  and inside a quoted attribute), and a browser shows the text that was escaped.
\<close>

theorem escaped_text_is_inert:
  "set (esc s) \<inter> {CHR ''<'', CHR ''>'', CHR 0x22} = {} \<and> unescape (esc s) = s"
proof -
  have "set (esc_char c) \<inter> {CHR ''<'', CHR ''>'', CHR 0x22} = {}" for c by (auto simp: esc_char_def)
  then have "set (esc s) \<inter> {CHR ''<'', CHR ''>'', CHR 0x22} = {}" by (auto simp: esc_by_char)
  moreover have "unescape (esc s) = s"
    by (induction s) (simp_all add: esc_by_char unescape_esc_char del: unescape.simps(2))
  ultimately show ?thesis by simp
qed

section \<open>Guessing the password\<close>

text \<open>
  A sequence of wrong guesses, each handled before the next comes: the times of those whose
  password is looked at.
\<close>

fun guesses :: "login_guard \<Rightarrow> int list \<Rightarrow> int list" where
  "guesses lg [] = []"
| "guesses lg (t # ts) =
     (if login_locked lg t then guesses lg ts else t # guesses (login_done lg t False) ts)"

lemma guesses_subset: "set (guesses lg ts) \<subseteq> set ts"
  by (induction lg ts rule: guesses.induct) auto

lemma guesses_sorted: "sorted ts \<Longrightarrow> sorted (guesses lg ts)"
  by (induction lg ts rule: guesses.induct) (auto dest!: guesses_subset[THEN subsetD])

lemma guesses_after_lock: "v \<in> set (guesses lg ts) \<Longrightarrow> lg_until lg \<le> v"
proof (induction lg ts rule: guesses.induct)
  case (2 lg t ts)
  show ?case
  proof (cases "login_locked lg t")
    case False
    then have "lg_until lg \<le> lg_until (login_done lg t False)"
      by (simp add: login_locked_def login_done_def login_failed_def LOGIN_LOCK_SECS_def usec_def)
    with False 2 show ?thesis by (auto simp: login_locked_def)
  qed (use 2 in simp)
qed simp

lemma login_failed_fails:
  "lg_fails lg < 5 \<Longrightarrow> lg_fails (login_done lg t False) = (lg_fails lg + 1) mod 5"
proof -
  assume "lg_fails lg < 5"
  then have "lg_fails lg < 4 \<or> lg_fails lg = 4" by arith
  then show ?thesis by (auto simp: login_done_def login_failed_def LOGIN_MAX_FAILS_def)
qed

lemma guesses_blocks:
  assumes "lg_fails lg < 5" and "Suc j < length (guesses lg ts)" and "(lg_fails lg + j) mod 5 = 4"
  shows "guesses lg ts ! j + usec 60 \<le> guesses lg ts ! Suc j"
  using assms
proof (induction lg ts arbitrary: j rule: guesses.induct)
  case (2 lg t ts)
  show ?case
  proof (cases "login_locked lg t")
    case True
    with 2 show ?thesis by simp
  next
    case False
    let ?lg = "login_done lg t False"
    have fails: "lg_fails ?lg = (lg_fails lg + 1) mod 5" by (rule login_failed_fails[OF 2(3)])
    have len: "j < length (guesses ?lg ts)" using 2(4) False by simp
    show ?thesis
    proof (cases j)
      case 0
      then have "lg_fails lg = 4" using 2(3,5) by simp
      then have "lg_until ?lg = t + usec 60"
        by (simp add: login_done_def login_failed_def LOGIN_MAX_FAILS_def LOGIN_LOCK_SECS_def)
      moreover have "lg_until ?lg \<le> guesses ?lg ts ! 0"
        by (rule guesses_after_lock[OF nth_mem]) (use len 0 in simp)
      ultimately show ?thesis using False 0 by simp
    next
      case (Suc i)
      have "(lg_fails ?lg + i) mod 5 = 4" using 2(5) by (simp add: fails Suc mod_add_left_eq)
      with 2(2)[OF False, of i] fails len Suc False show ?thesis by simp
    qed
  qed
qed simp

text \<open>
  C21: The lock holds sustained guessing down: wrong guesses that are handled one after the other are
  looked at no faster than five in a minute, whenever they come.
\<close>

theorem guessing_is_capped:
  assumes "sorted ts" and "i + 5 < length (guesses new_login_guard ts)"
  shows "guesses new_login_guard ts ! i + usec 60 \<le> guesses new_login_guard ts ! (i + 5)"
proof -
  let ?vs = "guesses new_login_guard ts"
  have s: "sorted ?vs" using assms(1) by (rule guesses_sorted)
  define j where "j = 5 * (i div 5) + 4"
  have "i = 5 * (i div 5) + i mod 5" "i mod 5 < 5" by simp_all
  then have j: "i \<le> j" "Suc j \<le> i + 5" "j mod 5 = 4" unfolding j_def by (arith, arith, simp)
  have "?vs ! i \<le> ?vs ! j" using s j assms(2) by (intro sorted_nth_mono) auto
  moreover have "?vs ! j + usec 60 \<le> ?vs ! Suc j"
    using guesses_blocks[of new_login_guard j ts] j assms(2) by (simp add: new_login_guard_def)
  moreover have "?vs ! Suc j \<le> ?vs ! (i + 5)" using s j assms(2) by (intro sorted_nth_mono) auto
  ultimately show ?thesis by simp
qed

theorem guessing_is_capped_witness:
  "guesses new_login_guard [1, 2, 3, 4, 5, 6, 70000000] = [1, 2, 3, 4, 5, 70000000] \<and> 1 + usec 60 \<le> 70000000"
proof -
  have g: "guesses new_login_guard [1, 2, 3, 4, 5, 6, 70000000] = [1, 2, 3, 4, 5, 70000000]"
    by (simp add: new_login_guard_def login_locked_def login_done_def login_failed_def LOGIN_MAX_FAILS_def
        LOGIN_LOCK_SECS_def usec_def)
  have "sorted [1, 2, 3, 4, 5, 6, 70000000 :: int]" by simp
  from guessing_is_capped[OF this, of 0] g show ?thesis by simp
qed

text \<open>
  The server is threaded, and a guess is checked against the lock before its slow verification
  and counted after it. Guesses that overlap all pass the check: \<open>open\<close> counts those under
  verification, \<open>tried\<close> all that were looked at.
\<close>

inductive parallel_step :: "int \<Rightarrow> login_guard \<times> nat \<times> nat \<Rightarrow> login_guard \<times> nat \<times> nat \<Rightarrow> bool" for now where
  checked: "\<not> login_locked lg now \<Longrightarrow> parallel_step now (lg, running, tried) (lg, Suc running, Suc tried)"
| wrong: "parallel_step now (lg, Suc running, tried) (login_done lg now False, running, tried)"

lemma parallel_checks: "rtranclp (parallel_step 0) (new_login_guard, 0, 0) (new_login_guard, n, n)"
proof (induction n)
  case (Suc n)
  have "parallel_step 0 (new_login_guard, n, n) (new_login_guard, Suc n, Suc n)"
    by (rule parallel_step.checked) (simp add: login_locked_def new_login_guard_def)
  with Suc show ?case by simp
qed simp

lemma parallel_failures: "\<exists>lg'. rtranclp (parallel_step now) (lg, k, n) (lg', 0, n)"
proof (induction k arbitrary: lg)
  case (Suc k)
  obtain lg' where "rtranclp (parallel_step now) (login_done lg now False, k, n) (lg', 0, n)" using Suc by blast
  with parallel_step.wrong[of now lg k n] show ?case by (blast intro: converse_rtranclp_into_rtranclp)
qed blast

text \<open>
  So the lock is no bound for guesses sent at once: from a fresh guard, any number of wrong
  passwords is looked at in the same instant.
\<close>

theorem parallel_guesses_pass_the_lock:
  "\<exists>lg. rtranclp (parallel_step 0) (new_login_guard, 0, 0) (lg, 0, n)"
proof -
  obtain lg where "rtranclp (parallel_step 0) (new_login_guard, n, n) (lg, 0, n)"
    using parallel_failures by blast
  with parallel_checks have "rtranclp (parallel_step 0) (new_login_guard, 0, 0) (lg, 0, n)"
    by (rule rtranclp_trans)
  then show ?thesis by blast
qed

section \<open>What a stranger can reach\<close>

text \<open>
  A run of the dashboard. Each request comes at its own time with its own environment and names
  the session cookie it carries, if any; a cookie counts as logged in exactly when the daemon
  issued it (it is signed with a key derived from the identity's seed).
\<close>

record web_world =
  ww_state :: web_state
  ww_issued :: "nat list"

record web_visit =
  wv_env :: web_env
  wv_cookie :: "nat option"
  wv_request :: web_request

definition logged_in :: "nat list \<Rightarrow> nat option \<Rightarrow> bool" where
  "logged_in issued ck = (case ck of None \<Rightarrow> False | Some k \<Rightarrow> k \<in> set issued)"

definition web_visit_step :: "web_world \<Rightarrow> web_visit \<Rightarrow> web_world \<times> web_answer" where
  "web_visit_step w v =
     (case web_handle (wv_env v) (ww_state w)
             ((wv_request v)\<lparr>wq_authed := logged_in (ww_issued w) (wv_cookie v)\<rparr>) of
        (s, change, a) \<Rightarrow>
          (w\<lparr>ww_state := s,
             ww_issued := (if change = LogIn then ww_issued w @ [length (ww_issued w)] else ww_issued w)\<rparr>, a))"

fun web_run :: "web_world \<Rightarrow> web_visit list \<Rightarrow> web_world \<times> web_answer list" where
  "web_run w [] = (w, [])"
| "web_run w (v # vs) =
     (case web_visit_step w v of (w1, a) \<Rightarrow> (case web_run w1 vs of (w2, as) \<Rightarrow> (w2, a # as)))"

text \<open>A visit that posts a password that opens the identity, from a page and a host of this machine.\<close>

definition good_login :: "web_visit \<Rightarrow> bool" where
  "good_login v \<longleftrightarrow>
     (let q = wv_request v; c = we_control (wv_env v); port = we_port (wv_env v) in
      wq_method q = POST \<and> wq_route q = Login
      \<and> (\<forall>og. wq_origin q = Some og \<longrightarrow> og \<in> set (allowed_origins port))
      \<and> (wq_host q = [] \<or> wq_host q \<in> set (allowed_hosts port))
      \<and> (\<exists>pw dir. wq_password q = Some pw \<and> ce_identity c = Some dir
            \<and> is_ok (unlock_identity (ce_sealing c) pw dir)))"

text \<open>Answers that show nothing of the daemon: the form, a redirect to it, an error.\<close>

definition shows_nothing :: "web_answer \<Rightarrow> bool" where
  "shows_nothing a =
     (case a of
        LoginPage _ \<Rightarrow> True
      | GoTo p \<Rightarrow> p = ''/login''
      | WebError code _ \<Rightarrow> code \<in> {401, 403, 404, 405}
      | WebRaised _ \<Rightarrow> True
      | _ \<Rightarrow> False)"

lemma verify_unlocks:
  assumes "verify_identity_password S d pw = Inr True"
  shows "\<exists>dir. d = Some dir \<and> pw \<noteq> [] \<and> is_ok (unlock_identity S pw dir)"
proof -
  obtain dir where d: "d = Some dir" "pw \<noteq> []"
    using assms by (cases d) (auto simp: verify_identity_password_def split: if_splits)
  have "is_ok (unlock_identity S pw dir)"
  proof (cases "unlock_identity S pw dir")
    case (Inl e)
    with assms d show ?thesis by (cases e) (simp_all add: verify_identity_password_def)
  qed simp
  with d show ?thesis by blast
qed

lemma login_without_password:
  assumes "\<not> wq_authed q"
    and "\<And>pw dir. wq_method q = POST \<Longrightarrow> wq_password q = Some pw \<Longrightarrow> ce_identity c = Some dir
          \<Longrightarrow> \<not> is_ok (unlock_identity (ce_sealing c) pw dir)"
  shows "case login c s q of (s', ch, a) \<Rightarrow> ws_engine s' = ws_engine s \<and> ch = KeepSession \<and> shows_nothing a"
proof -
  let ?pw = "case wq_password q of None \<Rightarrow> [] | Some p \<Rightarrow> p"
  have no: "wq_method q = POST \<Longrightarrow> verify_identity_password (ce_sealing c) (ce_identity c) ?pw \<noteq> Inr True"
    using assms(2) by (auto dest!: verify_unlocks split: option.splits)
  show ?thesis
    using assms(1) no
    by (cases "verify_identity_password (ce_sealing c) (ce_identity c) ?pw")
      (auto simp: login_def Let_def shows_nothing_def)
qed

lemma stranger_route_text: "route_text r = ''/login'' \<Longrightarrow> r = Login \<or> (\<exists>p. r = NoRoute p)"
  by (cases r) (simp_all)

lemma stranger_handled:
  assumes "\<not> wq_authed q" and "\<not> good_login v" and "q = (wv_request v)\<lparr>wq_authed := False\<rparr>"
  shows "case web_handle (wv_env v) s q of (s', ch, a) \<Rightarrow>
    ws_engine s' = ws_engine s \<and> ch \<noteq> LogIn \<and> shows_nothing a"
proof (cases "web_guard (we_port (wv_env v)) q")
  case (Some a)
  then have "shows_nothing a"
    by (auto simp: web_guard_def Let_def shows_nothing_def split: if_splits option.splits)
  with Some show ?thesis by (simp add: web_handle_def)
next
  case None
  have path: "route_text (wq_route q) = ''/login''" and og: "\<forall>og. wq_origin q = Some og \<longrightarrow> og \<in> set (allowed_origins (we_port (wv_env v)))"
    and host: "wq_host q = [] \<or> wq_host q \<in> set (allowed_hosts (we_port (wv_env v)))"
    using None assms(1) by (auto simp: web_guard_def Let_def split: if_splits option.splits)
  from stranger_route_text[OF path] show ?thesis
  proof
    assume r: "wq_route q = Login"
    have "case login (we_control (wv_env v)) s q of (s', ch, a) \<Rightarrow>
        ws_engine s' = ws_engine s \<and> ch = KeepSession \<and> shows_nothing a"
      using assms r og host by (intro login_without_password) (auto simp: good_login_def Let_def)
    then show ?thesis using None r
      by (auto simp: web_handle_def web_dispatch_def Let_def shows_nothing_def)
  next
    assume "\<exists>p. wq_route q = NoRoute p"
    then show ?thesis using None
      by (auto simp: web_handle_def web_dispatch_def Let_def shows_nothing_def)
  qed
qed

text \<open>
  C6: Without the identity password, posted from this machine's own pages, the web dashboard gives
  nothing and changes nothing: through any run of requests no session is issued, the engine (its
  trust store, its log, its stores) stays as it was, and every answer is the login form, a
  redirect to it or an error.
\<close>

theorem web_needs_login:
  assumes "ww_issued w = []" and "\<forall>v \<in> set vs. \<not> good_login v"
  shows "ws_engine (ww_state (fst (web_run w vs))) = ws_engine (ww_state w)
    \<and> ww_issued (fst (web_run w vs)) = [] \<and> list_all shows_nothing (snd (web_run w vs))"
  using assms
proof (induction vs arbitrary: w)
  case (Cons v vs)
  define q where "q = (wv_request v)\<lparr>wq_authed := False\<rparr>"
  obtain s ch a where h: "web_handle (wv_env v) (ww_state w) q = (s, ch, a)"
    by (cases "web_handle (wv_env v) (ww_state w) q")
  have st: "ws_engine s = ws_engine (ww_state w)" "ch \<noteq> LogIn" "shows_nothing a"
    using stranger_handled[of q v "ww_state w"] Cons.prems(2) h by (auto simp: q_def)
  have "logged_in (ww_issued w) (wv_cookie v) = False"
    using Cons.prems(1) by (simp add: logged_in_def split: option.splits)
  then have step: "web_visit_step w v = (w\<lparr>ww_state := s\<rparr>, a)"
    using h st(2) by (simp add: web_visit_step_def q_def)
  have "ww_issued (w\<lparr>ww_state := s\<rparr>) = []" using Cons.prems(1) by simp
  from Cons.IH[OF this] Cons.prems(2) st step show ?case
    by (cases "web_run (w\<lparr>ww_state := s\<rparr>) vs") simp
qed simp

definition demo_web :: web_env where
  "demo_web = \<lparr>we_control = demo_control, we_port = 42069, we_docker = None, we_show = (\<lambda>_. []),
     we_fetch_logs = (\<lambda>_ _ _. Inr JNull), we_sock = True\<rparr>"

definition demo_visit :: "http_method \<Rightarrow> web_route \<Rightarrow> nat option \<Rightarrow> web_visit" where
  "demo_visit m r ck = \<lparr>wv_env = demo_web, wv_cookie = ck,
     wv_request = \<lparr>wq_method = m, wq_route = r, wq_origin = None, wq_host = [], wq_password = None,
       wq_json = JNull, wq_tail = None, wq_authed = False\<rparr>\<rparr>"

definition demo_world :: web_world where
  "demo_world = \<lparr>ww_state = \<lparr>ws_engine = cs_engine demo_control_state, ws_guard = new_login_guard\<rparr>, ww_issued = []\<rparr>"

theorem web_needs_login_witness:
  "snd (web_run demo_world [demo_visit POST ApiPeers None, demo_visit DELETE (ApiPeer demo_id) (Some 3),
      demo_visit GET Index None]) = [WebError 401 ''unauthorized'', WebError 401 ''unauthorized'', GoTo ''/login'']
   \<and> ws_engine (ww_state (fst (web_run demo_world [demo_visit POST ApiPeers None,
        demo_visit DELETE (ApiPeer demo_id) (Some 3), demo_visit GET Index None]))) = cs_engine demo_control_state"
proof -
  let ?vs = "[demo_visit POST ApiPeers None, demo_visit DELETE (ApiPeer demo_id) (Some 3), demo_visit GET Index None]"
  have "\<forall>v \<in> set ?vs. \<not> good_login v" by (simp add: good_login_def demo_visit_def)
  moreover have "ww_issued demo_world = []" "ws_engine (ww_state demo_world) = cs_engine demo_control_state"
    by (simp_all add: demo_world_def)
  ultimately have "ws_engine (ww_state (fst (web_run demo_world ?vs))) = cs_engine demo_control_state"
    using web_needs_login[of demo_world ?vs] by simp
  moreover have "snd (web_run demo_world ?vs) =
      [WebError 401 ''unauthorized'', WebError 401 ''unauthorized'', GoTo ''/login'']"
    by (simp add: web_visit_step_def web_handle_def web_guard_def Let_def demo_visit_def demo_world_def
        logged_in_def starts_with_def split: prod.splits)
  ultimately show ?thesis by simp
qed

section \<open>A peer's terminal and the local one\<close>

lemma input_pump_relay: "input_pump (relay_to_peer ms @ [[SHELL_TAG_CLOSE]]) = local_input ms"
proof (induction ms)
  case (Cons m ms)
  then show ?case by (cases m; cases "ws_data m") auto
qed simp

lemma relay_to_peer_mem: "f \<in> set (relay_to_peer ms) \<Longrightarrow> \<exists>m \<in> set ms. f = ws_data m"
  by (induction ms) (auto split: if_splits)

lemma takeWhile_all: "(\<And>x. x \<in> set xs \<Longrightarrow> P x) \<Longrightarrow> takeWhile P xs = xs"
  by (induction xs) simp_all

text \<open>
  A browser terminal on a peer does to the peer's pty what a terminal on this node does to the
  local one: what the web socket receives, relayed as frames behind the frame that opens the
  stream and closed with a close frame, read and pumped on the other side, has the same effects
  in the same order as the local handler.
\<close>

theorem peer_terminal_is_local_terminal:
  assumes "write_frames [] ([] # relay_to_peer ms @ [[SHELL_TAG_CLOSE]]) = Inr s"
    and "\<forall>m \<in> set ms. length (ws_data m) \<le> SHELL_FRAME_MAX"
  shows "input_pump (fst (read_frames SHELL_FRAME_MAX s)) = local_input ms"
proof -
  let ?fs = "[] # relay_to_peer ms @ [[SHELL_TAG_CLOSE]]"
  have "length f \<le> SHELL_FRAME_MAX" if "f \<in> set ?fs" for f
    using that assms(2) by (auto simp: SHELL_FRAME_MAX_def dest!: relay_to_peer_mem)
  then have "takeWhile (\<lambda>f. length f \<le> SHELL_FRAME_MAX) ?fs = ?fs" by (rule takeWhile_all)
  moreover have "fst (read_frames SHELL_FRAME_MAX s) = takeWhile (\<lambda>f. length f \<le> SHELL_FRAME_MAX) ?fs"
    using assms(1) unfolding write_frames_Inr by (simp del: frames_text.simps add: read_frames_text)
  ultimately show ?thesis by (simp add: input_pump_relay)
qed

theorem peer_terminal_is_local_terminal_witness:
  "input_pump (fst (read_frames SHELL_FRAME_MAX
     (frames_text ([] # relay_to_peer [WsText [0, 108], WsBytes [], WsBytes [1, 0, 24, 0, 80], WsEnd] @ [[SHELL_TAG_CLOSE]]))))
   = [PtyWrite [108], PtyWinsize 24 80]"
proof -
  let ?ms = "[WsText [0, 108], WsBytes [], WsBytes [1, 0, 24, 0, 80], WsEnd]"
  have w: "write_frames [] ([] # relay_to_peer ?ms @ [[SHELL_TAG_CLOSE]])
      = Inr (frames_text ([] # relay_to_peer ?ms @ [[SHELL_TAG_CLOSE]]))"
    by (simp add: write_frames_Inr del: frames_text.simps)
  have "\<forall>m \<in> set ?ms. length (ws_data m) \<le> SHELL_FRAME_MAX" by (simp add: SHELL_FRAME_MAX_def)
  from peer_terminal_is_local_terminal[OF w this]
  show ?thesis by (simp add: be_value_def del: frames_text.simps)
qed

text \<open>In the other direction the relay hands on everything up to the exit frame.\<close>

lemma relay_to_browser_open:
  "\<forall>f \<in> set fs. \<not> (f \<noteq> [] \<and> hd f = SHELL_TAG_EXIT) \<Longrightarrow> relay_to_browser (recv_pump fs) = fs"
  by (induction fs) auto

lemma relay_to_browser_exit:
  "\<forall>f \<in> set fs. \<not> (f \<noteq> [] \<and> hd f = SHELL_TAG_EXIT) \<Longrightarrow>
   relay_to_browser (recv_pump (fs @ (SHELL_TAG_EXIT # c) # rest)) = fs @ [SHELL_TAG_EXIT # c]"
  by (induction fs) auto

section \<open>The dashboard's summary\<close>

lemma worst_step_spec:
  assumes "foldl worst_step None ps = w"
  shows "case w of
      None \<Rightarrow> \<forall>p \<in> set ps. wp_maint p \<or> wp_uptime_24h p = None
    | Some (al, v) \<Rightarrow> (\<exists>p \<in> set ps. \<not> wp_maint p \<and> wp_uptime_24h p = Some v \<and> wp_alias p = al)
        \<and> (\<forall>p \<in> set ps. \<not> wp_maint p \<longrightarrow> (\<forall>u. wp_uptime_24h p = Some u \<longrightarrow> v \<le> u))"
  using assms
proof (induction ps arbitrary: w rule: rev_induct)
  case (snoc p ps)
  let ?w = "foldl worst_step None ps"
  have w: "w = worst_step ?w p" using snoc.prems by simp
  show ?case
  proof (cases "wp_maint p \<or> wp_uptime_24h p = None")
    case True
    then have "w = ?w" by (auto simp: w worst_step_def split: option.splits)
    with snoc.IH[OF refl] True show ?thesis by (auto split: option.splits)
  next
    case False
    then obtain u where u: "wp_uptime_24h p = Some u" "\<not> wp_maint p" by auto
    show ?thesis
    proof (cases ?w)
      case None
      with snoc.IH[OF refl] have "\<forall>p \<in> set ps. wp_maint p \<or> wp_uptime_24h p = None" by simp
      moreover have "w = Some (wp_alias p, u)" using u None by (simp add: w worst_step_def)
      ultimately show ?thesis using u by auto
    next
      case (Some x)
      obtain al v where x: "x = (al, v)" by (cases x)
      with snoc.IH[OF refl] Some have ih: "\<exists>p \<in> set ps. \<not> wp_maint p \<and> wp_uptime_24h p = Some v \<and> wp_alias p = al"
        "\<forall>p \<in> set ps. \<not> wp_maint p \<longrightarrow> (\<forall>u. wp_uptime_24h p = Some u \<longrightarrow> v \<le> u)" by simp_all
      show ?thesis
      proof (cases "u < v")
        case True
        then have "w = Some (wp_alias p, u)" using u Some x by (simp add: w worst_step_def)
        with True ih u show ?thesis by fastforce
      next
        case False
        then have "w = Some (al, v)" using u Some x by (simp add: w worst_step_def)
        with False ih u show ?thesis by auto
      qed
    qed
  qed
qed simp

text \<open>
  The dashboard's summary is right: the counts are of disjoint sets of peers where the fleet is
  not down, the fleet is \<open>operational\<close> exactly when no peer is dead or in maintenance, the worst
  peer is one of those outside maintenance with the least uptime, and it is missing only when no
  such peer has an uptime.
\<close>

theorem dashboard_summary_right:
  assumes "build_dashboard g now = Inr d"
  shows "db_targets d = length (eg_devices g)
    \<and> db_alive d + db_maint d + db_dead d \<le> db_targets d + length [p \<leftarrow> db_peers d. wp_status p = DEAD \<and> wp_maint p]
    \<and> (db_fleet d = ''operational'') = list_all (\<lambda>p. wp_status p \<noteq> DEAD \<and> \<not> wp_maint p) (db_peers d)
    \<and> (case db_worst d of
         None \<Rightarrow> \<forall>p \<in> set (db_peers d). wp_maint p \<or> wp_uptime_24h p = None
       | Some (al, v) \<Rightarrow>
           (\<exists>p \<in> set (db_peers d). \<not> wp_maint p \<and> wp_uptime_24h p = Some v \<and> wp_alias p = al)
           \<and> (\<forall>p \<in> set (db_peers d). \<not> wp_maint p \<longrightarrow> (\<forall>u. wp_uptime_24h p = Some u \<longrightarrow> v \<le> u)))"
proof -
  obtain ps where ps: "rmap (build_web_peer g now) (get_device_states g) = Inr ps"
    and d: "db_peers d = ps" "db_targets d = length ps"
    "db_alive d = length [p \<leftarrow> ps. wp_status p = ALIVE \<and> \<not> wp_maint p]"
    "db_dead d = length [p \<leftarrow> ps. wp_status p = DEAD]" "db_maint d = length [p \<leftarrow> ps. wp_maint p]"
    "db_fleet d = fleet_status (db_dead d) (db_maint d)" "db_worst d = foldl worst_step None ps"
    using assms unfolding build_dashboard_def Let_def rbind_Inr_conv by auto
  have "length ps = length (eg_devices g)"
    using ps by (auto simp: rmap_Inr_conv get_device_states_def dest: list_all2_lengthD)
  moreover have "db_alive d + db_maint d + db_dead d \<le> length ps + length [p \<leftarrow> ps. wp_status p = DEAD \<and> wp_maint p]"
    unfolding d by (induction ps) auto
  moreover have "(db_fleet d = ''operational'') = list_all (\<lambda>p. wp_status p \<noteq> DEAD \<and> \<not> wp_maint p) ps"
    by (auto simp: d(4-6) fleet_status_def list_all_iff filter_empty_conv)
  ultimately show ?thesis unfolding d(1,2) using worst_step_spec[OF d(7)[symmetric]] by simp
qed

text \<open>
  The incident page takes ids of 8 to 64 hexadecimal digits, meant for the shortened ids of the
  dashboard, but looks them up as they are: a shortened id of a peer with any number of outages
  shows an empty page that calls it up.
\<close>

theorem short_id_shows_no_outage:
  assumes "list_all any_hex nid" and "8 \<le> length nid" and "length nid < 64"
    and "\<forall>r \<in> set (hs_probes (eg_history g)). length (pr_node r) = 64"
    and "\<forall>st \<in> set (get_device_states g). length (pe_node_id (ps_entry st)) = 64"
    and "get_peer (eg_trust g) nid = None"
  shows "incidents_page g now nid = IncidentsPage (take 12 nid @ ELLIPSIS) nid []
    \<and> page_totals [] = (0, 0, 0, False)"
proof -
  have "rows_since (eg_history g) nid t = []" for t
    using assms(3,4) by (auto simp: rows_since_def filter_empty_conv)
  then have "incidents (eg_history g) now nid 720 2000 = []"
    by (simp add: incidents_def incident_list_def py_slice_to_def)
  moreover have "filter (\<lambda>st. pe_node_id (ps_entry st) = nid) (get_device_states g) = []"
    using assms(3,5) by (auto simp: filter_empty_conv)
  then have "incidents_alias g nid = take 12 nid @ ELLIPSIS"
    using assms(6) by (simp add: incidents_alias_def)
  moreover have "short_node_id nid" using assms(1-3) by (simp add: short_node_id_def)
  ultimately show ?thesis by (simp add: incidents_page_def page_totals_def)
qed

theorem dashboard_summary_right_witness:
  "\<exists>d. build_dashboard demo_engine 0 = Inr d \<and> db_targets d = 1 \<and> (db_fleet d = ''operational'') =
     list_all (\<lambda>p. wp_status p \<noteq> DEAD \<and> \<not> wp_maint p) (db_peers d)"
proof -
  obtain d where d: "build_dashboard demo_engine 0 = Inr d"
    by (simp add: build_dashboard_def Let_def get_device_states_def demo_engine_def new_engine_def
        build_web_peer_def new_peer_state_def get_peer_def demo_watch_mgr_def demo_peer_def in_maintenance_def)
  from dashboard_summary_right[OF d] d show ?thesis
    by (auto simp: demo_engine_def new_engine_def)
qed

definition demo_outage_engine :: engine where
  "demo_outage_engine = demo_engine\<lparr>eg_devices := [],
     eg_history := \<lparr>hs_probes = [\<lparr>pr_node = replicate 64 (CHR ''a''), pr_ts = 10, pr_rtt = None, pr_status = DEAD\<rparr>],
                    hs_retain_days = 30\<rparr>\<rparr>"

theorem short_id_shows_no_outage_witness:
  "incidents_page demo_outage_engine (usec 20) (replicate 12 (CHR ''a'')) =
     IncidentsPage (replicate 12 (CHR ''a'') @ ELLIPSIS) (replicate 12 (CHR ''a'')) []
   \<and> (\<exists>x. incidents_page demo_outage_engine (usec 20) (replicate 64 (CHR ''a''))
        = IncidentsPage (replicate 12 (CHR ''a'') @ ELLIPSIS) (replicate 64 (CHR ''a'')) [x])"
proof -
  have r: "list_all any_hex (replicate k (CHR ''a''))" for k by (induction k) (simp_all add: any_hex_def)
  have e: "get_device_states demo_outage_engine = []" "length (pr_node r) = 64"
    if "r \<in> set (hs_probes (eg_history demo_outage_engine))" for r
    using that by (simp_all add: demo_outage_engine_def get_device_states_def)
  have g: "get_peer (eg_trust demo_outage_engine) (replicate 12 (CHR ''a'')) = None"
    "get_peer (eg_trust demo_outage_engine) (replicate 64 (CHR ''a'')) = None"
    "get_device_states demo_outage_engine = []"
    by (simp_all add: demo_outage_engine_def demo_engine_def new_engine_def demo_watch_mgr_def get_peer_def
        get_device_states_def numeral_eq_Suc)
  have "incidents (eg_history demo_outage_engine) (usec 20) (replicate 64 (CHR ''a'')) 720 2000 = [open_incident 10 10]"
    by code_simp
  then have "\<exists>x. incidents_page demo_outage_engine (usec 20) (replicate 64 (CHR ''a''))
        = IncidentsPage (replicate 12 (CHR ''a'') @ ELLIPSIS) (replicate 64 (CHR ''a'')) [x]"
    using r[of 64] by (simp add: incidents_page_def short_node_id_def incidents_alias_def g)
  moreover have "incidents_page demo_outage_engine (usec 20) (replicate 12 (CHR ''a'')) =
     IncidentsPage (replicate 12 (CHR ''a'') @ ELLIPSIS) (replicate 12 (CHR ''a'')) []"
    using short_id_shows_no_outage[OF r[of 12], of demo_outage_engine "usec 20"] e(2) g by simp
  ultimately show ?thesis by simp
qed

end
