(* ===== verification/Cli.thy ===== *)
theory Cli
  imports Stats Controlsock
begin

text \<open>
  The command line (main.py) and its client of the control socket (control_client.py): choosing
  the command, reading times and lists, new passwords, the guard against old files, \<open>--init\<close>, and
  the commands that change the trust store, each with its two ways: through the socket of a
  running daemon, or on the files when there is no socket. What is typed, what the password
  backend returns and how file writes end are arguments. A printed line is represented by its
  fixed part.
\<close>

section \<open>Choosing the command\<close>

definition COMMAND_DESTS :: "string list" where
  "COMMAND_DESTS =
     [''init'', ''show_identity'', ''reset_password'', ''add_peer'', ''remove_peer'', ''revoke_peer'',
      ''list_peers'', ''set_permissions'', ''add_permission'', ''set_tags'', ''add_tag'', ''remove_tag'',
      ''set_maintenance'', ''clear_maintenance'', ''list_maintenance'', ''uptime'', ''history'',
      ''test_webhook'', ''fetch_dashboard'', ''daemon'', ''tui'', ''install_service'',
      ''uninstall_service'', ''migrate'', ''rotate_credential'', ''selftest'']"

text \<open>
  What argparse leaves in a command's attribute: a switch that was given is \<open>Some []\<close>, an option
  the list of its values. A single value counts when it is not empty.
\<close>

type_synonym cli_values = "string \<Rightarrow> string list option"

definition given :: "cli_values \<Rightarrow> string \<Rightarrow> bool" where
  "given a d = (case a d of None \<Rightarrow> False | Some [v] \<Rightarrow> v \<noteq> [] | Some _ \<Rightarrow> True)"

definition the_command :: "cli_values \<Rightarrow> string + string" where
  "the_command a =
     (case filter (given a) COMMAND_DESTS of
        [] \<Rightarrow> Inl ''no command given''
      | [d] \<Rightarrow> Inr d
      | _ \<Rightarrow> Inl ''only one command at a time'')"

lemma the_command_only:
  assumes "the_command a = Inr d"
  shows "d \<in> set COMMAND_DESTS \<and> given a d \<and> (\<forall>e \<in> set COMMAND_DESTS. given a e \<longrightarrow> e = d)"
proof -
  have "filter (given a) COMMAND_DESTS = [d]" using assms by (auto simp: the_command_def split: list.splits)
  then have "set (filter (given a) COMMAND_DESTS) = {d}" by simp
  then show ?thesis by auto
qed

section \<open>Lists and times\<close>

text \<open>\<open>[p.strip() for p in csv.split(",") if p.strip()]\<close>\<close>

definition csv_items :: "string \<Rightarrow> string list" where
  "csv_items s = [p \<leftarrow> map py_strip (split_on (CHR '','') s). p \<noteq> []]"

definition unit_seconds :: "char \<Rightarrow> int option" where
  "unit_seconds c =
     (if c = CHR ''s'' then Some 1 else if c = CHR ''m'' then Some 60
      else if c = CHR ''h'' then Some 3600 else if c = CHR ''d'' then Some 86400 else None)"

text \<open>\<open>^\+(\d+)([smhd])$\<close> on a stripped text: the number and its unit in seconds.\<close>

definition rel_offset :: "string \<Rightarrow> (int \<times> int) option" where
  "rel_offset v =
     (if length v < 3 \<or> hd v \<noteq> CHR ''+'' then None
      else case (digits_value (butlast (drop 1 v)), unit_seconds (last v)) of
        (Some n, Some u) \<Rightarrow> Some (n, u) | _ \<Rightarrow> None)"

text \<open>
  \<open>datetime.fromisoformat\<close> in extended format: a date, or a date with a time. A text without an
  offset is read in IST, five and a half hours ahead of UTC.
\<close>

definition from_iso :: "string \<Rightarrow> datetime option" where
  "from_iso v =
     (if length v = 10 then map_option (\<lambda>n. Naive (usec (n * 86400))) (parse_date True v) else iso_text v)"

definition assume_ist :: "datetime \<Rightarrow> datetime" where
  "assume_ist d = (case d of Aware t \<Rightarrow> Aware t | Naive t \<Rightarrow> Aware (t - usec 19800))"

text \<open>
  Adding an offset: a duration has less than a thousand million days, and the sum stays within the
  year 9999 (in IST).
\<close>

definition MAX_DELTA_DAYS :: int where "MAX_DELTA_DAYS = 999999999"
definition END_OF_YEARS :: instant where "END_OF_YEARS = usec (253402300800 - 19800)"

definition add_offset :: "instant \<Rightarrow> int \<Rightarrow> datetime res" where
  "add_offset t secs =
     (if MAX_DELTA_DAYS < secs div 86400 then Inl (OverflowError ''days'')
      else if END_OF_YEARS \<le> t + usec secs then Inl (OverflowError ''date value out of range'')
      else Inr (Aware (t + usec secs)))"

definition parse_time :: "string \<Rightarrow> instant \<Rightarrow> datetime res" where
  "parse_time value anchor =
     (let v = py_strip value in
      if v \<noteq> [] \<and> hd v = CHR ''+'' then
        (case rel_offset v of
           Some (n, u) \<Rightarrow> add_offset anchor (n * u)
         | None \<Rightarrow> if v = ''+0'' \<or> v = ''+0s'' then Inr (Aware anchor) else Inl (ValueError ''invalid relative offset''))
      else case from_iso v of
        None \<Rightarrow> Inl (ValueError ''Invalid isoformat string'')
      | Some d \<Rightarrow> Inr (assume_ist d))"

text \<open>The two times of \<open>--set-maintenance\<close>: the end is counted from the start.\<close>

definition parse_window_times :: "string \<Rightarrow> string \<Rightarrow> instant \<Rightarrow> (datetime \<times> datetime) res" where
  "parse_window_times a b now =
     rbind (parse_time a now) (\<lambda>s.
     rbind (parse_time b (case s of Aware t \<Rightarrow> t | Naive t \<Rightarrow> t)) (\<lambda>e. Inr (s, e)))"

section \<open>New passwords\<close>

text \<open>
  \<open>_prompt_new_password\<close> on the lines that are typed; \<open>None\<close> when they end first (the prompt is
  aborted). The lines left over are returned too.
\<close>

fun prompt_new_password :: "string list \<Rightarrow> (string \<times> string list) option" where
  "prompt_new_password [] = None"
| "prompt_new_password [a] = None"
| "prompt_new_password (a # b # ls) =
     (if length a < MIN_PASSWORD_LENGTH then prompt_new_password (b # ls)
      else if a \<noteq> b then prompt_new_password ls
      else Some (a, ls))"

section \<open>Old files\<close>

definition LEGACY_ARTIFACTS :: "string list" where
  "LEGACY_ARTIFACTS =
     [''account.key'', ''account.meta'', ''device.cert'', ''mesh.json'', ''trusted_peers.json'',
      ''trusted_accounts.json'']"

text \<open>
  The working directory is the list of its files; \<open>can_remove\<close> says which files \<open>unlink\<close> can remove.
  \<open>False\<close> is the exit with code 1.
\<close>

definition wipe_legacy :: "(string \<Rightarrow> bool) \<Rightarrow> string list \<Rightarrow> string list" where
  "wipe_legacy can_remove files = [f \<leftarrow> files. \<not> (f \<in> set LEGACY_ARTIFACTS \<and> can_remove f)]"

definition guard_legacy :: "bool \<Rightarrow> (string \<Rightarrow> bool) \<Rightarrow> string list \<Rightarrow> string list \<times> bool" where
  "guard_legacy force_fresh can_remove files =
     (if \<not> list_ex (\<lambda>f. f \<in> set LEGACY_ARTIFACTS) files then (files, True)
      else if force_fresh then (wipe_legacy can_remove files, True)
      else (files, False))"

section \<open>The client of the control socket\<close>

text \<open>
  What the server does with a request target: \<open>urlparse\<close> cuts the fragment and splits the query
  (a target holds no \<open>;\<close>), and \<open>parse_qs\<close> decodes the values that are not empty. Escapes are decoded
  to bytes, which are the characters of the text.
\<close>

definition split_target :: "string \<Rightarrow> string \<times> string" where
  "split_target u =
     (let v = takeWhile (\<lambda>c. c \<noteq> CHR ''#'') u in
      (takeWhile (\<lambda>c. c \<noteq> CHR ''?'') v, drop 1 (dropWhile (\<lambda>c. c \<noteq> CHR ''?'') v)))"

fun unquote :: "string \<Rightarrow> string" where
  "unquote [] = []"
| "unquote (c # s) =
     (if c = CHR ''%'' then
        (case s of
           a # b # r \<Rightarrow>
             (case (hex_value a, hex_value b) of
                (Some x, Some y) \<Rightarrow> char_of (16 * x + y) # unquote r
              | _ \<Rightarrow> c # unquote s)
         | _ \<Rightarrow> c # unquote s)
      else c # unquote s)"

definition decode_query :: "string \<Rightarrow> string" where
  "decode_query s = unquote (map (\<lambda>c. if c = CHR ''+'' then CHR '' '' else c) s)"

definition query_pair :: "string \<Rightarrow> (string \<times> string) option" where
  "query_pair piece =
     (let k = takeWhile (\<lambda>c. c \<noteq> CHR ''='') piece; v = drop (Suc (length k)) piece in
      if v = [] then None else Some (decode_query k, decode_query v))"

definition query_values :: "string \<Rightarrow> string \<Rightarrow> string list" where
  "query_values name query =
     List.map_filter (\<lambda>p. case query_pair p of
                            None \<Rightarrow> None | Some (k, v) \<Rightarrow> if k = name then Some v else None)
       (split_on (CHR ''&'') query)"

definition query_tag :: "string \<Rightarrow> string option" where
  "query_tag query = (case query_values ''tag'' query of [] \<Rightarrow> None | v # _ \<Rightarrow> Some v)"

text \<open>\<open>http.client\<close> refuses blanks and control characters in a target, and text that is not ASCII.\<close>

definition target_ok :: "string \<Rightarrow> bool" where
  "target_ok u \<longleftrightarrow> list_all (\<lambda>c. 32 < (of_char c :: nat) \<and> (of_char c :: nat) < 127) u"

text \<open>
  The other end: no socket file, a file nobody listens on (the daemon was killed), or a daemon.
  An error is the client's own exception, with its status and message, or another one.
\<close>

datatype daemon = NoSocket | StaleSocket | Running control_state

datatype client_error = ControlClientError int string | Escaped py_error

text \<open>\<open>available\<close>: the file exists and is a socket.\<close>

definition available :: "daemon \<Rightarrow> bool" where
  "available d \<longleftrightarrow> d \<noteq> NoSocket"

definition client_request ::
  "control_env \<Rightarrow> int \<Rightarrow> daemon \<Rightarrow> http_method \<Rightarrow> string \<Rightarrow> json option \<Rightarrow> daemon \<times> (client_error + control_body)" where
  "client_request env uid d m target body =
     (if \<not> target_ok target then (d, Inl (Escaped (ValueError ''invalid URL'')))
      else case d of
        NoSocket \<Rightarrow> (d, Inl (Escaped (FileNotFoundError ''control.sock'')))
      | StaleSocket \<Rightarrow> (d, Inl (Escaped (OSError ''Connection refused'')))
      | Running s \<Rightarrow>
          (case split_target target of
             (path, query) \<Rightarrow>
               (case control_handle env s
                       \<lparr>cr_uid = Some uid, cr_method = m, cr_path = path, cr_query_tag = query_tag query,
                        cr_body = Inr (case body of None \<Rightarrow> JObj [] | Some j \<Rightarrow> j)\<rparr> of
                  (s', (code, b)) \<Rightarrow>
                    (Running s',
                     if 200 \<le> code \<and> code < 300 then Inr b
                     else Inl (ControlClientError code (case b of Failure msg \<Rightarrow> msg | _ \<Rightarrow> []))))))"

section \<open>Commands through the socket\<close>

text \<open>
  What a command finds: the daemon's view of a request, the caller's user, what is typed at a
  prompt and what others do at the daemon meanwhile, what the password backend returns (typed text
  and password are \<open>None\<close> when the command is given up), the signing key of a seed, and how the files
  of the direct way behave when they are opened.
\<close>

record cli_env =
  cl_server :: control_env
  cl_uid :: int
  cl_typed :: "string option"
  cl_between :: "daemon \<Rightarrow> daemon"
  cl_password :: "string option"
  cl_key :: "bytes \<Rightarrow> string"
  cl_open :: io_env

text \<open>
  How a command ends: it says that it did it; it says that it did not, and exits with 0 all the
  same; it exits with another code; an exception ends it.
\<close>

datatype cli_out = Done | Failed string | Exit int string | Crash py_error

fun client_out :: "client_error \<Rightarrow> cli_out" where
  "client_out (ControlClientError code msg) = Exit 1 msg"
| "client_out (Escaped e) = Crash e"

definition send :: "cli_env \<Rightarrow> daemon \<Rightarrow> http_method \<Rightarrow> string \<Rightarrow> json option \<Rightarrow> daemon \<times> cli_out" where
  "send env d m target body =
     (case client_request (cl_server env) (cl_uid env) d m target body of
        (d', Inl e) \<Rightarrow> (d', client_out e)
      | (d', Inr _) \<Rightarrow> (d', Done))"

definition with_peers ::
  "cli_env \<Rightarrow> daemon \<Rightarrow> (daemon \<Rightarrow> trusted_peer list \<Rightarrow> daemon \<times> cli_out) \<Rightarrow> daemon \<times> cli_out" where
  "with_peers env d k =
     (case client_request (cl_server env) (cl_uid env) d GET ''/v1/peers'' None of
        (d', Inl e) \<Rightarrow> (d', client_out e)
      | (d', Inr (Peers ps)) \<Rightarrow> k d' ps
      | (d', Inr _) \<Rightarrow> k d' [])"

text \<open>
  The alias index is a dictionary filled from all peers in order, revoked ones too: the last peer
  with an alias has it.
\<close>

definition alias_index :: "trusted_peer list \<Rightarrow> string \<rightharpoonup> node_id" where
  "alias_index ps =
     map_of (rev (List.map_filter (\<lambda>p. case tp_alias p of
                    Some (c # cs) \<Rightarrow> Some (c # cs, tp_node_id p) | _ \<Rightarrow> None) ps))"

definition socket_target :: "trusted_peer list \<Rightarrow> string \<Rightarrow> node_id option" where
  "socket_target ps raw = (if raw \<in> tp_node_id ` set ps then Some raw else alias_index ps raw)"

definition socket_target_maint :: "trusted_peer list \<Rightarrow> string \<Rightarrow> node_id option" where
  "socket_target_maint ps raw = (if validate_node_id raw then Some raw else alias_index ps raw)"

definition with_target ::
  "node_id option \<Rightarrow> daemon \<Rightarrow> (node_id \<Rightarrow> daemon \<times> cli_out) \<Rightarrow> daemon \<times> cli_out" where
  "with_target t d k = (case t of None \<Rightarrow> (d, Exit 1 ''unknown peer'') | Some nid \<Rightarrow> k nid)"

definition with_typed :: "cli_env \<Rightarrow> daemon \<Rightarrow> (daemon \<Rightarrow> string \<Rightarrow> daemon \<times> cli_out) \<Rightarrow> daemon \<times> cli_out" where
  "with_typed env d k =
     (let d' = cl_between env d in
      case cl_typed env of None \<Rightarrow> (d', Exit 1 ''Aborted.'') | Some pw \<Rightarrow> k d' pw)"

definition peer_path :: "node_id \<Rightarrow> string \<Rightarrow> string" where
  "peer_path nid rest = ''/v1/peers/'' @ nid @ rest"

definition put_perms :: "cli_env \<Rightarrow> daemon \<Rightarrow> node_id \<Rightarrow> string list \<Rightarrow> string \<Rightarrow> daemon \<times> cli_out" where
  "put_perms env d nid perms pw =
     send env d PUT (peer_path nid ''/perms'')
       (Some (JObj [(''permissions'', str_list perms), (''password'', JStr pw)]))"

definition merge_perms :: "string list \<Rightarrow> string list \<Rightarrow> string list" where
  "merge_perms new current = current @ [p \<leftarrow> new. p \<notin> set current]"

text \<open>The permissions of a peer in the answer: a dictionary by id.\<close>

definition perms_of :: "trusted_peer list \<Rightarrow> node_id \<Rightarrow> string list" where
  "perms_of ps nid = (case find_peer ps nid of None \<Rightarrow> [] | Some p \<Rightarrow> tp_permissions p)"

datatype mutation =
    MAddPeer node_id "string option" string "string option"
  | MSetPermissions string string
  | MAddPermission string string
  | MSetTags string string
  | MAddTag string string
  | MRemoveTag string string
  | MSetMaintenance string datetime datetime
  | MClearMaintenance string
  | MRevoke node_id

fun tag_items :: "string option \<Rightarrow> string list" where
  "tag_items None = []"
| "tag_items (Some t) = (if t = [] then [] else csv_items t)"

fun via_socket :: "cli_env \<Rightarrow> daemon \<Rightarrow> mutation \<Rightarrow> daemon \<times> cli_out" where
  "via_socket env d (MAddPeer nid al perms tags) =
     with_typed env d (\<lambda>d1 pw. send env d1 POST ''/v1/peers''
       (Some (JObj [(''node_id'', JStr nid), (''alias'', opt_json al), (''permissions'', str_list (csv_items perms)),
                    (''tags'', str_list (tag_items tags)), (''password'', JStr pw)])))"
| "via_socket env d (MSetPermissions raw csv) =
     with_peers env d (\<lambda>d1 ps. with_target (socket_target ps raw) d1 (\<lambda>nid.
       with_typed env d1 (\<lambda>d2. put_perms env d2 nid (csv_items csv))))"
| "via_socket env d (MAddPermission raw csv) =
     with_peers env d (\<lambda>d1 ps. with_target (socket_target ps raw) d1 (\<lambda>nid.
       with_typed env d1 (\<lambda>d2. put_perms env d2 nid (merge_perms (csv_items csv) (perms_of ps nid)))))"
| "via_socket env d (MSetTags raw csv) =
     with_peers env d (\<lambda>d1 ps. with_target (socket_target ps raw) d1 (\<lambda>nid.
       send env d1 PUT (peer_path nid ''/tags'') (Some (JObj [(''tags'', str_list (csv_items csv))]))))"
| "via_socket env d (MAddTag raw tag) =
     with_peers env d (\<lambda>d1 ps. with_target (socket_target ps raw) d1 (\<lambda>nid.
       send env d1 POST (peer_path nid ''/tags'') (Some (JObj [(''tag'', JStr tag)]))))"
| "via_socket env d (MRemoveTag raw tag) =
     with_peers env d (\<lambda>d1 ps. with_target (socket_target ps raw) d1 (\<lambda>nid.
       send env d1 DELETE (peer_path nid (''/tags?tag='' @ tag)) None))"
| "via_socket env d (MSetMaintenance raw start end_t) =
     with_peers env d (\<lambda>d1 ps. with_target (socket_target_maint ps raw) d1 (\<lambda>nid.
       send env d1 PUT (peer_path nid ''/maint'') (Some (JObj [(''start'', JTime start), (''end'', JTime end_t)]))))"
| "via_socket env d (MClearMaintenance raw) =
     with_peers env d (\<lambda>d1 ps. with_target (socket_target_maint ps raw) d1 (\<lambda>nid.
       send env d1 DELETE (peer_path nid ''/maint'') None))"
| "via_socket env d (MRevoke nid) = send env d DELETE (peer_path nid []) None"

section \<open>Commands on the files\<close>

record cli_files =
  cf_identity :: id_dir
  cf_log :: "log_file option"
  cf_cache :: "trusted_peer list"
  cf_cwd :: "string list"

text \<open>\<open>_unlock_or_exit\<close>\<close>

definition unlock_or_exit :: "cli_env \<Rightarrow> cli_files \<Rightarrow> cli_out + (bytes \<times> node_id)" where
  "unlock_or_exit env w =
     (if \<not> is_sealed (cf_identity w) then Inl (Exit 1 ''Identity is not sealed.'')
      else case cl_password env of
        None \<Rightarrow> Inl (Exit 1 ''Password error'')
      | Some pw \<Rightarrow>
          (case unlock_identity (ce_sealing (cl_server env)) pw (cf_identity w) of
             Inr (seed, m) \<Rightarrow> Inr (seed, im_node_id m)
           | Inl (ValueError _) \<Rightarrow> Inl (Exit 1 ''Unlock failed'')
           | Inl (FileNotFoundError _) \<Rightarrow> Inl (Exit 1 ''Unlock failed'')
           | Inl e \<Rightarrow> Inl (Crash e)))"

text \<open>\<open>_build_trust\<close>: without a key the log is only read.\<close>

definition build_trust ::
  "crypto \<Rightarrow> io_env \<Rightarrow> string option \<Rightarrow> node_id \<Rightarrow> log_file option \<Rightarrow> trusted_peer list \<Rightarrow> trust_mgr \<times> unit res" where
  "build_trust C io key nid f cache =
     (let L0 = new_trust_log key nid f; mgr = (\<lambda>L. (new_trust_mgr L nid)\<lparr>tm_cache := cache\<rparr>) in
      case log_load C L0 of
        Inl e \<Rightarrow> (mgr L0, Inl e)
      | Inr L \<Rightarrow>
          (case (if key \<noteq> None \<and> tl_entries L = [] then ensure_genesis C (io_now io) (io_log_write io) L
                 else (L, Inr ())) of
             (L1, Inl e) \<Rightarrow> (mgr L1, Inl e)
           | (L1, Inr _) \<Rightarrow> trust_load (io_cache_ok io) (mgr L1)))"

definition saved :: "cli_files \<Rightarrow> trust_mgr \<Rightarrow> cli_files" where
  "saved w m = w\<lparr>cf_log := tl_file (tm_log m), cf_cache := tm_cache m\<rparr>"

definition on_files ::
  "cli_env \<Rightarrow> cli_files \<Rightarrow> (node_id \<Rightarrow> bool) \<Rightarrow> (trust_mgr \<Rightarrow> trust_mgr \<times> cli_out) \<Rightarrow> cli_files \<times> cli_out" where
  "on_files env w refused k =
     (case unlock_or_exit env w of
        Inl out \<Rightarrow> (w, out)
      | Inr (seed, nid) \<Rightarrow>
          if refused nid then (w, Exit 1 ''Cannot add yourself as a peer.'')
          else (case build_trust (ce_crypto (cl_server env)) (cl_open env) (Some (cl_key env seed)) nid (cf_log w) (cf_cache w) of
                  (m, Inl e) \<Rightarrow> (saved w m, Crash e)
                | (m, Inr _) \<Rightarrow> (case k m of (m', out) \<Rightarrow> (saved w m', out))))"

definition told :: "trust_mgr \<times> bool res \<Rightarrow> string \<Rightarrow> trust_mgr \<times> cli_out" where
  "told r msg =
     (case r of (m, Inl e) \<Rightarrow> (m, Crash e) | (m, Inr b) \<Rightarrow> (m, if b then Done else Failed msg))"

definition resolved :: "trust_mgr \<Rightarrow> string \<Rightarrow> (node_id \<Rightarrow> trust_mgr \<times> cli_out) \<Rightarrow> trust_mgr \<times> cli_out" where
  "resolved m raw k = (case resolve_target m raw of Inl _ \<Rightarrow> (m, Exit 1 ''no such peer'') | Inr nid \<Rightarrow> k nid)"

fun direct_mutation :: "crypto \<Rightarrow> io_env \<Rightarrow> trust_mgr \<Rightarrow> mutation \<Rightarrow> trust_mgr \<times> cli_out" where
  "direct_mutation C io m (MAddPeer nid al perms tags) =
     told (trust_add_peer C io m nid al (csv_items perms) (tag_items tags)) ''already trusted (or permissions were invalid)''"
| "direct_mutation C io m (MSetPermissions raw csv) =
     resolved m raw (\<lambda>nid. told (trust_update_permissions C io m nid (csv_items csv)) ''Failed to set permissions'')"
| "direct_mutation C io m (MAddPermission raw csv) =
     resolved m raw (\<lambda>nid. told (trust_update_permissions C io m nid
         (merge_perms (csv_items csv) (case get_peer m nid of None \<Rightarrow> [] | Some p \<Rightarrow> tp_permissions p)))
       ''Failed to add permissions'')"
| "direct_mutation C io m (MSetTags raw csv) =
     resolved m raw (\<lambda>nid. told (trust_set_tags C io m nid (csv_items csv)) ''Failed to set tags.'')"
| "direct_mutation C io m (MAddTag raw tag) =
     resolved m raw (\<lambda>nid. told (trust_add_tag C io m nid tag) ''Failed to add tag.'')"
| "direct_mutation C io m (MRemoveTag raw tag) =
     resolved m raw (\<lambda>nid. told (trust_remove_tag C io m nid tag) ''Failed to remove tag.'')"
| "direct_mutation C io m (MSetMaintenance raw start end_t) =
     resolved m raw (\<lambda>nid. told (trust_set_maintenance C io m nid start end_t) ''Failed to schedule maintenance.'')"
| "direct_mutation C io m (MClearMaintenance raw) =
     resolved m raw (\<lambda>nid. told (trust_clear_maintenance C io m nid) ''Peer not found.'')"
| "direct_mutation C io m (MRevoke nid) =
     told (trust_revoke_peer C io m nid) ''was not trusted, or was already revoked''"

definition on_disk :: "cli_env \<Rightarrow> cli_files \<Rightarrow> mutation \<Rightarrow> cli_files \<times> cli_out" where
  "on_disk env w cmd =
     on_files env w (\<lambda>own. case cmd of MAddPeer nid _ _ _ \<Rightarrow> nid = own | _ \<Rightarrow> False)
       (\<lambda>m. direct_mutation (ce_crypto (cl_server env)) (ce_io (cl_server env)) m cmd)"

text \<open>
  A command: the id of \<open>--add-peer\<close> and \<open>--revoke-peer\<close> is checked first; then the socket decides.
  Adding on the files is behind the guard against old files.
\<close>

definition run_mutation ::
  "cli_env \<Rightarrow> bool \<Rightarrow> (string \<Rightarrow> bool) \<Rightarrow> daemon \<times> cli_files \<Rightarrow> mutation \<Rightarrow> (daemon \<times> cli_files) \<times> cli_out" where
  "run_mutation env force_fresh can_remove dw cmd =
     (case dw of (d, w) \<Rightarrow>
        let bad = (case cmd of MAddPeer nid _ _ _ \<Rightarrow> \<not> validate_node_id nid
                   | MRevoke nid \<Rightarrow> \<not> validate_node_id nid | _ \<Rightarrow> False) in
        if bad then (dw, Exit 1 ''NODE_ID must be 64-char lowercase hex.'')
        else if available d then (case via_socket env d cmd of (d', out) \<Rightarrow> ((d', w), out))
        else case (case cmd of MAddPeer _ _ _ _ \<Rightarrow> guard_legacy force_fresh can_remove (cf_cwd w)
                   | _ \<Rightarrow> (cf_cwd w, True)) of
               (files, False) \<Rightarrow> ((d, w\<lparr>cf_cwd := files\<rparr>), Exit 1 ''Legacy account/mesh artifacts detected'')
             | (files, True) \<Rightarrow> (case on_disk env (w\<lparr>cf_cwd := files\<rparr>) cmd of (w', out) \<Rightarrow> ((d, w'), out)))"

section \<open>What the daemon does with a command\<close>

lemma split_on_last: "c \<notin> set a \<Longrightarrow> split_on c a = [a]"
  by (induction a) auto

lemma split_on_part: "c \<notin> set a \<Longrightarrow> split_on c (a @ c # b) = a # split_on c b"
  by (induction a) auto

definition hex_id :: "string \<Rightarrow> bool" where
  "hex_id n \<longleftrightarrow> length n = 64 \<and> list_all hex_char n"

lemma hex_id_valid: "hex_id n \<Longrightarrow> validate_node_id n"
  by (simp add: hex_id_def validate_node_id_def)

lemma hex_char_plain: "hex_char c \<Longrightarrow> c \<noteq> CHR ''/'' \<and> c \<noteq> CHR ''#'' \<and> c \<noteq> CHR ''?'' \<and> 32 < (of_char c :: nat) \<and> (of_char c :: nat) < 127"
  by (auto simp: hex_char_def)

lemma hex_id_plain:
  assumes "hex_id n"
  shows "n \<noteq> []" "CHR ''/'' \<notin> set n" "CHR ''#'' \<notin> set n" "CHR ''?'' \<notin> set n" "target_ok n"
  using assms hex_char_plain by (auto simp: hex_id_def list_all_iff target_ok_def)

lemma target_ok_append [simp]: "target_ok (a @ b) \<longleftrightarrow> target_ok a \<and> target_ok b"
  and target_ok_Cons [simp]: "target_ok (c # b) \<longleftrightarrow> 32 < (of_char c :: nat) \<and> (of_char c :: nat) < 127 \<and> target_ok b"
  and target_ok_Nil [simp]: "target_ok []"
  by (simp_all add: target_ok_def)

lemma rstrip_slash_end: "c \<noteq> CHR ''/'' \<Longrightarrow> rstrip_slash (a @ [c]) = a @ [c]"
  by (simp add: rstrip_slash_def Let_def)

lemma route_one:
  assumes "hex_id n" and "cr_path q = peer_path n []"
  shows "route env s q = route_peers env s q [n]"
proof -
  obtain k c where c: "n = k @ [c]" "c \<noteq> CHR ''/''"
    using hex_id_plain(1,2)[OF assms(1)] by (cases n rule: rev_cases) auto
  have path: "rstrip_slash (cr_path q) = ''/v1/peers/'' @ n"
    using rstrip_slash_end[OF c(2), of "''/v1/peers/'' @ k"] by (simp add: assms(2) peer_path_def c(1))
  have "split_on (CHR ''/'') (''v1/peers/'' @ n) = [''v1'', ''peers'', n]"
    using split_on_part[of "CHR ''/''" "''v1''" "''peers/'' @ n"] split_on_part[of "CHR ''/''" "''peers''" n]
      split_on_last[OF hex_id_plain(2)[OF assms(1)]] by simp
  then show ?thesis by (simp add: route_def Let_def path)
qed

lemma route_sub:
  assumes "hex_id n" and "cr_path q = peer_path n (CHR ''/'' # sub)" and "CHR ''/'' \<notin> set sub" and "sub \<noteq> []"
  shows "route env s q = route_peers env s q [n, sub]"
proof -
  obtain k c where c: "sub = k @ [c]" "c \<noteq> CHR ''/''"
    using assms(3,4) by (cases sub rule: rev_cases) auto
  have path: "rstrip_slash (cr_path q) = ''/v1/peers/'' @ n @ CHR ''/'' # sub"
    using rstrip_slash_end[OF c(2), of "''/v1/peers/'' @ n @ CHR ''/'' # k"] by (simp add: assms(2) peer_path_def c(1))
  have "split_on (CHR ''/'') (''v1/peers/'' @ n @ CHR ''/'' # sub) = [''v1'', ''peers'', n, sub]"
    using split_on_part[of "CHR ''/''" "''v1''" "''peers/'' @ n @ CHR ''/'' # sub"]
      split_on_part[of "CHR ''/''" "''peers''" "n @ CHR ''/'' # sub"]
      split_on_part[OF hex_id_plain(2)[OF assms(1)], of sub] split_on_last[OF assms(3)] by simp
  then show ?thesis by (simp add: route_def Let_def path)
qed

lemma route_all:
  assumes "cr_path q = ''/v1/peers''"
  shows "route env s q = route_collection env s q"
  using assms by (simp add: route_def Let_def rstrip_slash_def route_peers_def)

text \<open>A target without a query, and with one.\<close>

lemma while_not_mem:
  "c \<notin> set u \<Longrightarrow> takeWhile (\<lambda>x. x \<noteq> c) u = u" "c \<notin> set u \<Longrightarrow> dropWhile (\<lambda>x. x \<noteq> c) u = []"
  "c \<notin> set u \<Longrightarrow> takeWhile (\<lambda>x. x \<noteq> c) (u @ c # v) = u" "c \<notin> set u \<Longrightarrow> dropWhile (\<lambda>x. x \<noteq> c) (u @ c # v) = c # v"
  by (induction u) auto

lemma split_target_plain:
  "CHR ''#'' \<notin> set u \<Longrightarrow> CHR ''?'' \<notin> set u \<Longrightarrow> split_target u = (u, [])"
  by (simp add: split_target_def while_not_mem)

lemma split_target_query:
  assumes "CHR ''#'' \<notin> set (u @ v)" "CHR ''?'' \<notin> set u"
  shows "split_target (u @ CHR ''?'' # v) = (u, v)"
proof -
  have "CHR ''#'' \<notin> set (u @ CHR ''?'' # v)" using assms(1) by simp
  then have "takeWhile (\<lambda>c. c \<noteq> CHR ''#'') (u @ CHR ''?'' # v) = u @ CHR ''?'' # v" by (rule while_not_mem)
  then show ?thesis
    unfolding split_target_def Let_def using while_not_mem(3,4)[OF assms(2), of v] by (simp only: drop_Suc_Cons drop_0 One_nat_def)
qed

text \<open>The characters of a tag that reach the server as they were typed.\<close>

definition plain_char :: "char \<Rightarrow> bool" where
  "plain_char c \<longleftrightarrow> 32 < (of_char c :: nat) \<and> (of_char c :: nat) < 127 \<and> c \<notin> set ''%+&#''"

lemma unquote_plain: "CHR ''%'' \<notin> set s \<Longrightarrow> unquote s = s"
  by (induction s rule: unquote.induct) auto

lemma query_tag_plain:
  assumes "list_all plain_char t" and "t \<noteq> []"
  shows "query_tag (''tag='' @ t) = Some t"
proof -
  have c: "CHR ''%'' \<notin> set t" "CHR ''+'' \<notin> set t" "CHR ''&'' \<notin> set t"
    using assms(1) by (auto simp: list_all_iff plain_char_def)
  have plus: "map (\<lambda>c. if c = CHR ''+'' then CHR '' '' else c) t = t"
    using c(2) by (induction t) auto
  have "decode_query t = t" using plus unquote_plain[OF c(1)] by (simp add: decode_query_def)
  moreover have "decode_query ''tag'' = ''tag''" by (simp add: decode_query_def)
  moreover have "split_on (CHR ''&'') (''tag='' @ t) = [''tag='' @ t]" using c(3) by (intro split_on_last) simp
  ultimately show ?thesis using assms(2)
    by (simp add: query_tag_def query_values_def query_pair_def Let_def map_filter_simps)
qed

text \<open>A mutation the engine carries out, as the client sees it.\<close>

lemma send_served:
  assumes "cl_uid env = ce_euid (cl_server env)" and "target_ok target" and "split_target target = (path, query)"
    and "q = \<lparr>cr_uid = Some (cl_uid env), cr_method = m, cr_path = path, cr_query_tag = query_tag query,
           cr_body = Inr (case body of None \<Rightarrow> JObj [] | Some j \<Rightarrow> j)\<rparr>"
    and "route (cl_server env) s q = reply s (with_trust (cs_engine s) (t', Inr True) msg f) code ok"
    and "\<And>g. eg_trust (f g) = eg_trust g" and "200 \<le> code" "code < 300"
  shows "\<exists>s'. send env (Running s) m target body = (Running s', Done) \<and> eg_trust (cs_engine s') = t'"
  using assms by (auto simp: send_def client_request_def control_handle_def control_authorized_def reply_def with_trust_def)

lemma with_peers_served:
  assumes "cl_uid env = ce_euid (cl_server env)"
  shows "with_peers env (Running s) k = k (Running s) (tm_store (eg_trust (cs_engine s)))"
proof -
  have "split_target ''/v1/peers'' = (''/v1/peers'', [])" by (simp add: split_target_def)
  then show ?thesis using assms
    by (simp add: with_peers_def client_request_def control_handle_def control_authorized_def route_all
        route_collection_def Let_def say_def)
qed

section \<open>Both ways do the same\<close>

fun mutation_target :: "mutation \<Rightarrow> string" where
  "mutation_target (MAddPeer n _ _ _) = n"
| "mutation_target (MSetPermissions r _) = r"
| "mutation_target (MAddPermission r _) = r"
| "mutation_target (MSetTags r _) = r"
| "mutation_target (MAddTag r _) = r"
| "mutation_target (MRemoveTag r _) = r"
| "mutation_target (MSetMaintenance r _ _) = r"
| "mutation_target (MClearMaintenance r) = r"
| "mutation_target (MRevoke n) = n"

text \<open>What a command means on the abstract store, for the peer it names.\<close>

fun mutation_op :: "trusted_peer list \<Rightarrow> node_id \<Rightarrow> mutation \<Rightarrow> trust_op" where
  "mutation_op st nid (MAddPeer n al perms tags) = AddPeer n al (csv_items perms) (tag_items tags)"
| "mutation_op st nid (MSetPermissions r csv) = UpdatePermissions nid (csv_items csv)"
| "mutation_op st nid (MAddPermission r csv) = UpdatePermissions nid (merge_perms (csv_items csv) (perms_of st nid))"
| "mutation_op st nid (MSetTags r csv) = SetTags nid (csv_items csv)"
| "mutation_op st nid (MAddTag r t) = AddTag nid t"
| "mutation_op st nid (MRemoveTag r t) = RemoveTag nid t"
| "mutation_op st nid (MSetMaintenance r a b) = SetMaintenance nid a b"
| "mutation_op st nid (MClearMaintenance r) = ClearMaintenance nid"
| "mutation_op st nid (MRevoke n) = RevokePeer n"

text \<open>
  The text names the peer: it is its id, or an alias that only this peer ever had. Two commands
  have a condition of their own: a new peer is not the device itself and has a key iroh takes; the
  tag to be removed consists of characters that pass through a query.
\<close>

definition names_peer :: "trusted_peer list \<Rightarrow> string \<Rightarrow> node_id \<Rightarrow> bool" where
  "names_peer st raw nid \<longleftrightarrow> hex_id nid \<and>
     (\<exists>p \<in> set st. tp_node_id p = nid \<and> tp_revoked p = None
        \<and> (raw = nid
           \<or> raw \<noteq> [] \<and> \<not> validate_node_id raw \<and> tp_alias p = Some raw
             \<and> (\<forall>q \<in> set st. tp_node_id q \<noteq> raw \<and> (tp_alias q = Some raw \<longrightarrow> q = p))))"

fun ready :: "(node_id \<Rightarrow> bool) \<Rightarrow> node_id \<Rightarrow> trusted_peer list \<Rightarrow> node_id \<Rightarrow> mutation \<Rightarrow> bool" where
  "ready key_ok own st nid (MAddPeer n al perms tags) = (hex_id n \<and> key_ok n \<and> n \<noteq> own)"
| "ready key_ok own st nid (MRevoke n) = hex_id n"
| "ready key_ok own st nid (MRemoveTag raw t) = (names_peer st raw nid \<and> t \<noteq> [] \<and> list_all plain_char t)"
| "ready key_ok own st nid cmd = names_peer st (mutation_target cmd) nid"

lemma map_filter_mem: "y \<in> set (List.map_filter f xs) \<longleftrightarrow> (\<exists>x \<in> set xs. f x = Some y)"
  by (induction xs) (auto simp: map_filter_simps split: option.splits)

lemma alias_index_unique:
  assumes "p \<in> set st" "tp_alias p = Some raw" "raw \<noteq> []" "\<And>q. q \<in> set st \<Longrightarrow> tp_alias q = Some raw \<Longrightarrow> q = p"
  shows "alias_index st raw = Some (tp_node_id p)"
proof -
  define f where "f = (\<lambda>p :: trusted_peer. case tp_alias p of Some (c # cs) \<Rightarrow> Some (c # cs, tp_node_id p) | _ \<Rightarrow> None)"
  have f: "f q = Some (raw, n) \<longleftrightarrow> tp_alias q = Some raw \<and> n = tp_node_id q" for q n
    using assms(3) by (auto simp: f_def split: option.splits list.splits)
  have mem: "(raw, n) \<in> set (List.map_filter f st) \<longleftrightarrow> n = tp_node_id p" for n
    unfolding map_filter_mem f using assms(1,2,4) by blast
  let ?m = "rev (List.map_filter f st)"
  have "raw \<in> fst ` set ?m" using mem[of "tp_node_id p"] by force
  then obtain n where n: "map_of ?m raw = Some n" by (meson map_of_eq_None_iff not_Some_eq)
  from map_of_SomeD[OF this] mem have "n = tp_node_id p" by simp
  with n show ?thesis by (simp add: alias_index_def f_def)
qed

lemma names_peerE:
  assumes "names_peer st raw nid"
  obtains (by_id) p where "hex_id nid" "p \<in> set st" "tp_node_id p = nid" "tp_revoked p = None" "raw = nid"
  | (by_alias) p where "hex_id nid" "p \<in> set st" "tp_node_id p = nid" "tp_revoked p = None" "raw \<noteq> []"
      "\<not> validate_node_id raw" "tp_alias p = Some raw" "raw \<notin> tp_node_id ` set st"
      "\<And>q. q \<in> set st \<Longrightarrow> tp_alias q = Some raw \<Longrightarrow> q = p"
  using assms unfolding names_peer_def by blast

lemma names_peer_targets:
  assumes "names_peer st raw nid"
  shows "socket_target st raw = Some nid \<and> socket_target_maint st raw = Some nid"
  using assms
proof (cases rule: names_peerE)
  case (by_id p)
  then show ?thesis by (auto simp: socket_target_def socket_target_maint_def hex_id_valid)
next
  case (by_alias p)
  from alias_index_unique[OF by_alias(2,7,5,9)] by_alias(3,6,8) show ?thesis
    by (simp add: socket_target_def socket_target_maint_def)
qed

lemma filter_unique:
  assumes "distinct (map f xs)" "p \<in> set xs" "P p" "\<And>q. q \<in> set xs \<Longrightarrow> P q \<Longrightarrow> q = p"
  shows "filter P xs = [p]"
proof -
  have mem: "q \<in> set (filter P xs) \<longleftrightarrow> q = p" for q unfolding set_filter mem_Collect_eq using assms(2-4) by blast
  have dist: "distinct (filter P xs)" using assms(1) by (simp add: distinct_map)
  have "set (filter P xs) = {p}" using mem by blast
  then have "length (filter P xs) = 1" using distinct_card[OF dist] by simp
  then obtain x where "filter P xs = [x]" by (auto simp: length_Suc_conv)
  with mem show ?thesis by (metis list.set_intros(1))
qed

lemma names_peer_resolves:
  assumes "names_peer (tm_store m) raw nid" and "distinct (map tp_node_id (tm_store m))"
  shows "resolve_target m raw = Inr nid"
  using assms(1)
proof (cases rule: names_peerE)
  case (by_id p)
  then show ?thesis by (simp add: resolve_target_def hex_id_valid)
next
  case (by_alias p)
  have "[q \<leftarrow> tm_store m. tp_alias q = Some raw \<and> tp_revoked q = None] = [p]"
    using by_alias(2,4,7,9) by (intro filter_unique[OF assms(2)]) blast+
  with by_alias(3,6) show ?thesis by (simp add: resolve_target_def)
qed

text \<open>The daemon's side of each command.\<close>

lemma password_ok_typed:
  assumes "ce_identity env = Some dir" "unlock_identity (ce_sealing env) pw dir = Inr x" "pw \<noteq> []"
    and "dget d ''password'' = JStr pw"
  shows "password_ok env d = Inr True"
  using assms by (simp add: password_ok_def Let_def field_def plain_def verify_identity_password_def)

lemma plain_strs [simp]: "plain env \<circ> JStr = JStr"
  by (simp add: fun_eq_iff)

lemma hashable_strs [simp]: "list_all hashable (map JStr xs)"
  by (induction xs) simp_all

lemma put_perms_served:
  assumes "cl_uid env = ce_euid (cl_server env)" "hex_id nid"
    and "ce_identity (cl_server env) = Some dir" "unlock_identity (ce_sealing (cl_server env)) pw dir = Inr x" "pw \<noteq> []"
    and "trust_update_permissions (ce_crypto (cl_server env)) (ce_io (cl_server env)) (eg_trust (cs_engine s)) nid perms = (t', Inr True)"
  shows "\<exists>s'. put_perms env (Running s) nid perms pw = (Running s', Done) \<and> eg_trust (cs_engine s') = t'"
proof -
  let ?body = "[(''permissions'', str_list perms), (''password'', JStr pw)]"
  let ?q = "\<lparr>cr_uid = Some (cl_uid env), cr_method = PUT, cr_path = peer_path nid ''/perms'', cr_query_tag = query_tag [],
           cr_body = Inr (JObj ?body)\<rparr>"
  have pw: "password_ok (cl_server env) ?body = Inr True"
    using password_ok_typed[OF assms(3-5)] by (simp add: dict_simps)
  have "route (cl_server env) s ?q = route_perms (cl_server env) s ?q nid"
    using route_sub[OF assms(2), of ?q "''perms''"] by (simp add: route_peers_def)
  also have "\<dots> = reply s (with_trust (cs_engine s) (t', Inr True)
      ''Failed to update permissions (peer missing, revoked, or invalid perms)''
      (apply_devices_reload (ce_key_ok (cl_server env)) (ce_now (cl_server env)))) 200 Ok"
    using assms(6) hex_id_valid[OF assms(2)] pw
    by (simp add: route_perms_def with_body_def need_dict_def with_password_def dict_simps str_list_def
        update_permissions_untyped_def update_peer_permissions_def)
  finally have r: "route (cl_server env) s ?q = \<dots>" .
  have t: "target_ok (peer_path nid ''/perms'')" "split_target (peer_path nid ''/perms'') = (peer_path nid ''/perms'', [])"
    using hex_id_plain[OF assms(2)] by (auto simp: peer_path_def intro!: split_target_plain)
  show ?thesis unfolding put_perms_def
    by (rule send_served[OF assms(1) t _ r]) simp_all
qed

text \<open>The requests that carry no password: one peer, one of its parts.\<close>

lemma send_sub_served:
  assumes "cl_uid env = ce_euid (cl_server env)" "hex_id nid"
    and "sub = ''tags'' \<or> sub = ''maint''"
    and "\<And>q. cr_method q = m \<Longrightarrow> cr_query_tag q = None \<Longrightarrow> cr_body q = Inr (case body of None \<Rightarrow> JObj [] | Some j \<Rightarrow> j)
      \<Longrightarrow> route_peers (cl_server env) s q [nid, sub]
        = reply s (with_trust (cs_engine s) (t', Inr True) msg f) 200 Ok"
    and "\<And>g. eg_trust (f g) = eg_trust g"
  shows "\<exists>s'. send env (Running s) m (peer_path nid (CHR ''/'' # sub)) body = (Running s', Done) \<and> eg_trust (cs_engine s') = t'"
proof -
  let ?q = "\<lparr>cr_uid = Some (cl_uid env), cr_method = m, cr_path = peer_path nid (CHR ''/'' # sub),
      cr_query_tag = query_tag [], cr_body = Inr (case body of None \<Rightarrow> JObj [] | Some j \<Rightarrow> j)\<rparr>"
  have none: "query_tag [] = None" by code_simp
  have "route (cl_server env) s ?q = route_peers (cl_server env) s ?q [nid, sub]"
    by (rule route_sub[OF assms(2)]) (use assms(3) in auto)
  also have "\<dots> = reply s (with_trust (cs_engine s) (t', Inr True) msg f) 200 Ok"
    using assms(4)[of ?q] none by simp
  finally have r: "route (cl_server env) s ?q = \<dots>" .
  have t: "target_ok (peer_path nid (CHR ''/'' # sub))"
    "split_target (peer_path nid (CHR ''/'' # sub)) = (peer_path nid (CHR ''/'' # sub), [])"
    using hex_id_plain[OF assms(2)] assms(3) by (auto simp: peer_path_def intro!: split_target_plain)
  show ?thesis by (rule send_served[OF assms(1) t refl r assms(5)]) simp_all
qed

lemma remove_tag_served:
  assumes "cl_uid env = ce_euid (cl_server env)" "hex_id nid" "target_ok u" "CHR ''#'' \<notin> set u"
    and "query_tag (''tag='' @ u) = Some t" "t \<noteq> []"
    and "trust_remove_tag (ce_crypto (cl_server env)) (ce_io (cl_server env)) (eg_trust (cs_engine s)) nid t = (t', Inr True)"
  shows "\<exists>s'. send env (Running s) DELETE (peer_path nid (''/tags?tag='' @ u)) None = (Running s', Done) \<and> eg_trust (cs_engine s') = t'"
proof -
  let ?q = "\<lparr>cr_uid = Some (cl_uid env), cr_method = DELETE, cr_path = peer_path nid ''/tags'',
      cr_query_tag = query_tag (''tag='' @ u), cr_body = Inr (case None of None \<Rightarrow> JObj [] | Some j \<Rightarrow> j)\<rparr>"
  have "route (cl_server env) s ?q = route_tags (cl_server env) s ?q nid"
    using route_sub[OF assms(2), of ?q "''tags''"] by (simp add: route_peers_def)
  also have "\<dots> = reply s (with_trust (cs_engine s) (t', Inr True) ''Failed to remove tag'' (\<lambda>g. g)) 200 Ok"
    using assms(5-7) hex_id_valid[OF assms(2)]
    by (simp add: route_tags_def remove_tag_untyped_def remove_peer_tag_def)
  finally have r: "route (cl_server env) s ?q = \<dots>" .
  have p: "peer_path nid (''/tags?tag='' @ u) = peer_path nid ''/tags'' @ CHR ''?'' # ''tag='' @ u" by (simp add: peer_path_def)
  have t: "target_ok (peer_path nid (''/tags?tag='' @ u))"
    using hex_id_plain(5)[OF assms(2)] assms(3) by (simp add: peer_path_def)
  have v: "split_target (peer_path nid (''/tags?tag='' @ u)) = (peer_path nid ''/tags'', ''tag='' @ u)"
    unfolding p using hex_id_plain(3,4)[OF assms(2)] assms(4) by (intro split_target_query) (simp_all add: peer_path_def)
  show ?thesis by (rule send_served[OF assms(1) t v refl r]) simp_all
qed

lemma plain_target: "list_all plain_char t \<Longrightarrow> target_ok t \<and> CHR ''#'' \<notin> set t"
  by (auto simp: target_ok_def list_all_iff plain_char_def)

lemma revoke_served:
  assumes "cl_uid env = ce_euid (cl_server env)" "hex_id nid"
    and "trust_revoke_peer (ce_crypto (cl_server env)) (ce_io (cl_server env)) (eg_trust (cs_engine s)) nid = (t', Inr True)"
  shows "\<exists>s'. send env (Running s) DELETE (peer_path nid []) None = (Running s', Done) \<and> eg_trust (cs_engine s') = t'"
proof -
  let ?q = "\<lparr>cr_uid = Some (cl_uid env), cr_method = DELETE, cr_path = peer_path nid [],
      cr_query_tag = query_tag [], cr_body = Inr (case None of None \<Rightarrow> JObj [] | Some j \<Rightarrow> j)\<rparr>"
  have r: "route (cl_server env) s ?q = reply s (with_trust (cs_engine s) (t', Inr True)
      ''Peer not found or already revoked'' (apply_devices_reload (ce_key_ok (cl_server env)) (ce_now (cl_server env)))) 200 Ok"
    using assms(3) hex_id_valid[OF assms(2)] route_one[OF assms(2), of ?q]
    by (simp add: route_peers_def route_peer_def revoke_peer_def)
  have t: "target_ok (peer_path nid [])" "split_target (peer_path nid []) = (peer_path nid [], [])"
    using hex_id_plain[OF assms(2)] by (auto simp: peer_path_def intro!: split_target_plain)
  show ?thesis by (rule send_served[OF assms(1) t refl r]) simp_all
qed

lemma add_served:
  assumes "cl_uid env = ce_euid (cl_server env)" "hex_id nid" "ce_key_ok (cl_server env) nid" "nid \<noteq> eg_node_id (cs_engine s)"
    and "ce_identity (cl_server env) = Some dir" "unlock_identity (ce_sealing (cl_server env)) pw dir = Inr x" "pw \<noteq> []"
    and "trust_add_peer (ce_crypto (cl_server env)) (ce_io (cl_server env)) (eg_trust (cs_engine s)) nid al perms tags = (t', Inr True)"
  shows "\<exists>s'. send env (Running s) POST ''/v1/peers''
      (Some (JObj [(''node_id'', JStr nid), (''alias'', opt_json al), (''permissions'', str_list perms),
                   (''tags'', str_list tags), (''password'', JStr pw)])) = (Running s', Done) \<and> eg_trust (cs_engine s') = t'"
proof -
  let ?d = "[(''node_id'', JStr nid), (''alias'', opt_json al), (''permissions'', str_list perms),
                   (''tags'', str_list tags), (''password'', JStr pw)]"
  let ?q = "\<lparr>cr_uid = Some (cl_uid env), cr_method = POST, cr_path = ''/v1/peers'', cr_query_tag = query_tag [],
      cr_body = Inr (case Some (JObj ?d) of None \<Rightarrow> JObj [] | Some j \<Rightarrow> j)\<rparr>"
  let ?C = "ce_crypto (cl_server env)" and ?io = "ce_io (cl_server env)" and ?m = "eg_trust (cs_engine s)"
  have pw: "password_ok (cl_server env) ?d = Inr True"
    using password_ok_typed[OF assms(5-7)] by (simp add: dict_simps)
  have ps: "plain_items (cl_server env) (py_or (str_list perms) (JArr [JStr ''monitor''])) = str_list (if perms = [] then [''monitor''] else perms)"
    and ts: "plain_items (cl_server env) (py_or (str_list tags) (JArr [])) = str_list tags"
    by (auto simp: plain_items_def py_or_def str_list_def)
  have al: "plain (cl_server env) (opt_json al) = opt_json al" by (cases al) (simp_all add: opt_json_def)
  have "trust_add_peer ?C ?io ?m nid al (if perms = [] then [''monitor''] else perms) tags = (t', Inr True)"
    using assms(8) by (simp add: trust_add_peer_def)
  then have add: "trust_add_untyped ?C ?io ?m nid (opt_json al) (str_list (if perms = [] then [''monitor''] else perms)) (str_list tags) = (t', Inr True)"
    by (simp only: trust_add_untyped_typed)
  have "route (cl_server env) s ?q = route_collection (cl_server env) s ?q" by (rule route_all) simp
  also have "\<dots> = reply s (with_trust (cs_engine s) (t', Inr True)
      ''Peer already trusted (or invalid permissions)''
      (apply_devices_reload (ce_key_ok (cl_server env)) (ce_now (cl_server env)))) 201 (OkNode nid)"
    using assms(3,4) hex_id_valid[OF assms(2)] hex_id_plain(1)[OF assms(2)] pw
    by (simp add: route_collection_def Let_def with_body_def need_dict_def with_password_def dict_simps
        add_peer_untyped_def field_def ps ts al add)
  finally have r: "route (cl_server env) s ?q = \<dots>" .
  have t: "target_ok ''/v1/peers''" "split_target ''/v1/peers'' = (''/v1/peers'', [])"
    by simp (auto intro!: split_target_plain)
  show ?thesis by (rule send_served[OF assms(1) t refl r]) simp_all
qed

lemma via_socket_runs:
  assumes "cl_uid env = ce_euid (cl_server env)"
    and "cl_typed env = Some pw \<and> cl_between env (Running s) = Running s" "pw \<noteq> []" "ce_identity (cl_server env) = Some dir"
    and "unlock_identity (ce_sealing (cl_server env)) pw dir = Inr x"
    and "ready (ce_key_ok (cl_server env)) (eg_node_id (cs_engine s)) st nid cmd" and "st = tm_store (eg_trust (cs_engine s))"
    and "run_op (ce_crypto (cl_server env)) (ce_io (cl_server env)) (eg_trust (cs_engine s)) (mutation_op st nid cmd) = (t', Inr True)"
  shows "\<exists>s'. via_socket env (Running s) cmd = (Running s', Done) \<and> eg_trust (cs_engine s') = t'"
proof -
  note peers = with_peers_served[OF assms(1), of s, folded assms(7)]
  have named: "socket_target st raw = Some nid" "socket_target_maint st raw = Some nid" "hex_id nid"
    if "names_peer st raw nid" for raw
    using names_peer_targets[OF that] that by (auto simp: names_peer_def)
  note defs = with_target_def with_typed_def Let_def assms(2) peers
  note perms = put_perms_served[OF assms(1) _ assms(4,5,3)]
  note sub = send_sub_served[OF assms(1)]
  show ?thesis
  proof (cases cmd)
    case (MAddPeer n al ps ts)
    with assms add_served[OF assms(1), of n s dir pw x al "csv_items ps" "tag_items ts" t'] show ?thesis
      by (simp add: defs)
  next
    case (MSetPermissions raw csv)
    with assms(6,8) named[of raw] perms show ?thesis by (simp add: defs)
  next
    case (MAddPermission raw csv)
    with assms(6,8) named[of raw] perms show ?thesis by (simp add: defs)
  next
    case (MSetTags raw csv)
    with assms(6) have n: "names_peer st raw nid" by simp
    have "\<exists>s'. send env (Running s) PUT (peer_path nid (CHR ''/'' # ''tags'')) (Some (JObj [(''tags'', str_list (csv_items csv))]))
        = (Running s', Done) \<and> eg_trust (cs_engine s') = t'"
      by (rule sub[where f = "apply_devices_reload (ce_key_ok (cl_server env)) (ce_now (cl_server env))", OF named(3)[OF n]])
        (use assms(8) MSetTags hex_id_valid[OF named(3)[OF n]] in
          \<open>auto simp: route_peers_def route_tags_def with_body_def need_dict_def dict_simps str_list_def
            set_tags_untyped_def set_peer_tags_def\<close>)
    with MSetTags named[OF n] show ?thesis by (simp add: defs)
  next
    case (MAddTag raw t)
    with assms(6) have n: "names_peer st raw nid" by simp
    have ne: "t \<noteq> []" using assms(8) MAddTag by (auto simp: trust_add_tag_def Let_def py_strip_def)
    have "\<exists>s'. send env (Running s) POST (peer_path nid (CHR ''/'' # ''tags'')) (Some (JObj [(''tag'', JStr t)]))
        = (Running s', Done) \<and> eg_trust (cs_engine s') = t'"
      by (rule sub[OF named(3)[OF n]])
        (use assms(8) MAddTag ne hex_id_valid[OF named(3)[OF n]] in
          \<open>auto simp: route_peers_def route_tags_def with_body_def need_dict_def dict_simps field_def add_peer_tag_def\<close>)
    with MAddTag named[OF n] show ?thesis by (simp add: defs)
  next
    case (MRemoveTag raw t)
    with assms(6) have n: "names_peer st raw nid" "t \<noteq> []" "list_all plain_char t" by simp_all
    from remove_tag_served[OF assms(1) named(3)[OF n(1)] _ _ query_tag_plain[OF n(3,2)] n(2)] plain_target[OF n(3)] assms(8) MRemoveTag named[OF n(1)] show ?thesis
      by (simp add: defs)
  next
    case (MSetMaintenance raw a b)
    with assms(6) have n: "names_peer st raw nid" by simp
    have lt: "dt_le b a = Inr False"
      using assms(8) MSetMaintenance by (auto simp: trust_set_maintenance_def split: sum.splits bool.splits)
    have "\<exists>s'. send env (Running s) PUT (peer_path nid (CHR ''/'' # ''maint'')) (Some (JObj [(''start'', JTime a), (''end'', JTime b)]))
        = (Running s', Done) \<and> eg_trust (cs_engine s') = t'"
      by (rule sub[OF named(3)[OF n]])
        (use assms(8) MSetMaintenance lt hex_id_valid[OF named(3)[OF n]] in
          \<open>auto simp: route_peers_def route_maint_def with_body_def need_dict_def dict_simps set_peer_maintenance_def\<close>)
    with MSetMaintenance named[OF n] show ?thesis by (simp add: defs)
  next
    case (MClearMaintenance raw)
    with assms(6) have n: "names_peer st raw nid" by simp
    have "\<exists>s'. send env (Running s) DELETE (peer_path nid (CHR ''/'' # ''maint'')) None = (Running s', Done) \<and> eg_trust (cs_engine s') = t'"
      by (rule sub[OF named(3)[OF n]])
        (use assms(8) MClearMaintenance hex_id_valid[OF named(3)[OF n]] in
          \<open>auto simp: route_peers_def route_maint_def clear_peer_maintenance_def\<close>)
    with MClearMaintenance named[OF n] show ?thesis by (simp add: defs)
  next
    case (MRevoke n)
    with assms(6,8) revoke_served[OF assms(1), of n s t'] show ?thesis by simp
  qed
qed

text \<open>The direct way: opening the files gives the store the daemon has.\<close>

lemma run_op_log:
  assumes "run_op C io m op = (m', Inr b)"
  shows "tm_log m' = tm_log m \<or>
    (\<exists>w t d e. io_log_write io = Some w \<and> log_append C (io_now io) (Some w) (tm_log m) t d = (tm_log m', Inr e))"
proof -
  have commit: "\<exists>w t d e. io_log_write io = Some w \<and> log_append C (io_now io) (Some w) (tm_log m) t d = (tm_log m', Inr e)"
    if c: "commit C io m t d = (m', Inr b)" for t d
  proof -
    obtain L e where L: "log_append C (io_now io) (io_log_write io) (tm_log m) t d = (L, Inr e)"
      using c by (cases "log_append C (io_now io) (io_log_write io) (tm_log m) t d"; cases "snd (log_append C (io_now io) (io_log_write io) (tm_log m) t d)")
        (simp_all add: commit_def)
    obtain m1 x where "refresh (io_cache_ok io) (m\<lparr>tm_log := L\<rparr>) = (m1, x)" by (cases "refresh (io_cache_ok io) (m\<lparr>tm_log := L\<rparr>)")
    with c L have r: "refresh (io_cache_ok io) (m\<lparr>tm_log := L\<rparr>) = (m', Inr ())"
      by (cases x) (simp_all add: commit_def)
    from L obtain w where w: "io_log_write io = Some w"
      by (auto simp: log_append_def Let_def split: option.splits if_splits)
    have "tm_log m' = L"
      using r by (auto simp: refresh_def rebuild_from_log_def save_cache_def rbind_Inr_conv split: sum.splits if_splits)
    with L w show ?thesis by auto
  qed
  show ?thesis
    using assms commit
    by (cases op)
      (auto simp: trust_add_peer_def trust_revoke_peer_def trust_update_permissions_def trust_set_alias_def
        trust_set_tags_def trust_add_tag_def trust_remove_tag_def trust_set_maintenance_def
        trust_clear_maintenance_def Let_def split: if_splits option.splits sum.splits bool.splits)
qed

text \<open>What \<open>--list-peers\<close> finds in the files.\<close>

definition file_peers :: "crypto \<Rightarrow> node_id \<Rightarrow> log_file option \<Rightarrow> trusted_peer list res" where
  "file_peers C own f = rbind (log_load C (new_trust_log None own f)) (\<lambda>L. peer_view (tl_entries L))"

lemma log_reopens:
  assumes "log_synced C L" "tl_file L \<noteq> None"
  shows "log_load C (new_trust_log key (tl_own L) (tl_file L)) = Inr (L\<lparr>tl_key := key\<rparr>)"
proof -
  obtain f where f: "tl_file L = Some f" using assms(2) by blast
  with assms(1) show ?thesis
    by (cases L) (auto simp: log_synced_def log_load_def new_trust_log_def read_verified_entries_def)
qed

lemma file_peers_synced:
  assumes "log_synced C L" "tl_file L \<noteq> None"
  shows "file_peers C (tl_own L) (tl_file L) = peer_view (tl_entries L)"
  by (simp add: file_peers_def log_reopens[OF assms])

lemma build_trust_synced:
  assumes "tm_ok m" "log_synced C (tm_log m)" "tl_file (tm_log m) \<noteq> None" "tl_entries (tm_log m) \<noteq> []"
    and "io_cache_ok io" "tl_own (tm_log m) = tm_own m" "tl_key (tm_log m) = key"
  shows "build_trust C io key (tm_own m) (tl_file (tm_log m)) cache = (m\<lparr>tm_cache := tm_store m\<rparr>, Inr ())"
proof -
  have "(tm_log m)\<lparr>tl_key := key\<rparr> = tm_log m" using assms(7) by (cases "tm_log m") simp
  then have load: "log_load C (new_trust_log key (tm_own m) (tl_file (tm_log m))) = Inr (tm_log m)"
    using log_reopens[OF assms(2,3), of key] assms(6) by simp
  have "tm_by_nid m = index_peers (tm_store m)" using assms(1) by (simp add: tm_ok_def)
  with load assms(4,5) tm_ok_view[OF assms(1)] show ?thesis
    by (cases m) (simp add: build_trust_def Let_def trust_load_def refresh_def rebuild_from_log_def save_cache_def
        new_trust_mgr_def)
qed

lemma told_done [simp]: "told (m', Inr True) msg = (m', Done)"
  by (simp add: told_def)

lemma direct_runs:
  assumes "tm_ok m" "ready key_ok own (tm_store m) nid cmd"
    and "run_op C io m (mutation_op (tm_store m) nid cmd) = (m', Inr True)"
  shows "direct_mutation C io m cmd = (m', Done)"
proof -
  have res: "resolve_target m raw = Inr nid" if "names_peer (tm_store m) raw nid" for raw
    using names_peer_resolves[OF that tm_ok_distinct[OF assms(1)]] .
  have "perms_of (tm_store m) nid = (case get_peer m nid of None \<Rightarrow> [] | Some p \<Rightarrow> tp_permissions p)"
    by (simp add: perms_of_def get_peer_def tm_ok_lookup[OF assms(1)])
  with assms(2,3) res show ?thesis by (cases cmd) (simp_all add: resolved_def)
qed

text \<open>
  A daemon and the files of the same node, in agreement: the daemon's store is the projection of
  its log, which is what the log file says; nobody else changes anything; the password is the identity's, typed and from the
  backend; the user is the daemon's; both ways sign with the seed's key.
\<close>

definition opens :: "cli_env \<Rightarrow> id_dir \<Rightarrow> bytes \<Rightarrow> node_id \<Rightarrow> bool" where
  "opens env dir seed own \<longleftrightarrow>
     (\<exists>pw m. pw \<noteq> [] \<and> cl_typed env = Some pw \<and> cl_password env = Some pw \<and> ce_identity (cl_server env) = Some dir
        \<and> unlock_identity (ce_sealing (cl_server env)) pw dir = Inr (seed, m) \<and> im_node_id m = own)"

definition agree :: "cli_env \<Rightarrow> control_state \<Rightarrow> cli_files \<Rightarrow> bool" where
  "agree env s w \<longleftrightarrow>
     (let m = eg_trust (cs_engine s); L = tm_log m; C = ce_crypto (cl_server env) in
      tm_ok m \<and> log_synced C L \<and> tl_entries L \<noteq> [] \<and> tl_file L \<noteq> None \<and> tl_own L = tm_own m
      \<and> eg_node_id (cs_engine s) = tm_own m \<and> cl_uid env = ce_euid (cl_server env)
      \<and> cf_log w = tl_file L \<and> cl_between env (Running s) = Running s
      \<and> (\<exists>seed. opens env (cf_identity w) seed (tm_own m) \<and> tl_key L = Some (cl_key env seed)
            \<and> (\<forall>p. cr_verify C (tm_own m) p (cr_sign C (cl_key env seed) p) = Sig_Ok)))"

lemma unlock_is_sealed: "unlock_identity S pw d = Inr x \<Longrightarrow> is_sealed d"
  by (auto simp: unlock_identity_def is_sealed_def split: option.splits)


text \<open>A node with an empty store: its log holds the genesis entry.\<close>

definition demo_node :: node_id where
  "demo_node = hex_of demo_seed"

definition demo_node_mgr :: trust_mgr where
  "demo_node_mgr = (new_trust_mgr (demo_log\<lparr>tl_own := demo_node\<rparr>) demo_node)"

definition demo_daemon :: control_state where
  "demo_daemon = \<lparr>cs_engine = new_engine demo_node demo_node_mgr \<lparr>hs_probes = [], hs_retain_days = 30\<rparr> None 3 1 60 5 60,
     cs_cache = None\<rparr>"

definition demo_cli :: cli_env where
  "demo_cli = \<lparr>cl_server = demo_control, cl_uid = 1000, cl_typed = Some ''correct horse'', cl_between = (\<lambda>d. d), cl_password = Some ''correct horse'',
     cl_key = (\<lambda>_. ''k''), cl_open = demo_io\<rparr>"

definition demo_files :: cli_files where
  "demo_files = \<lparr>cf_identity = demo_id_dir, cf_log = tl_file demo_log, cf_cache = [], cf_cwd = []\<rparr>"

lemma demo_node_ok: "tm_ok demo_node_mgr" "log_synced demo_crypto (tm_log demo_node_mgr)"
proof -
  show "tm_ok demo_node_mgr"
    by (simp add: tm_ok_def demo_node_mgr_def new_trust_mgr_def demo_log_def demo_genesis_def materialize_peers_def
        mat_step_def Let_def viewed_def index_peers_def)
  show "log_synced demo_crypto (tm_log demo_node_mgr)"
    using demo_verified[of demo_node]
    by (simp add: log_synced_def demo_node_mgr_def new_trust_mgr_def demo_log_def verify_chain_Inr monitor_tail_from_def
        is_monitor_op_def demo_genesis_def)
qed

lemma demo_agree: "agree demo_cli demo_daemon demo_files"
proof -
  have "opens demo_cli demo_id_dir demo_seed demo_node"
    using demo_unlock by (simp add: opens_def demo_cli_def demo_control_def demo_meta_def demo_node_def)
  then show ?thesis using demo_node_ok demo_sig
    by (auto simp: agree_def Let_def demo_daemon_def demo_cli_def demo_files_def new_engine_def demo_node_mgr_def
        new_trust_mgr_def demo_log_def)
qed

lemma demo_id_hex: "hex_id demo_id"
  by (simp add: hex_id_def demo_id_def list_all_iff hex_char_def)

lemma demo_node_other: "demo_id \<noteq> demo_node"
proof -
  have "hd demo_node = CHR ''0''" by code_simp
  moreover have "hd demo_id = CHR ''a''" by code_simp
  ultimately show ?thesis by auto
qed


section \<open>Where the two ways part\<close>

text \<open>A tag with an ampersand: the query ends there.\<close>

lemma query_tag_cut:
  assumes "list_all plain_char a" and "a \<noteq> []"
  shows "query_tag (''tag='' @ a @ CHR ''&'' # b) = Some a"
proof -
  have amp: "CHR ''&'' \<notin> set (''tag='' @ a)" using assms(1) by (auto simp: list_all_iff plain_char_def)
  have one: "split_on (CHR ''&'') (''tag='' @ a) = [''tag='' @ a]" by (rule split_on_last[OF amp])
  have two: "split_on (CHR ''&'') (''tag='' @ a @ CHR ''&'' # b) = (''tag='' @ a) # split_on (CHR ''&'') b"
    using split_on_part[OF amp, of b] by simp
  have "query_tag (''tag='' @ a) = Some a" by (rule query_tag_plain[OF assms])
  then have "query_values ''tag'' (''tag='' @ a) = [a]"
    unfolding query_tag_def query_values_def one by (simp add: map_filter_simps split: list.splits option.splits if_splits prod.splits)
  then have "query_values ''tag'' (''tag='' @ a @ CHR ''&'' # b) = a # query_values ''tag'' b"
    unfolding query_values_def one two by (simp add: map_filter_simps split: option.splits if_splits prod.splits)
  then show ?thesis by (simp add: query_tag_def)
qed

text \<open>
  Removing a tag through the daemon removes another one when the tag has an ampersand: the text goes
  into the query as it is, the daemon reads it up to the ampersand, removes that tag, and the
  command reports that the tag that was typed is gone. (On the files the tag that was typed is
  removed.)
\<close>

theorem removed_tag_is_cut:
  assumes "cl_uid env = ce_euid (cl_server env)" and "names_peer (tm_store (eg_trust (cs_engine s))) raw nid"
    and "list_all plain_char a" and "a \<noteq> []" and "list_all plain_char b"
    and "trust_remove_tag (ce_crypto (cl_server env)) (ce_io (cl_server env)) (eg_trust (cs_engine s)) nid a = (t', Inr True)"
  shows "\<exists>s'. via_socket env (Running s) (MRemoveTag raw (a @ CHR ''&'' # b)) = (Running s', Done)
    \<and> eg_trust (cs_engine s') = t'"
proof -
  have nid: "hex_id nid" using assms(2) by (simp add: names_peer_def)
  have "target_ok (a @ CHR ''&'' # b)" "CHR ''#'' \<notin> set (a @ CHR ''&'' # b)"
    using plain_target[OF assms(3)] plain_target[OF assms(5)] by simp_all
  from remove_tag_served[OF assms(1) nid this query_tag_cut[OF assms(3,4)] assms(4,6)] show ?thesis
    using names_peer_targets[OF assms(2)] by (simp add: with_peers_served[OF assms(1)] with_target_def)
qed

text \<open>
  A socket file that nobody listens on stops every command that changes the trust store: the file
  counts as a running daemon, the refused connection is no error the command expects, and the
  files are not tried.
\<close>

theorem stale_socket_blocks_commands:
  assumes "cl_between env StaleSocket = StaleSocket"
  shows "\<exists>out. run_mutation env force_fresh can_remove (StaleSocket, w) cmd = ((StaleSocket, w), out)
    \<and> (out = Exit 1 ''NODE_ID must be 64-char lowercase hex.'' \<or> out = Exit 1 ''Aborted.'' \<or> (\<exists>e. out = Crash e))"
  using assms
  by (cases cmd) (auto simp: run_mutation_def available_def with_peers_def send_def client_request_def with_typed_def Let_def
      split: option.splits)

text \<open>An alias belongs to the last peer of the list that has it.\<close>

lemma alias_index_last:
  assumes "[p \<leftarrow> ps. tp_alias p = Some raw] = qs @ [q]" and "raw \<noteq> []"
  shows "alias_index ps raw = Some (tp_node_id q)"
proof -
  let ?f = "\<lambda>p :: trusted_peer. case tp_alias p of Some (c # cs) \<Rightarrow> Some (c # cs, tp_node_id p) | _ \<Rightarrow> None"
  have "filter (\<lambda>x. fst x = raw) (List.map_filter ?f ps) = map (\<lambda>p. (raw, tp_node_id p)) [p \<leftarrow> ps. tp_alias p = Some raw]"
    using assms(2) by (induction ps) (auto simp: map_filter_simps split: option.splits list.splits)
  then have "filter (\<lambda>x. fst x = raw) (rev (List.map_filter ?f ps)) = (raw, tp_node_id q) # rev (map (\<lambda>p. (raw, tp_node_id p)) qs)"
    using assms(1) by (simp add: rev_filter[symmetric])
  moreover have mf: "map_of xs raw = map_of (filter (\<lambda>x. fst x = raw) xs) raw" for xs :: "(string \<times> node_id) list"
    by (induction xs) auto
  have "map_of (rev (List.map_filter ?f ps)) raw = map_of (filter (\<lambda>x. fst x = raw) (rev (List.map_filter ?f ps))) raw"
    by (rule mf)
  ultimately show ?thesis unfolding alias_index_def by simp
qed

text \<open>
  The alias of a revoked peer hides the alias of an active one, but only while the daemon runs: the
  files resolve an alias among the active peers, the socket among all, and the last one wins. The
  command then asks for the revoked peer's permissions, is refused, and changes nothing.
\<close>

theorem revoked_alias_shadows:
  assumes "cl_uid env = ce_euid (cl_server env)" and "cl_typed env = Some pw" and "cl_between env (Running s) = Running s"
    and "ce_identity (cl_server env) = Some dir" and "unlock_identity (ce_sealing (cl_server env)) pw dir = Inr x" and "pw \<noteq> []"
    and "tm_ok m" and "m = eg_trust (cs_engine s)"
    and "raw \<noteq> []" and "\<not> validate_node_id raw" and "raw \<notin> tp_node_id ` set (tm_store m)"
    and "[p \<leftarrow> tm_store m. tp_alias p = Some raw] = [p, q]" and "tp_revoked p = None" and "tp_revoked q \<noteq> None" and "hex_id (tp_node_id q)"
  shows "resolve_target m raw = Inr (tp_node_id p)
    \<and> (\<exists>s' msg. via_socket env (Running s) (MSetPermissions raw csv) = (Running s', Exit 1 msg) \<and> eg_trust (cs_engine s') = m)"
proof -
  have "[p \<leftarrow> tm_store m. tp_alias p = Some raw \<and> tp_revoked p = None]
      = filter (\<lambda>p. tp_revoked p = None) [p \<leftarrow> tm_store m. tp_alias p = Some raw]" by (simp add: conj_commute)
  with assms(12-14) have one: "[p \<leftarrow> tm_store m. tp_alias p = Some raw \<and> tp_revoked p = None] = [p]" by simp
  have "q \<in> set [p \<leftarrow> tm_store m. tp_alias p = Some raw]" unfolding assms(12) by simp
  then have "q \<in> set (tm_store m)" by simp
  then have look: "tm_by_nid m (tp_node_id q) = Some q"
    using tm_ok_lookup[OF assms(7)] find_peer_distinct[OF tm_ok_distinct[OF assms(7)]] by simp
  have idx: "alias_index (tm_store m) raw = Some (tp_node_id q)"
    using alias_index_last[where ps = "tm_store m" and raw = raw and qs = "[p]" and q = q] assms(9,12) by simp
  let ?n = "tp_node_id q" and ?perms = "csv_items csv"
  let ?body = "[(''permissions'', str_list ?perms), (''password'', JStr pw)]"
  let ?q = "\<lparr>cr_uid = Some (cl_uid env), cr_method = PUT, cr_path = peer_path ?n ''/perms'', cr_query_tag = query_tag [],
           cr_body = Inr (JObj ?body)\<rparr>"
  have "password_ok (cl_server env) ?body = Inr True"
    using password_ok_typed[OF assms(4,5,6)] by (simp add: dict_simps)
  moreover have "trust_update_permissions (ce_crypto (cl_server env)) (ce_io (cl_server env)) m ?n ?perms = (m, Inr False)"
    using look assms(14) by (simp add: trust_update_permissions_def)
  moreover have "route (cl_server env) s ?q = route_perms (cl_server env) s ?q ?n"
    using route_sub[OF assms(15), of ?q "''perms''"] by (simp add: route_peers_def)
  ultimately have r: "\<exists>s'. route (cl_server env) s ?q = (s', Inr (400, Failure
      ''Failed to update permissions (peer missing, revoked, or invalid perms)'')) \<and> eg_trust (cs_engine s') = m"
    using hex_id_valid[OF assms(15)] assms(8)
    by (simp add: route_perms_def with_body_def need_dict_def with_password_def dict_simps str_list_def
        update_permissions_untyped_def update_peer_permissions_def with_trust_def reply_def)
  have t: "target_ok (peer_path ?n ''/perms'')" "split_target (peer_path ?n ''/perms'') = (peer_path ?n ''/perms'', [])"
    using hex_id_plain[OF assms(15)] by (auto simp: peer_path_def intro!: split_target_plain)
  from r t assms(1) have "\<exists>s' msg. put_perms env (Running s) ?n ?perms pw = (Running s', Exit 1 msg) \<and> eg_trust (cs_engine s') = m"
    by (auto simp: put_perms_def send_def client_request_def control_handle_def control_authorized_def)
  then show ?thesis
    using one assms(2,3,8,10,11) idx
    by (simp add: resolve_target_def with_peers_served[OF assms(1)] socket_target_def with_target_def with_typed_def Let_def)
qed

text \<open>
  Adding a permission reads the peer's permissions, then asks for the password, then writes them
  all. What was taken away from the peer meanwhile is granted again.
\<close>

theorem added_permission_revives:
  assumes "cl_uid env = ce_euid (cl_server env)" and "cl_typed env = Some pw" and "cl_between env (Running s) = Running s2"
    and "ce_identity (cl_server env) = Some dir" and "unlock_identity (ce_sealing (cl_server env)) pw dir = Inr x" and "pw \<noteq> []"
    and "names_peer (tm_store (eg_trust (cs_engine s))) raw nid"
    and "tm_ok m2" and "m2 = eg_trust (cs_engine s2)" and "tl_key (tm_log m2) \<noteq> None" and "io_good (ce_io (cl_server env)) now"
    and "find_peer (tm_store m2) nid = Some p2" and "tp_revoked p2 = None"
    and "\<not> invalid_permissions (merge_perms (csv_items csv) (perms_of (tm_store (eg_trust (cs_engine s))) nid))"
    and "pr \<in> set (perms_of (tm_store (eg_trust (cs_engine s))) nid)"
  shows "\<exists>s'. via_socket env (Running s) (MAddPermission raw csv) = (Running s', Done)
    \<and> pr \<in> granted (eg_trust (cs_engine s')) nid"
proof -
  let ?C = "ce_crypto (cl_server env)" and ?io = "ce_io (cl_server env)"
  let ?perms = "merge_perms (csv_items csv) (perms_of (tm_store (eg_trust (cs_engine s))) nid)"
  have nid: "hex_id nid" using assms(7) by (simp add: names_peer_def)
  obtain m' where m': "trust_update_permissions ?C ?io m2 nid ?perms = (m', Inr True)" "tm_ok m'"
      "tm_store m' = upsert (p2\<lparr>tp_permissions := ?perms\<rparr>) (tm_store m2)"
    using run_op_refines[OF assms(8,10,11), of ?C "UpdatePermissions nid ?perms"] assms(12-14)
    by (auto simp: on_peer_def)
  obtain s' where s': "put_perms env (Running s2) nid ?perms pw = (Running s', Done)" "eg_trust (cs_engine s') = m'"
    using put_perms_served[OF assms(1) nid assms(4-6), of s2 ?perms m'] m'(1) assms(9) by auto
  have "tp_node_id p2 = nid" using find_peer_mem[OF assms(12)] by simp
  then have "find_peer (tm_store m') nid = Some (p2\<lparr>tp_permissions := ?perms\<rparr>)"
    unfolding m'(3) by (simp add: find_peer_upsert)
  moreover have "pr \<in> set ?perms" using assms(15) by (simp add: merge_perms_def)
  ultimately have "pr \<in> granted m' nid" using assms(13) by (simp add: granted_view[OF m'(2)] granted_in_def)
  moreover have "via_socket env (Running s) (MAddPermission raw csv) = (Running s', Done)"
    using s'(1) names_peer_targets[OF assms(7)] assms(2,3)
    by (simp add: with_peers_served[OF assms(1)] with_target_def with_typed_def Let_def)
  ultimately show ?thesis using s'(2) by auto
qed

section \<open>A node with a peer\<close>

definition demo_entry :: "string \<Rightarrow> dict \<Rightarrow> log_entry" where
  "demo_entry t d = \<lparr>le_seq = 0, le_type = t, le_data = d, le_timestamp = JTime (Aware 5), le_prev_hash = [], le_sig = []\<rparr>"

definition demo_added :: "node_id \<Rightarrow> string list \<Rightarrow> string list \<Rightarrow> log_entry" where
  "demo_added n perms tags = demo_entry OP_ADD_PEER
     [(''node_id'', JStr n), (''alias'', JStr ''web''), (''permissions'', str_list perms), (''tags'', str_list tags)]"

definition demo_web_peer :: "node_id \<Rightarrow> string list \<Rightarrow> string list \<Rightarrow> trusted_peer" where
  "demo_web_peer n perms tags = \<lparr>tp_node_id = n, tp_alias = Some ''web'', tp_permissions = perms, tp_tags = tags,
     tp_mstart = None, tp_mend = None, tp_added = Aware 5, tp_revoked = None\<rparr>"

definition demo_state :: "log_entry list \<Rightarrow> trusted_peer list \<Rightarrow> control_state" where
  "demo_state es ps = demo_daemon\<lparr>cs_engine := (cs_engine demo_daemon)\<lparr>eg_trust :=
     \<lparr>tm_log = demo_log\<lparr>tl_own := demo_node, tl_entries := es\<rparr>, tm_own = demo_node, tm_store = ps,
       tm_by_nid = index_peers ps, tm_cache = ps\<rparr>\<rparr>\<rparr>"

definition demo_web :: "string list \<Rightarrow> string list \<Rightarrow> control_state" where
  "demo_web perms tags = demo_state [demo_added demo_id perms tags] [demo_web_peer demo_id perms tags]"

lemma demo_state_simps [simp]:
  "tm_store (eg_trust (cs_engine (demo_state es ps))) = ps"
  "tl_key (tm_log (eg_trust (cs_engine (demo_state es ps)))) = Some ''k''"
  "tl_entries (tm_log (eg_trust (cs_engine (demo_state es ps)))) = es"
  by (simp_all add: demo_state_def demo_log_def)

lemma demo_web_ok: "tm_ok (eg_trust (cs_engine (demo_web perms tags)))"
  by (simp add: tm_ok_def demo_web_def demo_state_def demo_added_def demo_entry_def materialize_peers_def mat_step_def Let_def
      entry_nid_def mat_add_def dict_simps str_list_def viewed_def peer_rel_iff demo_web_peer_def)

lemma demo_web_named: "names_peer (tm_store (eg_trust (cs_engine (demo_web perms tags)))) ''web'' demo_id"
proof -
  have "\<not> validate_node_id ''web''" by (simp add: validate_node_id_def)
  moreover have "demo_id \<noteq> ''web''" using demo_id_other[of "''web''"] by auto
  ultimately show ?thesis using demo_id_hex by (simp add: names_peer_def demo_web_def demo_web_peer_def)
qed

lemma demo_cli_simps [simp]:
  "cl_uid demo_cli = 1000" "cl_server demo_cli = demo_control" "cl_typed demo_cli = Some ''correct horse''"
  "cl_between demo_cli d = d"
  by (simp_all add: demo_cli_def)

lemma demo_control_identity:
  "ce_identity demo_control = Some demo_id_dir" "ce_sealing demo_control = demo_sealing"
  by (simp_all add: demo_control_def)

theorem removed_tag_is_cut_witness:
  "\<exists>s'. via_socket demo_cli (Running (demo_web [''monitor''] [''r'', ''r&d''])) (MRemoveTag ''web'' ''r&d'') = (Running s', Done)
     \<and> tp_tags (the (find_peer (tm_store (eg_trust (cs_engine s'))) demo_id)) = [''r&d'']"
proof -
  let ?s = "demo_web [''monitor''] [''r'', ''r&d'']"
  let ?m = "eg_trust (cs_engine ?s)" and ?p = "demo_web_peer demo_id [''monitor''] [''r'', ''r&d'']"
  have st: "tm_store ?m = [?p]" "tl_key (tm_log ?m) \<noteq> None" by (simp_all add: demo_web_def)
  have p: "tp_node_id ?p = demo_id" "tp_tags ?p = [''r'', ''r&d'']" by (simp_all add: demo_web_peer_def)
  have strip: "py_strip ''r'' = ''r''" "normalize_tags [''r&d''] = [''r&d'']" by code_simp+
  obtain m' where m': "trust_remove_tag demo_crypto demo_io ?m demo_id ''r'' = (m', Inr True)"
      "tm_store m' = upsert (?p\<lparr>tp_tags := [''r&d'']\<rparr>) [?p]"
    using run_op_refines[OF demo_web_ok[of "[''monitor'']" "[''r'', ''r&d'']"] st(2) demo_io_good, of demo_crypto "RemoveTag demo_id ''r''"]
    by (auto simp: st p strip on_peer_def find_peer_def)
  have plain: "list_all plain_char ''r''" "list_all plain_char ''d''" by code_simp+
  obtain s' where "via_socket demo_cli (Running ?s) (MRemoveTag ''web'' (''r'' @ CHR ''&'' # ''d'')) = (Running s', Done)"
      "eg_trust (cs_engine s') = m'"
    using removed_tag_is_cut[of demo_cli ?s "''web''" demo_id "''r''" "''d''" m'] demo_web_named plain m'(1) by auto
  then show ?thesis using m'(2) by (auto simp: find_peer_def p)
qed

theorem stale_socket_blocks_commands_witness:
  "run_mutation demo_cli False (\<lambda>_. True) (StaleSocket, demo_files) (MSetPermissions ''web'' ''shell'')
     = ((StaleSocket, demo_files), Crash (OSError ''Connection refused''))"
proof -
  have "\<exists>out. run_mutation demo_cli False (\<lambda>_. True) (StaleSocket, demo_files) (MSetPermissions ''web'' ''shell'')
      = ((StaleSocket, demo_files), out)"
    using stale_socket_blocks_commands[of demo_cli False "\<lambda>_. True" demo_files "MSetPermissions ''web'' ''shell''"] by auto
  then show ?thesis
    by (auto simp: run_mutation_def available_def with_peers_def client_request_def target_ok_def)
qed

theorem added_permission_revives_witness:
  "\<exists>s'. via_socket (demo_cli\<lparr>cl_between := (\<lambda>_. Running (demo_web [''monitor''] []))\<rparr>)
        (Running (demo_web [''monitor'', ''shell''] [])) (MAddPermission ''web'' ''drop'') = (Running s', Done)
     \<and> ''shell'' \<in> granted (eg_trust (cs_engine s')) demo_id
     \<and> ''shell'' \<notin> granted (eg_trust (cs_engine (demo_web [''monitor''] []))) demo_id"
proof -
  let ?env = "demo_cli\<lparr>cl_between := (\<lambda>_. Running (demo_web [''monitor''] []))\<rparr>"
  have csv: "csv_items ''drop'' = [''drop'']" by code_simp
  have ps: "perms_of (tm_store (eg_trust (cs_engine (demo_web perms [])))) demo_id = perms" for perms
    by (simp add: perms_of_def demo_web_def find_peer_def demo_web_peer_def)
  let ?s = "demo_web [''monitor'', ''shell''] []" and ?s2 = "demo_web [''monitor''] []"
  have e: "cl_uid ?env = ce_euid (cl_server ?env)" "cl_typed ?env = Some ''correct horse''"
    "cl_between ?env (Running ?s) = Running ?s2" "ce_identity (cl_server ?env) = Some demo_id_dir"
    "unlock_identity (ce_sealing (cl_server ?env)) ''correct horse'' demo_id_dir = Inr (demo_seed, demo_meta)"
    "''correct horse'' \<noteq> []" "io_good (ce_io (cl_server ?env)) (Aware 9)"
    using demo_unlock demo_io_good by (simp_all add: demo_control_identity)
  have m: "tl_key (tm_log (eg_trust (cs_engine ?s2))) \<noteq> None"
    "find_peer (tm_store (eg_trust (cs_engine ?s2))) demo_id = Some (demo_web_peer demo_id [''monitor''] [])"
    "tp_revoked (demo_web_peer demo_id [''monitor''] []) = None"
    unfolding demo_web_def by (simp_all add: find_peer_def) (simp_all add: demo_web_peer_def)
  have v: "\<not> invalid_permissions (merge_perms (csv_items ''drop'') (perms_of (tm_store (eg_trust (cs_engine ?s))) demo_id))"
    "''shell'' \<in> set (perms_of (tm_store (eg_trust (cs_engine ?s))) demo_id)"
    unfolding ps csv by (simp_all add: merge_perms_def invalid_permissions_def VALID_PROTOCOLS_def)
  have "\<exists>s'. via_socket ?env (Running ?s) (MAddPermission ''web'' ''drop'') = (Running s', Done)
     \<and> ''shell'' \<in> granted (eg_trust (cs_engine s')) demo_id"
    by (rule added_permission_revives[OF e(1-6) demo_web_named demo_web_ok refl m(1) e(7) m(2,3) v])
  moreover have "''shell'' \<notin> granted (eg_trust (cs_engine (demo_web [''monitor''] []))) demo_id"
    unfolding granted_view[OF demo_web_ok] by (simp add: demo_web_def granted_in_def find_peer_def demo_web_peer_def)
  ultimately show ?thesis by blast
qed

definition demo_old_id :: node_id where
  "demo_old_id = replicate 64 (CHR ''b'')"

definition demo_shadow :: control_state where
  "demo_shadow = demo_state
     [demo_added demo_id [''monitor''] [], demo_added demo_old_id [''monitor''] [],
      demo_entry OP_REVOKE_PEER [(''node_id'', JStr demo_old_id)]]
     [demo_web_peer demo_id [''monitor''] [], (demo_web_peer demo_old_id [''monitor''] [])\<lparr>tp_revoked := Some (Aware 5)\<rparr>]"

lemma demo_old_id_hex: "hex_id demo_old_id"
  by (simp add: hex_id_def demo_old_id_def list_all_iff hex_char_def)

lemma demo_ids_differ: "demo_old_id \<noteq> demo_id"
proof -
  have "hd demo_old_id = CHR ''b''" "hd demo_id = CHR ''a''" by code_simp+
  then show ?thesis by auto
qed

lemma demo_shadow_ok: "tm_ok (eg_trust (cs_engine demo_shadow))"
  using demo_ids_differ demo_ids_differ[symmetric]
  by (simp add: tm_ok_def demo_shadow_def demo_state_def demo_added_def demo_entry_def materialize_peers_def mat_step_def Let_def
      entry_nid_def mat_add_def mat_update_def dict_simps str_list_def viewed_def peer_rel_iff demo_web_peer_def)

theorem revoked_alias_shadows_witness:
  "resolve_target (eg_trust (cs_engine demo_shadow)) ''web'' = Inr demo_id
   \<and> (\<exists>s' msg. via_socket demo_cli (Running demo_shadow) (MSetPermissions ''web'' ''shell'') = (Running s', Exit 1 msg)
        \<and> eg_trust (cs_engine s') = eg_trust (cs_engine demo_shadow))"
proof -
  let ?m = "eg_trust (cs_engine demo_shadow)"
  let ?p = "demo_web_peer demo_id [''monitor''] []"
  let ?q = "(demo_web_peer demo_old_id [''monitor''] [])\<lparr>tp_revoked := Some (Aware 5)\<rparr>"
  have st: "tm_store ?m = [?p, ?q]" by (simp add: demo_shadow_def)
  have p: "tp_node_id ?p = demo_id" "tp_alias ?p = Some ''web''" "tp_revoked ?p = None"
    and q: "tp_node_id ?q = demo_old_id" "tp_alias ?q = Some ''web''" "tp_revoked ?q \<noteq> None"
    by (simp_all add: demo_web_peer_def)
  have "[r \<leftarrow> tm_store ?m. tp_alias r = Some ''web''] = [?p, ?q]" unfolding st using p(2) q(2) by simp
  moreover have "''web'' \<notin> tp_node_id ` set (tm_store ?m)"
    unfolding st using p(1) q(1) demo_id_other[of "''web''"] by (auto simp: demo_old_id_def numeral_eq_Suc)
  moreover have "\<not> validate_node_id ''web''" by (simp add: validate_node_id_def)
  moreover have "hex_id (tp_node_id ?q)" unfolding q(1) by (rule demo_old_id_hex)
  ultimately show ?thesis
    using revoked_alias_shadows[of demo_cli "''correct horse''" demo_shadow demo_id_dir "(demo_seed, demo_meta)" ?m "''web''" ?p ?q "''shell''"]
      demo_unlock demo_shadow_ok p q by (simp add: demo_control_identity)
qed

section \<open>Identity commands\<close>

text \<open>
  \<open>--init\<close>: the guard, then one of three ways to an open identity (unlock a sealed one, seal a raw
  seed, create one), then the log and the cache. \<open>lines\<close> is what is typed at the new-password prompt,
  \<open>fresh\<close> the seed drawn for a new identity.
\<close>

definition finish_init :: "cli_env \<Rightarrow> cli_files \<Rightarrow> bytes \<Rightarrow> id_meta \<Rightarrow> cli_files \<times> cli_out" where
  "finish_init env w seed m =
     (case build_trust (ce_crypto (cl_server env)) (cl_open env) (Some (cl_key env seed)) (im_node_id m) (cf_log w) (cf_cache w) of
        (tm, Inl e) \<Rightarrow> (saved w tm, Crash e)
      | (tm, Inr _) \<Rightarrow> (saved w tm, Done))"

definition with_new_password ::
  "cli_env \<Rightarrow> cli_files \<Rightarrow> string list \<Rightarrow> (string \<Rightarrow> id_dir \<times> (bytes \<times> id_meta) res) \<Rightarrow> cli_files \<times> cli_out" where
  "with_new_password env w lines create =
     (case prompt_new_password lines of
        None \<Rightarrow> (w, Exit 1 ''Aborted.'')
      | Some (pw, _) \<Rightarrow>
          (case create pw of
             (d, Inl e) \<Rightarrow> (w\<lparr>cf_identity := d\<rparr>, Crash e)
           | (d, Inr (seed, m)) \<Rightarrow> finish_init env (w\<lparr>cf_identity := d\<rparr>) seed m))"

definition cli_init ::
  "cli_env \<Rightarrow> seal_env \<Rightarrow> bytes \<Rightarrow> string list \<Rightarrow> bool \<Rightarrow> (string \<Rightarrow> bool) \<Rightarrow> cli_files \<Rightarrow> cli_files \<times> cli_out" where
  "cli_init env v fresh lines force_fresh can_remove w0 =
     (case guard_legacy force_fresh can_remove (cf_cwd w0) of
        (files, False) \<Rightarrow> (w0\<lparr>cf_cwd := files\<rparr>, Exit 1 ''Legacy account/mesh artifacts detected'')
      | (files, True) \<Rightarrow>
          let w = w0\<lparr>cf_cwd := files\<rparr>; S = ce_sealing (cl_server env); d = cf_identity w in
          if is_sealed d then
            (case cl_password env of
               None \<Rightarrow> (w, Exit 1 ''Password error'')
             | Some pw \<Rightarrow>
                 (case unlock_identity S pw d of
                    Inl (ValueError _) \<Rightarrow> (w, Exit 1 ''Unlock failed'')
                  | Inl e \<Rightarrow> (w, Crash e)
                  | Inr (seed, m) \<Rightarrow> finish_init env w seed m))
          else if is_raw d then with_new_password env w lines (\<lambda>pw. seal_existing_identity S v pw d)
          else with_new_password env w lines (\<lambda>pw. init_sealed_identity S v fresh pw d))"

text \<open>\<open>--reset-password\<close>: the old password is tried before the new one is asked for.\<close>

definition cli_reset_password :: "cli_env \<Rightarrow> seal_env \<Rightarrow> string list \<Rightarrow> cli_files \<Rightarrow> cli_files \<times> cli_out" where
  "cli_reset_password env v lines w =
     (let S = ce_sealing (cl_server env); d = cf_identity w in
      if \<not> is_sealed d then (w, Exit 1 ''No sealed identity'')
      else case cl_password env of
        None \<Rightarrow> (w, Exit 1 ''Password error'')
      | Some old_pw \<Rightarrow>
          (case unlock_identity S old_pw d of
             Inl (ValueError _) \<Rightarrow> (w, Exit 1 ''Unlock failed'')
           | Inl e \<Rightarrow> (w, Crash e)
           | Inr _ \<Rightarrow>
               (case prompt_new_password lines of
                  None \<Rightarrow> (w, Exit 1 ''Aborted.'')
                | Some (new_pw, _) \<Rightarrow>
                    (case reset_password S v old_pw new_pw d of
                       (d', Inl (ValueError _)) \<Rightarrow> (w\<lparr>cf_identity := d'\<rparr>, Exit 1 ''Reset failed'')
                     | (d', Inl e) \<Rightarrow> (w\<lparr>cf_identity := d'\<rparr>, Crash e)
                     | (d', Inr _) \<Rightarrow> (w\<lparr>cf_identity := d'\<rparr>, Done)))))"

text \<open>The node id without the password: from the metadata, or from a raw seed.\<close>

definition identity_node_id :: "cli_env \<Rightarrow> id_dir \<Rightarrow> cli_out + node_id" where
  "identity_node_id env d =
     (if is_sealed d then
        (case rbind (case id_metafile d of None \<Rightarrow> Inl (FileNotFoundError ''secret.meta'') | Some f \<Rightarrow> Inr f) load_meta of
           Inl e \<Rightarrow> Inl (Crash e) | Inr m \<Rightarrow> Inr (im_node_id m))
      else if is_raw d then (case id_key d of None \<Rightarrow> Inl (Exit 1 ''No identity found'')
                             | Some seed \<Rightarrow> Inr (sl_node_id (ce_sealing (cl_server env)) seed))
      else Inl (Exit 1 ''No identity found''))"

section \<open>Initialising twice\<close>

lemma prompt_confirmed:
  "prompt_new_password ls = Some (pw, rest) \<Longrightarrow>
   MIN_PASSWORD_LENGTH \<le> length pw \<and> (\<exists>pre. ls = pre @ pw # pw # rest)"
proof (induction ls rule: prompt_new_password.induct)
  case (3 a b ls)
  show ?case
  proof (cases "length a < MIN_PASSWORD_LENGTH \<or> a \<noteq> b")
    case True
    with 3 obtain xs pre where "a # b # ls = xs @ pre @ pw # pw # rest" "MIN_PASSWORD_LENGTH \<le> length pw"
      by (auto split: if_splits) (metis append_Cons append_Nil)+
    then show ?thesis by (metis append.assoc)
  qed (use 3 in \<open>auto split: if_splits\<close>)
qed simp_all

lemma log_load_synced_result:
  assumes "log_load C (new_trust_log key own f) = Inr L"
  shows "log_synced C L \<and> tl_own L = own \<and> tl_key L = key \<and> tl_file L = f"
  using assms
  by (auto simp: log_load_def new_trust_log_def read_verified_entries_def rbind_Inr_conv log_synced_def
      verify_chain_def monitor_tail_from_def split: option.splits)

lemma ensure_genesis_result:
  assumes "ensure_genesis C now write L = (L1, Inr ())" and "log_synced C L" and "tl_key L = Some k" and "tl_entries L = []"
    and "\<forall>p. cr_verify C (tl_own L) p (cr_sign C k p) = Sig_Ok"
  shows "log_synced C L1 \<and> tl_file L1 \<noteq> None \<and> tl_entries L1 \<noteq> [] \<and> tl_own L1 = tl_own L \<and> tl_key L1 = tl_key L"
proof -
  let ?d = "[(''node_id'', JStr (tl_own L))]"
  obtain e where a: "log_append C now write L OP_GENESIS ?d = (L1, Inr e)"
    using assms(1,3,4) by (auto simp: ensure_genesis_def split: if_splits prod.splits sum.splits)
  then obtain x where w: "write = Some x" by (auto simp: log_append_def Let_def split: option.splits if_splits)
  from log_append_synced[OF assms(2) _ a[unfolded w]] assms(3,5) have "log_synced C L1 \<and> tl_file L1 \<noteq> None \<and> tl_entries L1 \<noteq> []"
    by auto
  with app_call_same[of C "(now, write, OP_GENESIS, ?d)" L] a show ?thesis by (simp add: app_call_def)
qed

lemma build_trust_twice:
  assumes "build_trust C io (Some k) nid f cache = (m, Inr ())"
    and "\<forall>p. cr_verify C nid p (cr_sign C k p) = Sig_Ok"
  shows "build_trust C io (Some k) nid (tl_file (tm_log m)) (tm_cache m) = (m, Inr ())"
proof -
  let ?mgr = "\<lambda>L c. (new_trust_mgr L nid)\<lparr>tm_cache := c\<rparr>"
  obtain L where L: "log_load C (new_trust_log (Some k) nid f) = Inr L"
    using assms(1) by (cases "log_load C (new_trust_log (Some k) nid f)") (auto simp: build_trust_def Let_def)
  note loaded = log_load_synced_result[OF L]
  obtain L1 where load: "trust_load (io_cache_ok io) (?mgr L1 cache) = (m, Inr ())"
    and L1: "log_synced C L1 \<and> tl_file L1 \<noteq> None \<and> tl_entries L1 \<noteq> [] \<and> tl_own L1 = nid \<and> tl_key L1 = Some k"
  proof (cases "tl_entries L = []")
    case True
    then obtain L1 r where g: "ensure_genesis C (io_now io) (io_log_write io) L = (L1, r)"
      by (cases "ensure_genesis C (io_now io) (io_log_write io) L")
    with assms(1) L True have r: "r = Inr ()" "trust_load (io_cache_ok io) (?mgr L1 cache) = (m, Inr ())"
      by (auto simp: build_trust_def Let_def split: sum.splits)
    from ensure_genesis_result[OF g[unfolded r(1)] _ _ True] loaded assms(2) that[OF r(2)] show thesis by simp
  next
    case False
    then have "tl_file L \<noteq> None" using loaded by (auto simp: log_synced_def split: option.splits)
    with False loaded that[of L] assms(1) L show thesis by (simp add: build_trust_def Let_def)
  qed
  have ok: "io_cache_ok io" and log: "tm_log m = L1" and own: "tm_own m = nid"
    and view: "peer_view (tl_entries L1) = Inr (tm_store m)" "tm_by_nid m = index_peers (tm_store m)" "tm_cache m = tm_store m"
    using load by (auto simp: trust_load_def refresh_def rebuild_from_log_def save_cache_def rbind_Inr_conv new_trust_mgr_def
        split: sum.splits if_splits)
  have "(tm_log m)\<lparr>tl_key := Some k\<rparr> = tm_log m" using L1 log by (cases L1) simp
  then have again: "log_load C (new_trust_log (Some k) nid (tl_file (tm_log m))) = Inr (tm_log m)"
    using log_reopens[of C L1 "Some k"] L1 log by simp
  show ?thesis
    using again L1 log ok own view
    by (cases m) (simp add: build_trust_def Let_def trust_load_def refresh_def rebuild_from_log_def save_cache_def new_trust_mgr_def)
qed

lemma seal_ok:
  assumes "seal_identity S v seed pw d = (d', Inr m)" and "good_sealing S" and "length seed = SECRET_KEY_LENGTH"
  shows "is_sealed d' \<and> im_node_id m = sl_node_id S seed \<and> unlock_identity S p d' =
    (if p = pw then Inr (seed, m) else Inl (ValueError ''wrong password or corrupted secret.key''))"
  using assms(1)
proof (cases rule: seal_identity_cases[of v S seed pw d])
  case (sealed m1)
  then have m: "m1 = m" and d': "d' = \<lparr>id_key = Some (sl_encrypt S (sl_kdf S pw (se_salt v) ARGON2_COSTS) (se_nonce v) seed),
      id_metafile = Some (MetaOk m)\<rparr>" using assms(1) by simp_all
  show ?thesis
    using unlock_sealed[OF assms(2,3) sealed(3)[unfolded m], of p pw "se_nonce v"] sealed(3)[unfolded m]
    by (simp add: d' is_sealed_def)
qed (use assms(1) in simp_all)


definition demo_fresh_files :: cli_files where
  "demo_fresh_files = \<lparr>cf_identity = \<lparr>id_key = None, id_metafile = None\<rparr>, cf_log = None, cf_cache = [], cf_cwd = []\<rparr>"

lemma demo_prompt: "prompt_new_password [''short'', ''correct horse'', ''correct horse''] = Some (''correct horse'', [])"
  by (simp add: MIN_PASSWORD_LENGTH_def)

lemma ensure_genesis_fresh:
  assumes "nid \<noteq> []"
  shows "ensure_genesis C now (Some w) (new_trust_log (Some k) nid None) =
    (fst (log_append C now (Some w) (new_trust_log (Some k) nid None) OP_GENESIS [(''node_id'', JStr nid)]), Inr ())"
  using assms by (simp add: ensure_genesis_def new_trust_log_def log_append_def Let_def OP_TYPES_def)

lemma view_of_genesis: "peer_view (tl_entries (fst (log_append C now (Some w) (new_trust_log (Some k) nid None) OP_GENESIS d))) = Inr []"
  by (simp add: log_append_def new_trust_log_def Let_def OP_TYPES_def next_entry_def
      peer_view_def materialize_peers_def mat_step_def)

lemma build_trust_fresh:
  assumes "nid \<noteq> []" and "io_log_write io = Some w" and "io_cache_ok io"
  shows "\<exists>tm. build_trust C io (Some k) nid None cache = (tm, Inr ())"
proof -
  have "log_load C (new_trust_log (Some k) nid None) = Inr (new_trust_log (Some k) nid None)"
    "tl_entries (new_trust_log (Some k) nid None) = []" by (simp_all add: log_load_def new_trust_log_def)
  with assms show ?thesis
    by (simp add: build_trust_def Let_def ensure_genesis_fresh trust_load_def refresh_def rebuild_from_log_def
        view_of_genesis new_trust_mgr_def save_cache_def)
qed

lemma demo_init_done: "\<exists>w1. cli_init demo_cli (demo_seal True 1) demo_seed [''short'', ''correct horse'', ''correct horse''] False
    (\<lambda>_. True) demo_fresh_files = (w1, Done)"
proof -
  have g: "guard_legacy False (\<lambda>_. True) [] = ([], True)" by (simp add: guard_legacy_def)
  have sealed: "\<not> is_sealed (cf_identity demo_fresh_files)" "\<not> is_raw (cf_identity demo_fresh_files)"
    by (simp_all add: is_sealed_def is_raw_def demo_fresh_files_def)
  have node: "demo_node \<noteq> []" by code_simp
  obtain tm where tm: "build_trust demo_crypto demo_io (Some ''k'') demo_node None [] = (tm, Inr ())"
    using build_trust_fresh[OF node, of demo_io _ demo_crypto "''k''" "[]"] demo_io_good by (auto simp: io_good_def)
  have "im_node_id demo_meta = demo_node" by (simp add: demo_meta_def demo_node_def)
  with tm have fin: "finish_init demo_cli (demo_fresh_files\<lparr>cf_identity := demo_id_dir\<rparr>) demo_seed demo_meta
      = (saved (demo_fresh_files\<lparr>cf_identity := demo_id_dir\<rparr>) tm, Done)"
    by (simp add: finish_init_def demo_control_identity demo_fresh_files_def demo_cli_def)
  have dir: "cf_identity demo_fresh_files = \<lparr>id_key = None, id_metafile = None\<rparr>" "cf_cwd demo_fresh_files = []"
    "demo_fresh_files\<lparr>cf_cwd := []\<rparr> = demo_fresh_files"
    by (simp_all add: demo_fresh_files_def)
  show ?thesis
    using demo_init fin
    by (simp add: cli_init_def Let_def with_new_password_def MIN_PASSWORD_LENGTH_def dir g sealed[unfolded dir] demo_control_identity)
qed


section \<open>Maintenance windows from the command line\<close>

lemma parse_time_aware: "parse_time v a = Inr d \<Longrightarrow> \<exists>t. d = Aware t"
  by (auto simp: parse_time_def Let_def add_offset_def assume_ist_def split: if_splits option.splits datetime.splits)

text \<open>
  A window set on the command line is a real interval: whatever forms the two times have, the stored
  window silences the peer exactly from the first to the second, and asking never raises (as it does
  for a window without time zones, which the control socket takes). With two offsets the end is
  counted from the start.
\<close>

theorem cli_window_is_interval:
  assumes "parse_window_times a b now = Inr (s, e)"
    and "tm_ok m" and "tl_key (tm_log m) \<noteq> None" and "io_good io clock" and "find_peer (tm_store m) nid = Some p"
    and "trust_set_maintenance C io m nid s e = (m', Inr True)"
  shows "\<exists>x y q. s = Aware x \<and> e = Aware y \<and> x < y \<and> find_peer (tm_store m') nid = Some q
    \<and> (\<forall>t. in_maintenance q (Aware t) = Inr (x \<le> t \<and> t \<le> y))
    \<and> (\<forall>n u k v. rel_offset (py_strip a) = Some (n, u) \<longrightarrow> rel_offset (py_strip b) = Some (k, v) \<longrightarrow>
          x = now + usec (n * u) \<and> y = x + usec (k * v))"
proof -
  obtain x y where xy: "s = Aware x" "e = Aware y" and t: "parse_time a now = Inr s" "parse_time b x = Inr e"
  proof -
    obtain d where d: "parse_time a now = Inr d" "rbind (parse_time b (case d of Aware t \<Rightarrow> t | Naive t \<Rightarrow> t)) (\<lambda>e. Inr (d, e)) = Inr (s, e)"
      using assms(1) by (auto simp: parse_window_times_def rbind_Inr_conv)
    then have "d = s" "parse_time b (case d of Aware t \<Rightarrow> t | Naive t \<Rightarrow> t) = Inr e" by (auto simp: rbind_Inr_conv)
    with d(1) parse_time_aware[of a now s] parse_time_aware[of b _ e] that show thesis by fastforce
  qed
  have lt: "\<not> y \<le> x" using assms(6) xy by (auto simp: trust_set_maintenance_def)
  let ?q = "p\<lparr>tp_mstart := Some s, tp_mend := Some e\<rparr>"
  have "tm_store m' = upsert ?q (tm_store m)"
    using run_op_refines[OF assms(2-4), of C "SetMaintenance nid s e"] assms(5,6) lt by (auto simp: xy on_peer_def)
  moreover have "tp_node_id p = nid" using find_peer_mem[OF assms(5)] by simp
  ultimately have q: "find_peer (tm_store m') nid = Some ?q" by (simp add: find_peer_upsert)
  have "in_maintenance ?q (Aware z) = Inr (x \<le> z \<and> z \<le> y)" for z by (simp add: in_maintenance_def xy)
  moreover have "x = now + usec (n * u) \<and> y = x + usec (k * v)"
    if "rel_offset (py_strip a) = Some (n, u)" "rel_offset (py_strip b) = Some (k, v)" for n u k v
  proof -
    have "py_strip a \<noteq> [] \<and> hd (py_strip a) = CHR ''+''" "py_strip b \<noteq> [] \<and> hd (py_strip b) = CHR ''+''"
      using that by (auto simp: rel_offset_def split: if_splits)
    with that t xy show ?thesis by (auto simp: parse_time_def add_offset_def split: if_splits)
  qed
  ultimately show ?thesis using q xy lt by (intro exI[of _ x] exI[of _ y] exI[of _ ?q]) auto
qed

theorem cli_window_is_interval_witness:
  "\<exists>m' q. trust_set_maintenance demo_crypto demo_io demo_mgr ''p'' (Aware (usec 3700)) (Aware (usec 5500)) = (m', Inr True)
    \<and> find_peer (tm_store m') ''p'' = Some q \<and> in_maintenance q (Aware (usec 4000)) = Inr True"
proof -
  have w: "parse_window_times '' +1h'' ''+30m'' (usec 100) = Inr (Aware (usec 3700), Aware (usec 5500))" by code_simp
  have f: "find_peer (tm_store demo_mgr) ''p'' = Some demo_peer" by (simp add: find_peer_def)
  obtain m' where m': "trust_set_maintenance demo_crypto demo_io demo_mgr ''p'' (Aware (usec 3700)) (Aware (usec 5500)) = (m', Inr True)"
    using run_op_refines[OF demo_mgr_ok demo_mgr_key demo_io_good, of demo_crypto "SetMaintenance ''p'' (Aware (usec 3700)) (Aware (usec 5500))"] f
    by (auto simp: on_peer_def usec_def)
  from cli_window_is_interval[OF w demo_mgr_ok demo_mgr_key demo_io_good f m'] m' show ?thesis
    by (auto simp: usec_def)
qed

end
