(* ===== verification/Service.thy ===== *)
theory Service
  imports Host_Env
begin

text \<open>
  The service installer (service_install.py): choosing the password backend, rendering the unit
  from its template (templates/panic-monitor.service.tmpl), storing the password, the systemctl
  calls of installing and removing, and the copying of old state files by \<open>--migrate\<close>. The answers
  of systemd, of its tools and of the terminal are arguments. How systemd reads a unit file is a
  parameter, with what its manual says of files without quotes and specifiers as a hypothesis.
\<close>

section \<open>Words and lines\<close>

text \<open>\<open>str.split()\<close>: the words between white space.\<close>

fun split_space :: "string \<Rightarrow> string list" where
  "split_space [] = [[]]"
| "split_space (c # s) =
     (if py_space c then [] # split_space s
      else case split_space s of [] \<Rightarrow> [[c]] | w # ws \<Rightarrow> (c # w) # ws)"

definition py_words :: "string \<Rightarrow> string list" where
  "py_words s = [w \<leftarrow> split_space s. w \<noteq> []]"

lemma split_space_ne [simp]: "split_space s \<noteq> []"
  by (induction s) (auto split: list.splits)

lemma split_space_at: "py_space c \<Longrightarrow> split_space (a @ c # b) = split_space a @ split_space b"
  by (induction a) (auto split: list.splits simp: neq_Nil_conv)

lemma split_space_word: "list_all (\<lambda>c. \<not> py_space c) a \<Longrightarrow> split_space a = [a]"
  by (induction a) (auto split: list.splits)

lemma py_words_at: "py_space c \<Longrightarrow> py_words (a @ c # b) = py_words a @ py_words b"
  by (simp add: py_words_def split_space_at)

lemma py_words_word: "list_all (\<lambda>c. \<not> py_space c) a \<Longrightarrow> a \<noteq> [] \<Longrightarrow> py_words a = [a]"
  by (simp add: py_words_def split_space_word)

lemma py_words_Nil [simp]: "py_words [] = []"
  by (simp add: py_words_def)

lemma py_words_lead [simp]: "py_space c \<Longrightarrow> py_words (c # b) = py_words b"
  using py_words_at[of c "[]" b] by simp

abbreviation newline :: char where "newline \<equiv> CHR 0x0A"

section \<open>Where things are\<close>

definition SERVICE_NAME :: string where "SERVICE_NAME = ''panic-monitor.service''"

text \<open>
  Outside the host's files: the search path, what \<open>systemctl --version\<close> prints (\<open>None\<close> when it cannot be
  run), the running executable, its resolved path and the path of main.py.
\<close>

record tools =
  to_which :: "string \<Rightarrow> string option"
  to_version :: "string option"
  to_exe :: string
  to_real_exe :: string
  to_main :: string

definition resolve_exec_start :: "host \<Rightarrow> tools \<Rightarrow> string" where
  "resolve_exec_start h t =
     (if ho_frozen h then to_real_exe t
      else case to_which t ''panic-monitor'' of
        Some (c # cs) \<Rightarrow> c # cs
      | _ \<Rightarrow> to_exe t @ '' '' @ to_main t)"

definition unit_dir :: "host \<Rightarrow> bool \<Rightarrow> string" where
  "unit_dir h system =
     (if system then ''/etc/systemd/system''
      else case env_set h ''XDG_CONFIG_HOME'' of
        Some b \<Rightarrow> path_join (path_join b ''systemd'') ''user''
      | None \<Rightarrow> path_join (path_join (path_join (ho_home h) ''.config'') ''systemd'') ''user'')"

definition unit_path :: "host \<Rightarrow> bool \<Rightarrow> string" where
  "unit_path h system = path_join (unit_dir h system) SERVICE_NAME"

definition systemd_version :: "tools \<Rightarrow> int option" where
  "systemd_version t =
     (if to_which t ''systemctl'' = None then None
      else case to_version t of
        None \<Rightarrow> None
      | Some out \<Rightarrow>
          (case List.map_filter digits_value (py_words (takeWhile (\<lambda>c. c \<noteq> newline) out)) of
             [] \<Rightarrow> None | v # _ \<Rightarrow> Some v))"

definition systemd_creds_viable :: "tools \<Rightarrow> bool \<Rightarrow> bool" where
  "systemd_creds_viable t system =
     (if to_which t ''systemd-creds'' = None then False
      else case systemd_version t of
        None \<Rightarrow> system
      | Some v \<Rightarrow> if system then 250 \<le> v else 256 \<le> v)"

section \<open>The unit file\<close>

text \<open>
  The template line by line, without its comment lines. A line of the unit is a list of pieces; the
  two directives for credentials and the block for hardening end their own lines.
\<close>

definition EXTRA_HARDENING :: "string list" where
  "EXTRA_HARDENING =
     [''ProtectHome=yes'', ''ProtectKernelTunables=yes'', ''ProtectKernelModules=yes'', ''ProtectControlGroups=yes'',
      ''RestrictSUIDSGID=yes'', ''RestrictAddressFamilies=AF_INET AF_INET6 AF_UNIX'',
      ''SystemCallFilter=@system-service'', ''SystemCallArchitectures=native'']"

definition credential_lines :: "string \<Rightarrow> string option \<Rightarrow> string list" where
  "credential_lines backend cred =
     (case cred of
        Some f \<Rightarrow> if backend = ''systemd-creds'' then [''LoadCredentialEncrypted=panic-monitor-password:'' @ f] else []
      | None \<Rightarrow> [])"

definition UNIT_HEAD :: "string list" where
  "UNIT_HEAD =
     [''[Unit]'', ''Description=Panic Monitor - P2P Health Monitoring Daemon'',
      ''After=network.target network-online.target'', ''Wants=network-online.target'', '''',
      ''StartLimitIntervalSec=60'', ''StartLimitBurst=5'', '''', ''[Service]'', ''Type=simple'']"

definition UNIT_LIMITS :: "string list" where
  "UNIT_LIMITS =
     [''Restart=on-failure'', ''RestartSec=5'', ''RestartPreventExitStatus=78'', '''',
      ''MemoryHigh=180M'', ''MemoryMax=256M'', ''CPUQuota=50%'', ''Nice=10'', ''LimitNOFILE=512'', ''TasksMax=64'', '''',
      ''NoNewPrivileges=yes'', ''ProtectSystem=strict'', ''PrivateTmp=yes'', ''RestrictRealtime=yes'']"

definition exec_lines :: "string \<Rightarrow> string \<Rightarrow> string \<Rightarrow> string \<Rightarrow> string list" where
  "exec_lines exec cfg data backend =
     [''ExecStart='' @ exec @ '' --daemon '' @ [CHR 0x5C],
      ''    --identity      '' @ path_join cfg ''secret.key'' @ '' '' @ [CHR 0x5C],
      ''    --identity-meta '' @ path_join cfg ''secret.meta'' @ '' '' @ [CHR 0x5C],
      ''    --peers         '' @ path_join cfg ''peers.json'' @ '' '' @ [CHR 0x5C],
      ''    --log-path      '' @ path_join cfg ''log.jsonl'' @ '' '' @ [CHR 0x5C],
      ''    --history-db    '' @ path_join data ''history.db'' @ '' '' @ [CHR 0x5C],
      ''    --logstore-db   '' @ path_join data ''logstore.db'' @ '' '' @ [CHR 0x5C],
      ''    --password-from '' @ backend]"

definition unit_lines ::
  "string \<Rightarrow> string \<Rightarrow> string \<Rightarrow> string \<Rightarrow> string option \<Rightarrow> bool \<Rightarrow> string list" where
  "unit_lines exec cfg data backend cred system =
     UNIT_HEAD @ credential_lines backend cred @ ['''', '''', ''ExecStartPre=/bin/sleep 2'', '''']
     @ exec_lines exec cfg data backend
     @ ['''', ''Environment=PANIC_MONITOR_CONFIG_DIR='' @ cfg, ''Environment=PANIC_MONITOR_DATA_DIR='' @ data, '''',
        ''WorkingDirectory='' @ cfg]
     @ UNIT_LIMITS
     @ [''ReadWritePaths='' @ cfg @ '' '' @ data]
     @ (if system then EXTRA_HARDENING else [])
     @ ['''', '''', ''[Install]'', ''WantedBy='' @ (if system then ''multi-user.target'' else ''default.target'')]"

definition render_unit ::
  "string \<Rightarrow> string \<Rightarrow> string \<Rightarrow> string \<Rightarrow> string option \<Rightarrow> bool \<Rightarrow> string" where
  "render_unit exec cfg data backend cred system =
     concat (map (\<lambda>l. l @ [newline]) (unit_lines exec cfg data backend cred system))"

section \<open>Installing\<close>

text \<open>
  What an installation meets: the tools, the password typed at the prompt (\<open>None\<close> when it is given
  up), the sealing of the machine-id backend, what \<open>systemd-creds\<close> answers to its arguments and the
  password (an error or the encrypted credential), whether the keyring takes the password, whether
  files can be written, and the exit code of each systemctl call, which may depend on the calls
  before it.
\<close>

record install_env =
  ie_tools :: tools
  ie_typed :: "string option"
  ie_sealing :: sealing
  ie_seal :: seal_env
  ie_encrypt :: "string list \<Rightarrow> string \<Rightarrow> string + string"
  ie_keyring_ok :: bool
  ie_write_ok :: "string \<Rightarrow> bool"
  ie_ctl :: "string list list \<Rightarrow> string list \<Rightarrow> int"

text \<open>The state: the host and the systemctl calls made so far. A run ends with an exit code or an exception.\<close>

record install_state =
  st_host :: host
  st_calls :: "string list list"

datatype install_end = ExitCode int | Raises py_error

definition systemctl :: "install_env \<Rightarrow> bool \<Rightarrow> string list \<Rightarrow> install_state \<Rightarrow> install_state \<times> int" where
  "systemctl E system args st =
     (let cmd = [''systemctl''] @ (if system then [] else [''--user'']) @ args in
      (st\<lparr>st_calls := st_calls st @ [cmd]\<rparr>, ie_ctl E (st_calls st) cmd))"

definition choose_backend :: "install_env \<Rightarrow> bool \<Rightarrow> string option \<Rightarrow> string" where
  "choose_backend E system backend =
     (case backend of
        Some b \<Rightarrow> b
      | None \<Rightarrow> if systemd_creds_viable (ie_tools E) system then ''systemd-creds'' else ''machine-id'')"

definition cred_path :: "host \<Rightarrow> string" where
  "cred_path h = path_join (config_dir h) ''password.cred''"

definition encrypt_args :: "bool \<Rightarrow> string \<Rightarrow> string list" where
  "encrypt_args system dest =
     [''systemd-creds'', ''encrypt'', ''--name=panic-monitor-password''] @ (if system then [] else [''--user'']) @ [''-'', dest]"

definition encrypt_credential :: "install_env \<Rightarrow> bool \<Rightarrow> string \<Rightarrow> string \<Rightarrow> host \<Rightarrow> host \<times> unit res" where
  "encrypt_credential E system password dest h =
     (case ie_encrypt E (encrypt_args system dest) password of
        Inl msg \<Rightarrow> (h, Inl (RuntimeError msg))
      | Inr ct \<Rightarrow> (h\<lparr>ho_text := (ho_text h)(dest \<mapsto> ct)\<rparr>, Inr ()))"

text \<open>
  The credential step gives the host and either the end of the run or the credential file of the
  unit. A \<open>RuntimeError\<close> is told and ends with code 1; other exceptions are not caught.
\<close>

definition on_typed ::
  "install_env \<Rightarrow> host \<Rightarrow> (string \<Rightarrow> host \<times> unit res) \<Rightarrow> string option \<Rightarrow> host \<times> (install_end + string option)" where
  "on_typed E h store cred =
     (case ie_typed E of
        None \<Rightarrow> (h, Inl (ExitCode 1))
      | Some pw \<Rightarrow>
          (case store pw of
             (h', Inr _) \<Rightarrow> (h', Inr cred)
           | (h', Inl (RuntimeError _)) \<Rightarrow> (h', Inl (ExitCode 1))
           | (h', Inl e) \<Rightarrow> (h', Inl (Raises e))))"

definition store_keyring :: "install_env \<Rightarrow> host \<Rightarrow> string \<Rightarrow> host \<times> unit res" where
  "store_keyring E h pw =
     (if ie_keyring_ok E then (h\<lparr>ho_keyring := Some (Some pw)\<rparr>, Inr ()) else (h, Inl (RuntimeError ''keyring'')))"

definition credential_step ::
  "install_env \<Rightarrow> bool \<Rightarrow> bool \<Rightarrow> string \<Rightarrow> host \<Rightarrow> host \<times> (install_end + string option)" where
  "credential_step E system rot backend h =
     (if backend = ''systemd-creds'' then
        (if to_which (ie_tools E) ''systemd-creds'' = None then (h, Inl (ExitCode 1))
         else if ho_text h (cred_path h) = None \<or> rot
         then on_typed E h (\<lambda>pw. encrypt_credential E system pw (cred_path h) h) (Some (cred_path h))
         else (h, Inr (Some (cred_path h))))
      else if backend = ''machine-id'' then
        (if ho_bytes h (enc_path h) = None \<or> rot
         then on_typed E h (seal_password_to_disk (ie_sealing E) (ie_seal E) h) None
         else (h, Inr None))
      else if backend = ''keyring'' then
        (if ho_keyring h = None then (h, Inl (ExitCode 1)) else on_typed E h (store_keyring E h) None)
      else (h, Inr None))"

text \<open>The last part: reload, enable and restart; the first that fails ends the run.\<close>

definition start_service :: "install_env \<Rightarrow> bool \<Rightarrow> install_state \<Rightarrow> install_state \<times> install_end" where
  "start_service E system st =
     (case systemctl E system [''is-active'', ''--quiet'', SERVICE_NAME] st of (st0, active) \<Rightarrow>
      case systemctl E system [''daemon-reload''] st0 of (st1, c1) \<Rightarrow>
        if c1 \<noteq> 0 then (st1, ExitCode 1)
        else case systemctl E system [''enable'', SERVICE_NAME] st1 of (st2, c2) \<Rightarrow>
          if c2 \<noteq> 0 then (st2, ExitCode 1)
          else case systemctl E system [''restart'', SERVICE_NAME] st2 of (st3, c3) \<Rightarrow>
            (st3, ExitCode (if c3 \<noteq> 0 then 1 else 0)))"

definition install_service ::
  "install_env \<Rightarrow> bool option \<Rightarrow> bool \<Rightarrow> string option \<Rightarrow> bool \<Rightarrow> install_state \<Rightarrow> install_state \<times> install_end" where
  "install_service E sys force backend rot st =
     (let h = st_host st;
          system = (case sys of None \<Rightarrow> system_mode h | Some b \<Rightarrow> b);
          b = choose_backend E system backend;
          up = unit_path h system in
      if ho_text h up \<noteq> None \<and> \<not> force \<and> \<not> rot then (st, ExitCode 1)
      else case credential_step E system rot b h of
        (h1, Inl out) \<Rightarrow> (st\<lparr>st_host := h1\<rparr>, out)
      | (h1, Inr cred) \<Rightarrow>
          let content = render_unit (resolve_exec_start h (ie_tools E)) (config_dir h) (data_dir h) b cred system in
          if \<not> ie_write_ok E up then (st\<lparr>st_host := h1\<rparr>, Raises (OSError up))
          else start_service E system (st\<lparr>st_host := h1\<lparr>ho_text := (ho_text h1)(up \<mapsto> content)\<rparr>\<rparr>))"

definition uninstall_service :: "install_env \<Rightarrow> bool option \<Rightarrow> install_state \<Rightarrow> install_state \<times> install_end" where
  "uninstall_service E sys st =
     (let h = st_host st;
          system = (case sys of None \<Rightarrow> system_mode h | Some b \<Rightarrow> b);
          (st1, c1) = systemctl E system [''disable'', ''--now'', SERVICE_NAME] st;
          st2 = st1\<lparr>st_host := h\<lparr>ho_text := (ho_text h)(unit_path h system := None)\<rparr>\<rparr>;
          (st3, c2) = systemctl E system [''daemon-reload''] st2 in
      (st3, ExitCode 0))"


section \<open>Reading a unit\<close>

text \<open>
  The format of unit files as far as the rendered ones use it: a line that ends in a backslash goes
  on in the next, \<open>key=value\<close> lines, values of words between blanks. \<open>unit_values key text\<close> are the
  values with a key. A reader of units follows this when no word holds a quote, a backslash, a
  specifier or a variable.
\<close>

fun lines_of :: "string \<Rightarrow> string list" where
  "lines_of [] = [[]]"
| "lines_of (c # s) =
     (if c = newline then [] # lines_of s
      else case lines_of s of [] \<Rightarrow> [[c]] | l # ls \<Rightarrow> (c # l) # ls)"

definition goes_on :: "string \<Rightarrow> bool" where
  "goes_on l \<longleftrightarrow> l \<noteq> [] \<and> last l = CHR 0x5C"

fun join_lines :: "string list \<Rightarrow> string list" where
  "join_lines [] = []"
| "join_lines [l] = [l]"
| "join_lines (l # m # ls) =
     (if goes_on l then join_lines ((butlast l @ '' '' @ m) # ls) else l # join_lines (m # ls))"

definition line_key :: "string \<Rightarrow> string" where
  "line_key l = (if CHR ''='' \<in> set l then takeWhile (\<lambda>c. c \<noteq> CHR ''='') l else [])"

definition line_words :: "string \<Rightarrow> string list" where
  "line_words l = py_words (drop 1 (dropWhile (\<lambda>c. c \<noteq> CHR ''='') l))"

definition unit_values :: "string \<Rightarrow> string \<Rightarrow> string list list" where
  "unit_values key t = map line_words [l \<leftarrow> join_lines (lines_of t). line_key l = key]"

definition plain_char :: "char \<Rightarrow> bool" where
  "plain_char c \<longleftrightarrow> \<not> py_space c \<and> c \<notin> {CHR 0x22, CHR 0x27, CHR 0x5C, CHR ''%'', CHR ''$''}"

definition reads_units :: "(string \<Rightarrow> string \<Rightarrow> string list list) \<Rightarrow> bool" where
  "reads_units R \<longleftrightarrow>
     (\<forall>key t. list_all (list_all (list_all plain_char)) (unit_values key t) \<longrightarrow> R key t = unit_values key t)"

lemma lines_of_ne [simp]: "lines_of s \<noteq> []"
  by (induction s) (auto split: list.splits)

lemma lines_of_line: "newline \<notin> set l \<Longrightarrow> lines_of (l @ newline # s) = l # lines_of s"
  by (induction l) auto

lemma lines_of_lines:
  "\<forall>l \<in> set ls. newline \<notin> set l \<Longrightarrow> lines_of (concat (map (\<lambda>l. l @ [newline]) ls)) = ls @ [[]]"
  by (induction ls) (simp_all add: lines_of_line)

lemma join_lines_ends: "\<not> goes_on l \<Longrightarrow> join_lines (l # ls) = l # join_lines ls"
  by (cases ls) simp_all

lemma join_lines_append: "\<forall>l \<in> set a. \<not> goes_on l \<Longrightarrow> join_lines (a @ b) = a @ join_lines b"
  by (induction a) (simp_all add: join_lines_ends)

lemma plain_not_space: "plain_char c \<Longrightarrow> \<not> py_space c"
  by (simp add: plain_char_def)

lemma newline_space [simp]: "py_space newline" "py_space CHR '' ''"
  by (simp_all add: py_space_def)

lemma plain_no_newline: "list_all plain_char s \<Longrightarrow> newline \<notin> set s"
  using plain_not_space newline_space by (fastforce simp: list_all_iff)

lemma plain_no_space: "list_all plain_char s \<Longrightarrow> list_all (\<lambda>c. \<not> py_space c) s"
  using plain_not_space by (simp add: list_all_iff)

lemma plain_words: "list_all plain_char s \<Longrightarrow> s \<noteq> [] \<Longrightarrow> py_words s = [s]"
  by (simp add: py_words_word plain_no_space)

lemma plain_words_then: "list_all plain_char s \<Longrightarrow> s \<noteq> [] \<Longrightarrow> py_words (s @ CHR '' '' # b) = s # py_words b"
  by (simp add: py_words_at plain_words)

lemma plain_path_join: "list_all plain_char d \<Longrightarrow> list_all plain_char n \<Longrightarrow> list_all plain_char (path_join d n)"
  by (simp add: path_join_def plain_char_def py_space_def)


section \<open>What a rendered unit says\<close>

definition plain_path :: "string \<Rightarrow> bool" where
  "plain_path s \<longleftrightarrow> s \<noteq> [] \<and> list_all plain_char s"

definition plain_text :: "string \<Rightarrow> bool" where
  "plain_text s \<longleftrightarrow> list_all (\<lambda>c. plain_char c \<or> c = CHR '' '') s"

text \<open>A text that can stand at the end of a line.\<close>

definition line_text :: "string \<Rightarrow> bool" where
  "line_text s \<longleftrightarrow> s \<noteq> [] \<and> newline \<notin> set s \<and> last s \<noteq> CHR 0x5C"

lemma plain_path_line: "plain_path s \<Longrightarrow> line_text s"
proof -
  assume p: "plain_path s"
  then have "plain_char (last s)" by (auto simp: plain_path_def list_all_iff)
  then have "last s \<noteq> CHR 0x5C" by (auto simp: plain_char_def)
  with p show "line_text s" by (simp add: line_text_def plain_path_def plain_no_newline)
qed

lemma line_text_ends: "line_text s \<Longrightarrow> \<not> goes_on (a @ s)"
  by (simp add: line_text_def goes_on_def)

lemma plain_text_line: "plain_text s \<Longrightarrow> newline \<notin> set s"
  using plain_not_space newline_space by (fastforce simp: plain_text_def list_all_iff)

lemma plain_literals [simp]:
  "list_all plain_char ''secret.key''" "list_all plain_char ''secret.meta''" "list_all plain_char ''peers.json''"
  "list_all plain_char ''log.jsonl''" "list_all plain_char ''history.db''" "list_all plain_char ''logstore.db''"
  by (simp_all add: plain_char_def py_space_def)

lemma plain_path_in: "plain_path d \<Longrightarrow> list_all plain_char n \<Longrightarrow> plain_path (path_join d n)"
  by (simp add: plain_path_def plain_path_join) (simp add: path_join_def)

definition service_args :: "string \<Rightarrow> string \<Rightarrow> string \<Rightarrow> string list" where
  "service_args cfg data backend =
     [''--daemon'', ''--identity'', path_join cfg ''secret.key'', ''--identity-meta'', path_join cfg ''secret.meta'',
      ''--peers'', path_join cfg ''peers.json'', ''--log-path'', path_join cfg ''log.jsonl'',
      ''--history-db'', path_join data ''history.db'', ''--logstore-db'', path_join data ''logstore.db'',
      ''--password-from'', backend]"

definition exec_line :: "string \<Rightarrow> string \<Rightarrow> string \<Rightarrow> string \<Rightarrow> string" where
  "exec_line exec cfg data backend =
     ''ExecStart='' @ exec @ '' --daemon   '' @
     ''   --identity      '' @ path_join cfg ''secret.key'' @ ''  '' @
     ''    --identity-meta '' @ path_join cfg ''secret.meta'' @ ''  '' @
     ''    --peers         '' @ path_join cfg ''peers.json'' @ ''  '' @
     ''    --log-path      '' @ path_join cfg ''log.jsonl'' @ ''  '' @
     ''    --history-db    '' @ path_join data ''history.db'' @ ''  '' @
     ''    --logstore-db   '' @ path_join data ''logstore.db'' @ ''  '' @
     ''    --password-from '' @ backend"

lemma exec_joined:
  assumes "line_text backend"
  shows "join_lines (exec_lines exec cfg data backend @ [] # ls) = exec_line exec cfg data backend # join_lines ([] # ls)"
proof -
  have "backend \<noteq> []" "last backend \<noteq> CHR 0x5C" using assms by (simp_all add: line_text_def)
  then show ?thesis by (simp add: exec_lines_def exec_line_def goes_on_def butlast_append)
qed

lemma exec_line_key: "line_key (exec_line exec cfg data backend) = ''ExecStart''"
  by (simp add: line_key_def exec_line_def)

lemma exec_line_words:
  "line_words (exec_line exec cfg data backend) =
     py_words exec @ [''--daemon'', ''--identity''] @ py_words (path_join cfg ''secret.key'')
     @ [''--identity-meta''] @ py_words (path_join cfg ''secret.meta'') @ [''--peers''] @ py_words (path_join cfg ''peers.json'')
     @ [''--log-path''] @ py_words (path_join cfg ''log.jsonl'') @ [''--history-db''] @ py_words (path_join data ''history.db'')
     @ [''--logstore-db''] @ py_words (path_join data ''logstore.db'') @ [''--password-from''] @ py_words backend"
proof -
  have w: "py_words (''--daemon '' @ b) = ''--daemon'' # py_words b"
    "py_words (''--identity '' @ b) = ''--identity'' # py_words b"
    "py_words (''--identity-meta '' @ b) = ''--identity-meta'' # py_words b"
    "py_words (''--peers '' @ b) = ''--peers'' # py_words b"
    "py_words (''--log-path '' @ b) = ''--log-path'' # py_words b"
    "py_words (''--history-db '' @ b) = ''--history-db'' # py_words b"
    "py_words (''--logstore-db '' @ b) = ''--logstore-db'' # py_words b"
    "py_words (''--password-from '' @ b) = ''--password-from'' # py_words b" for b
    using plain_words_then[of "''--daemon''" b] plain_words_then[of "''--identity''" b]
      plain_words_then[of "''--identity-meta''" b] plain_words_then[of "''--peers''" b]
      plain_words_then[of "''--log-path''" b] plain_words_then[of "''--history-db''" b]
      plain_words_then[of "''--logstore-db''" b] plain_words_then[of "''--password-from''" b]
    by (simp_all add: plain_char_def py_space_def)
  show ?thesis using w by (simp add: line_words_def exec_line_def py_words_at)
qed

lemma service_words:
  assumes "plain_path cfg" "plain_path data" "plain_path backend"
  shows "line_words (exec_line exec cfg data backend) = py_words exec @ service_args cfg data backend"
proof -
  have p: "py_words (path_join d n) = [path_join d n]" if "plain_path d" "list_all plain_char n" for d n
    using plain_path_in[OF that] by (simp add: plain_path_def plain_words)
  have q: "py_words (path_join cfg ''secret.key'') = [path_join cfg ''secret.key'']"
    "py_words (path_join cfg ''secret.meta'') = [path_join cfg ''secret.meta'']"
    "py_words (path_join cfg ''peers.json'') = [path_join cfg ''peers.json'']"
    "py_words (path_join cfg ''log.jsonl'') = [path_join cfg ''log.jsonl'']"
    "py_words (path_join data ''history.db'') = [path_join data ''history.db'']"
    "py_words (path_join data ''logstore.db'') = [path_join data ''logstore.db'']"
    by (rule p[OF assms(1) plain_literals(1)] p[OF assms(1) plain_literals(2)] p[OF assms(1) plain_literals(3)]
        p[OF assms(1) plain_literals(4)] p[OF assms(2) plain_literals(5)] p[OF assms(2) plain_literals(6)])+
  have "py_words backend = [backend]" using assms(3) by (simp add: plain_path_def plain_words)
  with q show ?thesis by (simp add: exec_line_words service_args_def)
qed

lemma closed_lines:
  "\<forall>l \<in> set UNIT_HEAD. newline \<notin> set l \<and> \<not> goes_on l \<and> line_key l \<notin> {''ExecStart'', ''Environment'', ''ReadWritePaths''}"
  "\<forall>l \<in> set UNIT_LIMITS. newline \<notin> set l \<and> \<not> goes_on l \<and> line_key l \<notin> {''ExecStart'', ''Environment'', ''ReadWritePaths''}"
  "\<forall>l \<in> set EXTRA_HARDENING. newline \<notin> set l \<and> \<not> goes_on l \<and> line_key l \<notin> {''ExecStart'', ''Environment'', ''ReadWritePaths''}"
  by (code_simp, code_simp, code_simp)

lemma filter_none: "\<forall>l \<in> set ls. f l \<notin> K \<Longrightarrow> k \<in> K \<Longrightarrow> [l \<leftarrow> ls. f l = k] = []"
  by (auto simp: filter_empty_conv)

lemma unit_joined:
  assumes "newline \<notin> set exec" "line_text cfg" "line_text data" "line_text backend" "\<forall>f \<in> set_option cred. line_text f"
  shows "join_lines (lines_of (render_unit exec cfg data backend cred system)) =
    UNIT_HEAD @ credential_lines backend cred @ ['''', '''', ''ExecStartPre=/bin/sleep 2'', '''', exec_line exec cfg data backend]
     @ ['''', ''Environment=PANIC_MONITOR_CONFIG_DIR='' @ cfg, ''Environment=PANIC_MONITOR_DATA_DIR='' @ data, '''',
        ''WorkingDirectory='' @ cfg]
     @ UNIT_LIMITS
     @ [''ReadWritePaths='' @ cfg @ '' '' @ data]
     @ (if system then EXTRA_HARDENING else [])
     @ ['''', '''', ''[Install]'', ''WantedBy='' @ (if system then ''multi-user.target'' else ''default.target''), '''']"
proof -
  have nl: "newline \<notin> set cfg" "newline \<notin> set data" "newline \<notin> set backend" "newline \<notin> set exec"
    using assms(1-4) by (simp_all add: line_text_def)
  have cl: "\<forall>l \<in> set (credential_lines backend cred). newline \<notin> set l \<and> \<not> goes_on l"
    using assms(5) line_text_ends[of _ "''LoadCredentialEncrypted=panic-monitor-password:''"]
    by (auto simp: credential_lines_def line_text_def split: option.splits)
  have "\<forall>l \<in> set (unit_lines exec cfg data backend cred system). newline \<notin> set l"
    using nl closed_lines cl by (auto simp: unit_lines_def exec_lines_def path_join_def)
  then have lines: "lines_of (render_unit exec cfg data backend cred system) = unit_lines exec cfg data backend cred system @ [[]]"
    by (simp add: render_unit_def lines_of_lines)
  define ec where "ec = ''Environment=PANIC_MONITOR_CONFIG_DIR='' @ cfg"
  define ed where "ed = ''Environment=PANIC_MONITOR_DATA_DIR='' @ data"
  define wd where "wd = ''WorkingDirectory='' @ cfg"
  define rw where "rw = ''ReadWritePaths='' @ cfg @ '' '' @ data"
  have ends: "\<not> goes_on ec" "\<not> goes_on ed" "\<not> goes_on wd" "\<not> goes_on rw"
    using line_text_ends[OF assms(2)] line_text_ends[OF assms(3)] line_text_ends[OF assms(3), of "''ReadWritePaths='' @ cfg @ '' ''"]
    unfolding ec_def ed_def wd_def rw_def by (simp_all only: append_assoc simp_thms)
  have small: "\<not> goes_on []" "\<not> goes_on ''ExecStartPre=/bin/sleep 2''" "\<not> goes_on ''[Install]''"
    "\<not> goes_on ''WantedBy=multi-user.target''" "\<not> goes_on ''WantedBy=default.target''" by (simp_all add: goes_on_def)
  have nc: "\<forall>l \<in> set UNIT_HEAD. \<not> goes_on l" "\<forall>l \<in> set UNIT_LIMITS. \<not> goes_on l" "\<forall>l \<in> set EXTRA_HARDENING. \<not> goes_on l"
    "\<forall>l \<in> set (credential_lines backend cred). \<not> goes_on l"
    using closed_lines cl by blast+
  define t where "t = (if system then EXTRA_HARDENING else [])
     @ ['''', '''', ''[Install]'', ''WantedBy='' @ (if system then ''multi-user.target'' else ''default.target''), '''']"
  have tail: "join_lines t = t" using nc(3) small by (simp add: t_def join_lines_append join_lines_ends)
  have "join_lines ([] # [ec, ed, [], wd] @ UNIT_LIMITS @ [rw] @ t) = [] # [ec, ed, [], wd] @ UNIT_LIMITS @ [rw] @ t"
    by (simp add: join_lines_ends ends small(1) join_lines_append[OF nc(2)] tail)
  then have rest: "join_lines (exec_lines exec cfg data backend @ [] # [ec, ed, [], wd] @ UNIT_LIMITS @ [rw] @ t)
      = exec_line exec cfg data backend # [] # [ec, ed, [], wd] @ UNIT_LIMITS @ [rw] @ t"
    by (simp add: exec_joined[OF assms(4)])
  have "unit_lines exec cfg data backend cred system @ [[]] = UNIT_HEAD @ credential_lines backend cred
      @ [[], [], ''ExecStartPre=/bin/sleep 2'', []] @ exec_lines exec cfg data backend @ [] # [ec, ed, [], wd] @ UNIT_LIMITS @ [rw] @ t"
    by (simp add: unit_lines_def ec_def ed_def wd_def rw_def t_def)
  then have "join_lines (lines_of (render_unit exec cfg data backend cred system)) = UNIT_HEAD @ credential_lines backend cred
      @ [[], [], ''ExecStartPre=/bin/sleep 2'', []] @ exec_line exec cfg data backend # [] # [ec, ed, [], wd] @ UNIT_LIMITS @ [rw] @ t"
    unfolding lines using rest by (simp add: join_lines_append[OF nc(1)] join_lines_append[OF nc(4)] join_lines_ends small)
  then show ?thesis by (simp add: ec_def ed_def wd_def rw_def t_def)
qed


lemma line_keys_none:
  assumes "k \<in> {''ExecStart'', ''Environment'', ''ReadWritePaths''}"
  shows "[l \<leftarrow> UNIT_HEAD. line_key l = k] = []" "[l \<leftarrow> UNIT_LIMITS. line_key l = k] = []"
    "[l \<leftarrow> EXTRA_HARDENING. line_key l = k] = []" "[l \<leftarrow> credential_lines backend cred. line_key l = k] = []"
proof -
  show "[l \<leftarrow> UNIT_HEAD. line_key l = k] = []" "[l \<leftarrow> UNIT_LIMITS. line_key l = k] = []" "[l \<leftarrow> EXTRA_HARDENING. line_key l = k] = []"
    using closed_lines assms unfolding filter_empty_conv by blast+
  have "\<forall>l \<in> set (credential_lines backend cred). line_key l = ''LoadCredentialEncrypted''"
    by (cases cred; cases "backend = ''systemd-creds''") (simp_all add: credential_lines_def line_key_def)
  then show "[l \<leftarrow> credential_lines backend cred. line_key l = k] = []"
    using assms by (auto simp: filter_empty_conv)
qed

lemma unit_words:
  assumes "newline \<notin> set exec" "line_text cfg" "line_text data" "line_text backend" "\<forall>f \<in> set_option cred. line_text f"
  shows "unit_values ''ExecStart'' (render_unit exec cfg data backend cred system) = [line_words (exec_line exec cfg data backend)]"
    and "unit_values ''Environment'' (render_unit exec cfg data backend cred system) =
      [py_words (''PANIC_MONITOR_CONFIG_DIR='' @ cfg), py_words (''PANIC_MONITOR_DATA_DIR='' @ data)]"
    and "unit_values ''ReadWritePaths'' (render_unit exec cfg data backend cred system) = [py_words cfg @ py_words data]"
proof -
  define ec where "ec = ''Environment=PANIC_MONITOR_CONFIG_DIR='' @ cfg"
  define ed where "ed = ''Environment=PANIC_MONITOR_DATA_DIR='' @ data"
  define wd where "wd = ''WorkingDirectory='' @ cfg"
  define rw where "rw = ''ReadWritePaths='' @ cfg @ '' '' @ data"
  define wb where "wb = ''WantedBy='' @ (if system then ''multi-user.target'' else ''default.target'')"
  have keys: "line_key ec = ''Environment''" "line_key ed = ''Environment''" "line_key wd = ''WorkingDirectory''"
    "line_key rw = ''ReadWritePaths''" "line_key wb = ''WantedBy''" "line_key [] = []"
    "line_key ''ExecStartPre=/bin/sleep 2'' = ''ExecStartPre''" "line_key ''[Install]'' = []"
    by (simp_all add: line_key_def ec_def ed_def wd_def rw_def wb_def)
  have w: "line_words ec = py_words (''PANIC_MONITOR_CONFIG_DIR='' @ cfg)" "line_words ed = py_words (''PANIC_MONITOR_DATA_DIR='' @ data)"
    "line_words rw = py_words cfg @ py_words data"
    by (simp_all add: line_words_def ec_def ed_def rw_def py_words_at)
  note joined = unit_joined[OF assms, of system, folded ec_def ed_def wd_def rw_def wb_def]
  show "unit_values ''ExecStart'' (render_unit exec cfg data backend cred system) = [line_words (exec_line exec cfg data backend)]"
    using line_keys_none[of "''ExecStart''"] by (simp add: unit_values_def joined keys exec_line_key)
  show "unit_values ''Environment'' (render_unit exec cfg data backend cred system) =
      [py_words (''PANIC_MONITOR_CONFIG_DIR='' @ cfg), py_words (''PANIC_MONITOR_DATA_DIR='' @ data)]"
    using line_keys_none[of "''Environment''"] w by (simp add: unit_values_def joined keys exec_line_key)
  show "unit_values ''ReadWritePaths'' (render_unit exec cfg data backend cred system) = [py_words cfg @ py_words data]"
    using line_keys_none[of "''ReadWritePaths''"] w by (simp add: unit_values_def joined keys exec_line_key)
qed

lemma unit_keys:
  assumes "plain_text exec" "plain_path cfg" "plain_path data" "plain_path backend" "\<forall>f \<in> set_option cred. plain_path f"
  shows "unit_values ''ExecStart'' (render_unit exec cfg data backend cred system) = [py_words exec @ service_args cfg data backend]"
    and "unit_values ''Environment'' (render_unit exec cfg data backend cred system) =
      [[''PANIC_MONITOR_CONFIG_DIR='' @ cfg], [''PANIC_MONITOR_DATA_DIR='' @ data]]"
    and "unit_values ''ReadWritePaths'' (render_unit exec cfg data backend cred system) = [[cfg, data]]"
proof -
  have l: "newline \<notin> set exec" "line_text cfg" "line_text data" "line_text backend" "\<forall>f \<in> set_option cred. line_text f"
    using assms plain_text_line plain_path_line by blast+
  have words: "py_words (''PANIC_MONITOR_CONFIG_DIR='' @ cfg) = [''PANIC_MONITOR_CONFIG_DIR='' @ cfg]"
    "py_words (''PANIC_MONITOR_DATA_DIR='' @ data) = [''PANIC_MONITOR_DATA_DIR='' @ data]"
    "py_words cfg = [cfg]" "py_words data = [data]"
    using assms(2,3) by (simp_all add: plain_words plain_path_def plain_char_def py_space_def)
  show "unit_values ''ExecStart'' (render_unit exec cfg data backend cred system) = [py_words exec @ service_args cfg data backend]"
    by (simp only: unit_words(1)[OF l] service_words[OF assms(2-4)])
  show "unit_values ''Environment'' (render_unit exec cfg data backend cred system) =
      [[''PANIC_MONITOR_CONFIG_DIR='' @ cfg], [''PANIC_MONITOR_DATA_DIR='' @ data]]"
    by (simp only: unit_words(2)[OF l] words)
  show "unit_values ''ReadWritePaths'' (render_unit exec cfg data backend cred system) = [[cfg, data]]"
    by (simp add: unit_words(3)[OF l] words)
qed

lemma split_space_set: "set (concat (split_space s)) = {c \<in> set s. \<not> py_space c}"
proof (induction s)
  case (Cons c s)
  obtain w ws where "split_space s = w # ws" by (cases "split_space s") simp_all
  with Cons show ?case by auto
qed simp

lemma plain_text_words: "plain_text s \<Longrightarrow> list_all (list_all plain_char) (py_words s)"
proof -
  assume p: "plain_text s"
  have "plain_char c" if "w \<in> set (py_words s)" "c \<in> set w" for w c
  proof -
    have "c \<in> set (concat (split_space s))" using that by (auto simp: py_words_def)
    then have "c \<in> set s" "\<not> py_space c" unfolding split_space_set by blast+
    with p show ?thesis unfolding plain_text_def list_all_iff using newline_space(2) by blast
  qed
  then show ?thesis unfolding list_all_iff by blast
qed

section \<open>The installed daemon\<close>

text \<open>
  What the service manager starts: the arguments are the words of \<open>ExecStart\<close>, the environment gets
  the assignments of the \<open>Environment\<close> lines (a word without an equals sign is ignored). \<open>d\<close> stands for the process otherwise (its user, home
  and own environment); the files are those of the host.
\<close>

definition assigned :: "(string \<rightharpoonup> string) \<Rightarrow> string \<Rightarrow> (string \<rightharpoonup> string)" where
  "assigned env w =
     (if CHR ''='' \<in> set w
      then env(takeWhile (\<lambda>c. c \<noteq> CHR ''='') w \<mapsto> drop 1 (dropWhile (\<lambda>c. c \<noteq> CHR ''='') w)) else env)"

definition started_args :: "(string \<Rightarrow> string \<Rightarrow> string list list) \<Rightarrow> string \<Rightarrow> string list" where
  "started_args R t = concat (R ''ExecStart'' t)"

definition started :: "(string \<Rightarrow> string \<Rightarrow> string list list) \<Rightarrow> string \<Rightarrow> host \<Rightarrow> host \<Rightarrow> host" where
  "started R t h d = d\<lparr>ho_env := foldl assigned (ho_env d) (concat (R ''Environment'' t)),
     ho_text := ho_text h, ho_bytes := ho_bytes h, ho_keyring := ho_keyring h\<rparr>"

fun option_value :: "string \<Rightarrow> string list \<Rightarrow> string option" where
  "option_value k (a # b # r) = (if a = k then Some b else option_value k (b # r))"
| "option_value k _ = None"

lemma option_value_skip: "k \<notin> set a \<Longrightarrow> option_value k (a @ b) = option_value k b"
proof (induction a)
  case (Cons x a)
  then show ?case by (cases "a @ b") auto
qed simp

lemma path_not_option: "CHR ''/'' \<notin> set k \<Longrightarrow> path_join d n \<noteq> k"
  by (auto simp: path_join_def)

lemma service_options:
  "option_value ''--identity'' (service_args cfg data b) = Some (path_join cfg ''secret.key'')"
  "option_value ''--identity-meta'' (service_args cfg data b) = Some (path_join cfg ''secret.meta'')"
  "option_value ''--peers'' (service_args cfg data b) = Some (path_join cfg ''peers.json'')"
  "option_value ''--log-path'' (service_args cfg data b) = Some (path_join cfg ''log.jsonl'')"
  "option_value ''--history-db'' (service_args cfg data b) = Some (path_join data ''history.db'')"
  "option_value ''--logstore-db'' (service_args cfg data b) = Some (path_join data ''logstore.db'')"
  "option_value ''--password-from'' (service_args cfg data b) = Some b"
  by (simp_all add: service_args_def path_not_option)

lemma systemctl_host [simp]: "st_host (fst (systemctl E system args st)) = st_host st"
  by (simp add: systemctl_def Let_def)

lemma start_service_host: "start_service E system st = (st', r) \<Longrightarrow> st_host st' = st_host st"
  by (auto simp: start_service_def systemctl_def Let_def split: if_splits prod.splits)

lemma on_typed_end: "on_typed E h store cred = (h', Inl out) \<Longrightarrow> out \<noteq> ExitCode 0"
  by (auto simp: on_typed_def split: option.splits prod.splits sum.splits py_error.splits)

lemma credential_step_end: "credential_step E system rot b h = (h', Inl out) \<Longrightarrow> out \<noteq> ExitCode 0"
  by (auto simp: credential_step_def dest: on_typed_end split: if_splits)

text \<open>A run that ends with code 0 has stored what the backend needs, written the unit and started it.\<close>

lemma install_done:
  assumes "install_service E sys force backend rot st = (st', ExitCode 0)"
  defines "system \<equiv> (case sys of None \<Rightarrow> system_mode (st_host st) | Some b \<Rightarrow> b)"
  obtains h1 cred where "credential_step E system rot (choose_backend E system backend) (st_host st) = (h1, Inr cred)"
    and "ie_write_ok E (unit_path (st_host st) system)"
    and "start_service E system (st\<lparr>st_host := h1\<lparr>ho_text := (ho_text h1)(unit_path (st_host st) system \<mapsto>
           render_unit (resolve_exec_start (st_host st) (ie_tools E)) (config_dir (st_host st)) (data_dir (st_host st))
             (choose_backend E system backend) cred system)\<rparr>\<rparr>) = (st', ExitCode 0)"
    and "ho_text (st_host st) (unit_path (st_host st) system) \<noteq> None \<longrightarrow> force \<or> rot"
proof (cases "credential_step E system rot (choose_backend E system backend) (st_host st)")
  case (Pair h1 r)
  show thesis
  proof (cases r)
    case (Inl out)
    with credential_step_end[OF Pair[unfolded Inl]] assms(1) Pair show thesis
      by (auto simp: install_service_def Let_def system_def split: if_splits)
  next
    case (Inr cred)
    with assms(1) Pair that show thesis by (auto simp: install_service_def Let_def system_def split: if_splits)
  qed
qed


lemma unit_path_last: "last (unit_path h system) = CHR ''e''" "unit_path h system \<noteq> []"
  by (simp_all add: unit_path_def path_join_def SERVICE_NAME_def)

lemma unit_not_machine_id [simp]:
  "unit_path h system \<noteq> ''/etc/machine-id''" "unit_path h system \<noteq> ''/var/lib/dbus/machine-id''"
  using unit_path_last[of h system] by auto

lemma machine_id_cong:
  assumes "ho_text d ''/etc/machine-id'' = ho_text h ''/etc/machine-id''"
    and "ho_text d ''/var/lib/dbus/machine-id'' = ho_text h ''/var/lib/dbus/machine-id''"
  shows "machine_id d = machine_id h"
  unfolding machine_id_def map_filter_simps assms ..

lemma started_env:
  assumes "reads_units R" "plain_text exec" "plain_path cfg" "plain_path data" "plain_path backend" "\<forall>f \<in> set_option cred. plain_path f"
    and t: "t = render_unit exec cfg data backend cred system"
  shows "started_args R t = py_words exec @ service_args cfg data backend"
    and "config_dir (started R t h d) = cfg" and "data_dir (started R t h d) = data"
proof -
  note k = unit_keys[OF assms(2-6), of system, folded t]
  have c: "list_all plain_char cfg" "list_all plain_char data" "list_all plain_char backend"
    using assms(3-5) by (simp_all add: plain_path_def)
  have "list_all plain_char (path_join cfg ''secret.key'')" "list_all plain_char (path_join cfg ''secret.meta'')"
    "list_all plain_char (path_join cfg ''peers.json'')" "list_all plain_char (path_join cfg ''log.jsonl'')"
    "list_all plain_char (path_join data ''history.db'')" "list_all plain_char (path_join data ''logstore.db'')"
    by (rule plain_path_join[OF c(1) plain_literals(1)] plain_path_join[OF c(1) plain_literals(2)]
        plain_path_join[OF c(1) plain_literals(3)] plain_path_join[OF c(1) plain_literals(4)]
        plain_path_join[OF c(2) plain_literals(5)] plain_path_join[OF c(2) plain_literals(6)])+
  then have sa: "list_all (list_all plain_char) (service_args cfg data backend)"
    using c by (simp add: service_args_def plain_char_def py_space_def)
  have "list_all (list_all (list_all plain_char)) (unit_values ''ExecStart'' t)"
    using sa plain_text_words[OF assms(2)] by (simp add: k)
  with assms(1) have "R ''ExecStart'' t = [py_words exec @ service_args cfg data backend]"
    by (simp add: reads_units_def k)
  then show "started_args R t = py_words exec @ service_args cfg data backend" by (simp add: started_args_def)
  have "list_all (list_all (list_all plain_char)) (unit_values ''Environment'' t)"
    using assms(3,4) by (simp add: k plain_path_def plain_char_def py_space_def)
  with assms(1) have "R ''Environment'' t = [[''PANIC_MONITOR_CONFIG_DIR='' @ cfg], [''PANIC_MONITOR_DATA_DIR='' @ data]]"
    by (simp add: reads_units_def k)
  then have env: "ho_env (started R t h d) = (ho_env d)(''PANIC_MONITOR_CONFIG_DIR'' \<mapsto> cfg, ''PANIC_MONITOR_DATA_DIR'' \<mapsto> data)"
    by (simp add: started_def assigned_def)
  have ne: "cfg \<noteq> []" "data \<noteq> []" using assms(3,4) by (simp_all add: plain_path_def)
  show "config_dir (started R t h d) = cfg" "data_dir (started R t h d) = data"
    using ne by (simp_all add: config_dir_def data_dir_def env_set_def env)
qed


lemma machine_id_step:
  assumes "credential_step E system rot ''machine-id'' h = (h1, Inr cred)"
    and "ho_bytes h (enc_path h) = None \<or> rot" and "ie_typed E = Some pw"
  shows "cred = None" and "seal_password_to_disk (ie_sealing E) (ie_seal E) h pw = (h1, Inr ())"
  using assms by (auto simp: credential_step_def on_typed_def split: prod.splits sum.splits py_error.splits)

lemma machine_id_installed:
  assumes "install_service E sys force (Some ''machine-id'') rot st = (st', ExitCode 0)"
    and "ho_bytes (st_host st) (enc_path (st_host st)) = None \<or> rot" and "ie_typed E = Some pw"
  defines "system \<equiv> (case sys of None \<Rightarrow> system_mode (st_host st) | Some b \<Rightarrow> b)"
  obtains h1 where "seal_password_to_disk (ie_sealing E) (ie_seal E) (st_host st) pw = (h1, Inr ())"
    and "st_host st' = h1\<lparr>ho_text := (ho_text h1)(unit_path (st_host st) system \<mapsto>
      render_unit (resolve_exec_start (st_host st) (ie_tools E)) (config_dir (st_host st)) (data_dir (st_host st))
        ''machine-id'' None system)\<rparr>"
proof -
  have cb: "choose_backend E system (Some ''machine-id'') = ''machine-id''" by (simp add: choose_backend_def)
  obtain h1 cred where step: "credential_step E system rot ''machine-id'' (st_host st) = (h1, Inr cred)"
    and start: "start_service E system (st\<lparr>st_host := h1\<lparr>ho_text := (ho_text h1)(unit_path (st_host st) system \<mapsto>
        render_unit (resolve_exec_start (st_host st) (ie_tools E)) (config_dir (st_host st)) (data_dir (st_host st))
          ''machine-id'' cred system)\<rparr>\<rparr>) = (st', ExitCode 0)"
    by (rule install_done[OF assms(1), folded system_def, unfolded cb])
  note m = machine_id_step[OF step assms(2,3)]
  show thesis using that[OF m(2)] start_service_host[OF start] m(1) by simp
qed

lemma plain_machine_id [simp]: "plain_path ''machine-id''"
  by (simp add: plain_path_def plain_char_def py_space_def)



definition demo_install :: install_env where
  "demo_install = \<lparr>ie_tools = \<lparr>to_which = (\<lambda>_. None), to_version = None, to_exe = ''/usr/bin/panic-monitor'',
       to_real_exe = ''/usr/bin/panic-monitor'', to_main = []\<rparr>,
     ie_typed = Some ''s3cret'', ie_sealing = demo_sealing, ie_seal = demo_seal True 1, ie_encrypt = (\<lambda>_ _. Inl []),
     ie_keyring_ok = True, ie_write_ok = (\<lambda>_. True), ie_ctl = (\<lambda>_ _. 0)\<rparr>"

lemma demo_install_simps [simp]:
  "ie_tools demo_install = \<lparr>to_which = (\<lambda>_. None), to_version = None, to_exe = ''/usr/bin/panic-monitor'',
     to_real_exe = ''/usr/bin/panic-monitor'', to_main = []\<rparr>"
  "ie_typed demo_install = Some ''s3cret''" "ie_sealing demo_install = demo_sealing" "ie_seal demo_install = demo_seal True 1"
  "ie_write_ok demo_install p" "ie_ctl demo_install cs c = 0"
  by (simp_all add: demo_install_def)

lemma demo_install_done:
  assumes "machine_id h = Inr own" and "ho_bytes h (enc_path h) = None" and "ho_text h (unit_path h (system_mode h)) = None"
  shows "\<exists>st'. install_service demo_install None False (Some ''machine-id'') False \<lparr>st_host = h, st_calls = []\<rparr> = (st', ExitCode 0)"
  using assms
  by (simp add: install_service_def Let_def choose_backend_def credential_step_def on_typed_def seal_password_to_disk_def
      demo_seal_def start_service_def systemctl_def)

lemma reads_own: "reads_units unit_values"
  by (simp add: reads_units_def)

lemma plain_demo_exec: "plain_text ''/usr/bin/panic-monitor''" "py_words ''/usr/bin/panic-monitor'' = [''/usr/bin/panic-monitor'']"
  by (code_simp, code_simp)


text \<open>
  A blank in the path of the configuration breaks the service: the paths stand in the unit without
  quotes, so the daemon gets the part before the blank as its directory. The installer ends with
  success, and the daemon does not find the password that was just stored.
\<close>

theorem blank_path_loses_password:
  assumes "reads_units R"
    and "config_dir (st_host st) = a @ '' '' @ b" and "plain_path a" and "plain_path b" and "CHR ''='' \<notin> set b"
    and "plain_path (data_dir (st_host st))" and "plain_text (resolve_exec_start (st_host st) (ie_tools E))"
    and "install_service E sys force (Some ''machine-id'') rot st = (st', ExitCode 0)"
    and "ho_bytes (st_host st') (path_join a ''password.enc'') = None"
  shows "\<exists>t. ho_text (st_host st') (unit_path (st_host st) (case sys of None \<Rightarrow> system_mode (st_host st) | Some b \<Rightarrow> b)) = Some t
    \<and> config_dir (started R t (st_host st') d) = a
    \<and> get_password (ie_sealing E) (started R t (st_host st') d) (Some ''machine-id'') =
        Inl (RuntimeError ''encrypted password not found'')"
proof -
  let ?h = "st_host st" and ?exec = "resolve_exec_start (st_host st) (ie_tools E)"
  define system where "system = (case sys of None \<Rightarrow> system_mode ?h | Some b \<Rightarrow> b)"
  have cb: "choose_backend E system (Some ''machine-id'') = ''machine-id''" by (simp add: choose_backend_def)
  obtain h1 cred where step: "credential_step E system rot ''machine-id'' ?h = (h1, Inr cred)"
    and start: "start_service E system (st\<lparr>st_host := h1\<lparr>ho_text := (ho_text h1)(unit_path ?h system \<mapsto>
        render_unit ?exec (config_dir ?h) (data_dir ?h) ''machine-id'' cred system)\<rparr>\<rparr>) = (st', ExitCode 0)"
    by (rule install_done[OF assms(8), folded system_def, unfolded cb])
  define t where "t = render_unit ?exec (config_dir ?h) (data_dir ?h) ''machine-id'' cred system"
  have cred: "\<forall>f \<in> set_option cred. line_text f"
    using step by (auto simp: credential_step_def on_typed_def split: if_splits option.splits prod.splits sum.splits py_error.splits)
  have cfg: "line_text (config_dir ?h)"
    using plain_path_line[OF assms(3)] plain_path_line[OF assms(4)] by (simp add: assms(2) line_text_def)
  note w = unit_words(2)[OF plain_text_line[OF assms(7)] cfg plain_path_line[OF assms(6)] plain_path_line[OF plain_machine_id] cred,
      of system, folded t_def]
  have "unit_values ''Environment'' t = [[''PANIC_MONITOR_CONFIG_DIR='' @ a, b], [''PANIC_MONITOR_DATA_DIR='' @ data_dir ?h]]"
  proof -
    have p: "list_all plain_char (''PANIC_MONITOR_CONFIG_DIR='' @ a)" "list_all plain_char (''PANIC_MONITOR_DATA_DIR='' @ data_dir ?h)"
      using assms(3,6) by (simp_all add: plain_path_def plain_char_def py_space_def)
    have "py_words ((''PANIC_MONITOR_CONFIG_DIR='' @ a) @ CHR '' '' # b) = [''PANIC_MONITOR_CONFIG_DIR='' @ a, b]"
      using plain_words_then[OF p(1), of b] assms(4) by (simp add: plain_words plain_path_def)
    moreover have "py_words (''PANIC_MONITOR_DATA_DIR='' @ data_dir ?h) = [''PANIC_MONITOR_DATA_DIR='' @ data_dir ?h]"
      using plain_words[OF p(2)] by simp
    ultimately show ?thesis by (simp add: w assms(2))
  qed
  moreover from this have "R ''Environment'' t = unit_values ''Environment'' t"
    using assms(1,3,4,6) by (simp add: reads_units_def plain_path_def plain_char_def py_space_def)
  ultimately have env: "ho_env (started R t (st_host st') d) =
      (ho_env d)(''PANIC_MONITOR_CONFIG_DIR'' \<mapsto> a, ''PANIC_MONITOR_DATA_DIR'' \<mapsto> data_dir ?h)"
    using assms(5) by (simp add: started_def assigned_def)
  then have dir: "config_dir (started R t (st_host st') d) = a"
    using assms(3) by (simp add: config_dir_def env_set_def plain_path_def)
  have "ho_bytes (started R t (st_host st') d) = ho_bytes (st_host st')" by (simp add: started_def)
  with dir assms(9) have "get_password (ie_sealing E) (started R t (st_host st') d) (Some ''machine-id'') =
      Inl (RuntimeError ''encrypted password not found'')"
    by (simp add: get_password_def select_backend_def BACKENDS_def provider_get_def machine_id_get_def enc_path_def)
  moreover have "ho_text (st_host st') (unit_path ?h system) = Some t"
    using start_service_host[OF start] by (simp add: t_def)
  ultimately show ?thesis using dir unfolding system_def by blast
qed


definition demo_blank :: host where
  "demo_blank = demo_host\<lparr>ho_env := [''PANIC_MONITOR_CONFIG_DIR'' \<mapsto> ''/home/my conf'']\<rparr>"

theorem blank_path_loses_password_witness:
  "\<exists>st' t. install_service demo_install None False (Some ''machine-id'') False \<lparr>st_host = demo_blank, st_calls = []\<rparr> = (st', ExitCode 0)
    \<and> ho_text (st_host st') ''/home/u/.config/systemd/user/panic-monitor.service'' = Some t
    \<and> get_password demo_sealing (started unit_values t (st_host st') demo_host) (Some ''machine-id'') =
        Inl (RuntimeError ''encrypted password not found'')"
proof -
  let ?st = "\<lparr>st_host = demo_blank, st_calls = []\<rparr>"
  have dirs: "config_dir demo_blank = ''/home/my'' @ '' '' @ ''conf''" "data_dir demo_blank = ''/home/u/.local/share/panic-monitor''"
    "unit_path demo_blank False = ''/home/u/.config/systemd/user/panic-monitor.service''" "\<not> system_mode demo_blank"
    by (simp_all add: config_dir_def data_dir_def env_set_def system_mode_def demo_host_def demo_blank_def path_join_def
        unit_path_def unit_dir_def SERVICE_NAME_def)
  have plain: "plain_path ''/home/my''" "plain_path ''conf''" "plain_path ''/home/u/.local/share/panic-monitor''"
    by (code_simp, code_simp, code_simp)
  have mid: "machine_id demo_blank = Inr ''m1''"
    by (simp add: machine_id_def demo_blank_def demo_host_def py_strip_def py_space_def List.map_filter_def)
  have none: "ho_bytes demo_blank p = None" "ho_text demo_blank ''/home/u/.config/systemd/user/panic-monitor.service'' = None" for p
    by (simp_all add: demo_blank_def demo_host_def)
  have ex: "resolve_exec_start demo_blank (ie_tools demo_install) = ''/usr/bin/panic-monitor''"
    by (simp add: resolve_exec_start_def) (simp add: demo_blank_def demo_host_def)
  obtain st' where st': "install_service demo_install None False (Some ''machine-id'') False ?st = (st', ExitCode 0)"
    using demo_install_done[OF mid none(1)] none(2) dirs by auto
  have new: "ho_bytes (st_host ?st) (enc_path (st_host ?st)) = None \<or> False" "ie_typed demo_install = Some ''s3cret''"
    by (simp_all add: none)
  have other: "path_join ''/home/my'' ''password.enc'' \<notin> {enc_path demo_blank, salt_path demo_blank}"
    using dirs(1) by (simp add: enc_path_def salt_path_def path_join_def)
  have lost: "ho_bytes (st_host st') (path_join ''/home/my'' ''password.enc'') = None"
  proof (rule machine_id_installed[OF st' new], goal_cases)
    case (1 h1)
    show ?case by (rule seal_password_files[OF 1(1)]) (use other none 1(2) in auto)
  qed
  have c: "config_dir (st_host ?st) = ''/home/my'' @ '' '' @ ''conf''" "plain_path (data_dir (st_host ?st))"
    "plain_text (resolve_exec_start (st_host ?st) (ie_tools demo_install))" "CHR ''='' \<notin> set ''conf''"
    unfolding install_state.select_convs dirs ex using plain plain_demo_exec(1) by simp_all
  from blank_path_loses_password[OF reads_own c(1) plain(1,2) c(4) c(2,3) st' lost] st' dirs show ?thesis by auto
qed

section \<open>What an installation changes\<close>

definition service_call :: "bool \<Rightarrow> string list \<Rightarrow> string list" where
  "service_call system args = ''systemctl'' # (if system then [] else [''--user'']) @ args"

lemma start_service_calls:
  "start_service E system st = (st', ExitCode 0) \<longleftrightarrow>
     (\<exists>c0 c1 c2 c3. [c0, c1, c2, c3] = map (service_call system)
        [[''is-active'', ''--quiet'', SERVICE_NAME], [''daemon-reload''], [''enable'', SERVICE_NAME], [''restart'', SERVICE_NAME]]
      \<and> st' = st\<lparr>st_calls := st_calls st @ [c0, c1, c2, c3]\<rparr>
      \<and> ie_ctl E (st_calls st @ [c0]) c1 = 0 \<and> ie_ctl E (st_calls st @ [c0, c1]) c2 = 0
      \<and> ie_ctl E (st_calls st @ [c0, c1, c2]) c3 = 0)"
  by (auto simp: start_service_def systemctl_def service_call_def Let_def)

lemma on_typed_keeps:
  assumes "on_typed E h store cred = (h', r)" and "\<And>pw g q. store pw = (g, q) \<Longrightarrow> P g" and "P h"
  shows "P h'"
  using assms by (auto simp: on_typed_def split: option.splits prod.splits sum.splits py_error.splits)

lemma seal_keeps_text: "seal_password_to_disk S v h pw = (g, q) \<Longrightarrow> ho_text g = ho_text h"
  by (auto simp: seal_password_to_disk_def Let_def split: sum.splits if_splits)

lemma credential_step_keeps:
  assumes "credential_step E system rot b h = (h', r)" and "p \<noteq> cred_path h"
  shows "ho_text h' p = ho_text h p"
proof -
  have k: "ho_text h' p = ho_text h p" if "on_typed E h store c = (h', r)" "\<And>pw g q. store pw = (g, q) \<Longrightarrow> ho_text g p = ho_text h p" for store c
    using on_typed_keeps[OF that(1), of "\<lambda>g. ho_text g p = ho_text h p"] that(2) by blast
  have e: "encrypt_credential E system pw (cred_path h) h = (g, q) \<Longrightarrow> ho_text g p = ho_text h p" for pw g q
    using assms(2) by (auto simp: encrypt_credential_def split: sum.splits)
  have y: "store_keyring E h pw = (g, q) \<Longrightarrow> ho_text g p = ho_text h p" for pw g q
    by (auto simp: store_keyring_def split: if_splits)
  show ?thesis
    using assms(1) k[OF _ e] k[OF _ y] k[OF _ seal_keeps_text[THEN fun_cong]]
    by (auto simp: credential_step_def split: if_splits)
qed


text \<open>
  What an installation does, whatever backend and whatever systemd answers. An existing unit is not
  touched without a flag: the run ends with code 1 and has changed nothing. Of the text files only
  the unit and the credential of systemd-creds can change. Code 0 means that the service runs: the
  unit holds the rendered text and systemctl was called exactly to ask, reload, enable and restart,
  in this order, the last three with success.
\<close>

theorem install_is_honest:
  assumes "install_service E sys force backend rot \<lparr>st_host = h, st_calls = []\<rparr> = (st', r)"
  defines "system \<equiv> (case sys of None \<Rightarrow> system_mode h | Some b \<Rightarrow> b)"
  shows "(ho_text h (unit_path h system) \<noteq> None \<and> \<not> force \<and> \<not> rot \<longrightarrow> st' = \<lparr>st_host = h, st_calls = []\<rparr> \<and> r = ExitCode 1)
    \<and> (\<forall>p. p \<notin> {unit_path h system, cred_path h} \<longrightarrow> ho_text (st_host st') p = ho_text h p)
    \<and> (r = ExitCode 0 \<longrightarrow>
        (\<exists>cred. ho_text (st_host st') (unit_path h system) = Some (render_unit (resolve_exec_start h (ie_tools E))
          (config_dir h) (data_dir h) (choose_backend E system backend) cred system))
        \<and> (\<exists>c0 c1 c2 c3. [c0, c1, c2, c3] = map (service_call system)
              [[''is-active'', ''--quiet'', SERVICE_NAME], [''daemon-reload''], [''enable'', SERVICE_NAME], [''restart'', SERVICE_NAME]]
            \<and> st_calls st' = [c0, c1, c2, c3]
            \<and> ie_ctl E [c0] c1 = 0 \<and> ie_ctl E [c0, c1] c2 = 0 \<and> ie_ctl E [c0, c1, c2] c3 = 0))"
proof (intro conjI impI)
  let ?st = "\<lparr>st_host = h, st_calls = []\<rparr>"
  let ?b = "choose_backend E system backend" and ?up = "unit_path h system"
  have eq: "(if ho_text h ?up \<noteq> None \<and> \<not> force \<and> \<not> rot then (?st, ExitCode 1)
      else case credential_step E system rot ?b h of
        (h1, Inl out) \<Rightarrow> (\<lparr>st_host = h1, st_calls = []\<rparr>, out)
      | (h1, Inr cred) \<Rightarrow>
          if \<not> ie_write_ok E ?up then (\<lparr>st_host = h1, st_calls = []\<rparr>, Raises (OSError ?up))
          else start_service E system \<lparr>st_host = h1\<lparr>ho_text := (ho_text h1)(?up \<mapsto>
            render_unit (resolve_exec_start h (ie_tools E)) (config_dir h) (data_dir h) ?b cred system)\<rparr>, st_calls = []\<rparr>) = (st', r)"
    using assms(1) by (simp only: install_service_def Let_def system_def install_state.simps)
  show "st' = ?st" "r = ExitCode 1" if "ho_text h ?up \<noteq> None \<and> \<not> force \<and> \<not> rot"
    using eq that by auto
  show "\<forall>p. p \<notin> {?up, cred_path h} \<longrightarrow> ho_text (st_host st') p = ho_text h p"
  proof (cases "credential_step E system rot ?b h")
    case (Pair h1 q)
    with eq credential_step_keeps[OF Pair] show ?thesis
      by (auto split: if_splits sum.splits dest: start_service_host)
  qed
  assume r: "r = ExitCode 0"
  obtain h1 cred where start: "start_service E system (?st\<lparr>st_host := h1\<lparr>ho_text := (ho_text h1)(?up \<mapsto>
      render_unit (resolve_exec_start h (ie_tools E)) (config_dir h) (data_dir h) ?b cred system)\<rparr>\<rparr>) = (st', ExitCode 0)"
    by (rule install_done[OF assms(1)[unfolded r], unfolded install_state.select_convs, folded system_def])
  from start_service_host[OF start] show "\<exists>cred. ho_text (st_host st') ?up = Some (render_unit (resolve_exec_start h (ie_tools E))
      (config_dir h) (data_dir h) ?b cred system)" by auto
  from start show "\<exists>c0 c1 c2 c3. [c0, c1, c2, c3] = map (service_call system)
              [[''is-active'', ''--quiet'', SERVICE_NAME], [''daemon-reload''], [''enable'', SERVICE_NAME], [''restart'', SERVICE_NAME]]
            \<and> st_calls st' = [c0, c1, c2, c3]
            \<and> ie_ctl E [c0] c1 = 0 \<and> ie_ctl E [c0, c1] c2 = 0 \<and> ie_ctl E [c0, c1, c2] c3 = 0"
    unfolding start_service_calls by auto
qed

theorem install_is_honest_witness:
  "\<exists>st' cs. install_service demo_install None False (Some ''machine-id'') False \<lparr>st_host = demo_host, st_calls = []\<rparr> = (st', ExitCode 0)
    \<and> st_calls st' = cs @ [[''systemctl'', ''--user'', ''restart'', ''panic-monitor.service'']]
    \<and> ho_text (st_host st') ''/etc/machine-id'' = Some ''m1''"
proof -
  let ?st = "\<lparr>st_host = demo_host, st_calls = []\<rparr>"
  have u: "unit_path demo_host False = ''/home/u/.config/systemd/user/panic-monitor.service''" "\<not> system_mode demo_host"
    "cred_path demo_host = ''/home/u/.config/panic-monitor/password.cred''"
    by (simp_all add: env_set_def system_mode_def demo_host_def path_join_def unit_path_def unit_dir_def SERVICE_NAME_def
        cred_path_def config_dir_def)
  have mid: "machine_id demo_host = Inr ''m1''"
    by (simp add: machine_id_def demo_host_def py_strip_def py_space_def List.map_filter_def)
  have none: "ho_bytes demo_host p = None" "ho_text demo_host ''/home/u/.config/systemd/user/panic-monitor.service'' = None"
    "ho_text demo_host ''/etc/machine-id'' = Some ''m1''" for p
    by (simp_all add: demo_host_def)
  obtain st' where st': "install_service demo_install None False (Some ''machine-id'') False ?st = (st', ExitCode 0)"
    using demo_install_done[OF mid none(1)] none(2) u by auto
  from install_is_honest[OF st'] u none(3) show ?thesis
    by (intro exI[of _ st']) (auto simp: st' service_call_def SERVICE_NAME_def)
qed

text \<open>Removing the service leaves everything but the unit as it is.\<close>

lemma uninstall_keeps:
  assumes "uninstall_service E (Some system) st = (st', r)"
  shows "r = ExitCode 0" "ho_text (st_host st') = (ho_text (st_host st))(unit_path (st_host st) system := None)"
    "ho_bytes (st_host st') = ho_bytes (st_host st)" "ho_keyring (st_host st') = ho_keyring (st_host st)"
  using assms by (auto simp: uninstall_service_def systemctl_def Let_def split: prod.splits)

text \<open>
  A system service makes its control socket in \<open>/run/panic-monitor\<close>. With \<open>ProtectSystem=strict\<close> only the
  paths of \<open>ReadWritePaths\<close> can be written, and the socket's directory is below none of them.
\<close>

definition below :: "string \<Rightarrow> string \<Rightarrow> bool" where
  "below d p \<longleftrightarrow> take (Suc (length d)) (p @ ''/'') = d @ ''/''"

lemma socket_dir_not_writable:
  assumes "reads_units R" and "system_mode h" and "env_set h ''PANIC_MONITOR_CONFIG_DIR'' = None"
    and "env_set h ''PANIC_MONITOR_DATA_DIR'' = None" and "plain_text exec"
    and t: "t = render_unit exec (config_dir h) (data_dir h) ''machine-id'' None True"
  shows "R ''ReadWritePaths'' t = [[''/etc/panic-monitor'', ''/var/lib/panic-monitor'']]"
    and "''ProtectSystem=strict'' \<in> set (join_lines (lines_of t))"
    and "w \<in> set (concat (R ''ReadWritePaths'' t)) \<Longrightarrow> \<not> below w (runtime_dir h)"
proof -
  have dirs: "config_dir h = ''/etc/panic-monitor''" "data_dir h = ''/var/lib/panic-monitor''" "runtime_dir h = ''/run/panic-monitor''"
    using assms(2-4) by (simp_all add: config_dir_def data_dir_def runtime_dir_def path_join_def)
  have plain: "plain_path (config_dir h)" "plain_path (data_dir h)" unfolding dirs by (code_simp, code_simp)
  have none: "\<forall>f \<in> set_option None. plain_path f" by simp
  note k = unit_keys(3)[OF assms(5) plain plain_machine_id none, of True, folded t]
  have "list_all (list_all (list_all plain_char)) [[config_dir h, data_dir h]]"
    using plain by (simp add: plain_path_def)
  then show rw: "R ''ReadWritePaths'' t = [[''/etc/panic-monitor'', ''/var/lib/panic-monitor'']]"
    using assms(1) k unfolding reads_units_def dirs by metis
  show "w \<in> set (concat (R ''ReadWritePaths'' t)) \<Longrightarrow> \<not> below w (runtime_dir h)"
    by (auto simp: rw dirs below_def)
  have "line_text (config_dir h)" "line_text (data_dir h)" "line_text ''machine-id''" "\<forall>f \<in> set_option None. line_text f"
    using plain plain_path_line plain_machine_id by simp_all
  from unit_joined[OF plain_text_line[OF assms(5)] this, of True, folded t]
  show "''ProtectSystem=strict'' \<in> set (join_lines (lines_of t))" by (simp add: UNIT_LIMITS_def)
qed

end
