(* ===== verification/Migrate.thy ===== *)
theory Migrate
  imports Host_Env
begin

text \<open>
  The copying of state files from their old places (service_install.py, \<open>--migrate\<close>). The file system
  maps a path to the contents and the mode of a regular file; how a path resolves and how each copy
  ends are arguments. Directories are left out: a directory in the place of a file is not modelled.
\<close>

datatype contents = KeyFile bytes | MetaFile meta_file | OtherFile bytes

type_synonym files = "string \<rightharpoonup> contents \<times> int"

definition CONFIG_FILES :: "string list" where
  "CONFIG_FILES = [''secret.key'', ''secret.meta'', ''peers.json'', ''log.jsonl'']"

definition DATA_FILES :: "string list" where
  "DATA_FILES = [''history.db'', ''logstore.db'']"

text \<open>The old places, as directory and name: the working directory, /etc, /var/lib.\<close>

definition LEGACY_PATHS :: "string \<Rightarrow> (string \<times> string) list" where
  "LEGACY_PATHS cwd =
     [(cwd, ''secret.key''), (cwd, ''secret.meta''), (cwd, ''peers.json''), (cwd, ''log.jsonl''),
      (cwd, ''history.db''), (cwd, ''logstore.db''),
      (''/etc/panic-monitor'', ''secret.key''), (''/etc/panic-monitor'', ''secret.meta''),
      (''/etc/panic-monitor'', ''peers.json''), (''/etc/panic-monitor'', ''log.jsonl''),
      (''/var/lib/panic-monitor'', ''history.db''), (''/var/lib/panic-monitor'', ''logstore.db'')]"

text \<open>\<open>d in p.parents or p == d\<close> for resolved paths.\<close>

definition inside :: "string \<Rightarrow> string \<Rightarrow> bool" where
  "inside d p \<longleftrightarrow> p = d \<or> (if d = ''/'' then p \<noteq> ''/'' else take (Suc (length d)) p = d @ ''/'')"

definition is_legacy_candidate :: "host \<Rightarrow> (string \<Rightarrow> string) \<Rightarrow> files \<Rightarrow> string \<Rightarrow> bool" where
  "is_legacy_candidate h re fs p \<longleftrightarrow>
     fs p \<noteq> None \<and> \<not> inside (re (config_dir h)) (re p) \<and> \<not> inside (re (data_dir h)) (re p)"

definition destination :: "host \<Rightarrow> string \<Rightarrow> string option" where
  "destination h name =
     (if name \<in> set CONFIG_FILES then Some (path_join (config_dir h) name)
      else if name \<in> set DATA_FILES then Some (path_join (data_dir h) name)
      else None)"

text \<open>A copy succeeds, fails and may leave a part at the destination, or only its chmod fails.\<close>

datatype copy_end = Copied | CopyFailed "(contents \<times> int) option" | ChmodFailed

record migration =
  mi_files :: files
  mi_moved :: "(string \<times> string) list"
  mi_skipped :: "string list"

definition copy_step ::
  "(string \<Rightarrow> copy_end) \<Rightarrow> string \<Rightarrow> string \<Rightarrow> string \<Rightarrow> contents \<times> int \<Rightarrow> migration \<Rightarrow> migration" where
  "copy_step cp name src dst f m =
     (case cp src of
        CopyFailed left \<Rightarrow>
          m\<lparr>mi_files := (case left of None \<Rightarrow> mi_files m | Some g \<Rightarrow> (mi_files m)(dst \<mapsto> g)),
            mi_skipped := mi_skipped m @ [src]\<rparr>
      | e \<Rightarrow>
          if name = ''secret.key'' then
            (if e = Copied
             then m\<lparr>mi_files := (mi_files m)(dst \<mapsto> (fst f, 384)), mi_moved := mi_moved m @ [(src, dst)]\<rparr>
             else m\<lparr>mi_files := (mi_files m)(dst \<mapsto> f), mi_skipped := mi_skipped m @ [src]\<rparr>)
          else m\<lparr>mi_files := (mi_files m)(dst \<mapsto> f), mi_moved := mi_moved m @ [(src, dst)]\<rparr>)"

definition migrate_step ::
  "host \<Rightarrow> (string \<Rightarrow> string) \<Rightarrow> (string \<Rightarrow> copy_end) \<Rightarrow> migration \<Rightarrow> string \<times> string \<Rightarrow> migration" where
  "migrate_step h re cp m dn =
     (case dn of (dir, name) \<Rightarrow>
        let src = path_join dir name in
        if \<not> is_legacy_candidate h re (mi_files m) src then m
        else case (destination h name, mi_files m src) of
          (Some dst, Some f) \<Rightarrow>
            if mi_files m dst \<noteq> None then m\<lparr>mi_skipped := mi_skipped m @ [src]\<rparr>
            else copy_step cp name src dst f m
        | _ \<Rightarrow> m)"

definition migrate_legacy_state ::
  "host \<Rightarrow> (string \<Rightarrow> string) \<Rightarrow> (string \<Rightarrow> copy_end) \<Rightarrow> string \<Rightarrow> files \<Rightarrow> migration" where
  "migrate_legacy_state h re cp cwd fs =
     foldl (migrate_step h re cp) \<lparr>mi_files = fs, mi_moved = [], mi_skipped = []\<rparr> (LEGACY_PATHS cwd)"

section \<open>What a migration keeps\<close>

lemma names_plain: "\<forall>n \<in> set (CONFIG_FILES @ DATA_FILES). CHR ''/'' \<notin> set n"
  by code_simp

lemma destination_name:
  assumes "destination h n = Some p"
  shows "\<exists>root. p = path_join root n" and "CHR ''/'' \<notin> set n"
proof -
  show "\<exists>root. p = path_join root n" using assms unfolding destination_def by (metis option.distinct(1) option.inject)
  have "n \<in> set (CONFIG_FILES @ DATA_FILES)" using assms unfolding destination_def by (metis Un_iff option.distinct(1) set_append)
  then show "CHR ''/'' \<notin> set n" using names_plain by blast
qed

lemma path_join_name:
  assumes "path_join d n = path_join d' n'" "CHR ''/'' \<notin> set n" "CHR ''/'' \<notin> set n'"
  shows "n = n'"
proof -
  have "takeWhile (\<lambda>c. c \<noteq> CHR ''/'') (rev (path_join d n)) = rev n" if "CHR ''/'' \<notin> set n" for d n
    using that by (auto simp: path_join_def takeWhile_tail)
  with assms have "rev n = rev n'" by metis
  then show ?thesis by simp
qed

text \<open>What every step keeps: old files stay, new ones are at destinations.\<close>

definition only_adds :: "host \<Rightarrow> files \<Rightarrow> files \<Rightarrow> bool" where
  "only_adds h fs fs' \<longleftrightarrow>
     (\<forall>p f. fs p = Some f \<longrightarrow> fs' p = Some f) \<and> (\<forall>p. fs p = None \<longrightarrow> fs' p \<noteq> None \<longrightarrow> (\<exists>n. destination h n = Some p))"

lemma only_adds_refl: "only_adds h fs fs"
  by (simp add: only_adds_def)

lemma only_adds_keeps: "only_adds h fs fs' \<Longrightarrow> fs p = Some f \<Longrightarrow> fs' p = Some f"
  unfolding only_adds_def by blast

lemma only_adds_new: "only_adds h fs fs' \<Longrightarrow> fs p = None \<Longrightarrow> fs' p \<noteq> None \<Longrightarrow> \<exists>n. destination h n = Some p"
  unfolding only_adds_def by blast

lemma only_adds_some: "only_adds h fs fs' \<Longrightarrow> fs p \<noteq> None \<Longrightarrow> fs' p \<noteq> None"
  using only_adds_keeps by fastforce

lemma only_adds_at:
  assumes "destination h n = Some dst" and "fs dst = None" and "\<And>p. p \<noteq> dst \<Longrightarrow> fs' p = fs p"
  shows "only_adds h fs fs'"
  unfolding only_adds_def
proof (intro conjI allI impI)
  fix p f assume "fs p = Some f"
  then show "fs' p = Some f" using assms(2,3) by (cases "p = dst") auto
next
  fix p assume "fs p = None" "fs' p \<noteq> None"
  then show "\<exists>n. destination h n = Some p" using assms by (cases "p = dst") auto
qed

lemma only_adds_trans:
  assumes "only_adds h fs fs'" and "only_adds h fs' fs''"
  shows "only_adds h fs fs''"
  unfolding only_adds_def
proof (intro conjI allI impI)
  fix p f assume "fs p = Some f"
  then show "fs'' p = Some f" using only_adds_keeps assms by blast
next
  fix p assume "fs p = None" "fs'' p \<noteq> None"
  then show "\<exists>n. destination h n = Some p"
    using only_adds_new[OF assms(1)] only_adds_new[OF assms(2)] by (cases "fs' p") blast+
qed

lemma copy_step_files: "p \<noteq> dst \<Longrightarrow> mi_files (copy_step cp n src dst f m) p = mi_files m p"
  by (cases "cp src") (simp_all add: copy_step_def split: option.splits)

lemma migrate_step_adds: "only_adds h (mi_files m) (mi_files (migrate_step h re cp m dn))"
proof (cases dn)
  case (Pair d n)
  show ?thesis
  proof (cases "is_legacy_candidate h re (mi_files m) (path_join d n) \<and> destination h n \<noteq> None \<and> mi_files m (the (destination h n)) = None")
    case True
    then obtain dst f where "destination h n = Some dst" "mi_files m (path_join d n) = Some f" "mi_files m dst = None"
      by (auto simp: is_legacy_candidate_def)
    with True have "migrate_step h re cp m dn = copy_step cp n (path_join d n) dst f m"
      by (simp add: migrate_step_def Pair Let_def)
    then show ?thesis
      using \<open>destination h n = Some dst\<close> \<open>mi_files m dst = None\<close> by (simp add: only_adds_at copy_step_files)
  next
    case False
    then have "mi_files (migrate_step h re cp m dn) = mi_files m"
      by (auto simp: migrate_step_def Pair Let_def split: option.splits)
    then show ?thesis by (simp add: only_adds_refl)
  qed
qed

lemma migrate_steps_add: "only_adds h (mi_files m) (mi_files (foldl (migrate_step h re cp) m ps))"
proof (induction ps arbitrary: m)
  case (Cons p ps)
  then show ?case using only_adds_trans[OF migrate_step_adds Cons.IH] by simp
qed (simp add: only_adds_refl)

text \<open>After its step, a candidate whose copy does not fail is there at its destination.\<close>

lemma migrate_step_there:
  assumes "is_legacy_candidate h re (mi_files m) (path_join dir n)" and "destination h n = Some dst"
    and "\<And>p g. cp p \<noteq> CopyFailed g"
  shows "mi_files (migrate_step h re cp m (dir, n)) dst \<noteq> None"
  using assms
  by (auto simp: migrate_step_def copy_step_def Let_def is_legacy_candidate_def split: copy_end.splits)

lemma migrate_there:
  assumes "(dir, n) \<in> set ps" and "mi_files m (path_join dir n) \<noteq> None"
    and "\<not> inside (re (config_dir h)) (re (path_join dir n))" "\<not> inside (re (data_dir h)) (re (path_join dir n))"
    and "destination h n = Some dst" and "\<And>p g. cp p \<noteq> CopyFailed g"
  shows "mi_files (foldl (migrate_step h re cp) m ps) dst \<noteq> None"
  using assms(1,2)
proof (induction ps arbitrary: m)
  case (Cons x ps)
  let ?m = "migrate_step h re cp m x"
  show ?case
  proof (cases "x = (dir, n)")
    case True
    have "is_legacy_candidate h re (mi_files m) (path_join dir n)" using Cons.prems(2) assms(3,4) by (simp add: is_legacy_candidate_def)
    from migrate_step_there[OF this assms(5,6)] True have "mi_files ?m dst \<noteq> None" by simp
    then show ?thesis using only_adds_some[OF migrate_steps_add[of h ?m re cp ps]] by simp
  next
    case False
    then have "(dir, n) \<in> set ps" using Cons.prems(1) by auto
    moreover have "mi_files ?m (path_join dir n) \<noteq> None" using Cons.prems(2) only_adds_some[OF migrate_step_adds] by blast
    ultimately show ?thesis using Cons.IH by simp
  qed
qed simp

lemma legacy_names: "(d, n) \<in> set (LEGACY_PATHS cwd) \<Longrightarrow> \<exists>dst. destination h n = Some dst"
  by (auto simp: LEGACY_PATHS_def destination_def CONFIG_FILES_def DATA_FILES_def)

lemma migrate_settled:
  assumes "\<And>d n. (d, n) \<in> set ps \<Longrightarrow> is_legacy_candidate h re (mi_files m) (path_join d n)
      \<Longrightarrow> \<exists>dst. destination h n = Some dst \<and> mi_files m dst \<noteq> None"
  shows "mi_files (foldl (migrate_step h re cp) m ps) = mi_files m \<and> mi_moved (foldl (migrate_step h re cp) m ps) = mi_moved m"
  using assms
proof (induction ps arbitrary: m)
  case (Cons x ps)
  obtain d n where x: "x = (d, n)" by (cases x)
  have same: "mi_files (migrate_step h re cp m x) = mi_files m" "mi_moved (migrate_step h re cp m x) = mi_moved m"
    using Cons.prems[of d n] by (auto simp: x migrate_step_def Let_def split: option.splits)
  have "mi_files (foldl (migrate_step h re cp) (migrate_step h re cp m x) ps) = mi_files (migrate_step h re cp m x)
    \<and> mi_moved (foldl (migrate_step h re cp) (migrate_step h re cp m x) ps) = mi_moved (migrate_step h re cp m x)"
  proof (rule Cons.IH)
    fix e k assume "(e, k) \<in> set ps" "is_legacy_candidate h re (mi_files (migrate_step h re cp m x)) (path_join e k)"
    then show "\<exists>dst. destination h k = Some dst \<and> mi_files (migrate_step h re cp m x) dst \<noteq> None"
      using Cons.prems[of e k] by (simp add: same)
  qed
  with same show ?case by simp
qed simp

text \<open>
  C32: A migration never overwrites or removes a file, whatever its copies do: old files keep their
  contents and mode, new ones are the destinations. When no copy fails, a second migration
  from the same directory finds every destination taken and changes nothing.
\<close>

theorem migrate_is_safe:
  assumes "m = migrate_legacy_state h re cp cwd fs"
  shows "only_adds h fs (mi_files m)
    \<and> ((\<forall>p g. cp p \<noteq> CopyFailed g) \<longrightarrow>
        mi_files (migrate_legacy_state h re cp' cwd (mi_files m)) = mi_files m
        \<and> mi_moved (migrate_legacy_state h re cp' cwd (mi_files m)) = [])"
proof (intro conjI impI)
  let ?m0 = "\<lparr>mi_files = fs, mi_moved = [], mi_skipped = []\<rparr>"
  show adds: "only_adds h fs (mi_files m)"
    using migrate_steps_add[of h ?m0 re cp "LEGACY_PATHS cwd"] by (simp add: assms migrate_legacy_state_def)
  assume ok: "\<forall>p g. cp p \<noteq> CopyFailed g"
  have settled: "\<exists>dst. destination h n = Some dst \<and> mi_files m dst \<noteq> None"
    if l: "(d, n) \<in> set (LEGACY_PATHS cwd)" and c: "is_legacy_candidate h re (mi_files m) (path_join d n)" for d n
  proof -
    obtain dst where dst: "destination h n = Some dst" using legacy_names[OF l] by blast
    have "mi_files m dst \<noteq> None"
    proof (cases "fs (path_join d n)")
      case None
      then obtain n' where n': "destination h n' = Some (path_join d n)"
        using only_adds_new[OF adds] c by (auto simp: is_legacy_candidate_def)
      then obtain root where "path_join d n = path_join root n'" using destination_name(1) by blast
      then have "n = n'" using path_join_name destination_name(2)[OF dst] destination_name(2)[OF n'] by blast
      with n' dst c show ?thesis by (simp add: is_legacy_candidate_def)
    next
      case (Some f)
      with migrate_there[OF l, where m = ?m0 and h = h and re = re and dst = dst and cp = cp] c dst ok show ?thesis
        by (simp add: assms migrate_legacy_state_def is_legacy_candidate_def)
    qed
    with dst show ?thesis by blast
  qed
  from migrate_settled[of "LEGACY_PATHS cwd" h re "\<lparr>mi_files = mi_files m, mi_moved = [], mi_skipped = []\<rparr>" cp'] settled
  show "mi_files (migrate_legacy_state h re cp' cwd (mi_files m)) = mi_files m"
    "mi_moved (migrate_legacy_state h re cp' cwd (mi_files m)) = []"
    by (simp_all add: migrate_legacy_state_def)
qed


definition demo_legacy_files :: files where
  "demo_legacy_files = [''/w/secret.key'' \<mapsto> (KeyFile demo_seed, 420), ''/etc/panic-monitor/secret.key'' \<mapsto> (OtherFile [], 384)]"

theorem migrate_is_safe_witness:
  "mi_files (migrate_legacy_state demo_host (\<lambda>p. p) (\<lambda>_. Copied) ''/w'' demo_legacy_files) ''/w/secret.key'' = Some (KeyFile demo_seed, 420)
   \<and> mi_moved (migrate_legacy_state demo_host (\<lambda>p. p) (\<lambda>_. Copied) ''/w''
       (mi_files (migrate_legacy_state demo_host (\<lambda>p. p) (\<lambda>_. Copied) ''/w'' demo_legacy_files))) = []"
proof -
  have "demo_legacy_files ''/w/secret.key'' = Some (KeyFile demo_seed, 420)" by (simp add: demo_legacy_files_def)
  with migrate_is_safe[OF refl, of demo_host demo_legacy_files "\<lambda>p. p" "\<lambda>_. Copied" "''/w''" "\<lambda>_. Copied"]
  show ?thesis using only_adds_keeps by blast
qed

section \<open>The first old file wins\<close>

fun pick :: "host \<Rightarrow> (string \<Rightarrow> string) \<Rightarrow> files \<Rightarrow> string \<Rightarrow> (string \<times> string) list \<Rightarrow> (contents \<times> int) option" where
  "pick h re fs n [] = None"
| "pick h re fs n ((d, k) # ps) =
     (if k = n \<and> is_legacy_candidate h re fs (path_join d k)
      then map_option (\<lambda>f. if n = ''secret.key'' then (fst f, 384) else f) (fs (path_join d k))
      else pick h re fs n ps)"

lemma pick_cong: "(\<And>d. fs (path_join d n) = fs' (path_join d n)) \<Longrightarrow> pick h re fs n ps = pick h re fs' n ps"
  by (induction ps) (auto simp: is_legacy_candidate_def)

lemma destination_inj:
  assumes "destination h n = Some p" "destination h k = Some (path_join d n)" "CHR ''/'' \<notin> set n"
  shows "k = n"
  using destination_name[OF assms(2)] path_join_name assms(3) by blast

lemma step_other_name:
  assumes "destination h n = Some dst" and "k \<noteq> n"
  shows "mi_files (migrate_step h re cp m (d, k)) (path_join e n) = mi_files m (path_join e n)"
proof (cases "destination h k")
  case None
  then show ?thesis by (auto simp: migrate_step_def Let_def split: option.splits)
next
  case (Some p)
  have "p \<noteq> path_join e n" using destination_inj[OF assms(1), of k e] Some assms(2) destination_name(2)[OF assms(1)] by blast
  then show ?thesis
    using copy_step_files[of "path_join e n" p] by (auto simp: migrate_step_def Let_def Some split: option.splits)
qed

lemma migrate_first_wins:
  assumes "destination h n = Some dst" and "\<And>p. cp p = Copied"
  shows "mi_files (foldl (migrate_step h re cp) m ps) dst =
    (case mi_files m dst of Some f \<Rightarrow> Some f | None \<Rightarrow> pick h re (mi_files m) n ps)"
proof (induction ps arbitrary: m)
  case (Cons x ps)
  obtain d k where x: "x = (d, k)" by (cases x)
  obtain root where root: "dst = path_join root n" using destination_name(1)[OF assms(1)] by blast
  let ?m = "migrate_step h re cp m x"
  have IH: "mi_files (foldl (migrate_step h re cp) m (x # ps)) dst =
      (case mi_files ?m dst of Some f \<Rightarrow> Some f | None \<Rightarrow> pick h re (mi_files ?m) n ps)"
    using Cons.IH by simp
  show ?case
  proof (cases "k = n \<and> is_legacy_candidate h re (mi_files m) (path_join d k)")
    case False
    have same: "mi_files ?m (path_join e n) = mi_files m (path_join e n)" for e
      using False step_other_name[OF assms(1), of k re cp m d e] by (cases "k = n") (simp_all add: x migrate_step_def Let_def)
    have "mi_files ?m dst = mi_files m dst" using same[of root] unfolding root .
    moreover have "pick h re (mi_files ?m) n ps = pick h re (mi_files m) n ps" by (rule pick_cong) (rule same)
    moreover have "pick h re (mi_files m) n (x # ps) = pick h re (mi_files m) n ps" unfolding x pick.simps using False by (rule if_not_P)
    ultimately show ?thesis using IH by (cases "mi_files m dst") simp_all
  next
    case True
    then obtain f where f: "mi_files m (path_join d n) = Some f" by (auto simp: is_legacy_candidate_def)
    show ?thesis
    proof (cases "mi_files m dst")
      case None
      have step: "?m = copy_step cp n (path_join d n) dst f m"
        using True[THEN conjunct1] True[THEN conjunct2] None f by (simp add: x migrate_step_def Let_def assms(1))
      have "mi_files ?m dst = Some (if n = ''secret.key'' then (fst f, 384) else f)"
        unfolding step by (cases "n = ''secret.key''") (simp_all add: assms(2) copy_step_def)
      then show ?thesis using IH True[THEN conjunct1] True[THEN conjunct2] None f by (simp add: x)
    next
      case (Some g)
      then have "mi_files ?m dst = Some g" by (rule only_adds_keeps[OF migrate_step_adds])
      then show ?thesis using IH Some by simp
    qed
  qed
qed (simp split: option.splits)

section \<open>Two identities in one\<close>

definition identity_in :: "host \<Rightarrow> files \<Rightarrow> id_dir" where
  "identity_in h fs =
     \<lparr>id_key = (case fs (path_join (config_dir h) ''secret.key'') of Some (KeyFile b, _) \<Rightarrow> Some b | _ \<Rightarrow> None),
      id_metafile = (case fs (path_join (config_dir h) ''secret.meta'') of Some (MetaFile f, _) \<Rightarrow> Some f | _ \<Rightarrow> None)\<rparr>"

text \<open>
  The files are taken one by one, so a migration can put together an identity that is none. When
  the working directory holds an unsealed key and /etc a sealed identity, the key of the first and the
  metadata of the second are copied, with success. The result counts as sealed, and no password
  opens it, although the identity in /etc opens with its own.
\<close>

theorem migrate_mixes_identities:
  assumes "m = migrate_legacy_state h re cp cwd fs" and "\<And>p. cp p = Copied"
    and "fs (path_join cwd ''secret.key'') = Some (KeyFile raw, mode)" and "fs (path_join cwd ''secret.meta'') = None"
    and "is_legacy_candidate h re fs (path_join cwd ''secret.key'')"
    and "fs ''/etc/panic-monitor/secret.meta'' = Some (MetaFile meta, mode')"
    and "is_legacy_candidate h re fs ''/etc/panic-monitor/secret.meta''"
    and "fs (path_join (config_dir h) ''secret.key'') = None" and "fs (path_join (config_dir h) ''secret.meta'') = None"
    and "\<And>k. sl_decrypt S k raw = None"
  shows "is_sealed (identity_in h (mi_files m)) \<and> unlock_identity S pw (identity_in h (mi_files m)) \<noteq> Inr r"
proof -
  have d: "destination h ''secret.key'' = Some (path_join (config_dir h) ''secret.key'')"
    "destination h ''secret.meta'' = Some (path_join (config_dir h) ''secret.meta'')"
    by (simp_all add: destination_def CONFIG_FILES_def)
  have meta: "path_join ''/etc/panic-monitor'' ''secret.meta'' = ''/etc/panic-monitor/secret.meta''" by (simp add: path_join_def)
  have no: "\<not> is_legacy_candidate h re fs (path_join cwd ''secret.meta'')" using assms(4) by (simp add: is_legacy_candidate_def)
  have "mi_files m (path_join (config_dir h) ''secret.key'') = Some (KeyFile raw, 384)"
    using migrate_first_wins[OF d(1), of cp re "\<lparr>mi_files = fs, mi_moved = [], mi_skipped = []\<rparr>" "LEGACY_PATHS cwd"] assms(2,3,5,8)
    by (simp add: assms(1) migrate_legacy_state_def LEGACY_PATHS_def)
  moreover have "mi_files m (path_join (config_dir h) ''secret.meta'') = Some (MetaFile meta, mode')"
    using migrate_first_wins[OF d(2), of cp re "\<lparr>mi_files = fs, mi_moved = [], mi_skipped = []\<rparr>" "LEGACY_PATHS cwd"] assms(2,6,7,9) no
    by (simp add: assms(1) migrate_legacy_state_def LEGACY_PATHS_def meta)
  ultimately have id: "identity_in h (mi_files m) = \<lparr>id_key = Some raw, id_metafile = Some meta\<rparr>" by (simp add: identity_in_def)
  then have "is_sealed (identity_in h (mi_files m))" by (simp add: is_sealed_def)
  moreover have "unlock_identity S pw (identity_in h (mi_files m)) \<noteq> Inr r"
    using assms(10) by (auto simp: id unlock_identity_def rbind_Inr_conv)
  ultimately show ?thesis ..
qed


definition demo_split :: files where
  "demo_split = [''/w/secret.key'' \<mapsto> (KeyFile demo_seed, 420),
     ''/etc/panic-monitor/secret.key'' \<mapsto> (KeyFile (the (id_key demo_id_dir)), 384),
     ''/etc/panic-monitor/secret.meta'' \<mapsto> (MetaFile (MetaOk demo_meta), 384)]"

theorem migrate_mixes_identities_witness:
  "unlock_identity demo_sealing ''correct horse'' demo_id_dir = Inr (demo_seed, demo_meta)
    \<and> unlock_identity demo_sealing pw (identity_in demo_host
        (mi_files (migrate_legacy_state demo_host (\<lambda>p. p) (\<lambda>_. Copied) ''/w'' demo_split))) \<noteq> Inr r"
proof -
  have cfg: "config_dir demo_host = ''/home/u/.config/panic-monitor''" "data_dir demo_host = ''/home/u/.local/share/panic-monitor''"
    by (simp_all add: config_dir_def data_dir_def env_set_def system_mode_def demo_host_def path_join_def)
  have w: "path_join ''/w'' ''secret.key'' = ''/w/secret.key''" "path_join ''/w'' ''secret.meta'' = ''/w/secret.meta''"
    "path_join (config_dir demo_host) ''secret.key'' = ''/home/u/.config/panic-monitor/secret.key''"
    "path_join (config_dir demo_host) ''secret.meta'' = ''/home/u/.config/panic-monitor/secret.meta''"
    by (simp_all add: cfg path_join_def)
  have a: "demo_split (path_join ''/w'' ''secret.key'') = Some (KeyFile demo_seed, 420)" "demo_split (path_join ''/w'' ''secret.meta'') = None"
    "demo_split ''/etc/panic-monitor/secret.meta'' = Some (MetaFile (MetaOk demo_meta), 384)"
    "demo_split (path_join (config_dir demo_host) ''secret.key'') = None" "demo_split (path_join (config_dir demo_host) ''secret.meta'') = None"
    unfolding w by (simp_all add: demo_split_def)
  have c: "is_legacy_candidate demo_host (\<lambda>p. p) demo_split (path_join ''/w'' ''secret.key'')"
    "is_legacy_candidate demo_host (\<lambda>p. p) demo_split ''/etc/panic-monitor/secret.meta''"
    using a(1,3) unfolding w(1) by (simp_all add: is_legacy_candidate_def inside_def cfg)
  have raw: "sl_decrypt demo_sealing k demo_seed = None" for k
  proof -
    have seven: "(7::8 word) \<noteq> 1" "(7::8 word) \<noteq> 0" by code_simp+
    have "self_delimited k \<noteq> []" "hd (self_delimited k) = 0 \<or> hd (self_delimited k) = 1"
      by (cases k; simp add: self_delimited_def)+
    moreover have "hd demo_seed = 7" by (simp add: demo_seed_def)
    ultimately have "\<not> prefix (self_delimited k) demo_seed" using seven unfolding prefix_def by (metis hd_append2)
    then show ?thesis by (simp add: demo_sealing_def)
  qed
  from migrate_mixes_identities[OF refl _ a(1,2) c(1) a(3) c(2) a(4,5) raw, of "\<lambda>_. Copied" pw r] demo_unlock
  show ?thesis by simp
qed

end
