(* ===== verification/Lifecycle.thy ===== *)
theory Lifecycle
  imports Controlsock Stats Webapp
begin

text \<open>
  Starting and stopping (engine.py: \<open>init\<close>, \<open>shutdown\<close>; main.py: the run modes; the servers' \<open>start\<close> and
  \<open>stop\<close>). The engine is the one of the other theories; around
  it the runtime holds what start-up opens: the scheduler with its jobs, the three local servers,
  the two databases and the background work. How each external step ends is an argument.
\<close>

section \<open>State\<close>

text \<open>A periodic job: its id and its interval in seconds.\<close>

type_synonym job = "string \<times> int"

record runtime =
  rt_engine :: engine
  rt_jobs :: "job list"
  rt_scheduler :: bool
  rt_status :: bool
  rt_control :: bool
  rt_web :: bool
  rt_history_open :: bool
  rt_logstore_open :: bool
  rt_background :: nat
  rt_teardowns :: nat
  rt_shells :: nat

record run_config =
  rc_role :: node_role
  rc_push_to :: "string list"
  rc_interval :: int
  rc_stats_interval :: int
  rc_status_bind :: string
  rc_dashboard_port :: int

text \<open>
  How the outside answers at start-up: the clock, the log store's database, the id of the network
  node (\<open>None\<close> when it cannot be made), whether the status server and the control socket can bind, and
  whether the web dashboard starts without an exception.
\<close>

record init_env =
  ie_now :: instant
  ie_database :: old_db
  ie_iroh :: "node_id option"
  ie_status_binds :: bool
  ie_runtime_dir :: bool
  ie_socket_binds :: bool
  ie_web_starts :: bool

section \<open>Jobs\<close>

definition push_targets :: "run_config \<Rightarrow> string list" where
  "push_targets c = filter validate_node_id (rc_push_to c)"

definition is_monitored :: "node_role \<Rightarrow> bool" where
  "is_monitored r \<longleftrightarrow> r \<in> {MONITORED, BOTH}"

definition is_monitoring :: "node_role \<Rightarrow> bool" where
  "is_monitoring r \<longleftrightarrow> r \<in> {MONITORING, BOTH}"

definition init_jobs :: "run_config \<Rightarrow> job list" where
  "init_jobs c =
     [(''heartbeat_cycle'', rc_interval c), (''history_gc'', 3600)]
     @ (if push_targets c \<noteq> [] then [(''push_cycle'', rc_interval c)] else [])
     @ (if is_monitoring (rc_role c) then [(''peer_dashboard_pull'', rc_stats_interval c)] else [])
     @ (if is_monitored (rc_role c)
        then [(''stats_cycle'', rc_stats_interval c), (''logstore_rollup_5min'', 300),
              (''logstore_rollup_hourly'', 3600), (''logstore_rollup_daily'', 86400)]
        else [])"

section \<open>Start-up\<close>

definition new_runtime :: "engine \<Rightarrow> runtime" where
  "new_runtime g =
     \<lparr>rt_engine = g, rt_jobs = [], rt_scheduler = False, rt_status = False, rt_control = False, rt_web = False,
      rt_history_open = True, rt_logstore_open = False, rt_background = 0, rt_teardowns = 0, rt_shells = 0\<rparr>"

text \<open>\<open>_build_iroh_node\<close>: a node with another id than the sealed key's is an error, but the node exists.\<close>

definition build_iroh_node :: "node_id option \<Rightarrow> engine \<Rightarrow> engine \<times> unit res" where
  "build_iroh_node made g =
     (case made of
        None \<Rightarrow> (g, Inl (RuntimeError ''iroh''))
      | Some n \<Rightarrow>
          if n \<noteq> eg_node_id g
          then (g\<lparr>eg_iroh := True\<rparr>, Inl (RuntimeError ''Ed25519 key derivation mismatch between iroh and PyNaCl''))
          else (g\<lparr>eg_iroh := True\<rparr>, Inr ()))"

definition agent_event :: "string \<Rightarrow> instant \<Rightarrow> engine \<Rightarrow> engine" where
  "agent_event ev now g =
     (case eg_logstore g of
        None \<Rightarrow> g
      | Some s \<Rightarrow> g\<lparr>eg_logstore := Some (record_event s now ev (JObj [(''node_id'', JStr (eg_node_id g))]))\<rparr>)"

definition open_stats :: "run_config \<Rightarrow> init_env \<Rightarrow> runtime \<Rightarrow> runtime" where
  "open_stats c E rt =
     (if is_monitored (rc_role c)
      then rt\<lparr>rt_engine := agent_event EV_AGENT_STARTED (ie_now E)
                ((rt_engine rt)\<lparr>eg_logstore := Some (open_log_store (eg_node_id (rt_engine rt)) (ie_database E))\<rparr>),
              rt_logstore_open := True\<rparr>
      else rt)"

text \<open>
  The servers: a bad \<open>--status-bind\<close> is logged like every exception of a server's start; a port that
  is taken leaves the server off.
\<close>

definition status_server :: "run_config \<Rightarrow> init_env \<Rightarrow> bool" where
  "status_server c E \<longleftrightarrow>
     (case parse_bind (rc_status_bind c) of Inr (Bind host port) \<Rightarrow> ie_status_binds E | _ \<Rightarrow> False)"

definition start_servers :: "run_config \<Rightarrow> init_env \<Rightarrow> runtime \<Rightarrow> runtime" where
  "start_servers c E rt =
     rt\<lparr>rt_status := rc_status_bind c \<noteq> [] \<and> status_server c E,
        rt_background := Suc (rt_background rt),
        rt_control := ie_runtime_dir E \<and> ie_socket_binds E,
        rt_web := rc_dashboard_port c \<noteq> 0 \<and> ie_web_starts E\<rparr>"

definition engine_init ::
  "(node_id \<Rightarrow> bool) \<Rightarrow> run_config \<Rightarrow> init_env \<Rightarrow> runtime \<Rightarrow> runtime \<times> unit res" where
  "engine_init key_ok c E rt =
     (let rt1 = open_stats c E rt in
      case build_iroh_node (ie_iroh E) (rt_engine rt1) of
        (g, Inl e) \<Rightarrow> (rt1\<lparr>rt_engine := g\<rparr>, Inl e)
      | (g, Inr _) \<Rightarrow>
          let rt2 = rt1\<lparr>rt_engine := g\<lparr>eg_devices := load_devices key_ok (ie_now E) g\<rparr>,
                        rt_jobs := init_jobs c, rt_scheduler := True\<rparr> in
          (start_servers c E rt2, Inr ()))"

section \<open>Shutdown\<close>

text \<open>
  The steps of \<open>shutdown\<close> in their order. Each either is wrapped in a try that logs, or not; what is not
  present is skipped.
\<close>

datatype stop_step =
    LogShutdown | StopScheduler | StopWeb | StopStatus | StopControl
  | TearShell nat | CloseShell nat | DrainTasks | StopIroh | CloseHistory | CloseLogstore

definition swallows :: "stop_step \<Rightarrow> bool" where
  "swallows s \<longleftrightarrow> s \<notin> {StopScheduler, DrainTasks, StopIroh}"

definition stop_users :: "runtime \<Rightarrow> stop_step list" where
  "stop_users rt =
     (if eg_logstore (rt_engine rt) \<noteq> None then [LogShutdown] else [])
     @ (if rt_scheduler rt then [StopScheduler] else [])
     @ (if rt_web rt then [StopWeb] else [])
     @ (if rt_status rt then [StopStatus] else [])
     @ (if rt_control rt then [StopControl] else [])
     @ map TearShell [0..<rt_teardowns rt]
     @ map CloseShell [0..<rt_shells rt]
     @ (if 0 < rt_background rt then [DrainTasks] else [])
     @ (if eg_iroh (rt_engine rt) then [StopIroh] else [])"

definition close_stores :: "runtime \<Rightarrow> stop_step list" where
  "close_stores rt = CloseHistory # (if eg_logstore (rt_engine rt) \<noteq> None then [CloseLogstore] else [])"

definition shutdown_plan :: "runtime \<Rightarrow> stop_step list" where
  "shutdown_plan rt = stop_users rt @ close_stores rt"

fun stop_effect :: "instant \<Rightarrow> stop_step \<Rightarrow> runtime \<Rightarrow> runtime" where
  "stop_effect now LogShutdown rt = rt\<lparr>rt_engine := agent_event EV_AGENT_SHUTDOWN now (rt_engine rt)\<rparr>"
| "stop_effect now StopScheduler rt = rt\<lparr>rt_scheduler := False, rt_jobs := []\<rparr>"
| "stop_effect now StopWeb rt = rt\<lparr>rt_web := False\<rparr>"
| "stop_effect now StopStatus rt = rt\<lparr>rt_status := False\<rparr>"
| "stop_effect now StopControl rt = rt\<lparr>rt_control := False\<rparr>"
| "stop_effect now (TearShell k) rt = rt\<lparr>rt_teardowns := rt_teardowns rt - 1\<rparr>"
| "stop_effect now (CloseShell k) rt = rt\<lparr>rt_shells := rt_shells rt - 1\<rparr>"
| "stop_effect now DrainTasks rt = rt\<lparr>rt_background := 0\<rparr>"
| "stop_effect now StopIroh rt = rt\<lparr>rt_engine := (rt_engine rt)\<lparr>eg_iroh := False\<rparr>\<rparr>"
| "stop_effect now CloseHistory rt = rt\<lparr>rt_history_open := False\<rparr>"
| "stop_effect now CloseLogstore rt = rt\<lparr>rt_logstore_open := False\<rparr>"

text \<open>
  Running the steps: \<open>fails\<close> says which ones raise. The result is the runtime, the steps that were
  tried, and whether an exception got out.
\<close>

fun run_stops ::
  "(stop_step \<Rightarrow> bool) \<Rightarrow> instant \<Rightarrow> runtime \<Rightarrow> stop_step list \<Rightarrow> runtime \<times> stop_step list \<times> bool" where
  "run_stops fails now rt [] = (rt, [], False)"
| "run_stops fails now rt (s # ss) =
     (if fails s then
        (if swallows s then (case run_stops fails now rt ss of (rt', tr, e) \<Rightarrow> (rt', s # tr, e))
         else (rt, [s], True))
      else (case run_stops fails now (stop_effect now s rt) ss of (rt', tr, e) \<Rightarrow> (rt', s # tr, e)))"

definition engine_shutdown :: "(stop_step \<Rightarrow> bool) \<Rightarrow> instant \<Rightarrow> runtime \<Rightarrow> runtime \<times> stop_step list \<times> bool" where
  "engine_shutdown fails now rt = run_stops fails now rt (shutdown_plan rt)"


section \<open>Run modes\<close>

text \<open>
  \<open>life\<close> is what happens to the runtime until the shutdown is asked for. The TUI passes an exception of
  its application on without a shutdown; fetching one dashboard shuts down in any case.
\<close>

definition stopped :: "(stop_step \<Rightarrow> bool) \<Rightarrow> instant \<Rightarrow> runtime \<Rightarrow> runtime \<times> unit res" where
  "stopped fails now rt =
     (case engine_shutdown fails now rt of
        (rt', _, e) \<Rightarrow> (rt', if e then Inl (RuntimeError ''shutdown'') else Inr ()))"

definition run_daemon ::
  "(node_id \<Rightarrow> bool) \<Rightarrow> run_config \<Rightarrow> init_env \<Rightarrow> (runtime \<Rightarrow> runtime) \<Rightarrow> (stop_step \<Rightarrow> bool) \<Rightarrow> instant \<Rightarrow> runtime
   \<Rightarrow> runtime \<times> unit res" where
  "run_daemon key_ok c E life fails now rt =
     (case engine_init key_ok c E rt of
        (rt1, Inl e) \<Rightarrow> (rt1, Inl e)
      | (rt1, Inr _) \<Rightarrow> stopped fails now (life rt1))"

definition run_tui ::
  "(node_id \<Rightarrow> bool) \<Rightarrow> run_config \<Rightarrow> init_env \<Rightarrow> (runtime \<Rightarrow> runtime \<times> unit res) \<Rightarrow> (stop_step \<Rightarrow> bool) \<Rightarrow> instant \<Rightarrow> runtime
   \<Rightarrow> runtime \<times> unit res" where
  "run_tui key_ok c E app fails now rt =
     (case engine_init key_ok c E rt of
        (rt1, Inl e) \<Rightarrow> (rt1, Inl e)
      | (rt1, Inr _) \<Rightarrow>
          (case app rt1 of
             (rt2, Inl e) \<Rightarrow> (rt2, Inl e)
           | (rt2, Inr _) \<Rightarrow> stopped fails now rt2))"

definition run_fetch_dashboard ::
  "(node_id \<Rightarrow> bool) \<Rightarrow> run_config \<Rightarrow> init_env \<Rightarrow> json res \<Rightarrow> (stop_step \<Rightarrow> bool) \<Rightarrow> instant \<Rightarrow> runtime
   \<Rightarrow> runtime \<times> int res" where
  "run_fetch_dashboard key_ok c E fetched fails now rt =
     (case engine_init key_ok c E rt of
        (rt1, Inl e) \<Rightarrow> (rt1, Inl e)
      | (rt1, Inr _) \<Rightarrow>
          (case stopped fails now rt1 of
             (rt2, Inl e) \<Rightarrow> (rt2, Inl e)
           | (rt2, Inr _) \<Rightarrow> (rt2, Inr (case fetched of Inl _ \<Rightarrow> 1 | Inr _ \<Rightarrow> 0))))"

section \<open>Lemmas\<close>

lemma agent_event_fields [simp]:
  "eg_iroh (agent_event ev now g) = eg_iroh g" "eg_node_id (agent_event ev now g) = eg_node_id g"
  "eg_logstore (agent_event ev now g) = None \<longleftrightarrow> eg_logstore g = None"
  by (auto simp: agent_event_def split: option.splits)

lemma agent_event_none [simp]: "eg_logstore g = None \<Longrightarrow> agent_event ev now g = g"
  by (simp add: agent_event_def)

lemma engine_init_cases:
  assumes "engine_init key_ok c E rt = (rt', r)"
  obtains (failed) e where "r = Inl e" "rt_jobs rt' = rt_jobs rt" "rt_logstore_open rt' = (rt_logstore_open rt \<or> is_monitored (rc_role c))"
      "eg_logstore (rt_engine rt') = eg_logstore (rt_engine (open_stats c E rt))"
  | (ready) "r = Inr ()" "ie_iroh E = Some (eg_node_id (rt_engine rt))" "rt_jobs rt' = init_jobs c" "rt_scheduler rt'" "eg_iroh (rt_engine rt')"
      "eg_logstore (rt_engine rt') = eg_logstore (rt_engine (open_stats c E rt))"
      "rt_logstore_open rt' = (rt_logstore_open rt \<or> is_monitored (rc_role c))" "rt_history_open rt' = rt_history_open rt"
      "rt_shells rt' = rt_shells rt" "rt_teardowns rt' = rt_teardowns rt"
proof -
  have o: "eg_node_id (rt_engine (open_stats c E rt)) = eg_node_id (rt_engine rt)" "rt_jobs (open_stats c E rt) = rt_jobs rt"
    "rt_logstore_open (open_stats c E rt) = (rt_logstore_open rt \<or> is_monitored (rc_role c))"
    "rt_history_open (open_stats c E rt) = rt_history_open rt" "rt_shells (open_stats c E rt) = rt_shells rt"
    "rt_teardowns (open_stats c E rt) = rt_teardowns rt"
    by (simp_all add: open_stats_def)
  show thesis
  proof (cases "build_iroh_node (ie_iroh E) (rt_engine (open_stats c E rt))")
    case (Pair g q)
    then have g: "eg_logstore g = eg_logstore (rt_engine (open_stats c E rt))"
      by (auto simp: build_iroh_node_def split: option.splits if_splits)
    show thesis
    proof (cases q)
      case (Inl e)
      then show thesis using assms Pair g o by (intro failed) (auto simp: engine_init_def)
    next
      case (Inr u)
      then have "eg_iroh g" "ie_iroh E = Some (eg_node_id (rt_engine rt))"
        using Pair o(1) by (auto simp: build_iroh_node_def split: option.splits if_splits)
      then show thesis using assms Pair g o Inr by (intro ready) (auto simp: engine_init_def start_servers_def Let_def)
    qed
  qed
qed

lemma init_job_ids:
  "map fst (init_jobs c) =
     [''heartbeat_cycle'', ''history_gc''] @ (if push_targets c \<noteq> [] then [''push_cycle''] else [])
     @ (if is_monitoring (rc_role c) then [''peer_dashboard_pull''] else [])
     @ (if is_monitored (rc_role c)
        then [''stats_cycle'', ''logstore_rollup_5min'', ''logstore_rollup_hourly'', ''logstore_rollup_daily''] else [])"
  by (simp add: init_jobs_def)

lemma init_jobs_distinct: "distinct (map fst (init_jobs c))"
  unfolding init_job_ids by simp

text \<open>
  The jobs of a started node fit its role: ids are unique, probing and pruning always run, pushing runs when a
  valid target is given, pulling statistics on monitoring nodes, and the collector and the three roll-ups
  exactly on the nodes that have a log store.
\<close>

theorem jobs_fit_role:
  assumes "engine_init key_ok c E rt = (rt', Inr ())" and "eg_logstore (rt_engine rt) = None"
  shows "distinct (map fst (rt_jobs rt'))
    \<and> {''heartbeat_cycle'', ''history_gc''} \<subseteq> set (map fst (rt_jobs rt'))
    \<and> (''push_cycle'' \<in> set (map fst (rt_jobs rt')) \<longleftrightarrow> (\<exists>t \<in> set (rc_push_to c). validate_node_id t))
    \<and> (''peer_dashboard_pull'' \<in> set (map fst (rt_jobs rt')) \<longleftrightarrow> rc_role c \<noteq> MONITORED)
    \<and> (\<forall>j \<in> {''stats_cycle'', ''logstore_rollup_5min'', ''logstore_rollup_hourly'', ''logstore_rollup_daily''}.
         j \<in> set (map fst (rt_jobs rt')) \<longleftrightarrow> eg_logstore (rt_engine rt') \<noteq> None)"
proof -
  have jobs: "rt_jobs rt' = init_jobs c" and ls: "eg_logstore (rt_engine rt') \<noteq> None \<longleftrightarrow> is_monitored (rc_role c)"
  proof -
    have ls: "eg_logstore (rt_engine (open_stats c E rt)) \<noteq> None \<longleftrightarrow> is_monitored (rc_role c)"
      using assms(2) by (cases "is_monitored (rc_role c)") (simp_all add: open_stats_def del: not_None_eq)
    from engine_init_cases[OF assms(1)] have "rt_jobs rt' = init_jobs c
        \<and> eg_logstore (rt_engine rt') = eg_logstore (rt_engine (open_stats c E rt))"
      by cases blast+
    with ls show "rt_jobs rt' = init_jobs c" "eg_logstore (rt_engine rt') \<noteq> None \<longleftrightarrow> is_monitored (rc_role c)"
      by (simp_all only: simp_thms)
  qed
  have push: "push_targets c \<noteq> [] \<longleftrightarrow> (\<exists>t \<in> set (rc_push_to c). validate_node_id t)"
    by (auto simp: push_targets_def filter_empty_conv)
  have "distinct (map fst (rt_jobs rt'))" unfolding jobs by (rule init_jobs_distinct)
  moreover have "{''heartbeat_cycle'', ''history_gc''} \<subseteq> set (map fst (rt_jobs rt'))" unfolding jobs init_job_ids by simp
  moreover have "''push_cycle'' \<in> set (map fst (rt_jobs rt')) \<longleftrightarrow> (\<exists>t \<in> set (rc_push_to c). validate_node_id t)"
    unfolding push[symmetric] jobs init_job_ids by simp
  moreover have "''peer_dashboard_pull'' \<in> set (map fst (rt_jobs rt')) \<longleftrightarrow> rc_role c \<noteq> MONITORED"
    unfolding jobs init_job_ids by (cases "rc_role c") (simp_all add: is_monitoring_def is_monitored_def)
  moreover have "\<forall>j \<in> {''stats_cycle'', ''logstore_rollup_5min'', ''logstore_rollup_hourly'', ''logstore_rollup_daily''}.
         j \<in> set (map fst (rt_jobs rt')) \<longleftrightarrow> eg_logstore (rt_engine rt') \<noteq> None"
    unfolding ls jobs init_job_ids by simp
  ultimately show ?thesis by blast
qed

section \<open>Stopping\<close>

lemma run_stops_ok:
  assumes "run_stops fails now rt ss = (rt', tr, False)"
  shows "tr = ss"
  using assms by (induction ss arbitrary: rt rt' tr) (auto split: if_splits prod.splits)

lemma run_stops_swallowed:
  assumes "run_stops fails now rt ss = (rt', tr, False)" and "s \<in> set ss" and "fails s"
  shows "swallows s"
  using assms by (induction ss arbitrary: rt rt' tr) (auto split: if_splits prod.splits)

lemma run_stops_raised:
  assumes "run_stops fails now rt ss = (rt', tr, True)"
  shows "\<exists>s pre post. ss = pre @ s # post \<and> tr = pre @ [s] \<and> fails s \<and> \<not> swallows s"
  using assms
proof (induction ss arbitrary: rt rt' tr)
  case (Cons x ss)
  show ?case
  proof (cases "fails x \<and> \<not> swallows x")
    case True
    with Cons.prems show ?thesis by (intro exI[of _ x] exI[of _ "[]"] exI[of _ ss]) auto
  next
    case False
    then obtain rt1 tr1 where "run_stops fails now rt1 ss = (rt', tr1, True)" "tr = x # tr1"
      using Cons.prems by (auto split: if_splits prod.splits)
    from Cons.IH[OF this(1)] this(2) show ?thesis by (metis append_Cons)
  qed
qed simp

lemma run_stops_append:
  "run_stops fails now rt (a @ b) =
     (case run_stops fails now rt a of
        (rt1, tr, True) \<Rightarrow> (rt1, tr, True)
      | (rt1, tr, False) \<Rightarrow> (case run_stops fails now rt1 b of (rt2, tr2, e) \<Rightarrow> (rt2, tr @ tr2, e)))"
  by (induction a arbitrary: rt) (auto split: prod.splits bool.splits)

definition closes :: "stop_step \<Rightarrow> bool" where
  "closes s \<longleftrightarrow> s \<in> {CloseHistory, CloseLogstore}"

lemma stop_users_close: "s \<in> set (stop_users rt) \<Longrightarrow> \<not> closes s"
  by (auto simp: stop_users_def closes_def split: if_splits)

lemma stop_effect_keeps:
  "\<not> closes s \<Longrightarrow> rt_history_open (stop_effect now s rt) = rt_history_open rt \<and> rt_logstore_open (stop_effect now s rt) = rt_logstore_open rt"
  by (cases s) (simp_all add: closes_def)

lemma run_stops_keep_open:
  assumes "run_stops fails now rt ss = (rt', tr, e)" and "\<forall>s \<in> set ss. \<not> closes s"
  shows "rt_history_open rt' = rt_history_open rt \<and> rt_logstore_open rt' = rt_logstore_open rt"
  using assms
proof (induction ss arbitrary: rt rt' tr)
  case (Cons x ss)
  have keep: "rt_history_open (stop_effect now x rt) = rt_history_open rt" "rt_logstore_open (stop_effect now x rt) = rt_logstore_open rt"
    using stop_effect_keeps Cons.prems(2) by simp_all
  show ?case
  proof (cases "fails x \<and> \<not> swallows x")
    case True
    with Cons.prems show ?thesis by simp
  next
    case False
    then obtain tr1 where "run_stops fails now (if fails x then rt else stop_effect now x rt) ss = (rt', tr1, e)"
      using Cons.prems by (auto split: if_splits prod.splits)
    with Cons.IH[OF this] Cons.prems(2) keep show ?thesis by (auto split: if_splits)
  qed
qed simp

lemma close_stores_run:
  "run_stops fails now rt1 (close_stores rt) =
     ((let a = (if fails CloseHistory then rt1 else rt1\<lparr>rt_history_open := False\<rparr>) in
       if eg_logstore (rt_engine rt) \<noteq> None \<and> \<not> fails CloseLogstore then a\<lparr>rt_logstore_open := False\<rparr> else a), close_stores rt, False)"
  by (simp add: close_stores_def swallows_def Let_def)



lemma run_stops_none:
  "(\<And>s. \<not> fails s) \<Longrightarrow> run_stops fails now rt ss = (foldl (\<lambda>r s. stop_effect now s r) rt ss, ss, False)"
  by (induction ss arbitrary: rt) simp_all

lemma tear_all: "foldl (\<lambda>r s. stop_effect now s r) rt (map TearShell [0..<k]) = rt\<lparr>rt_teardowns := rt_teardowns rt - k\<rparr>"
  by (induction k) simp_all

lemma close_all: "foldl (\<lambda>r s. stop_effect now s r) rt (map CloseShell [0..<k]) = rt\<lparr>rt_shells := rt_shells rt - k\<rparr>"
  by (induction k) simp_all

text \<open>Nothing runs and the probe history is closed.\<close>

definition idle :: "runtime \<Rightarrow> bool" where
  "idle rt \<longleftrightarrow> \<not> rt_scheduler rt \<and> \<not> rt_web rt \<and> \<not> rt_status rt \<and> \<not> rt_control rt \<and> rt_teardowns rt = 0
     \<and> rt_shells rt = 0 \<and> rt_background rt = 0 \<and> \<not> eg_iroh (rt_engine rt) \<and> \<not> rt_history_open rt"

lemma shutdown_leaves_nothing:
  assumes "\<And>s. \<not> fails s" and "engine_shutdown fails now rt = (rt', tr, e)"
  shows "\<not> e \<and> idle rt' \<and> (eg_logstore (rt_engine rt) \<noteq> None \<longrightarrow> \<not> rt_logstore_open rt')
    \<and> eg_logstore (rt_engine rt') = eg_logstore (agent_event EV_AGENT_SHUTDOWN now (rt_engine rt))"
proof -
  let ?f = "\<lambda>r s. stop_effect now s r"
  have "run_stops fails now rt (shutdown_plan rt) = (foldl ?f rt (shutdown_plan rt), shutdown_plan rt, False)"
    by (rule run_stops_none) (rule assms(1))
  with assms(2) have "rt' = foldl ?f rt (shutdown_plan rt)" and e: "\<not> e" by (auto simp: engine_shutdown_def)
  then have r: "rt' = foldl ?f (foldl ?f rt (stop_users rt)) (close_stores rt)" by (simp add: shutdown_plan_def)
  define rt1 where "rt1 = foldl ?f rt (stop_users rt)"
  have u: "\<not> rt_scheduler rt1 \<and> \<not> rt_web rt1 \<and> \<not> rt_status rt1 \<and> \<not> rt_control rt1 \<and> rt_teardowns rt1 = 0
     \<and> rt_shells rt1 = 0 \<and> rt_background rt1 = 0 \<and> \<not> eg_iroh (rt_engine rt1)
     \<and> eg_logstore (rt_engine rt1) = eg_logstore (agent_event EV_AGENT_SHUTDOWN now (rt_engine rt))"
    by (simp add: rt1_def stop_users_def tear_all close_all)
  show ?thesis using u e by (auto simp: r rt1_def[symmetric] close_stores_def idle_def)
qed

text \<open>
  A daemon that starts and is stopped, with no step failing, leaves nothing running and nothing open, whatever
  happened in between; the log store of a monitored node says that it stopped.
\<close>

theorem started_node_stops_clean:
  assumes "ie_iroh E = Some (eg_node_id g)" and "\<And>s. \<not> fails s"
    and "run_daemon key_ok c E life fails now (new_runtime g) = (rt', r)"
    and "life (fst (engine_init key_ok c E (new_runtime g))) = rt2" and "eg_logstore (rt_engine rt2) = Some s"
  shows "r = Inr () \<and> idle rt' \<and> \<not> rt_logstore_open rt'
    \<and> eg_logstore (rt_engine rt') = Some (record_event s now EV_AGENT_SHUTDOWN (JObj [(''node_id'', JStr (eg_node_id (rt_engine rt2)))]))"
proof -
  obtain rt1 q where i: "engine_init key_ok c E (new_runtime g) = (rt1, q)" by (cases "engine_init key_ok c E (new_runtime g)")
  have "eg_node_id (rt_engine (open_stats c E (new_runtime g))) = eg_node_id g" by (simp add: open_stats_def new_runtime_def)
  then have "q = Inr ()" using i assms(1) by (auto simp: engine_init_def build_iroh_node_def Let_def)
  obtain rt3 tr e where s: "engine_shutdown fails now rt2 = (rt3, tr, e)" by (cases "engine_shutdown fails now rt2") auto
  note n = shutdown_leaves_nothing[OF assms(2) s]
  have "rt' = rt3 \<and> r = (if e then Inl (RuntimeError ''shutdown'') else Inr ())"
    using assms(3,4) i s \<open>q = Inr ()\<close> by (simp add: run_daemon_def stopped_def)
  with n assms(5) show ?thesis by (auto simp: agent_event_def)
qed

text \<open>
  A daemon whose network node cannot be made ends with that exception: it has logged its start and never logs
  a stop, so its log reads like that of a node that crashed, and the log store is left open.
\<close>

theorem failed_start_looks_like_crash:
  assumes "ie_iroh E = None" and "is_monitored (rc_role c)" and "s = open_log_store (eg_node_id g) (ie_database E)"
    and "run_daemon key_ok c E life fails now (new_runtime g) = (rt', r)"
  shows "r = Inl (RuntimeError ''iroh'') \<and> rt_logstore_open rt'
    \<and> eg_logstore (rt_engine rt') = Some (record_event s (ie_now E) EV_AGENT_STARTED (JObj [(''node_id'', JStr (eg_node_id g))]))"
  using assms by (auto simp: run_daemon_def engine_init_def open_stats_def build_iroh_node_def new_runtime_def agent_event_def Let_def)

section \<open>A concrete node\<close>

definition demo_node_engine :: engine where
  "demo_node_engine = new_engine ''p'' demo_mgr \<lparr>hs_probes = [], hs_retain_days = 30\<rparr> None 3 1 60 5 60"

definition demo_config :: run_config where
  "demo_config = \<lparr>rc_role = BOTH, rc_push_to = [], rc_interval = 30, rc_stats_interval = 10, rc_status_bind = ''127.0.0.1:8080'',
     rc_dashboard_port = 42069\<rparr>"

definition demo_start :: "node_id option \<Rightarrow> init_env" where
  "demo_start made = \<lparr>ie_now = usec 100, ie_database = demo_old_db, ie_iroh = made, ie_status_binds = True,
     ie_runtime_dir = True, ie_socket_binds = True, ie_web_starts = True\<rparr>"

lemma demo_starts:
  "\<exists>rt'. engine_init (\<lambda>_. True) demo_config (demo_start (Some ''p'')) (new_runtime demo_node_engine) = (rt', Inr ())
     \<and> eg_iroh (rt_engine rt') \<and> eg_logstore (rt_engine rt') \<noteq> None \<and> rt_history_open rt'"
  by (auto simp: engine_init_def demo_config_def demo_start_def demo_node_engine_def new_runtime_def new_engine_def
      open_stats_def is_monitored_def build_iroh_node_def start_servers_def agent_event_def Let_def)

theorem jobs_fit_role_witness:
  "\<exists>rt'. engine_init (\<lambda>_. True) demo_config (demo_start (Some ''p'')) (new_runtime demo_node_engine) = (rt', Inr ())
     \<and> ''logstore_rollup_daily'' \<in> set (map fst (rt_jobs rt')) \<and> ''push_cycle'' \<notin> set (map fst (rt_jobs rt'))"
proof -
  obtain rt' where rt': "engine_init (\<lambda>_. True) demo_config (demo_start (Some ''p'')) (new_runtime demo_node_engine) = (rt', Inr ())"
    "eg_logstore (rt_engine rt') \<noteq> None" using demo_starts by blast
  have none: "eg_logstore (rt_engine (new_runtime demo_node_engine)) = None"
    by (simp add: new_runtime_def demo_node_engine_def new_engine_def)
  have "rc_push_to demo_config = []" by (simp add: demo_config_def)
  with jobs_fit_role[OF rt'(1) none] rt' show ?thesis by (intro exI[of _ rt'] conjI) (blast, simp_all)
qed


theorem started_node_stops_clean_witness:
  "\<exists>rt'. run_daemon (\<lambda>_. True) demo_config (demo_start (Some ''p'')) (\<lambda>rt. rt) (\<lambda>_. False) (usec 200) (new_runtime demo_node_engine)
     = (rt', Inr ()) \<and> idle rt' \<and> \<not> rt_logstore_open rt'"
proof -
  obtain rt1 s where rt1: "engine_init (\<lambda>_. True) demo_config (demo_start (Some ''p'')) (new_runtime demo_node_engine) = (rt1, Inr ())"
    "eg_logstore (rt_engine rt1) = Some s" using demo_starts by blast
  obtain rt' r where d: "run_daemon (\<lambda>_. True) demo_config (demo_start (Some ''p'')) (\<lambda>rt. rt) (\<lambda>_. False) (usec 200)
      (new_runtime demo_node_engine) = (rt', r)" by (cases "run_daemon (\<lambda>_. True) demo_config (demo_start (Some ''p'')) (\<lambda>rt. rt) (\<lambda>_. False)
      (usec 200) (new_runtime demo_node_engine)")
  have i: "ie_iroh (demo_start (Some ''p'')) = Some (eg_node_id demo_node_engine)"
    by (simp add: demo_start_def demo_node_engine_def new_engine_def)
  have l: "(\<lambda>rt. rt) (fst (engine_init (\<lambda>_. True) demo_config (demo_start (Some ''p'')) (new_runtime demo_node_engine))) = rt1"
    by (simp add: rt1)
  from started_node_stops_clean[OF i _ d l rt1(2)] d show ?thesis by simp
qed

theorem failed_start_looks_like_crash_witness:
  "\<exists>rt' s. run_daemon (\<lambda>_. True) demo_config (demo_start None) (\<lambda>rt. rt) (\<lambda>_. False) (usec 200) (new_runtime demo_node_engine)
     = (rt', Inl (RuntimeError ''iroh'')) \<and> rt_logstore_open rt' \<and> eg_logstore (rt_engine rt') = Some s"
proof -
  obtain rt' r where d: "run_daemon (\<lambda>_. True) demo_config (demo_start None) (\<lambda>rt. rt) (\<lambda>_. False) (usec 200)
      (new_runtime demo_node_engine) = (rt', r)" by (cases "run_daemon (\<lambda>_. True) demo_config (demo_start None) (\<lambda>rt. rt) (\<lambda>_. False)
      (usec 200) (new_runtime demo_node_engine)")
  have "ie_iroh (demo_start None) = None" "is_monitored (rc_role demo_config)"
    by (simp_all add: demo_start_def demo_config_def is_monitored_def)
  from failed_start_looks_like_crash[OF this refl d] d show ?thesis by auto
qed

end
