(* ===== verification/Notify.thy ===== *)
theory Notify
  imports Engine
begin

text \<open>
  The delivery of alerts (notifier.py) and \<open>--test-webhook\<close> (main.py). What \<open>urlopen\<close> does with a request is
  an argument; the log line a delivery ends with is its result.
\<close>

section \<open>Channels\<close>

datatype notifier = NullNotifier | WebhookNotifier string

definition build_notifier :: "string option \<Rightarrow> notifier" where
  "build_notifier url =
     (case url of None \<Rightarrow> NullNotifier | Some u \<Rightarrow> if u = [] then NullNotifier else WebhookNotifier u)"

text \<open>\<open>asdict\<close> in the order of the fields. The engine and \<open>--test-webhook\<close> never set \<open>source_alias\<close>.\<close>

definition json_option :: "string option \<Rightarrow> json" where
  "json_option x = (case x of None \<Rightarrow> JNull | Some s \<Rightarrow> JStr s)"

definition to_payload :: "monitor_event \<Rightarrow> dict" where
  "to_payload ev =
     [(''event'', JStr (me_event ev)), (''peer_node_id'', JStr (me_peer ev)), (''peer_alias'', json_option (me_alias ev)),
      (''source_node_id'', JStr (me_source ev)), (''source_alias'', JNull), (''timestamp'', JTime (Aware (me_time ev))),
      (''consecutive_count'', JInt (int (me_count ev))), (''reason'', json_option (me_reason ev))]"

definition sample_event :: "node_id \<Rightarrow> instant \<Rightarrow> monitor_event" where
  "sample_event source now =
     \<lparr>me_event = ''monitor_down'', me_peer = replicate 64 CHR ''0'', me_alias = Some ''test-peer'', me_source = source,
      me_time = now, me_count = 3, me_reason = Some ''test webhook from --test-webhook''\<rparr>"

section \<open>Posting\<close>

text \<open>
  \<open>urlopen\<close> answers with a code and a body, raises \<open>HTTPError\<close> (with a body that may be unreadable), or raises
  something else: no connection, a timeout, a text that is not a URL.
\<close>

datatype post_out = Answered int "string" | HttpError int "string option" | PostRaised py_error

definition PREVIEW :: nat where "PREVIEW = 512"

definition post :: "(string \<Rightarrow> string) \<Rightarrow> post_out \<Rightarrow> (int \<times> string) res" where
  "post utf8 a =
     (case a of
        Answered code body \<Rightarrow> Inr (code, utf8 (take PREVIEW body))
      | HttpError code body \<Rightarrow> Inr (code, take PREVIEW (utf8 (case body of None \<Rightarrow> [] | Some b \<Rightarrow> b)))
      | PostRaised e \<Rightarrow> Inl e)"

datatype delivery = NotConfigured | Delivered int | Rejected int string | Undelivered py_error

definition notify :: "(string \<Rightarrow> string) \<Rightarrow> post_out \<Rightarrow> notifier \<Rightarrow> monitor_event \<Rightarrow> delivery" where
  "notify utf8 a n ev =
     (case n of
        NullNotifier \<Rightarrow> NotConfigured
      | WebhookNotifier url \<Rightarrow>
          (case post utf8 a of
             Inl e \<Rightarrow> Undelivered e
           | Inr (status, txt) \<Rightarrow>
               if 200 \<le> status \<and> status < 300 then Delivered status else Rejected status (take 200 txt)))"

definition notify_label :: "monitor_event \<Rightarrow> string" where
  "notify_label ev = (case me_alias ev of Some a \<Rightarrow> if a = [] then take 12 (me_peer ev) else a | None \<Rightarrow> take 12 (me_peer ev))"

text \<open>What leaves the machine for an event: nothing without a URL, one request otherwise.\<close>

definition posted :: "notifier \<Rightarrow> monitor_event \<Rightarrow> (string \<times> dict) list" where
  "posted n ev = (case n of NullNotifier \<Rightarrow> [] | WebhookNotifier url \<Rightarrow> [(url, to_payload ev)])"

section \<open>Lemmas\<close>

text \<open>A receiver can read every event back from its payload; no two events have the same.\<close>

definition read_option :: "json \<Rightarrow> string option" where
  "read_option j = (case j of JStr s \<Rightarrow> Some s | _ \<Rightarrow> None)"

lemma read_json_option [simp]: "read_option (json_option x) = x"
  by (simp add: read_option_def json_option_def split: option.splits)

lemma payload_reads_back:
  "dget (to_payload ev) ''event'' = JStr (me_event ev)"
  "dget (to_payload ev) ''peer_node_id'' = JStr (me_peer ev)"
  "read_option (dget (to_payload ev) ''peer_alias'') = me_alias ev"
  "dget (to_payload ev) ''source_node_id'' = JStr (me_source ev)"
  "dget (to_payload ev) ''timestamp'' = JTime (Aware (me_time ev))"
  "dget (to_payload ev) ''consecutive_count'' = JInt (int (me_count ev))"
  "read_option (dget (to_payload ev) ''reason'') = me_reason ev"
  by (simp_all add: to_payload_def dget_def)

lemma payload_determines_event: "to_payload e1 = to_payload e2 \<Longrightarrow> e1 = e2"
  by (rule monitor_event.equality) (use payload_reads_back[of e1] payload_reads_back[of e2] in \<open>simp_all\<close>)

text \<open>\<open>notify\<close> has a result for every answer, so an alert cannot take the probe down with it.\<close>

lemma delivered_iff:
  "notify utf8 a n ev = Delivered code \<longleftrightarrow>
     n \<noteq> NullNotifier \<and> 200 \<le> code \<and> code < 300 \<and> (\<exists>b. a = Answered code b \<or> (\<exists>x. a = HttpError code x))"
  by (cases n; cases a) (auto simp: notify_def post_def)

lemma preview_bounded:
  assumes "\<And>b. length (utf8 b) \<le> length b" and "notify utf8 a n ev = Rejected code txt"
  shows "length txt \<le> 200"
  using assms(2) by (auto simp: notify_def split: notifier.splits sum.splits if_splits)

text \<open>
  Whether an alert is delivered is not looked at: the time of the last alert is that of the attempt. An alert that
  could not be delivered silences the next ones of the peer for the dwell time like one that was.
\<close>

definition fire_and_deliver ::
  "(string \<Rightarrow> string) \<Rightarrow> post_out \<Rightarrow> notifier \<Rightarrow> engine \<Rightarrow> string \<Rightarrow> peer_state \<Rightarrow> instant \<Rightarrow> engine \<times> delivery option" where
  "fire_and_deliver utf8 a n g ev p now =
     (fire_alert g ev p now,
      if dwell_active g (pe_node_id (ps_entry p)) now then None else Some (notify utf8 a n (alert_event g ev p now)))"

lemma lost_alert_starts_dwell:
  assumes "fire_and_deliver utf8 (PostRaised e) (WebhookNotifier url) g ev p now = (g', Some d)"
    and "now \<le> t" and "t < now + usec (int (eg_flap_dwell g))"
    and "pe_node_id (ps_entry p') = pe_node_id (ps_entry p)"
  shows "d = Undelivered e \<and> fire_and_deliver utf8 a n g' ev' p' t = (g', None)"
proof -
  from assms(1) have a: "\<not> dwell_active g (pe_node_id (ps_entry p)) now" and d: "d = Undelivered e"
    and g': "g' = fire_alert g ev p now"
    by (auto simp: fire_and_deliver_def notify_def post_def split: if_splits)
  have "eg_flap_dwell g \<noteq> 0" using assms(2,3) by (auto simp: usec_def)
  then have w: "dwell_active g' (pe_node_id (ps_entry p')) t"
    using a assms(3,4) by (simp add: g' fire_alert_def dwell_active_def update_conv' Let_def)
  then have "fire_alert g' ev' p' t = g'" by (simp add: fire_alert_def)
  with w d show ?thesis by (simp add: fire_and_deliver_def)
qed

end
