(* ===== verification/Peer_Calls.thy ===== *)
theory Peer_Calls
  imports Webapp Host_Env
begin

text \<open>
  The calling side of the protocols (alpn/logs.py, alpn/status.py, alpn/push.py: the client mixins;
  alpn/framing.py: the log of network paths) and calls from end to end: the caller's request as JSON
  text in a frame, the handler of the other node, and its answer back. Both ends write ASCII
  text only, where UTF-8 is the character itself.
\<close>

section \<open>JSON text\<close>

text \<open>\<open>json.dumps\<close> with its default \<open>ensure_ascii\<close>.\<close>

abbreviation QUOTE :: char where "QUOTE \<equiv> CHR 0x22"
abbreviation BACKSLASH :: char where "BACKSLASH \<equiv> CHR 0x5C"

definition plain_ascii :: "char \<Rightarrow> bool" where
  "plain_ascii c \<longleftrightarrow> 32 \<le> (of_char c :: nat) \<and> (of_char c :: nat) \<le> 126 \<and> c \<noteq> QUOTE \<and> c \<noteq> BACKSLASH"

definition short_escape :: "char \<Rightarrow> char option" where
  "short_escape c =
     map_of [(QUOTE, QUOTE), (BACKSLASH, BACKSLASH), (CHR 0x0A, CHR ''n''), (CHR 0x0D, CHR ''r''), (CHR 0x09, CHR ''t''),
             (CHR 0x08, CHR ''b''), (CHR 0x0C, CHR ''f'')] c"

definition json_escape :: "char \<Rightarrow> string" where
  "json_escape c =
     (if plain_ascii c then [c]
      else case short_escape c of
        Some e \<Rightarrow> [BACKSLASH, e]
      | None \<Rightarrow> [BACKSLASH, CHR ''u'', CHR ''0'', CHR ''0'', hex_digit (of_char c div 16), hex_digit (of_char c)])"

definition json_string :: "string \<Rightarrow> string" where
  "json_string s = QUOTE # concat (map json_escape s) @ [QUOTE]"

text \<open>The messages hold texts, whole numbers, truth values and nulls; \<open>other\<close> prints the rest.\<close>

definition flat :: "json \<Rightarrow> bool" where
  "flat j \<longleftrightarrow> (case j of JNull \<Rightarrow> True | JBool _ \<Rightarrow> True | JInt _ \<Rightarrow> True | JStr _ \<Rightarrow> True | _ \<Rightarrow> False)"

fun json_value :: "(json \<Rightarrow> string) \<Rightarrow> json \<Rightarrow> string" where
  "json_value other JNull = ''null''"
| "json_value other (JBool b) = (if b then ''true'' else ''false'')"
| "json_value other (JInt n) = int_text n"
| "json_value other (JStr s) = json_string s"
| "json_value other j = other j"

fun json_members :: "(json \<Rightarrow> string) \<Rightarrow> dict \<Rightarrow> string" where
  "json_members other [] = []"
| "json_members other [(k, v)] = json_string k @ '': '' @ json_value other v"
| "json_members other ((k, v) # d) = json_string k @ '': '' @ json_value other v @ '', '' @ json_members other d"

definition dumps :: "(json \<Rightarrow> string) \<Rightarrow> dict \<Rightarrow> string" where
  "dumps other d = ''{'' @ json_members other d @ ''}''"

text \<open>
  \<open>json.loads\<close> of an object of such values. Fractions and nested values are left out; a text that is no
  JSON raises.
\<close>

definition skip_blanks :: "string \<Rightarrow> string" where
  "skip_blanks = dropWhile (\<lambda>c. c = CHR '' '' \<or> c = CHR 0x09 \<or> c = CHR 0x0A \<or> c = CHR 0x0D)"

definition long_escape :: "char \<Rightarrow> char" where
  "long_escape e =
     (if e = CHR ''n'' then CHR 0x0A else if e = CHR ''r'' then CHR 0x0D else if e = CHR ''t'' then CHR 0x09
      else if e = CHR ''b'' then CHR 0x08 else if e = CHR ''f'' then CHR 0x0C else e)"

fun read_text :: "string \<Rightarrow> (string \<times> string) option" where
  "read_text [] = None"
| "read_text (c # cs) =
     (if c = QUOTE then Some ([], cs)
      else if c = BACKSLASH then
        (case cs of
           [] \<Rightarrow> None
         | e # r \<Rightarrow>
             if e = CHR ''u'' then
               (case r of
                  z1 # z2 # a # b # r' \<Rightarrow>
                    (case (hex_value z1, hex_value z2, hex_value a, hex_value b) of
                       (Some 0, Some 0, Some h, Some l) \<Rightarrow> map_option (map_prod (Cons (char_of (16 * h + l))) id) (read_text r')
                     | _ \<Rightarrow> None)
                | _ \<Rightarrow> None)
             else if e \<in> set [QUOTE, BACKSLASH, CHR ''/'', CHR ''n'', CHR ''r'', CHR ''t'', CHR ''b'', CHR ''f'']
             then map_option (map_prod (Cons (long_escape e)) id) (read_text r)
             else None)
      else if (of_char c :: nat) < 32 then None
      else map_option (map_prod (Cons c) id) (read_text cs))"

definition digit_char :: "char \<Rightarrow> bool" where
  "digit_char c \<longleftrightarrow> 48 \<le> (of_char c :: nat) \<and> (of_char c :: nat) \<le> 57"

definition read_number :: "string \<Rightarrow> (json \<times> string) option" where
  "read_number s =
     (let neg = (s \<noteq> [] \<and> hd s = CHR ''-'');
          t = (if neg then tl s else s);
          ds = takeWhile digit_char t in
      if ds = [] \<or> (1 < length ds \<and> hd ds = CHR ''0'') then None
      else case digits_value ds of
        None \<Rightarrow> None
      | Some n \<Rightarrow> Some (JInt (if neg then - n else n), dropWhile digit_char t))"

definition read_word :: "string \<Rightarrow> json \<Rightarrow> string \<Rightarrow> (json \<times> string) option" where
  "read_word w j s = (if take (length w) s = w then Some (j, drop (length w) s) else None)"

definition read_value :: "string \<Rightarrow> (json \<times> string) option" where
  "read_value s =
     (case s of
        [] \<Rightarrow> None
      | c # cs \<Rightarrow>
          if c = QUOTE then map_option (map_prod JStr id) (read_text cs)
          else if c = CHR ''n'' then read_word ''null'' JNull s
          else if c = CHR ''t'' then read_word ''true'' (JBool True) s
          else if c = CHR ''f'' then read_word ''false'' (JBool False) s
          else read_number s)"

definition read_member :: "string \<Rightarrow> ((string \<times> json) \<times> string) option" where
  "read_member s =
     (case s of
        [] \<Rightarrow> None
      | c # cs \<Rightarrow>
          if c \<noteq> QUOTE then None
          else case read_text cs of
            None \<Rightarrow> None
          | Some (k, r) \<Rightarrow>
              (case skip_blanks r of
                 [] \<Rightarrow> None
               | d # r' \<Rightarrow>
                   if d \<noteq> CHR '':'' then None
                   else map_option (map_prod (Pair k) id) (read_value (skip_blanks r'))))"

lemma skip_blanks_shorter: "length (skip_blanks s) \<le> length s"
  by (simp add: skip_blanks_def length_dropWhile_le)

lemma read_text_shorter: "read_text s = Some (t, r) \<Longrightarrow> length r < length s"
proof (induction s arbitrary: t r rule: read_text.induct)
  case (2 c cs)
  then show ?case by (auto split: if_splits list.splits option.splits nat.splits) fastforce+
qed simp

lemma read_number_shorter: "read_number s = Some (j, r) \<Longrightarrow> length r < length s"
proof -
  have d: "length (dropWhile digit_char t) < length t" if "takeWhile digit_char t \<noteq> []" for t
    using that by (cases t) (auto simp: le_imp_less_Suc length_dropWhile_le split: if_splits)
  assume "read_number s = Some (j, r)"
  then show "length r < length s"
    using d[of s] d[of "tl s"] by (auto simp: read_number_def Let_def split: if_splits option.splits)
qed

lemma read_value_shorter: "read_value s = Some (j, r) \<Longrightarrow> length r < length s"
proof (cases s)
  case (Cons c cs)
  assume "read_value s = Some (j, r)"
  then show ?thesis
    using Cons read_text_shorter[of cs] read_number_shorter[of s]
    by (fastforce simp: read_value_def read_word_def split: if_splits)
qed (simp add: read_value_def)

lemma read_member_shorter:
  assumes "read_member s = Some (kv, r)"
  shows "length r < length s"
proof -
  obtain c cs k r1 d r2 v where "s = c # cs" "read_text cs = Some (k, r1)" "skip_blanks r1 = d # r2"
    "read_value (skip_blanks r2) = Some (v, r)"
    using assms by (auto simp: read_member_def split: list.splits if_splits option.splits)
  then show ?thesis
    using read_text_shorter[of cs k r1] skip_blanks_shorter[of r1] skip_blanks_shorter[of r2] read_value_shorter[of "skip_blanks r2" v r]
    by simp
qed

function read_members :: "string \<Rightarrow> (dict \<times> string) option" where
  "read_members s =
     (case read_member s of
        None \<Rightarrow> None
      | Some (kv, r) \<Rightarrow>
          (case skip_blanks r of
             [] \<Rightarrow> None
           | d # r' \<Rightarrow>
               if d = CHR ''}'' then Some ([kv], r')
               else if d = CHR '','' then map_option (map_prod (Cons kv) id) (read_members (skip_blanks r'))
               else None))"
  by auto
termination
proof (relation "measure length")
  fix s p kv r d r'
  assume "read_member s = Some p" "(kv, r) = p" "skip_blanks r = d # r'"
  then show "(skip_blanks r', s) \<in> measure length"
    using read_member_shorter[of s kv r] skip_blanks_shorter[of r] skip_blanks_shorter[of r'] by simp
qed simp

declare read_members.simps [simp del]

definition dict_of :: "dict \<Rightarrow> dict" where
  "dict_of kvs = foldl (\<lambda>d (k, v). AList.update k v d) [] kvs"

definition loads :: "string \<Rightarrow> json res" where
  "loads s =
     (case skip_blanks s of
        [] \<Rightarrow> Inl (ValueError ''json'')
      | c # cs \<Rightarrow>
          if c \<noteq> CHR ''{'' then Inl (ValueError ''json'')
          else if skip_blanks cs \<noteq> [] \<and> hd (skip_blanks cs) = CHR ''}''
          then (if skip_blanks (tl (skip_blanks cs)) = [] then Inr (JObj []) else Inl (ValueError ''json''))
          else case read_members (skip_blanks cs) of
            None \<Rightarrow> Inl (ValueError ''json'')
          | Some (d, r) \<Rightarrow> if skip_blanks r = [] then Inr (JObj (dict_of d)) else Inl (ValueError ''json''))"

section \<open>Reading back what was printed\<close>

lemma hex_byte: "char_of (16 * (of_char c div 16) + of_char c mod 16 :: nat) = (c :: char)"
  by simp

lemma of_char_small: "(of_char c :: nat) < 256"
  using mod_less_divisor[of 256 "of_char c :: nat"] by simp

lemma short_escape_cases:
  assumes "short_escape c = Some e"
  shows "(c, e) \<in> set [(QUOTE, QUOTE), (BACKSLASH, BACKSLASH), (CHR 0x0A, CHR ''n''), (CHR 0x0D, CHR ''r''), (CHR 0x09, CHR ''t''),
             (CHR 0x08, CHR ''b''), (CHR 0x0C, CHR ''f'')]"
  using assms unfolding short_escape_def by (rule map_of_SomeD)

lemma read_escape: "read_text (json_escape c @ t) = map_option (map_prod (Cons c) id) (read_text t)"
proof (cases "plain_ascii c")
  case True
  then show ?thesis by (simp add: json_escape_def plain_ascii_def)
next
  case False
  show ?thesis
  proof (cases "short_escape c")
    case (Some e)
    then show ?thesis using False short_escape_cases[OF Some] by (auto simp: json_escape_def long_escape_def)
  next
    case None
    have "of_char c div 16 mod 16 = (of_char c div 16 :: nat)"
      using of_char_small[of c] by (intro mod_less) (simp add: less_mult_imp_div_less)
    moreover have "hex_value CHR ''0'' = Some 0" by code_simp
    ultimately show ?thesis using False None hex_byte[of c] by (simp add: json_escape_def hex_digit_value)
  qed
qed

lemma read_printed_text: "read_text (concat (map json_escape s) @ QUOTE # t) = Some (s, t)"
  by (induction s) (simp_all add: read_escape)

lemma digit_char_digit: "digit_char (digit n)" "(of_char (digit n) :: nat) = 48 + nat (n mod 10)"
    "(of_char (digit n) :: int) = 48 + n mod 10"
proof -
  have l: "nat (n mod 10) < 10" by simp
  then show k: "(of_char (digit n) :: nat) = 48 + nat (n mod 10)" by (simp add: digit_def)
  with l show "digit_char (digit n)" by (simp add: digit_char_def)
  have "(of_char (digit n) :: int) = int (of_char (digit n) :: nat)" by (rule of_nat_of_char[symmetric])
  then show "(of_char (digit n) :: int) = 48 + n mod 10" unfolding k by simp
qed

lemma digits_value_snoc:
  "digit_char c \<Longrightarrow> digits_value (s @ [c]) = map_option (\<lambda>n. 10 * n + (of_char c - 48)) (digits_value s)"
  by (simp add: digits_value_def digit_char_def)

lemma nat_text_digits:
  "list_all digit_char (nat_text n) \<and> nat_text n \<noteq> [] \<and> digits_value (nat_text n) = Some (int n)
   \<and> (1 < length (nat_text n) \<longrightarrow> hd (nat_text n) \<noteq> CHR ''0'') \<and> (hd (nat_text n) = CHR ''0'' \<longrightarrow> n = 0)"
proof (induction n rule: nat_text.induct)
  case (1 n)
  show ?case
  proof (cases "n < 10")
    case True
    have z: "digit (int n) = CHR ''0'' \<longleftrightarrow> n = 0"
    proof -
      have "digit (int n) = CHR ''0'' \<longleftrightarrow> (of_char (digit (int n)) :: nat) = of_char CHR ''0''" by (simp only: of_char_eq_iff)
      also have "\<dots> \<longleftrightarrow> n = 0" using True by (simp add: digit_char_digit)
      finally show ?thesis .
    qed
    have "digits_value [digit (int n)] = Some (int n)"
      using digits_value_snoc[OF digit_char_digit(1), of "[]" "int n"] True digit_char_digit(3)[of "int n"]
      by (simp add: digits_value_def)
    with True z show ?thesis by (simp add: nat_text.simps[of n] digit_char_digit)
  next
    case False
    note IH = "1.IH"[OF False]
    have "digits_value (nat_text n) = Some (10 * int (n div 10) + int (n mod 10))"
      using False IH digits_value_snoc[OF digit_char_digit(1), of "nat_text (n div 10)" "int (n mod 10)"]
        digit_char_digit(3)[of "int (n mod 10)"]
      by (simp add: nat_text.simps[of n])
    moreover have "10 * int (n div 10) + int (n mod 10) = int n"
      using mult_div_mod_eq[of 10 n] by (simp only: of_nat_mult of_nat_add of_nat_numeral flip: of_nat_add)
    moreover have "hd (nat_text n) = hd (nat_text (n div 10))" using False IH by (simp add: nat_text.simps[of n])
    moreover have "n div 10 \<noteq> 0" using False by simp
    ultimately show ?thesis using False IH by (simp add: nat_text.simps[of n] digit_char_digit)
  qed
qed

text \<open>A number ends where no digit follows.\<close>

lemma take_digits:
  assumes "list_all digit_char ds" and "t = [] \<or> \<not> digit_char (hd t)"
  shows "takeWhile digit_char (ds @ t) = ds \<and> dropWhile digit_char (ds @ t) = t"
  using assms by (induction ds) (cases t; auto)+

lemma read_digits:
  assumes "t = [] \<or> \<not> digit_char (hd t)"
  shows "read_number (nat_text k @ t) = Some (JInt (int k), t)"
    and "read_number (CHR ''-'' # nat_text k @ t) = Some (JInt (- int k), t)"
proof -
  define ds where "ds = nat_text k"
  have ds: "list_all digit_char ds" "ds \<noteq> []" "digits_value ds = Some (int k)" "1 < length ds \<longrightarrow> hd ds \<noteq> CHR ''0''"
    using nat_text_digits[of k] by (simp_all add: ds_def)
  have m: "\<not> digit_char CHR ''-''" by (simp add: digit_char_def)
  with ds(1,2) have "hd ds \<noteq> CHR ''-''" by (cases ds) auto
  then show "read_number (nat_text k @ t) = Some (JInt (int k), t)"
    using ds take_digits[OF ds(1) assms] by (auto simp: read_number_def Let_def ds_def[symmetric])
  show "read_number (CHR ''-'' # nat_text k @ t) = Some (JInt (- int k), t)"
    using ds take_digits[OF ds(1) assms] by (auto simp: read_number_def Let_def ds_def[symmetric])
qed

lemma read_printed_number:
  assumes "t = [] \<or> \<not> digit_char (hd t)"
  shows "read_number (int_text n @ t) = Some (JInt n, t)"
  using read_digits[OF assms, of "nat n"] read_digits[OF assms, of "nat (- n)"]
  by (cases "n < 0") (simp_all add: int_text_def)

lemma int_text_head: "\<exists>c cs. int_text n = c # cs \<and> (digit_char c \<or> c = CHR ''-'')"
proof -
  obtain c cs where c: "nat_text (nat n) = c # cs" "digit_char c"
    using nat_text_digits[of "nat n"] by (cases "nat_text (nat n)") simp_all
  then show ?thesis by (cases "n < 0") (simp_all add: int_text_def)
qed

lemma read_printed_value:
  assumes "flat j" and "t = [] \<or> \<not> digit_char (hd t)"
  shows "read_value (json_value other j @ t) = Some (j, t)"
proof (cases j)
  case (JInt n)
  obtain c cs where c: "int_text n = c # cs" "digit_char c \<or> c = CHR ''-''" using int_text_head by blast
  then have "c \<noteq> QUOTE \<and> c \<noteq> CHR ''n'' \<and> c \<noteq> CHR ''t'' \<and> c \<noteq> CHR ''f''" by (auto simp: digit_char_def)
  with c JInt read_printed_number[OF assms(2), of n] show ?thesis by (simp add: read_value_def)
qed (use assms(1) in \<open>auto simp: flat_def read_value_def read_word_def json_string_def read_printed_text\<close>)

lemma skip_blanks_simps [simp]:
  "skip_blanks [] = []" "skip_blanks (CHR '' '' # s) = skip_blanks s"
  "c \<noteq> CHR '' '' \<and> c \<noteq> CHR 0x09 \<and> c \<noteq> CHR 0x0A \<and> c \<noteq> CHR 0x0D \<Longrightarrow> skip_blanks (c # s) = c # s"
  by (simp_all add: skip_blanks_def)

lemma skip_blanks_value: "flat j \<Longrightarrow> skip_blanks (json_value other j @ t) = json_value other j @ t"
proof (cases j)
  case (JInt n)
  obtain c cs where c: "int_text n = c # cs" "digit_char c \<or> c = CHR ''-''" using int_text_head by blast
  then have "c \<noteq> CHR '' '' \<and> c \<noteq> CHR 0x09 \<and> c \<noteq> CHR 0x0A \<and> c \<noteq> CHR 0x0D" by (auto simp: digit_char_def)
  with c JInt show ?thesis by simp
qed (auto simp: flat_def json_string_def)

lemma read_printed_member:
  assumes "flat v" and "t = [] \<or> \<not> digit_char (hd t)"
  shows "read_member (json_string k @ '': '' @ json_value other v @ t) = Some ((k, v), t)"
  using read_printed_value[OF assms, of other] skip_blanks_value[OF assms(1), of other t]
  by (simp add: read_member_def json_string_def read_printed_text)

lemma printed_members_start: "d \<noteq> [] \<Longrightarrow> \<exists>t. json_members other d = QUOTE # t"
  by (cases "(other, d)" rule: json_members.cases) (auto simp: json_string_def)

lemma read_printed_members:
  assumes "d \<noteq> []" and "\<forall>(k, v) \<in> set d. flat v"
  shows "read_members (json_members other d @ CHR ''}'' # t) = Some (d, t)"
  using assms
proof (induction other d rule: json_members.induct)
  case (2 other k v)
  then have "flat v" by simp
  from read_printed_member[OF this, of "CHR ''}'' # t" k other] show ?case
    by (simp add: read_members.simps[of "json_string k @ _"] digit_char_def)
next
  case (3 other k v x xs)
  let ?r = "json_members other (x # xs) @ CHR ''}'' # t"
  have v: "flat v" and IH: "read_members ?r = Some (x # xs, t)" using 3 by auto
  obtain u where u: "json_members other (x # xs) = QUOTE # u" using printed_members_start[of "x # xs" other] by auto
  have "read_member (json_string k @ '': '' @ json_value other v @ '', '' @ ?r) = Some ((k, v), '', '' @ ?r)"
    by (rule read_printed_member[OF v]) (simp add: digit_char_def)
  moreover have "skip_blanks (CHR '' '' # ?r) = ?r" by (simp add: u)
  ultimately show ?case
    using IH by (simp add: read_members.simps[of "json_string k @ _"])
qed simp

lemma dict_of_distinct:
  assumes "distinct (map fst d)"
  shows "dict_of d = d"
proof -
  have "foldl (\<lambda>d (k, v). AList.update k v d) a d = a @ d" if "distinct (map fst (a @ d))" for a
    using that
  proof (induction d arbitrary: a)
    case (Cons x d)
    obtain k v where x: "x = (k, v)" by (cases x)
    with Cons.prems have "k \<notin> fst ` set a" by auto
    then have "AList.update k v a = a @ [(k, v)]" by (induction a) auto
    with Cons x show ?case by simp
  qed simp
  from this[of "[]"] assms show ?thesis by (simp add: dict_of_def)
qed

text \<open>What \<open>json.dumps\<close> prints of a flat message, \<open>json.loads\<close> reads.\<close>

lemma loads_dumps:
  assumes "distinct (map fst d)" and "\<forall>(k, v) \<in> set d. flat v"
  shows "loads (dumps other d) = Inr (JObj d)"
proof (cases "d = []")
  case False
  then obtain u where u: "json_members other d = QUOTE # u" using printed_members_start by blast
  have "read_members (json_members other d @ ''}'') = Some (d, [])"
    using read_printed_members[OF False assms(2), of other "[]"] by simp
  then show ?thesis by (simp add: loads_def dumps_def u dict_of_distinct[OF assms(1)])
qed (simp add: loads_def dumps_def)

text \<open>Its length, from which the limits of the frames follow.\<close>

definition escaped_length :: "string \<Rightarrow> nat" where
  "escaped_length s = sum_list (map (length \<circ> json_escape) s)"

lemma json_string_length: "length (json_string s) = escaped_length s + 2"
  by (simp add: json_string_def escaped_length_def length_concat comp_def)

lemma json_escape_length: "1 \<le> length (json_escape c) \<and> length (json_escape c) \<le> 6"
  by (simp add: json_escape_def split: option.splits)

lemma escaped_length_le: "(\<And>c. c \<in> set s \<Longrightarrow> length (json_escape c) \<le> k) \<Longrightarrow> escaped_length s \<le> k * length s"
  by (induction s) (simp_all add: escaped_length_def add_mono)

lemma escaped_length_eq: "(\<And>c. c \<in> set s \<Longrightarrow> length (json_escape c) = k) \<Longrightarrow> escaped_length s = k * length s"
  by (induction s) (simp_all add: escaped_length_def)

section \<open>Asking a peer\<close>

text \<open>
  A call opens a connection to a node, sends one frame and reads one: \<open>wire n out\<close> is what comes back from
  node \<open>n\<close> for the bytes \<open>out\<close>, or the error the call ends with (no connection, closed, timeout).
\<close>

definition send_message :: "(json \<Rightarrow> string) \<Rightarrow> dict \<Rightarrow> bytes res" where
  "send_message other d = write_framed [] (map char_byte (dumps other d))"

definition read_message :: "nat \<Rightarrow> bytes \<Rightarrow> json res" where
  "read_message limit inp = rbind (read_framed limit inp) (\<lambda>(p, _). loads (map byte_char p))"

definition LOGS_RESPONSE_MAX :: nat where "LOGS_RESPONSE_MAX = 4194304"

definition fetch_peer_container_logs ::
  "(node_id \<Rightarrow> bool) \<Rightarrow> (json \<Rightarrow> string) \<Rightarrow> engine \<Rightarrow> string \<Rightarrow> string \<Rightarrow> int \<Rightarrow> (node_id \<Rightarrow> bytes \<Rightarrow> bytes res) \<Rightarrow> json res" where
  "fetch_peer_container_logs key_ok other g target cid tail_n wire =
     (if \<not> eg_iroh g then Inl (RuntimeError ''engine not initialized'')
      else case resolve_target (eg_trust g) target of
        Inl err \<Rightarrow> Inl (ValueError (resolve_message err))
      | Inr n \<Rightarrow>
          if \<not> key_ok n then Inl (ValueError ''invalid node_id'')
          else rbind (send_message other [(''cid'', JStr cid), (''tail'', JInt tail_n)]) (\<lambda>out.
                 rbind (wire n out) (read_message LOGS_RESPONSE_MAX)))"

text \<open>The other node: the frame it reads, its handler, the frame it sends.\<close>

definition LOGS_REQUEST_MAX :: nat where "LOGS_REQUEST_MAX = 1024"

definition serve_logs :: "alpn_env \<Rightarrow> (json \<Rightarrow> string) \<Rightarrow> node_state \<Rightarrow> node_id \<Rightarrow> bytes \<Rightarrow> bytes res" where
  "serve_logs env other nd caller inp =
     (case snd (alpn_serve env nd \<lparr>ac_remote = caller, ac_request = Logs (read_message LOGS_REQUEST_MAX inp)\<rparr>) of
        Reply d \<Rightarrow> send_message other d
      | _ \<Rightarrow> Inl (NetworkError ''connection closed''))"

section \<open>Logs from end to end\<close>

lemma ascii_back: "map byte_char (map char_byte s) = s"
  by simp

lemma message_arrives:
  assumes "distinct (map fst d)" and "\<forall>(k, v) \<in> set d. flat v" and "length (dumps other d) < 2 ^ 32"
  shows "\<exists>out. send_message other d = Inr out
    \<and> read_message limit out = (if length (dumps other d) \<le> limit then Inr (JObj d) else Inl (ValueError ''framed payload too large''))"
proof -
  define p where "p = map char_byte (dumps other d)"
  have l: "length p = length (dumps other d)" by (simp add: p_def)
  have out: "send_message other d = Inr (be_bytes 4 (length p) @ p)"
    using assms(3) by (simp add: send_message_def p_def[symmetric] write_framed_Inr l)
  have "read_message limit (be_bytes 4 (length p) @ p)
      = (if length p \<le> limit then Inr (JObj d) else Inl (ValueError ''framed payload too large''))"
  proof (cases "length p \<le> limit")
    case True
    then have "read_framed limit (be_bytes 4 (length p) @ p) = Inr (p, [])"
      using read_framed_frame[of p limit "[]"] assms(3) l by simp
    moreover have "loads (map byte_char p) = Inr (JObj d)"
      unfolding p_def ascii_back by (rule loads_dumps[OF assms(1,2)])
    ultimately show ?thesis using True by (simp add: read_message_def)
  next
    case False
    have "be_value (be_bytes 4 (length p)) = length p" using assms(3) l by (simp add: be_value_be_bytes)
    moreover have "read_exact 4 (be_bytes 4 (length p) @ p) = Inr (be_bytes 4 (length p), p)"
      using read_exact_Inr[of "be_bytes 4 (length p)" p] by simp
    ultimately have "read_framed limit (be_bytes 4 (length p) @ p) = Inl (ValueError ''framed payload too large'')"
      using False by (simp add: read_framed_def)
    then show ?thesis using False by (simp add: read_message_def)
  qed
  with out l show ?thesis by auto
qed

lemma nat_text_length: "n < 10 ^ k \<Longrightarrow> 0 < k \<Longrightarrow> length (nat_text n) \<le> k"
proof (induction n arbitrary: k rule: nat_text.induct)
  case (1 n)
  show ?case
  proof (cases "n < 10")
    case False
    then obtain k' where k: "k = Suc k'" "0 < k'" using "1.prems" by (cases k; cases "k - 1") auto
    with "1.prems" have "n div 10 < 10 ^ k'" by (simp add: less_mult_imp_div_less mult.commute)
    from "1.IH"[OF False this k(2)] False k show ?thesis by (simp add: nat_text.simps[of n])
  qed (use "1.prems" in \<open>simp add: nat_text.simps[of n]\<close>)
qed

lemma ref_char_plain: "ref_char c \<Longrightarrow> length (json_escape c) = 1"
proof -
  have "list_all (\<lambda>c. length (json_escape c) = 1) ''ABCDEFGHIJKLMNOPQRSTUVWXYZabcdefghijklmnopqrstuvwxyz0123456789._-''"
    by code_simp
  then show "ref_char c \<Longrightarrow> length (json_escape c) = 1" unfolding ref_char_def list_all_iff by blast
qed

lemma container_ref_length:
  assumes "container_ref_ok cid"
  shows "escaped_length cid \<le> 260"
proof -
  have "length cid \<le> 129" using assms by (auto simp: container_ref_ok_def)
  have nl: "length (json_escape CHR 0x0A) = 2" by code_simp
  have "length (json_escape c) \<le> 2" if "c \<in> set cid" for c
  proof -
    from assms that have "ref_char c \<or> c = CHR 0x0A"
      unfolding container_ref_ok_def list_all_iff
      by (metis append_butlast_last_id list.distinct(1) list.size(3) not_numeral_le_zero rotate1.simps(2) set_ConsD set_rotate1)
    then show ?thesis using ref_char_plain[of c] nl by auto
  qed
  then have "escaped_length cid \<le> 2 * length cid" by (rule escaped_length_le)
  with \<open>length cid \<le> 129\<close> show ?thesis by simp
qed

lemma logs_request_fits:
  assumes "container_ref_ok cid" and "0 \<le> tail_n" and "tail_n \<le> 200"
  shows "length (dumps other [(''cid'', JStr cid), (''tail'', JInt tail_n)]) \<le> LOGS_REQUEST_MAX"
proof -
  have "nat tail_n < 10 ^ 3" using assms(3) by simp
  from nat_text_length[OF this] have "length (int_text tail_n) \<le> 3" using assms(2) by (simp add: int_text_def)
  moreover have "escaped_length ''cid'' = 3" "escaped_length ''tail'' = 4" by code_simp+
  ultimately show ?thesis
    using container_ref_length[OF assms(1)]
    by (simp add: dumps_def json_string_length LOGS_REQUEST_MAX_def)
qed

lemma logs_answer_length: "length (dumps other [(''logs'', JStr s)]) = escaped_length s + 12"
proof -
  have "escaped_length ''logs'' = 4" by code_simp
  then show ?thesis by (simp add: dumps_def json_string_length)
qed

lemma last_n_length: "length (last_n k s) \<le> k"
  by (simp add: last_n_def)

lemma serve_logs_reply:
  assumes "fst (status_authorize (eg_trust (nd_engine nd)) caller)"
    and "read_message LOGS_REQUEST_MAX inp = Inr (JObj [(''cid'', JStr cid), (''tail'', JInt k)])"
    and "container_ref_ok cid" and "1 \<le> k" and "k \<le> 200" and "ae_docker env = Some ask" and "ask cid k = Inr written"
  shows "serve_logs env other nd caller inp = send_message other [(''logs'', JStr (last_n MAX_LOG_CHARS written))]"
proof -
  have "logs_query (JObj [(''cid'', JStr cid), (''tail'', JInt k)]) = Inr (Some (cid, k))"
    using assms(3-5) by (simp add: logs_query_def need_dict_def dict_simps clamp_tail_def)
  then have "logs_serve (ae_docker env) (ae_show env) (read_message LOGS_REQUEST_MAX inp)
      = Inr [(''logs'', JStr (last_n MAX_LOG_CHARS written))]"
    using assms(2,6,7) by (simp add: logs_serve_def)
  with assms(1) show ?thesis
    by (cases "status_authorize (eg_trust (nd_engine nd)) caller") (simp add: serve_logs_def alpn_serve_def logs_accept_def Let_def)
qed


section \<open>Pulling the dashboard\<close>

text \<open>
  The response holds nested values; it is kept as the value with the length of its text. The relay hint is
  the home relay that the node library has cached for the peer, if it can be asked.
\<close>

definition STATUS_RESPONSE_MAX :: nat where "STATUS_RESPONSE_MAX = 2097152"

definition relay_hint :: "bool \<Rightarrow> string option res \<Rightarrow> string option" where
  "relay_hint prefer info =
     (if prefer then (case info of Inr (Some u) \<Rightarrow> if u = [] then None else Some u | _ \<Rightarrow> None) else None)"

definition fetch_peer_dashboard ::
  "(node_id \<Rightarrow> bool) \<Rightarrow> engine \<Rightarrow> string \<Rightarrow> int \<Rightarrow> bool \<Rightarrow> (node_id \<Rightarrow> string option res)
   \<Rightarrow> (node_id \<Rightarrow> string option \<Rightarrow> dict \<Rightarrow> (nat \<times> json) res) \<Rightarrow> json res" where
  "fetch_peer_dashboard key_ok g target since prefer_relay info wire =
     (if \<not> eg_iroh g then Inl (RuntimeError ''engine not initialized'')
      else case resolve_target (eg_trust g) target of
        Inl err \<Rightarrow> Inl (ValueError (resolve_message err))
      | Inr n \<Rightarrow>
          if \<not> key_ok n then Inl (ValueError ''invalid node_id'')
          else rbind (wire n (relay_hint prefer_relay (info n)) [(''since_seq'', JInt since)]) (\<lambda>(size, j).
                 if size > STATUS_RESPONSE_MAX then Inl (ValueError ''framed payload too large'') else Inr j))"

definition serve_status :: "alpn_env \<Rightarrow> (dict \<Rightarrow> nat) \<Rightarrow> node_state \<Rightarrow> node_id \<Rightarrow> dict \<Rightarrow> (nat \<times> json) res" where
  "serve_status env text_size nd caller req =
     (case snd (alpn_serve env nd \<lparr>ac_remote = caller, ac_request = Status
              (case int_of_json (dget_default req ''since_seq'' (JInt 0)) of
                 Some k \<Rightarrow> Inr k | None \<Rightarrow> Inl (ValueError ''since_seq''))\<rparr>) of
        Reply d \<Rightarrow> Inr (text_size d, JObj d)
      | _ \<Rightarrow> Inl (NetworkError ''connection closed''))"

text \<open>
  The pull of one peer with its two attempts. A response that is \<open>null\<close> ends the pull; one that is no
  object ends its task with an exception that \<open>gather\<close> collects.
\<close>

definition fetch_end :: "(py_error \<Rightarrow> string) \<Rightarrow> json res \<Rightarrow> fetch_result option" where
  "fetch_end show_error r =
     (case r of
        Inl e \<Rightarrow> Some (FetchFailed (show_error e) (e = TimeoutError))
      | Inr (JObj d) \<Rightarrow> Some (Fetched d)
      | Inr _ \<Rightarrow> None)"

definition pull_peer ::
  "merge_env \<Rightarrow> (py_error \<Rightarrow> string) \<Rightarrow> (bool \<Rightarrow> int \<Rightarrow> json res) \<Rightarrow> engine \<Rightarrow> node_id \<Rightarrow> instant \<Rightarrow> engine" where
  "pull_peer env show_error fetch g n now =
     (let since = (case map_of (eg_devices g) n of None \<Rightarrow> 0 | Some p \<Rightarrow> ps_seq p) in
      case fetch_end show_error (fetch False since) of
        None \<Rightarrow> g
      | Some (Fetched d) \<Rightarrow> pull_one_peer env g n now (Fetched d) (Fetched d)
      | Some (FetchFailed m t) \<Rightarrow>
          if transient_error m t then
            (case fetch_end show_error (fetch True since) of
               None \<Rightarrow> g
             | Some r \<Rightarrow> pull_one_peer env g n now (FetchFailed m t) r)
          else pull_one_peer env g n now (FetchFailed m t) (FetchFailed m t))"

lemma merge_live_devices [simp]: "eg_devices (merge_live env g n now own) = eg_devices g"
  by (simp add: merge_live_def split: option.splits json.splits)

lemma pulled_device:
  assumes "map_of (eg_devices g) n = Some p" and "fetch False (ps_seq p) = Inr (JObj resp)"
    and "dget resp ''entries'' = JArr es" and "dget resp ''latest_seq'' = JInt k"
  shows "\<exists>p'. map_of (eg_devices (pull_peer env show_error fetch g n now)) n = Some p'
    \<and> ps_stats_history p' = foldl (deque_push STATS_HISTORY_MAXLEN) (ps_stats_history p) es
    \<and> ps_seq p' = k \<and> ps_pull_failures p' = 0 \<and> \<not> ps_gap p'"
proof -
  obtain p' where p': "apply_pull resp p = (p', Inr ())"
    "ps_stats_history p' = foldl (deque_push STATS_HISTORY_MAXLEN) (ps_stats_history p) es"
    "ps_seq p' = k" "ps_pull_failures p' = 0" "\<not> ps_gap p'"
    using assms(3,4) by (cases "es = []") (auto simp: apply_pull_def py_or_def Let_def)
  have "pull_peer env show_error fetch g n now = pull_one_peer env g n now (Fetched resp) (Fetched resp)"
    using assms(1,2) by (simp add: pull_peer_def fetch_end_def)
  also have "\<dots> = merge_live env (g\<lparr>eg_devices := AList.update n p' (eg_devices g)\<rparr>) n now (dget resp ''own_stats'')"
    using assms(1) p'(1) by (simp add: pull_one_peer_def pull_response_def)
  finally show ?thesis using p' by (intro exI[of _ p']) (simp add: update_conv')
qed

lemma served_status:
  assumes "fst (status_authorize (eg_trust (nd_engine nd)) caller)"
  shows "serve_status env text_size nd caller [(''since_seq'', JInt k)]
    = Inr (text_size (status_response (nd_engine nd) k), JObj (status_response (nd_engine nd) k))"
  using assms
  by (cases "status_authorize (eg_trust (nd_engine nd)) caller")
    (simp add: serve_status_def alpn_serve_def status_accept_def Let_def dict_simps)


section \<open>Pushing\<close>

text \<open>A push opens a connection and closes it; nothing that happens to it gets out.\<close>

datatype push_result = PushedTo "nat option" | PushFailed py_error | BadTarget

definition push_to :: "(node_id \<Rightarrow> bool) \<Rightarrow> (node_id \<Rightarrow> nat res) \<Rightarrow> node_id \<Rightarrow> push_result" where
  "push_to key_ok connect n =
     (if \<not> key_ok n then BadTarget
      else case connect n of
        Inl e \<Rightarrow> PushFailed e
      | Inr us \<Rightarrow> PushedTo (if us = 0 then None else Some us))"

definition run_push_cycle ::
  "(node_id \<Rightarrow> bool) \<Rightarrow> (node_id \<Rightarrow> nat res) \<Rightarrow> engine \<Rightarrow> node_id list \<Rightarrow> (node_id \<times> push_result) list" where
  "run_push_cycle key_ok connect g targets =
     (if \<not> eg_iroh g \<or> targets = [] then [] else map (\<lambda>n. (n, push_to key_ok connect n)) targets)"

lemma push_cycle_tries_all:
  assumes "eg_iroh g"
  shows "map fst (run_push_cycle key_ok connect g targets) = targets"
    and "(n, r) \<in> set (run_push_cycle key_ok connect g targets) \<Longrightarrow> r = push_to key_ok connect n"
  using assms by (auto simp: run_push_cycle_def comp_def split: if_splits)

section \<open>The log of network paths\<close>

text \<open>The kind of connection as the node library tells it.\<close>

datatype conn_type = Direct string | Relay string | Mixed string string | NoConn

definition path_signature :: "conn_type \<Rightarrow> string \<times> string" where
  "path_signature ct =
     (case ct of
        Direct a \<Rightarrow> (''direct'', ''direct (hole-punched) '' @ a)
      | Relay u \<Rightarrow> (''relay'', ''relay '' @ u)
      | Mixed a u \<Rightarrow> (''mixed'', ''mixed  direct='' @ a @ ''  relay='' @ u)
      | NoConn \<Rightarrow> (''none'', ''none''))"

datatype path_line = PathSwitched string string | PathVia string | PathNone | PathUnknown | PathError py_error

text \<open>\<open>_last_known_path\<close> is the map; the result is the lines logged.\<close>

definition log_conn_type ::
  "(node_id \<rightharpoonup> string) \<Rightarrow> node_id \<Rightarrow> conn_type option res \<Rightarrow> (node_id \<rightharpoonup> string) \<times> path_line list" where
  "log_conn_type known n info =
     (case info of
        Inl e \<Rightarrow> (known, [PathError e])
      | Inr None \<Rightarrow> (known, [PathUnknown])
      | Inr (Some ct) \<Rightarrow>
          (case path_signature ct of (short, desc) \<Rightarrow>
             if short = ''none'' then (known, [PathNone])
             else (known(n \<mapsto> desc),
                   (case known n of
                      Some prev \<Rightarrow> if prev \<noteq> desc then [PathSwitched prev desc] else []
                    | None \<Rightarrow> []) @ [PathVia desc])))"

text \<open>
  Over a run of looks at peers, a switch of path is told exactly when a peer is seen on another path
  than it was last seen on; looks that fail or find no connection in between do not matter.
\<close>

definition seen_paths :: "node_id \<Rightarrow> (node_id \<times> conn_type option res) list \<Rightarrow> string list" where
  "seen_paths n looks =
     List.map_filter (\<lambda>(m, info). case info of
        Inr (Some ct) \<Rightarrow> if m = n \<and> ct \<noteq> NoConn then Some (snd (path_signature ct)) else None
      | _ \<Rightarrow> None) looks"

definition run_looks :: "(node_id \<times> conn_type option res) list \<Rightarrow> (node_id \<rightharpoonup> string)" where
  "run_looks looks = foldl (\<lambda>known (n, info). fst (log_conn_type known n info)) Map.empty looks"

lemma short_none: "fst (path_signature ct) = ''none'' \<longleftrightarrow> ct = NoConn"
  by (cases ct) (simp_all add: path_signature_def)

lemma look_step:
  "fst (log_conn_type known m info) n =
     (case info of
        Inr (Some ct) \<Rightarrow> if m = n \<and> ct \<noteq> NoConn then Some (snd (path_signature ct)) else known n
      | _ \<Rightarrow> known n)"
  by (auto simp: log_conn_type_def prod.case_eq_if short_none split: sum.splits option.splits)

lemma seen_paths_snoc:
  "seen_paths n (looks @ [(m, info)]) = seen_paths n looks @
     (case info of Inr (Some ct) \<Rightarrow> if m = n \<and> ct \<noteq> NoConn then [snd (path_signature ct)] else [] | _ \<Rightarrow> [])"
  by (simp add: seen_paths_def map_filter_def split: sum.splits option.splits)

lemma run_looks_last: "run_looks looks n = (if seen_paths n looks = [] then None else Some (last (seen_paths n looks)))"
proof (induction looks rule: rev_induct)
  case (snoc x looks)
  obtain m info where x: "x = (m, info)" by (cases x)
  have "run_looks (looks @ [x]) n = fst (log_conn_type (run_looks looks) m info) n" by (simp add: run_looks_def x)
  then show ?case unfolding x look_step seen_paths_snoc using snoc by (cases info) (auto split: option.splits)
qed (simp add: run_looks_def seen_paths_def map_filter_def)

lemma switches_told:
  assumes "ct \<noteq> NoConn"
  shows "PathSwitched prev desc \<in> set (snd (log_conn_type (run_looks looks) n (Inr (Some ct))))
    \<longleftrightarrow> seen_paths n looks \<noteq> [] \<and> prev = last (seen_paths n looks) \<and> desc = snd (path_signature ct) \<and> prev \<noteq> desc"
  using assms short_none[of ct] run_looks_last[of looks n]
  by (auto simp: log_conn_type_def split: prod.splits option.splits)

section \<open>Two nodes\<close>

definition demo_caller :: engine where
  "demo_caller = (new_engine ''p'' demo_mgr \<lparr>hs_probes = [], hs_retain_days = 30\<rparr> None 3 1 60 5 60)
     \<lparr>eg_iroh := True, eg_devices := [(demo_id, (new_peer_state \<lparr>pe_node_id = demo_id, pe_alias = None\<rparr>)\<lparr>ps_seq := 2\<rparr>)]\<rparr>"

definition demo_peer_node :: node_state where
  "demo_peer_node = \<lparr>nd_engine = demo_engine\<lparr>eg_logstore := Some (record_snapshots demo_ls [(usec 1700000020, demo_snap 30)])\<rparr>,
     nd_shell = demo_shell\<rparr>"

definition demo_peer_env :: "string \<Rightarrow> alpn_env" where
  "demo_peer_env s = \<lparr>ae_crypto = demo_crypto, ae_size = (\<lambda>_. 0), ae_docker = Some (\<lambda>_ _. Inr s), ae_show = (\<lambda>_. [])\<rparr>"

lemma demo_call:
  "eg_iroh demo_caller" "resolve_target (eg_trust demo_caller) demo_id = Inr demo_id"
  "fst (status_authorize (eg_trust (nd_engine demo_peer_node)) (eg_node_id demo_caller))"
proof -
  have "validate_node_id demo_id" by code_simp
  then show "resolve_target (eg_trust demo_caller) demo_id = Inr demo_id" by (simp add: resolve_target_def)
  show "eg_iroh demo_caller" by (simp add: demo_caller_def)
  show "fst (status_authorize (eg_trust (nd_engine demo_peer_node)) (eg_node_id demo_caller))"
    by (simp add: status_authorize_split authorize_split demo_peer_node_def demo_engine_def demo_caller_def new_engine_def
        demo_watch_mgr_def demo_mgr_def)
qed



end
