(* ===== verification/Tui.thy ===== *)
theory Tui
  imports Cli Webapp
begin

text \<open>
  The terminal dashboard (tui.py): the text helpers, the three modals that change the trust store, and the
  screen that is rebuilt every two seconds. The widgets are outside: the screen is the data that is put
  into them. Markup is a list of coloured texts; the glyphs of badges, bars and sparklines are constructors.
\<close>

section \<open>Text\<close>

datatype colour = Accent | Accent2 | Teal | Red | Bright | Primary | Muted | Dim | Faint

type_synonym span = "colour \<times> string"

text \<open>A cell of a sparkline: a gap, a shade, or one of eight blocks.\<close>

datatype spark_cell = SparkGap | SparkShade | SparkBlock int

definition tui_sparkline :: "nat \<Rightarrow> (rat option \<times> peer_status) list \<Rightarrow> spark_cell list" where
  "tui_sparkline width records =
     (let recent = last_n width records;
          rtts = [x. (Some x, _) \<leftarrow> recent, 0 < x] in
      if rtts = [] then replicate (length recent) SparkGap
      else
        (let hi = Max (set rtts); lo = Min (set rtts); extent = (if lo < hi then hi - lo else 1) in
         map (\<lambda>(rtt, st).
           if st = UNREACHABLE then SparkShade
           else case rtt of
             Some x \<Rightarrow> if st \<noteq> ALIVE then SparkGap else SparkBlock (min 7 (max 0 (py_int ((x - lo) / extent * 7))))
           | None \<Rightarrow> SparkGap) recent))"

text \<open>The filled and the empty part of a bar.\<close>

definition block_bar :: "nat \<Rightarrow> rat \<Rightarrow> nat \<times> nat" where
  "block_bar width pct =
     (let filled = nat (max 0 (min (int width) (round_half_even (pct / 100 * of_nat width)))) in
      (filled, width - filled))"

text \<open>\<open>f"{x:.kf}"\<close>\<close>

definition fixed_text :: "nat \<Rightarrow> rat \<Rightarrow> string" where
  "fixed_text k x =
     (let s = nat_text (nat \<bar>round_half_even (x * 10 ^ k)\<bar>);
          p = replicate (Suc k - length s) (CHR ''0'') @ s in
      (if x < 0 then ''-'' else []) @ take (length p - k) p @ ''.'' @ drop (length p - k) p)"

definition pad_left :: "nat \<Rightarrow> string \<Rightarrow> string" where
  "pad_left n s = replicate (n - length s) (CHR '' '') @ s"

definition pad_right :: "nat \<Rightarrow> string \<Rightarrow> string" where
  "pad_right n s = s @ replicate (n - length s) (CHR '' '')"

definition fmt_bytes_short :: "int \<Rightarrow> string" where
  "fmt_bytes_short n =
     (case [(u, d) \<leftarrow> [(''T'', 2 ^ 40), (''G'', 2 ^ 30), (''M'', 2 ^ 20), (''K'', 2 ^ 10)]. d \<le> n] of
        (u, d) # _ \<Rightarrow> fixed_text 1 (of_int n / of_int d) @ u
      | [] \<Rightarrow> int_text n @ ''B'')"

definition format_uptime :: "instant \<Rightarrow> instant \<Rightarrow> string" where
  "format_uptime boot now =
     (let total = py_int (of_int (now - boot) / 1000000); hours = total div 3600; rest = total mod 3600 in
      if 0 < hours then int_text hours @ ''h '' @ int_text (rest div 60) @ ''m''
      else int_text (rest div 60) @ ''m '' @ int_text (rest mod 60) @ ''s'')"

text \<open>
  The age of a log entry. A text that is no time is shown as it is; a time without a zone is read, and
  then cannot be subtracted.
\<close>

definition fmt_rel :: "(json \<Rightarrow> string) \<Rightarrow> instant \<Rightarrow> json \<Rightarrow> string res" where
  "fmt_rel show_json now ts =
     (case fromisoformat ts of
        Inl _ \<Rightarrow> Inr (py_str show_json ts)
      | Inr (Naive _) \<Rightarrow> Inl (TypeError ''can't subtract offset-naive and offset-aware datetimes'')
      | Inr (Aware t) \<Rightarrow> Inr (rel now (Some t)))"

text \<open>The wall clock in IST.\<close>

definition clock_text :: "instant \<Rightarrow> string" where
  "clock_text t =
     (let s = (t div 1000000 + 19800) mod 86400; two = (\<lambda>n. [digit (n div 10), digit n]) in
      two (s div 3600) @ '':'' @ two (s mod 3600 div 60) @ '':'' @ two (s mod 60))"

definition pct_colour :: "rat option \<Rightarrow> colour" where
  "pct_colour v = (case v of None \<Rightarrow> Dim | Some x \<Rightarrow> if 99 \<le> x then Teal else if 95 \<le> x then Accent2 else Red)"

definition fmt_pct :: "rat option \<Rightarrow> string" where
  "fmt_pct v = (case v of None \<Rightarrow> EM_DASH | Some x \<Rightarrow> fixed_text 1 x @ ''%'')"

definition fmt_ms :: "rat option \<Rightarrow> string" where
  "fmt_ms v = (case v of None \<Rightarrow> EM_DASH | Some x \<Rightarrow> fixed_text 2 x @ ''ms'')"

fun sync_colour :: "sync_status \<Rightarrow> colour" where
  "sync_colour LIVE = Teal"
| "sync_colour SYNCING = Accent"
| "sync_colour GAP = Accent2"
| "sync_colour SYNCED = Primary"

definition fmt_sync :: "peer_state \<Rightarrow> span" where
  "fmt_sync p = (sync_colour (ps_sync p), sync_value (ps_sync p))"

section \<open>Modals\<close>

text \<open>A submit closes the modal, or shows an error and leaves it open.\<close>

datatype modal_end = Dismissed | ShowError string

definition tui_parse_time :: "string \<Rightarrow> instant \<Rightarrow> datetime res" where
  "tui_parse_time value anchor =
     (let v = py_strip value in
      if v \<noteq> [] \<and> hd v = CHR ''+'' then
        (case rel_offset v of
           Some (n, u) \<Rightarrow> add_offset anchor (n * u)
         | None \<Rightarrow> if v = ''+0'' \<or> v = ''+0s'' then Inr (Aware anchor) else Inl (ValueError ''invalid relative offset''))
      else case from_iso v of
        None \<Rightarrow> Inl (ValueError ''Invalid isoformat string'')
      | Some d \<Rightarrow> Inr (assume_ist d))"

definition submit_peer ::
  "crypto \<Rightarrow> io_env \<Rightarrow> (node_id \<Rightarrow> bool) \<Rightarrow> instant \<Rightarrow> engine \<Rightarrow> string \<Rightarrow> string \<Rightarrow> string \<Rightarrow> engine \<times> modal_end res" where
  "submit_peer C io key_ok now g nid_raw alias_raw perms_raw =
     (let nid = py_strip nid_raw;
          al = (if py_strip alias_raw = [] then None else Some (py_strip alias_raw));
          perms = py_strip perms_raw in
      if nid = [] then (g, Inr (ShowError ''node_id cannot be empty''))
      else if perms = [] then (g, Inr (ShowError ''select at least one permission''))
      else case add_peer C io key_ok now g nid al (csv_items perms) [] of
        (g', Inl e) \<Rightarrow> (g', Inl e)
      | (g', Inr (Some err)) \<Rightarrow> (g', Inr (if err = [] then Dismissed else ShowError err))
      | (g', Inr None) \<Rightarrow> (g', Inr Dismissed))"

definition set_window ::
  "crypto \<Rightarrow> io_env \<Rightarrow> instant \<Rightarrow> engine \<Rightarrow> node_id \<Rightarrow> string \<Rightarrow> string \<Rightarrow> engine \<times> modal_end res" where
  "set_window C io now g nid start_raw end_raw =
     (let a = py_strip start_raw; b = py_strip end_raw in
      if a = [] \<or> b = [] then (g, Inr (ShowError ''both start and end are required''))
      else case rbind (tui_parse_time a now) (\<lambda>s.
                rbind (tui_parse_time b (case s of Aware t \<Rightarrow> t | Naive t \<Rightarrow> t)) (\<lambda>e. Inr (s, e))) of
        Inl (ValueError m) \<Rightarrow> (g, Inr (ShowError m))
      | Inl e \<Rightarrow> (g, Inl e)
      | Inr (s, e) \<Rightarrow>
          (case dt_le e s of
             Inl x \<Rightarrow> (g, Inl x)
           | Inr True \<Rightarrow> (g, Inr (ShowError ''end must be after start''))
           | Inr False \<Rightarrow>
               (case trust_set_maintenance C io (eg_trust g) nid s e of
                  (m, Inl x) \<Rightarrow> (g\<lparr>eg_trust := m\<rparr>, Inl x)
                | (m, Inr ok) \<Rightarrow>
                    (g\<lparr>eg_trust := m\<rparr>, Inr (if ok then Dismissed else ShowError ''failed to set maintenance'')))))"

definition clear_window :: "crypto \<Rightarrow> io_env \<Rightarrow> engine \<Rightarrow> node_id \<Rightarrow> engine \<times> modal_end res" where
  "clear_window C io g nid =
     (case trust_clear_maintenance C io (eg_trust g) nid of
        (m, Inl e) \<Rightarrow> (g\<lparr>eg_trust := m\<rparr>, Inl e)
      | (m, Inr _) \<Rightarrow> (g\<lparr>eg_trust := m\<rparr>, Inr Dismissed))"

definition save_tags :: "crypto \<Rightarrow> io_env \<Rightarrow> engine \<Rightarrow> node_id \<Rightarrow> string \<Rightarrow> engine \<times> modal_end res" where
  "save_tags C io g nid raw =
     (case trust_set_tags C io (eg_trust g) nid (csv_items (py_strip raw)) of
        (m, Inl e) \<Rightarrow> (g\<lparr>eg_trust := m\<rparr>, Inl e)
      | (m, Inr ok) \<Rightarrow> (g\<lparr>eg_trust := m\<rparr>, Inr (if ok then Dismissed else ShowError ''failed to set tags'')))"

section \<open>The table\<close>

datatype badge = BadgeMaint | BadgeAlive | BadgeDead | BadgeUnreach | BadgeUnknown

definition peer_badge :: "bool \<Rightarrow> peer_status \<Rightarrow> badge" where
  "peer_badge in_maint st =
     (if in_maint then BadgeMaint
      else case st of ALIVE \<Rightarrow> BadgeAlive | DEAD \<Rightarrow> BadgeDead | UNREACHABLE \<Rightarrow> BadgeUnreach | UNKNOWN \<Rightarrow> BadgeUnknown)"

record tui_row =
  tr_num :: nat
  tr_node :: node_id
  tr_alias :: string
  tr_tags :: span
  tr_badge :: badge
  tr_sync :: span
  tr_rtt :: string
  tr_uptime :: span
  tr_seen :: string
  tr_fail :: span

definition maint_now :: "engine \<Rightarrow> instant \<Rightarrow> node_id \<Rightarrow> bool res" where
  "maint_now g now n = (case get_peer (eg_trust g) n of None \<Rightarrow> Inr False | Some tp \<Rightarrow> in_maintenance tp (Aware now))"

definition peer_tags :: "engine \<Rightarrow> node_id \<Rightarrow> string list" where
  "peer_tags g n = (case get_peer (eg_trust g) n of None \<Rightarrow> [] | Some tp \<Rightarrow> tp_tags tp)"

definition last_rtt :: "peer_state \<Rightarrow> rat option" where
  "last_rtt p = (if ps_latency_history p = [] then None else lr_rtt_ms (last (ps_latency_history p)))"

definition table_row :: "engine \<Rightarrow> instant \<Rightarrow> nat \<Rightarrow> peer_state \<Rightarrow> tui_row res" where
  "table_row g now i p =
     (let n = pe_node_id (ps_entry p);
          tags = peer_tags g n;
          pct = uptime_percent (eg_history g) now n (hours_us 24) in
      rbind (maint_now g now n) (\<lambda>in_maint. let b = peer_badge in_maint (ps_status p) in
        Inr \<lparr>tr_num = Suc i, tr_node = n,
             tr_alias = (case pe_alias (ps_entry p) of Some a \<Rightarrow> if a = [] then ''---'' else a | None \<Rightarrow> ''---''),
             tr_tags = (if tags = [] \<or> join_with '','' tags = ''---'' then (Muted, ''---'')
                        else (Accent2, take 18 (join_with '','' tags))),
             tr_badge = b,
             tr_sync = (if b = BadgeMaint \<or> b = BadgeUnknown then (Dim, EM_DASH) else fmt_sync p),
             tr_rtt = (case last_rtt p of None \<Rightarrow> ''---'' | Some x \<Rightarrow> fixed_text 2 x @ ''ms''),
             tr_uptime = (case pct of None \<Rightarrow> (Faint, ''---'')
                          | Some x \<Rightarrow> (pct_colour pct, pad_left 5 (fixed_text 1 x) @ ''%'')),
             tr_seen = (case ps_last_seen p of None \<Rightarrow> ''never'' | Some t \<Rightarrow> clock_text t),
             tr_fail = (if ps_failures p > 0 then (Red, nat_text (ps_failures p)) else (Dim, ''0''))\<rparr>))"

text \<open>The rows that are added before one raises, and the exception.\<close>

fun add_rows :: "engine \<Rightarrow> instant \<Rightarrow> nat \<Rightarrow> peer_state list \<Rightarrow> tui_row list \<times> unit res" where
  "add_rows g now i [] = ([], Inr ())"
| "add_rows g now i (p # ps) =
     (case table_row g now i p of
        Inl e \<Rightarrow> ([], Inl e)
      | Inr r \<Rightarrow> (case add_rows g now (Suc i) ps of (rs, x) \<Rightarrow> (r # rs, x)))"

section \<open>The detail pane\<close>

text \<open>A bucket of the hourly timeline.\<close>

definition hour_colour :: "rat option \<Rightarrow> colour" where
  "hour_colour b =
     (case b of None \<Rightarrow> Faint
      | Some x \<Rightarrow> if 99 \<le> x then Teal else if 95 \<le> x then Accent2 else if 50 \<le> x then Accent else Red)"

text \<open>
  Numbers of a statistics snapshot. The snapshot is what the peer answered: \<open>pct / 100\<close> of what is
  no number raises, and so does a format for numbers.
\<close>

definition need_pct :: "json \<Rightarrow> rat res" where
  "need_pct j = (case as_number j of Some x \<Rightarrow> Inr x | None \<Rightarrow> Inl (TypeError ''unsupported operand type(s) for /''))"

definition need_float :: "json \<Rightarrow> rat res" where
  "need_float j =
     (case as_number j of
        Some x \<Rightarrow> Inr x
      | None \<Rightarrow> (case j of JStr _ \<Rightarrow> Inl (ValueError ''Unknown format code'')
                 | JTime _ \<Rightarrow> Inl (ValueError ''Unknown format code'')
                 | _ \<Rightarrow> Inl (TypeError ''unsupported format string'')))"

datatype sys_line = BarLine string colour "nat \<times> nat" string | LoadLine string string | NoStats

definition sys_bars :: "(json \<Rightarrow> string) \<Rightarrow> dict \<Rightarrow> sys_line list res" where
  "sys_bars show_json snap =
     (let get = (\<lambda>k. dget_default snap k (JNum 0)) in
      rbind (rmap (\<lambda>(label, col, k). rbind (need_pct (get k)) (\<lambda>x. Inr (label, col, x)))
               [(''CPU '', Teal, ''cpu_percent''), (''MEM '', Accent, ''mem_percent''), (''DSK '', Accent2, ''disk_percent'')]) (\<lambda>bars.
      rbind (need_float (dget_default snap ''load_avg_1m'' (JInt 0))) (\<lambda>l1.
      rbind (need_float (dget_default snap ''load_avg_5m'' (JInt 0))) (\<lambda>l5.
        Inr (map (\<lambda>(label, col, x). BarLine label col (block_bar 16 x) (fixed_text 1 x @ ''%'')) bars
             @ [LoadLine (fixed_text 2 l1 @ '' '' @ fixed_text 2 l5)
                  (py_str show_json (dget_default snap ''process_count'' (JStr ''?'')))])))))"

definition need_text :: "json \<Rightarrow> string res" where
  "need_text j = (case j of JStr s \<Rightarrow> Inr s | _ \<Rightarrow> Inl (TypeError ''not subscriptable''))"

text \<open>\<open>f"{x:<n}"\<close>\<close>

definition left_in :: "(json \<Rightarrow> string) \<Rightarrow> nat \<Rightarrow> json \<Rightarrow> string res" where
  "left_in show_json n j =
     (case j of
        JNull \<Rightarrow> Inl (TypeError ''unsupported format string'')
      | JArr _ \<Rightarrow> Inl (TypeError ''unsupported format string'')
      | JObj _ \<Rightarrow> Inl (TypeError ''unsupported format string'')
      | JBool b \<Rightarrow> Inr (pad_right n (if b then ''1'' else ''0''))
      | _ \<Rightarrow> Inr (pad_right n (py_str show_json j)))"

definition container_line :: "(json \<Rightarrow> string) \<Rightarrow> json \<Rightarrow> span list res" where
  "container_line show_json c =
     rbind (need_dict c) (\<lambda>d.
     rbind (need_text (dget_default d ''name'' (JStr ''?''))) (\<lambda>name.
     rbind (need_pct (dget_default d ''mem_usage_bytes'' (JInt 0))) (\<lambda>mem.
     rbind (left_in show_json 10 (dget_default d ''status'' (JStr ''?''))) (\<lambda>st.
     rbind (need_float (dget_default d ''cpu_percent'' (JInt 0))) (\<lambda>cpu.
       Inr [(if dget d ''status'' = JStr ''running'' then Teal else if dget d ''health'' = JStr ''unhealthy'' then Red else Dim, ''*''),
            (Bright, pad_right 16 (take 16 name)), (Dim, st),
            (Muted, ''cpu='' @ fixed_text 1 cpu @ ''% mem='' @ int_text \<lfloor>mem / 1048576\<rfloor> @ ''M'')])))))"

definition reason_text :: "nat \<Rightarrow> json \<Rightarrow> string res" where
  "reason_text k j = (if truthy j then rbind (need_text j) (\<lambda>s. Inr (take k s)) else Inr [])"

definition event_colour :: "log_entry \<Rightarrow> colour" where
  "event_colour e = (if le_type e = ''monitor_up'' then Teal else Red)"

definition event_line :: "(json \<Rightarrow> string) \<Rightarrow> instant \<Rightarrow> log_entry \<Rightarrow> span list res" where
  "event_line show_json now e =
     rbind (fmt_rel show_json now (le_timestamp e)) (\<lambda>age.
     rbind (reason_text 30 (dget_default (le_data e) ''reason'' (JStr []))) (\<lambda>why.
       Inr ([(Faint, ''#'' @ int_text (le_seq e)), (Muted, age), (event_colour e, le_type e),
             (Bright, ''count='' @ py_str show_json (dget_default (le_data e) ''consecutive_count'' (JStr EM_DASH)))]
            @ (if why = [] then [] else [(Muted, why)]))))"

record detail =
  dl_header :: "span list"
  dl_tags :: "span list"
  dl_sync :: "span list"
  dl_uptime :: "(string \<times> span) list"
  dl_hourly :: "colour list"
  dl_spark :: "spark_cell list"
  dl_rtt :: "(string \<times> string) list"
  dl_bars :: "sys_line list"
  dl_containers :: "span list list"
  dl_events :: "span list list"

definition no_detail :: detail where
  "no_detail = \<lparr>dl_header = [], dl_tags = [], dl_sync = [], dl_uptime = [], dl_hourly = [], dl_spark = [],
     dl_rtt = [], dl_bars = [], dl_containers = [], dl_events = []\<rparr>"

text \<open>The system block: nothing when it is switched off, a note when the peer has sent none.\<close>

definition system_bars :: "(json \<Rightarrow> string) \<Rightarrow> bool \<Rightarrow> peer_state \<Rightarrow> sys_line list res" where
  "system_bars show_json show_stats p =
     (if \<not> show_stats then Inr []
      else case ps_last_stats p of
        None \<Rightarrow> Inr [NoStats]
      | Some j \<Rightarrow> if \<not> truthy j then Inr [NoStats] else rbind (need_dict j) (sys_bars show_json))"

definition system_containers :: "(json \<Rightarrow> string) \<Rightarrow> bool \<Rightarrow> peer_state \<Rightarrow> span list list res" where
  "system_containers show_json show_stats p =
     (if show_stats \<and> (case ps_last_stats p of None \<Rightarrow> False | Some j \<Rightarrow> truthy j)
      then rmap (container_line show_json) (take 8 (ps_containers p)) else Inr [])"

definition badge_text :: "badge \<Rightarrow> span" where
  "badge_text b =
     (case b of BadgeMaint \<Rightarrow> (Accent, ''MAINT'') | BadgeAlive \<Rightarrow> (Teal, ''ALIVE'') | BadgeDead \<Rightarrow> (Red, ''DEAD'')
      | BadgeUnreach \<Rightarrow> (Accent2, ''UNREACHABLE'') | BadgeUnknown \<Rightarrow> (Dim, ''UNKNOWN''))"

definition ascii_upper :: "char \<Rightarrow> char" where
  "ascii_upper c = (if 97 \<le> (of_char c :: nat) \<and> (of_char c :: nat) \<le> 122 then char_of ((of_char c :: nat) - 32) else c)"

text \<open>The part of the pane above the system block; nothing in it raises.\<close>

definition detail_head :: "engine \<Rightarrow> instant \<Rightarrow> bool \<Rightarrow> peer_state \<Rightarrow> detail \<Rightarrow> detail" where
  "detail_head g now in_maint p d =
     (let n = pe_node_id (ps_entry p); h = eg_history g; tags = peer_tags g n; r = rtt_stats h now n 24 in
      d\<lparr>dl_header := [(Bright, case pe_alias (ps_entry p) of Some a \<Rightarrow> if a = [] then ''---'' else a | None \<Rightarrow> ''---''),
                      (Muted, take 20 n @ ''...''), badge_text (peer_badge in_maint (ps_status p))],
        dl_tags := (if tags = [] then [(Dim, ''no tags'')] else [(Accent2, join_with '', '' tags)]),
        dl_sync := apsnd (map ascii_upper) (fmt_sync p)
           # (case ps_last_sync p of None \<Rightarrow> [] | Some t \<Rightarrow> [(Dim, ''last sync '' @ rel now (Some t))]),
        dl_uptime := map (\<lambda>(label, w). let v = uptime_percent h now n w in (label, pct_colour v, fmt_pct v))
           [(''1h'', hours_us 1), (''24h'', hours_us 24), (''7d'', days_us 7), (''30d'', days_us 30)],
        dl_hourly := map hour_colour (hourly_uptime_buckets h now n 24),
        dl_spark := tui_sparkline 48 (map (\<lambda>r. (pw_rtt r, pw_status r)) (recent_rows h now n 24 None)),
        dl_rtt := [(''now'', fmt_ms (last_rtt p)), (''min'', fmt_ms (rs_min r)), (''max'', fmt_ms (rs_max r)), (''avg'', fmt_ms (rs_avg r))]\<rparr>)"

definition detail_events :: "(json \<Rightarrow> string) \<Rightarrow> engine \<Rightarrow> instant \<Rightarrow> node_id \<Rightarrow> span list list res" where
  "detail_events show_json g now n =
     rbind (rmap (event_line show_json now) (rev (last_n 5 (monitor_events (tm_log (eg_trust g)) (Some n))))) (\<lambda>evs.
       Inr (if evs = [] then [[(Dim, ''no transitions'')]] else evs))"

text \<open>The widgets are filled one after the other; what was filled before an exception stays.\<close>

definition fill_detail ::
  "(json \<Rightarrow> string) \<Rightarrow> engine \<Rightarrow> instant \<Rightarrow> bool \<Rightarrow> peer_state \<Rightarrow> detail \<Rightarrow> detail \<times> unit res" where
  "fill_detail show_json g now show_stats p d =
     (case maint_now g now (pe_node_id (ps_entry p)) of
        Inl e \<Rightarrow> (d, Inl e)
      | Inr in_maint \<Rightarrow>
          (let d1 = detail_head g now in_maint p d in
           case system_bars show_json show_stats p of
             Inl e \<Rightarrow> (d1, Inl e)
           | Inr bars \<Rightarrow>
               (let d2 = d1\<lparr>dl_bars := bars\<rparr> in
                case system_containers show_json show_stats p of
                  Inl e \<Rightarrow> (d2, Inl e)
                | Inr cs \<Rightarrow>
                    (let d3 = d2\<lparr>dl_containers := cs\<rparr> in
                     case detail_events show_json g now (pe_node_id (ps_entry p)) of
                       Inl e \<Rightarrow> (d3, Inl e)
                     | Inr evs \<Rightarrow> (d3\<lparr>dl_events := evs\<rparr>, Inr ())))))"

section \<open>The screen\<close>

text \<open>One line of the feed of transitions of all peers.\<close>

definition feed_peer :: "engine \<Rightarrow> json \<Rightarrow> string res" where
  "feed_peer g nid =
     (if \<not> hashable nid then Inl (TypeError ''unhashable type'')
      else case (case nid of JStr s \<Rightarrow> (case alias_by_nid (tm_store (eg_trust g)) s of Some (Some a) \<Rightarrow> a | _ \<Rightarrow> []) | _ \<Rightarrow> []) of
        c # cs \<Rightarrow> Inr (c # cs)
      | [] \<Rightarrow> if truthy nid then rbind (need_text nid) (\<lambda>s. Inr (take 12 s @ ''...'')) else Inr EM_DASH)"

definition feed_row :: "(json \<Rightarrow> string) \<Rightarrow> engine \<Rightarrow> instant \<Rightarrow> log_entry \<Rightarrow> span list res" where
  "feed_row show_json g now e =
     rbind (fmt_rel show_json now (le_timestamp e)) (\<lambda>age.
     rbind (feed_peer g (dget (le_data e) ''node_id'')) (\<lambda>peer.
     rbind (reason_text 24 (dget_default (le_data e) ''reason'' (JStr []))) (\<lambda>why.
       Inr [(Faint, ''#'' @ int_text (le_seq e)), (Muted, age), (event_colour e, le_type e), (Bright, peer),
            (Bright, py_str show_json (dget_default (le_data e) ''consecutive_count'' (JStr EM_DASH))),
            (Muted, if why = [] then EM_DASH else why)])))"

record tui =
  tu_devices :: "peer_state list"
  tu_snapshot :: "snapshot option"
  tu_show :: bool
  tu_rows :: "tui_row list"
  tu_section :: "nat \<times> nat \<times> nat"
  tu_cursor :: nat
  tu_detail :: detail
  tu_feed :: "span list list"

definition new_tui :: tui where
  "new_tui = \<lparr>tu_devices = [], tu_snapshot = None, tu_show = True, tu_rows = [], tu_section = (0, 0, 0),
     tu_cursor = 0, tu_detail = no_detail, tu_feed = []\<rparr>"

definition selected_row :: "tui \<Rightarrow> nat option" where
  "selected_row t = (if tu_cursor t < length (tu_devices t) then Some (tu_cursor t) else None)"

text \<open>The tiles of the top strip: label, value, colour of the value, remark.\<close>

definition stat_tiles :: "engine \<Rightarrow> nat \<Rightarrow> snapshot \<Rightarrow> (string \<times> string \<times> colour \<times> string) list" where
  "stat_tiles g interval s =
     (let avg = dsn_avg_uptime s in
      [(''MONITOR'', nat_text (dsn_targets s), Bright, nat_text (dsn_peers_total s) @ '' peers''),
       (''ALIVE'', nat_text (dsn_alive s), Teal, if dsn_dead s \<noteq> 0 then nat_text (dsn_dead s) @ '' dead'' else ''all ok''),
       (''DEAD'', nat_text (dsn_dead s), if 0 < dsn_dead s then Red else Dim, EM_DASH),
       (''MAINT'', nat_text (dsn_maintenance s), if dsn_maintenance s \<noteq> 0 then Accent else Dim, EM_DASH),
       (''AVG UPTIME 24H'', case avg of None \<Rightarrow> EM_DASH | Some x \<Rightarrow> fixed_text 2 x @ ''%'',
          case avg of None \<Rightarrow> Red | Some x \<Rightarrow> if 99 \<le> x then Teal else if 95 \<le> x then Accent2 else Red, ''across peers''),
       (''PROBES 24H'', nat_text (dsn_probes_24h s), Bright, nat_text interval @ ''s interval''),
       (''EVENTS 24H'', nat_text (dsn_events_24h s), if 0 < dsn_events_24h s then Accent else Dim, ''monitor_up/_down''),
       (''NODE'', take 14 (dsn_node s) @ ''...'', Accent,
          nat_text (eg_down_after g) @ '' '' @ nat_text (eg_up_after g) @ '' dwell '' @ nat_text (eg_flap_dwell g) @ ''s'')])"

definition refresh_table :: "engine \<Rightarrow> instant \<Rightarrow> tui \<Rightarrow> tui \<times> unit res" where
  "refresh_table g now t =
     (let devices = get_device_states g; t1 = t\<lparr>tu_devices := devices, tu_cursor := 0\<rparr> in
      case add_rows g now 0 devices of
        (rows, Inl e) \<Rightarrow> (t1\<lparr>tu_rows := rows\<rparr>, Inl e)
      | (rows, Inr _) \<Rightarrow>
          let n = (\<lambda>b. length [r \<leftarrow> rows. tr_badge r = b]) in
          (t1\<lparr>tu_rows := rows,
              tu_section := (n BadgeAlive, n BadgeDead, n BadgeUnreach + n BadgeUnknown),
              tu_cursor := (if rows = [] then 0 else if length rows \<le> tu_cursor t then length rows - 1 else tu_cursor t)\<rparr>, Inr ()))"

text \<open>Without a selection the header is set and then cleared with everything else.\<close>

definition refresh_detail :: "(json \<Rightarrow> string) \<Rightarrow> engine \<Rightarrow> instant \<Rightarrow> tui \<Rightarrow> tui \<times> unit res" where
  "refresh_detail show_json g now t =
     (case selected_row t of
        None \<Rightarrow> (t\<lparr>tu_detail := no_detail\<rparr>, Inr ())
      | Some i \<Rightarrow>
          (case fill_detail show_json g now (tu_show t) (tu_devices t ! i) (tu_detail t) of
             (d, r) \<Rightarrow> (t\<lparr>tu_detail := d\<rparr>, r)))"

text \<open>The lines that are added before one raises, and the exception.\<close>

fun add_feed :: "(json \<Rightarrow> string) \<Rightarrow> engine \<Rightarrow> instant \<Rightarrow> log_entry list \<Rightarrow> span list list \<times> unit res" where
  "add_feed show_json g now [] = ([], Inr ())"
| "add_feed show_json g now (e # es) =
     (case feed_row show_json g now e of
        Inl x \<Rightarrow> ([], Inl x)
      | Inr r \<Rightarrow> (case add_feed show_json g now es of (rs, x) \<Rightarrow> (r # rs, x)))"

definition refresh_feed :: "(json \<Rightarrow> string) \<Rightarrow> engine \<Rightarrow> instant \<Rightarrow> tui \<Rightarrow> tui \<times> unit res" where
  "refresh_feed show_json g now t =
     (case add_feed show_json g now (rev (last_n 10 (monitor_events (tm_log (eg_trust g)) None))) of
        (rows, r) \<Rightarrow> (t\<lparr>tu_feed := rows\<rparr>, r))"

definition refresh_all :: "(json \<Rightarrow> string) \<Rightarrow> snapshot res \<Rightarrow> engine \<Rightarrow> instant \<Rightarrow> tui \<Rightarrow> tui \<times> unit res" where
  "refresh_all show_json snap g now t =
     (case refresh_table g now (t\<lparr>tu_snapshot := (case snap of Inl _ \<Rightarrow> None | Inr s \<Rightarrow> Some s)\<rparr>) of
        (t1, Inl e) \<Rightarrow> (t1, Inl e)
      | (t1, Inr _) \<Rightarrow>
          (case refresh_detail show_json g now t1 of
             (t2, Inl e) \<Rightarrow> (t2, Inl e)
           | (t2, Inr _) \<Rightarrow> refresh_feed show_json g now t2))"

text \<open>A key that opens a modal: the peer it is for, or a note that none is selected.\<close>

definition modal_target :: "tui \<Rightarrow> node_id option" where
  "modal_target t = map_option (\<lambda>i. pe_node_id (ps_entry (tu_devices t ! i))) (selected_row t)"

section \<open>Bars and sparklines\<close>

lemma block_bar_full: "fst (block_bar w x) + snd (block_bar w x) = w"
  by (simp add: block_bar_def Let_def)

lemma block_bar_ends: "block_bar w 0 = (0, w)" "100 \<le> x \<Longrightarrow> block_bar w x = (w, 0)"
proof -
  show "block_bar w 0 = (0, w)" by (simp add: block_bar_def round_half_even_def)
  assume "100 \<le> x"
  then have "of_nat w \<le> x / 100 * of_nat w" using mult_right_mono[of 1 "x / 100" "of_nat w"] by simp
  then have "int w \<le> \<lfloor>x / 100 * of_nat w\<rfloor>" by (simp add: le_floor_iff)
  then have "int w \<le> round_half_even (x / 100 * of_nat w)" by (simp add: round_half_even_def Let_def)
  then show "block_bar w x = (w, 0)" by (simp add: block_bar_def)
qed

lemma sparkline_shape:
  "length (tui_sparkline w rs) = min w (length rs)"
  "SparkBlock k \<in> set (tui_sparkline w rs) \<Longrightarrow> 0 \<le> k \<and> k \<le> 7"
  by (auto simp: tui_sparkline_def last_n_def Let_def split: if_splits option.splits)

text \<open>Without any round-trip time an unreachable peer is drawn as a gap, not as a shade.\<close>

lemma unreachable_drawn_as_gap:
  assumes "\<forall>(r, s) \<in> set rs. r = None"
  shows "SparkShade \<notin> set (tui_sparkline w rs)"
proof -
  have "[x. (Some x, _) \<leftarrow> last_n w rs, 0 < x] = []"
    using assms by (auto simp: last_n_def concat_eq_Nil_conv dest!: in_set_dropD split: option.splits)
  then show ?thesis by (simp add: tui_sparkline_def Let_def)
qed

section \<open>Modals act like commands\<close>

lemma py_strip_blank:
  "py_space x \<Longrightarrow> py_strip (x # s) = py_strip s"
  "py_space x \<Longrightarrow> py_strip (s @ [x]) = py_strip s"
proof -
  show "py_space x \<Longrightarrow> py_strip (x # s) = py_strip s" by (simp add: py_strip_def)
  assume x: "py_space x"
  show "py_strip (s @ [x]) = py_strip s"
  proof (cases "\<forall>y \<in> set s. py_space y")
    case True
    then have "dropWhile py_space (s @ [x]) = []" "dropWhile py_space s = []" using x by auto
    then show ?thesis by (simp only: py_strip_def)
  next
    case False
    then have "dropWhile py_space (s @ [x]) = dropWhile py_space s @ [x]" by (auto simp: dropWhile_append)
    with x show ?thesis by (simp add: py_strip_def)
  qed
qed

lemma csv_items_blank:
  assumes "py_space x"
  shows "csv_items (x # s) = csv_items s" and "csv_items (s @ [x]) = csv_items s"
proof -
  have c: "x \<noteq> CHR '',''" using assms by (auto simp: py_space_def)
  have ne: "split_on (CHR '','') s \<noteq> []" for s by (cases s) (auto split: list.splits)
  show "csv_items (x # s) = csv_items s"
    using c assms ne[of s] by (cases "split_on (CHR '','') s") (auto simp: csv_items_def py_strip_blank)
  have "split_on (CHR '','') (s @ [x]) = butlast (split_on (CHR '','') s) @ [last (split_on (CHR '','') s) @ [x]]"
  proof (induction s)
    case (Cons a s)
    then show ?case using ne[of s] by (auto split: list.splits)
  qed (use c in simp)
  moreover have "split_on (CHR '','') s = butlast (split_on (CHR '','') s) @ [last (split_on (CHR '','') s)]" using ne by simp
  ultimately show "csv_items (s @ [x]) = csv_items s"
    unfolding csv_items_def by (metis (no_types, lifting) assms filter_append list.simps(8,9) map_append py_strip_blank(2))
qed

lemma csv_items_strip [simp]: "csv_items (py_strip s) = csv_items s"
proof -
  have front: "csv_items (dropWhile py_space t) = csv_items t" for t by (induction t) (auto simp: csv_items_blank)
  have rear: "csv_items (t @ ws) = csv_items t" if "list_all py_space ws" for t ws
    using that
  proof (induction ws rule: rev_induct)
    case (snoc x ws)
    then show ?case using csv_items_blank(2)[of x "t @ ws"] by simp
  qed simp
  define t where "t = dropWhile py_space s"
  have "t = rev (dropWhile py_space (rev t)) @ rev (takeWhile py_space (rev t))"
    by (metis rev_append rev_rev_ident takeWhile_dropWhile_id)
  moreover have "list_all py_space (rev (takeWhile py_space (rev t)))" by (auto simp: list_all_iff dest: set_takeWhileD)
  ultimately have "csv_items t = csv_items (rev (dropWhile py_space (rev t)))" using rear by metis
  then show ?thesis using front[of s] by (simp add: py_strip_def t_def)
qed

lemma tui_time_is_cli_time: "tui_parse_time v t = parse_time v t"
  by (simp add: tui_parse_time_def parse_time_def)

lemma parse_time_strip: "parse_time (py_strip a) t = parse_time a t"
  by (simp add: parse_time_def)

lemma window_times_strip: "parse_window_times (py_strip a) (py_strip b) now = parse_window_times a b now"
  by (simp add: parse_window_times_def parse_time_strip)

lemma parsed_window_aware:
  assumes "parse_window_times a b now = Inr (s, e)"
  obtains x y where "s = Aware x" "e = Aware y"
proof -
  obtain d where "parse_time a now = Inr d" "rbind (parse_time b (case d of Aware t \<Rightarrow> t | Naive t \<Rightarrow> t)) (\<lambda>e. Inr (d, e)) = Inr (s, e)"
    using assms by (auto simp: parse_window_times_def rbind_Inr_conv)
  then have "parse_time a now = Inr s" "\<exists>u. parse_time b u = Inr e" by (auto simp: rbind_Inr_conv)
  with that show thesis using parse_time_aware[of a now s] parse_time_aware[of b _ e] by blast
qed

lemma modal_commands:
  assumes "validate_node_id nid"
  shows "py_strip a \<noteq> [] \<Longrightarrow> py_strip b \<noteq> [] \<Longrightarrow> parse_window_times a b now = Inr (s, e) \<Longrightarrow>
      direct_mutation C io (eg_trust g) (MSetMaintenance nid s e) = (m, out) \<Longrightarrow>
      eg_trust (fst (set_window C io now g nid a b)) = m \<and> (snd (set_window C io now g nid a b) = Inr Dismissed \<longleftrightarrow> out = Done)"
    and "direct_mutation C io (eg_trust g) (MSetTags nid raw) = (m, out) \<Longrightarrow>
      eg_trust (fst (save_tags C io g nid raw)) = m \<and> (snd (save_tags C io g nid raw) = Inr Dismissed \<longleftrightarrow> out = Done)"
    and "direct_mutation C io (eg_trust g) (MClearMaintenance nid) = (m, out) \<Longrightarrow>
      eg_trust (fst (clear_window C io g nid)) = m \<and> (out = Done \<longrightarrow> snd (clear_window C io g nid) = Inr Dismissed)"
proof -
  have r: "resolve_target (eg_trust g) nid = Inr nid" using assms by (simp add: resolve_target_def)
  assume ne: "py_strip a \<noteq> []" "py_strip b \<noteq> []" and w: "parse_window_times a b now = Inr (s, e)"
    and d: "direct_mutation C io (eg_trust g) (MSetMaintenance nid s e) = (m, out)"
  obtain x y where xy: "s = Aware x" "e = Aware y" using parsed_window_aware[OF w] .
  have p: "rbind (tui_parse_time (py_strip a) now) (\<lambda>s.
      rbind (tui_parse_time (py_strip b) (case s of Aware t \<Rightarrow> t | Naive t \<Rightarrow> t)) (\<lambda>e. Inr (s, e))) = Inr (s, e)"
    using w window_times_strip[of a b now] by (simp add: tui_time_is_cli_time parse_window_times_def)
  show "eg_trust (fst (set_window C io now g nid a b)) = m \<and> (snd (set_window C io now g nid a b) = Inr Dismissed \<longleftrightarrow> out = Done)"
    using d ne p r xy
    by (auto simp: set_window_def Let_def resolved_def told_def trust_set_maintenance_def split: prod.splits sum.splits bool.splits if_splits)
next
  have r: "resolve_target (eg_trust g) nid = Inr nid" using assms by (simp add: resolve_target_def)
  show "direct_mutation C io (eg_trust g) (MSetTags nid raw) = (m, out) \<Longrightarrow>
      eg_trust (fst (save_tags C io g nid raw)) = m \<and> (snd (save_tags C io g nid raw) = Inr Dismissed \<longleftrightarrow> out = Done)"
    using r by (auto simp: save_tags_def resolved_def told_def split: prod.splits sum.splits if_splits)
  show "direct_mutation C io (eg_trust g) (MClearMaintenance nid) = (m, out) \<Longrightarrow>
      eg_trust (fst (clear_window C io g nid)) = m \<and> (out = Done \<longrightarrow> snd (clear_window C io g nid) = Inr Dismissed)"
    using r by (auto simp: clear_window_def resolved_def told_def split: prod.splits sum.splits if_splits)
qed


lemma hex_id_stripped: "hex_id n \<Longrightarrow> py_strip n = n"
proof -
  have h: "\<not> py_space c" if "hex_char c" for c
  proof -
    have "list_all (\<lambda>c. \<not> py_space c) ''0123456789abcdef''" by code_simp
    with that show ?thesis unfolding hex_char_def list_all_iff by blast
  qed
  assume "hex_id n"
  then have n: "\<forall>c \<in> set n. \<not> py_space c" using h unfolding hex_id_def list_all_iff by blast
  then have "dropWhile py_space n = n" "dropWhile py_space (rev n) = rev n" by (auto simp: dropWhile_eq_self_iff hd_rev)
  then show "py_strip n = n" by (simp add: py_strip_def)
qed

text \<open>
  A single comma in the field of permissions is not empty, but holds no permission; the trust store then
  takes its default. The modal that asks for at least one permission grants \<open>monitor\<close>.
\<close>

theorem lone_comma_grants_monitor:
  assumes "hex_id nid" and "nid \<noteq> eg_node_id g" and "key_ok nid"
    and "tm_ok (eg_trust g)" and "tl_key (tm_log (eg_trust g)) \<noteq> None" and "io_good io clock"
    and "find_peer (tm_store (eg_trust g)) nid = None"
  shows "\<exists>g' q. submit_peer C io key_ok now g nid [] '','' = (g', Inr Dismissed)
    \<and> find_peer (tm_store (eg_trust g')) nid = Some q \<and> tp_permissions q = [''monitor''] \<and> tp_revoked q = None"
proof -
  have nid: "py_strip nid = nid" "nid \<noteq> []" "validate_node_id nid"
    using hex_id_stripped[OF assms(1)] hex_id_valid[OF assms(1)] assms(1) by (auto simp: hex_id_def)
  have csv: "py_strip '','' = '',''" "csv_items '','' = []" by code_simp+
  have "spec_op clock (tm_store (eg_trust g)) (AddPeer nid None [] []) = Some (upsert (fresh_peer clock nid None [] []) (tm_store (eg_trust g)), True)"
    using assms(7) by simp
  with run_op_refines[OF assms(4-6), of C "AddPeer nid None [] []"]
  obtain m' where m': "trust_add_peer C io (eg_trust g) nid None [] [] = (m', Inr True)"
    "tm_store m' = upsert (fresh_peer clock nid None [] []) (tm_store (eg_trust g))" by auto
  then have add: "add_peer C io key_ok now g nid None [] [] = (apply_devices_reload key_ok now (g\<lparr>eg_trust := m'\<rparr>), Inr None)"
    using nid assms(2,3) by (simp add: add_peer_def with_trust_def)
  have "find_peer (tm_store m') nid = Some (fresh_peer clock nid None [] [])"
    using find_peer_upsert[of "fresh_peer clock nid None [] []"] by (simp add: m'(2) fresh_peer_def)
  moreover have "submit_peer C io key_ok now g nid [] '','' = (apply_devices_reload key_ok now (g\<lparr>eg_trust := m'\<rparr>), Inr Dismissed)"
    using nid add csv by (simp add: submit_peer_def Let_def py_strip_def[of "[]"])
  ultimately show ?thesis by (simp add: apply_devices_reload_def fresh_peer_def)
qed

section \<open>The screen shows the devices\<close>

text \<open>What can happen to the screen: a refresh, a move of the cursor, the switch of the system block.\<close>

inductive tui_step :: "(json \<Rightarrow> string) \<Rightarrow> tui \<Rightarrow> tui \<Rightarrow> bool" for show_json :: "json \<Rightarrow> string" where
  refresh: "refresh_all show_json snap g now t = (t', Inr ()) \<Longrightarrow> tui_step show_json t t'"
| move: "k < length (tu_rows t) \<Longrightarrow> refresh_detail show_json g now (t\<lparr>tu_cursor := k\<rparr>) = (t', Inr ())
    \<Longrightarrow> tui_step show_json t t'"
| toggle: "refresh_detail show_json g now (t\<lparr>tu_show := \<not> tu_show t\<rparr>) = (t', Inr ()) \<Longrightarrow> tui_step show_json t t'"

inductive_cases tui_stepE: "tui_step show_json t t'"

definition screen_ok :: "tui \<Rightarrow> bool" where
  "screen_ok t \<longleftrightarrow>
     map tr_node (tu_rows t) = map (\<lambda>p. pe_node_id (ps_entry p)) (tu_devices t)
     \<and> map tr_num (tu_rows t) = map Suc [0..<length (tu_rows t)]
     \<and> (tu_rows t = [] \<or> tu_cursor t < length (tu_rows t))
     \<and> (case tu_section t of (a, d, u) \<Rightarrow>
          a + d + u + length [r \<leftarrow> tu_rows t. tr_badge r = BadgeMaint] = length (tu_devices t))"

lemma table_row_fields:
  "table_row g now i p = Inr r \<Longrightarrow> tr_node r = pe_node_id (ps_entry p) \<and> tr_num r = Suc i"
  by (auto simp: table_row_def Let_def rbind_Inr_conv)

lemma add_rows_all:
  "add_rows g now i ps = (rs, Inr ()) \<Longrightarrow>
     map tr_node rs = map (\<lambda>p. pe_node_id (ps_entry p)) ps \<and> map tr_num rs = map Suc [i..<i + length rs]"
proof (induction ps arbitrary: i rs)
  case (Cons p ps)
  then obtain r rs' where r: "table_row g now i p = Inr r" "add_rows g now (Suc i) ps = (rs', Inr ())" "rs = r # rs'"
    by (auto split: sum.splits prod.splits)
  have "[i..<i + length rs] = i # [Suc i..<Suc i + length rs']" using r(3) by (simp add: upt_conv_Cons del: upt_Suc)
  with Cons.IH[OF r(2)] table_row_fields[OF r(1)] r(3) show ?case by (simp del: upt_Suc)
qed simp

lemma badges_counted:
  "length [r \<leftarrow> rs. tr_badge r = BadgeAlive] + length [r \<leftarrow> rs. tr_badge r = BadgeDead]
     + (length [r \<leftarrow> rs. tr_badge r = BadgeUnreach] + length [r \<leftarrow> rs. tr_badge r = BadgeUnknown])
     + length [r \<leftarrow> rs. tr_badge r = BadgeMaint] = length rs"
proof (induction rs)
  case (Cons r rs)
  then show ?case by (cases "tr_badge r") simp_all
qed simp

lemma refresh_table_ok:
  assumes "refresh_table g now t = (t', Inr ())"
  shows "screen_ok t' \<and> tu_devices t' = get_device_states g"
proof -
  obtain rows where r: "add_rows g now 0 (get_device_states g) = (rows, Inr ())"
    using assms by (auto simp: refresh_table_def Let_def split: prod.splits sum.splits)
  note a = add_rows_all[OF r]
  have "length rows = length (get_device_states g)" "rows \<noteq> [] \<Longrightarrow> 0 < length (get_device_states g)"
    using arg_cong[OF conjunct1[OF a], of length] by auto
  moreover have "t' = t\<lparr>tu_devices := get_device_states g, tu_rows := rows,
      tu_section := (length [r \<leftarrow> rows. tr_badge r = BadgeAlive], length [r \<leftarrow> rows. tr_badge r = BadgeDead],
         length [r \<leftarrow> rows. tr_badge r = BadgeUnreach] + length [r \<leftarrow> rows. tr_badge r = BadgeUnknown]),
      tu_cursor := (if rows = [] then 0 else if length rows \<le> tu_cursor t then length rows - 1 else tu_cursor t)\<rparr>"
    using assms r by (simp add: refresh_table_def Let_def)
  ultimately show ?thesis using a badges_counted[of rows] by (auto simp: screen_ok_def)
qed

lemma refresh_detail_frame:
  assumes "refresh_detail show_json g now t = (t', r)"
  shows "tu_rows t' = tu_rows t" "tu_devices t' = tu_devices t" "tu_cursor t' = tu_cursor t" "tu_section t' = tu_section t"
    "tu_show t' = tu_show t"
  using assms by (auto simp: refresh_detail_def split: option.splits prod.splits)

lemma refresh_feed_frame:
  assumes "refresh_feed show_json g now t = (t', r)"
  shows "tu_rows t' = tu_rows t" "tu_devices t' = tu_devices t" "tu_cursor t' = tu_cursor t" "tu_section t' = tu_section t"
  using assms by (auto simp: refresh_feed_def split: prod.splits)

lemma screen_ok_frame:
  assumes "screen_ok t" and "tu_rows t' = tu_rows t" "tu_devices t' = tu_devices t" "tu_section t' = tu_section t"
    and "tu_cursor t' < length (tu_rows t) \<or> tu_cursor t' = tu_cursor t"
  shows "screen_ok t'"
  using assms by (auto simp: screen_ok_def)

lemma tui_step_ok: "tui_step show_json t t' \<Longrightarrow> screen_ok t \<Longrightarrow> screen_ok t'"
proof (elim tui_stepE)
  fix snap g now
  assume "refresh_all show_json snap g now t = (t', Inr ())"
  then obtain t1 t2 where "refresh_table g now (t\<lparr>tu_snapshot := (case snap of Inl _ \<Rightarrow> None | Inr s \<Rightarrow> Some s)\<rparr>) = (t1, Inr ())"
    "refresh_detail show_json g now t1 = (t2, Inr ())" "refresh_feed show_json g now t2 = (t', Inr ())"
    by (auto simp: refresh_all_def split: prod.splits sum.splits)
  note r = this
  have ok: "screen_ok t1" using refresh_table_ok[OF r(1)] ..
  show "screen_ok t'"
    by (rule screen_ok_frame[OF ok]) (simp_all add: refresh_detail_frame[OF r(2)] refresh_feed_frame[OF r(3)])
next
  fix k g now
  assume ok: "screen_ok t" and k: "k < length (tu_rows t)" and d: "refresh_detail show_json g now (t\<lparr>tu_cursor := k\<rparr>) = (t', Inr ())"
  show "screen_ok t'" by (rule screen_ok_frame[OF ok]) (simp_all add: refresh_detail_frame[OF d] k)
next
  fix g now
  assume ok: "screen_ok t" and d: "refresh_detail show_json g now (t\<lparr>tu_show := \<not> tu_show t\<rparr>) = (t', Inr ())"
  show "screen_ok t'" by (rule screen_ok_frame[OF ok]) (simp_all add: refresh_detail_frame[OF d])
qed

lemma tui_run_ok: "rtranclp (tui_step show_json) new_tui t \<Longrightarrow> screen_ok t"
proof (induction rule: rtranclp_induct)
  case base
  then show ?case by (simp add: screen_ok_def new_tui_def)
qed (rule tui_step_ok)

text \<open>
  C18: Whatever is refreshed, moved and switched while the engine changes its devices: the rows are numbered
  and show the devices of the last refresh in their order, the counts in the section line add up with the
  peers in maintenance to all of them, and a modal is for the peer of the row under the cursor.
\<close>

theorem modal_acts_on_shown_row:
  assumes "rtranclp (tui_step show_json) new_tui t"
  shows "modal_target t = (if tu_rows t = [] then None else Some (tr_node (tu_rows t ! tu_cursor t)))
    \<and> map tr_node (tu_rows t) = map (\<lambda>p. pe_node_id (ps_entry p)) (tu_devices t)
    \<and> map tr_num (tu_rows t) = map Suc [0..<length (tu_devices t)]
    \<and> (case tu_section t of (a, d, u) \<Rightarrow>
         a + d + u + length [r \<leftarrow> tu_rows t. tr_badge r = BadgeMaint] = length (tu_devices t))"
proof -
  have ok: "screen_ok t" using tui_run_ok[OF assms] .
  then have nodes: "map tr_node (tu_rows t) = map (\<lambda>p. pe_node_id (ps_entry p)) (tu_devices t)" by (simp add: screen_ok_def)
  then have len: "length (tu_rows t) = length (tu_devices t)" by (metis length_map)
  have "modal_target t = (if tu_rows t = [] then None else Some (tr_node (tu_rows t ! tu_cursor t)))"
  proof (cases "tu_rows t = []")
    case False
    then have c: "tu_cursor t < length (tu_rows t)" using ok by (simp add: screen_ok_def)
    then have "tr_node (tu_rows t ! tu_cursor t) = pe_node_id (ps_entry (tu_devices t ! tu_cursor t))"
      using nodes len by (metis nth_map)
    with False c len show ?thesis by (simp add: modal_target_def selected_row_def)
  qed (use len in \<open>simp add: modal_target_def selected_row_def\<close>)
  with ok nodes len show ?thesis by (auto simp: screen_ok_def)
qed

section \<open>Statistics from a peer\<close>

lemma text_is_no_percent:
  assumes "dget_default snap ''cpu_percent'' (JNum 0) = JStr s"
  shows "\<exists>e. sys_bars show_json snap = Inl e"
  using assms by (simp add: sys_bars_def need_pct_def Let_def)

lemma add_rows_done:
  "\<forall>p \<in> set ps. is_ok (maint_now g now (pe_node_id (ps_entry p))) \<Longrightarrow> snd (add_rows g now i ps) = Inr ()"
proof (induction ps arbitrary: i)
  case (Cons p ps)
  then obtain b where "maint_now g now (pe_node_id (ps_entry p)) = Inr b"
    by (cases "maint_now g now (pe_node_id (ps_entry p))") auto
  then obtain r where "table_row g now i p = Inr r" by (simp add: table_row_def Let_def)
  moreover obtain rs x where "add_rows g now (Suc i) ps = (rs, x)" by (cases "add_rows g now (Suc i) ps")
  moreover from this have "x = Inr ()" using Cons.IH[of "Suc i"] Cons.prems by simp
  ultimately show ?case by simp
qed simp

lemma update_length: "n \<in> set (map fst d) \<Longrightarrow> length (AList.update n v d) = length d"
  using update_keys[of n v d] by (metis length_map)

lemma update_nth:
  assumes "distinct (map fst d)" and "i < length d" and "map fst d ! i = n"
  shows "map snd (AList.update n v d) ! i = v"
proof -
  have k: "map fst (AList.update n v d) = map fst d" using assms(2,3) by (auto simp: update_keys)
  then have len: "length (AList.update n v d) = length d" by (metis length_map)
  with k assms have "fst (AList.update n v d ! i) = n" by (metis nth_map)
  moreover have "AList.update n v d ! i \<in> set (AList.update n v d)" using assms(2) len by simp
  moreover have "distinct (map fst (AList.update n v d))" using k assms(1) by simp
  ultimately have "map_of (AList.update n v d) n = Some (snd (AList.update n v d ! i))" by (metis map_of_eq_Some_iff prod.collapse)
  then show ?thesis using assms(2) len by (simp add: update_conv')
qed

lemma merge_live_keeps_devices: "eg_devices (merge_live env g n now own) = eg_devices g"
  by (simp add: merge_live_def split: option.splits json.splits)

lemma pulled_stats:
  assumes "map_of (eg_devices g) n = Some p" and "dget resp ''own_stats'' = own" and "own \<noteq> JNull"
    and "dget resp ''entries'' = JArr es"
  shows "\<exists>p'. eg_devices (pull_one_peer env g n now (Fetched resp) r) = AList.update n p' (eg_devices g)
    \<and> ps_last_stats p' = Some own"
proof -
  obtain p' where p': "apply_pull resp p = (p', Inr ())" "ps_last_stats p' = Some own"
    using assms(2-4) by (cases "es = []") (auto simp: apply_pull_def py_or_def Let_def)
  then show ?thesis
    using assms(1) by (intro exI[of _ p']) (simp add: pull_one_peer_def pull_response_def merge_live_keeps_devices)
qed

text \<open>
  What a peer answers to a pull is kept as it is and formatted as numbers at the next refresh. A peer
  that is under the cursor and answers a text as its CPU load makes the refresh raise, as long as the block
  of system statistics is shown: the bars stay those of the peer that was there before, and the feed of
  events is not refreshed.
\<close>

theorem peer_stats_stop_refresh:
  assumes "map_of (eg_devices g) n = Some p" and "distinct (map fst (eg_devices g))"
    and "dget resp ''own_stats'' = JObj snap" and "dget_default snap ''cpu_percent'' (JNum 0) = JStr s" and "dget resp ''entries'' = JArr es"
    and "g' = pull_one_peer env g n now (Fetched resp) r"
    and "\<forall>q \<in> set (get_device_states g'). is_ok (maint_now g' later (pe_node_id (ps_entry q)))"
    and "tu_cursor t < length (eg_devices g)" and "map fst (eg_devices g) ! tu_cursor t = n" and "tu_show t"
  shows "\<exists>t' e. refresh_all show_json sn g' later t = (t', Inl e)
    \<and> dl_bars (tu_detail t') = dl_bars (tu_detail t) \<and> tu_feed t' = tu_feed t"
proof -
  obtain p' where p': "eg_devices g' = AList.update n p' (eg_devices g)" "ps_last_stats p' = Some (JObj snap)"
    using pulled_stats[OF assms(1,3) _ assms(5), of env now r] unfolding assms(6) by blast
  have st: "get_device_states g' ! tu_cursor t = p'"
    using update_nth[OF assms(2,8,9)] by (simp add: get_device_states_def p'(1))
  have len: "length (get_device_states g') = length (eg_devices g)"
    using assms(8,9) nth_mem[of "tu_cursor t" "map fst (eg_devices g)"] by (simp add: get_device_states_def p'(1) update_length)
  let ?t0 = "t\<lparr>tu_snapshot := (case sn of Inl _ \<Rightarrow> None | Inr s \<Rightarrow> Some s)\<rparr>"
  have "snd (add_rows g' later 0 (get_device_states g')) = Inr ()" by (rule add_rows_done[OF assms(7)])
  then obtain rows where rows: "add_rows g' later 0 (get_device_states g') = (rows, Inr ())"
    by (cases "add_rows g' later 0 (get_device_states g')") auto
  have "length rows = length (eg_devices g)" using arg_cong[OF conjunct1[OF add_rows_all[OF rows]], of length] len by simp
  with assms(8) have "rows \<noteq> []" "\<not> length rows \<le> tu_cursor t" by auto
  then obtain t1 where t1: "refresh_table g' later ?t0 = (t1, Inr ())" "tu_cursor t1 = tu_cursor t" "tu_show t1"
      "tu_devices t1 = get_device_states g'" "tu_detail t1 = tu_detail t" "tu_feed t1 = tu_feed t"
    using rows assms(8,10) by (auto simp: refresh_table_def Let_def)
  have "truthy (JObj snap)" using assms(4) by (cases snap) (auto simp: dget_default_def)
  moreover obtain e where "sys_bars show_json snap = Inl e" using text_is_no_percent[OF assms(4)] by blast
  ultimately have sb: "system_bars show_json True p' = Inl e" by (simp add: system_bars_def p'(2) need_dict_def)
  have "p' \<in> set (get_device_states g')" using st len assms(8) by (metis nth_mem)
  with assms(7) have "is_ok (maint_now g' later (pe_node_id (ps_entry p')))" by blast
  then obtain m where "maint_now g' later (pe_node_id (ps_entry p')) = Inr m"
    by (cases "maint_now g' later (pe_node_id (ps_entry p'))") auto
  then have "fill_detail show_json g' later True p' (tu_detail t1) = (detail_head g' later m p' (tu_detail t1), Inl e)"
    using sb by (simp add: fill_detail_def Let_def)
  then have "refresh_detail show_json g' later t1 = (t1\<lparr>tu_detail := detail_head g' later m p' (tu_detail t1)\<rparr>, Inl e)"
    using t1 st len assms(8) by (simp add: refresh_detail_def selected_row_def)
  then show ?thesis using t1(1,5,6) by (simp add: refresh_all_def detail_head_def Let_def)
qed

text \<open>
  No step of the engine gives a peer containers, so the list under the system block stays empty: what the
  collector of the peer sends stays in its statistics.
\<close>

definition bare :: "(node_id \<times> peer_state) list \<Rightarrow> bool" where
  "bare d \<longleftrightarrow> (\<forall>x \<in> set d. ps_containers (snd x) = [])"

definition no_containers :: "engine \<Rightarrow> bool" where
  "no_containers g \<longleftrightarrow> bare (eg_devices g)"

lemma bare_update: "bare d \<Longrightarrow> ps_containers p = [] \<Longrightarrow> bare (AList.update n p d)"
  by (fastforce simp: bare_def dest: in_set_update)

lemma no_containers_update:
  assumes "no_containers g" and "ps_containers p = []" and "eg_devices g' = AList.update n p (eg_devices g)"
  shows "no_containers g'"
  using assms by (simp add: no_containers_def bare_update)

lemma no_containers_same: "no_containers g \<Longrightarrow> eg_devices g' = eg_devices g \<Longrightarrow> no_containers g'"
  by (simp add: no_containers_def)

lemma no_containers_at: "no_containers g \<Longrightarrow> map_of (eg_devices g) n = Some p \<Longrightarrow> ps_containers p = []"
  by (auto simp: no_containers_def bare_def dest!: map_of_SomeD)

lemma transition_containers:
  "maybe_transition C io g p observed now = ((g', p'), r) \<Longrightarrow> ps_containers p' = ps_containers p"
  by (drule maybe_transition_frame) auto

lemma note_probe_containers: "ps_containers (note_probe p now r) = ps_containers p"
  by (simp add: note_probe_def split: probe_result.splits)

lemma no_containers_probe: "no_containers g \<Longrightarrow> no_containers (fst (run_probe C g c))"
proof (cases "map_of (eg_devices g) (pc_node c)")
  case (Some p)
  assume ok: "no_containers g"
  obtain g' p' r where t: "maybe_transition C (pc_io c) g (note_probe p (pc_now c) (pc_result c))
      (lr_status (probe_record (pc_now c) (pc_result c))) (pc_now c) = ((g', p'), r)"
    by (metis prod.collapse)
  have "no_containers (g'\<lparr>eg_devices := AList.update (pc_node c) p' (eg_devices g')\<rparr>)"
    by (rule no_containers_update[OF ok])
      (simp_all add: transition_containers[OF t] note_probe_containers no_containers_at[OF ok Some] maybe_transition_frame[OF t])
  moreover have "no_containers (g\<lparr>eg_devices := AList.update (pc_node c) p (eg_devices g)\<rparr>)"
    using ok Some by (simp add: update_triv)
  ultimately show ?thesis
    by (auto simp: run_probe_def Some probe_peer_def t split: option.splits sum.splits bool.splits)
qed (simp add: run_probe_def)

lemma no_containers_push: "no_containers g \<Longrightarrow> no_containers (fst (push_accept C io db_ok g remote now))"
proof -
  assume ok: "no_containers g"
  have "no_containers (fst (record_push_from C io db_ok g remote now))"
  proof (cases "map_of (eg_devices g) remote")
    case None
    then show ?thesis
      by (auto simp: record_push_from_def Let_def intro!: no_containers_same[OF ok]
          dest!: maybe_transition_frame split: prod.splits)
  next
    case (Some p)
    then show ?thesis
      using no_containers_at[OF ok Some]
      using ok by (auto simp: record_push_from_def Let_def no_containers_def intro!: bare_update
          dest!: maybe_transition_frame split: prod.splits)
  qed
  with ok show ?thesis by (simp add: push_accept_def split: prod.splits)
qed

lemma no_containers_pull: "no_containers g \<Longrightarrow> no_containers (pull_one_peer env g n now direct relay)"
proof -
  assume ok: "no_containers g"
  have a: "ps_containers (fst (apply_pull resp p)) = ps_containers p" for resp p
    by (auto simp: apply_pull_def Let_def split: sum.splits option.splits)
  have "no_containers (record_pull_failure g n)"
  proof (cases "map_of (eg_devices g) n")
    case (Some p)
    then show ?thesis using no_containers_at[OF ok Some]
      using ok by (auto simp: record_pull_failure_def set_device_def Let_def no_containers_def intro!: bare_update)
  qed (use ok in \<open>simp add: record_pull_failure_def\<close>)
  moreover have "no_containers (merge_live env g n now own)" for own
    by (rule no_containers_same[OF ok]) (rule merge_live_keeps_devices)
  moreover have "no_containers (g\<lparr>eg_devices := AList.update n (fst (apply_pull resp p)) (eg_devices g)\<rparr>)"
    "no_containers (merge_live env (g\<lparr>eg_devices := AList.update n (fst (apply_pull resp p)) (eg_devices g)\<rparr>) n now own)"
    if "map_of (eg_devices g) n = Some p" for resp p own
    by (rule no_containers_update[OF ok]; simp add: a no_containers_at[OF ok that] merge_live_keeps_devices)+
  ultimately show ?thesis
    using ok by (simp add: pull_one_peer_def Let_def split: option.splits prod.splits) (metis fst_conv)
qed

lemma no_containers_step: "live_step C env g g' \<Longrightarrow> no_containers g \<Longrightarrow> no_containers g'"
proof (elim live_stepE)
  fix start finish built
  assume "no_containers g" "g' = maybe_rebuild_iroh g start finish built"
  then show "no_containers g'"
    by (auto simp: maybe_rebuild_iroh_def reset_pull_failures_def no_containers_def bare_def Let_def split: if_splits)
qed (auto simp: no_containers_probe no_containers_push no_containers_pull run_history_gc_def run_stats_cycle_def
    check_container_events_def run_rollup_5min_def run_rollup_hourly_def run_rollup_daily_def Let_def
    intro: no_containers_same split: option.splits sum.splits prod.splits)

lemma hydrate_containers: "ps_containers (hydrate_state k rows p) = ps_containers p"
  by (simp add: hydrate_state_def Let_def)

lemma load_devices_bare: "bare (load_devices key_ok now g)"
proof -
  have "bare (foldl (\<lambda>d p. if key_ok (tp_node_id p)
                  then AList.update (tp_node_id p)
                    (hydrate_state (eg_down_after g) (recent_history g now (tp_node_id p))
                      ((new_peer_state \<lparr>pe_node_id = tp_node_id p, pe_alias = tp_alias p\<rparr>)
                         \<lparr>ps_node_addr := Some (tp_node_id p)\<rparr>)) d
                  else d) d0 ps)" if "bare d0" for d0 ps
    using that
  proof (induction ps arbitrary: d0)
    case (Cons p ps)
    show ?case unfolding foldl.simps
      by (rule Cons.IH) (auto simp: Cons.prems hydrate_containers new_peer_state_def intro!: bare_update)
  qed simp
  moreover have "bare []" by (simp add: bare_def)
  ultimately show ?thesis unfolding load_devices_def by blast
qed

lemma containers_never_shown:
  assumes "rtranclp (live_step C env) (apply_devices_reload key_ok now g0) g" and "map_of (eg_devices g) n = Some p"
    and "fill_detail show_json g later show_stats p d = (d', Inr ())"
  shows "dl_containers d' = []"
proof -
  have "no_containers g"
    using assms(1)
  proof (induction rule: rtranclp_induct)
    case base
    show ?case by (simp add: no_containers_def apply_devices_reload_def load_devices_bare)
  qed (rule no_containers_step)
  then have "ps_containers p = []" using assms(2) by (rule no_containers_at)
  then have "system_containers show_json show_stats p = Inr []" by (simp add: system_containers_def)
  with assms(3) show ?thesis by (auto simp: fill_detail_def Let_def split: sum.splits)
qed

section \<open>A concrete screen\<close>


definition demo_trusting :: engine where
  "demo_trusting = new_engine ''me'' demo_mgr \<lparr>hs_probes = [], hs_retain_days = 30\<rparr> None 3 1 60 5 60"

theorem lone_comma_grants_monitor_witness:
  "\<exists>g' q. submit_peer demo_crypto demo_io (\<lambda>_. True) 0 demo_trusting demo_id [] '','' = (g', Inr Dismissed)
    \<and> find_peer (tm_store (eg_trust g')) demo_id = Some q \<and> tp_permissions q = [''monitor'']"
proof -
  have t: "eg_trust demo_trusting = demo_mgr" "eg_node_id demo_trusting = ''me''" by (simp_all add: demo_trusting_def new_engine_def)
  have "hex_id demo_id" by code_simp
  moreover have "demo_id \<noteq> eg_node_id demo_trusting" unfolding t by (rule not_sym) (rule demo_id_other, simp)
  moreover have "find_peer (tm_store (eg_trust demo_trusting)) demo_id = None"
  proof -
    have "''p'' \<noteq> demo_id" by (rule demo_id_other) simp
    then show ?thesis by (simp add: t find_peer_def)
  qed
  ultimately show ?thesis
    using lone_comma_grants_monitor[of demo_id demo_trusting "\<lambda>_. True" demo_io "Aware 9" demo_crypto 0] demo_mgr_ok demo_mgr_key demo_io_good
    unfolding t by blast
qed

lemma demo_watched:
  "eg_devices demo_engine = [(''p'', (new_peer_state \<lparr>pe_node_id = ''p'', pe_alias = None\<rparr>)\<lparr>ps_status := ALIVE\<rparr>)]"
  "eg_trust demo_engine = demo_watch_mgr" "eg_logstore demo_engine = None"
  by (simp_all add: demo_engine_def new_engine_def)

lemma demo_maint: "maint_now demo_engine t ''p'' = Inr False"
  by (simp add: maint_now_def demo_watched demo_watch_mgr_def get_peer_def in_maintenance_def demo_peer_def)

lemma demo_no_events: "monitor_events (tm_log demo_watch_mgr) n = []"
  by (simp add: monitor_events_def demo_watch_mgr_def demo_mgr_def demo_log_def split: option.splits)

lemma demo_refresh:
  "\<exists>t. refresh_all (\<lambda>_. []) (Inl TimeoutError) demo_engine 0 new_tui = (t, Inr ()) \<and> tu_section t = (1, 0, 0) \<and> tu_rows t \<noteq> []
     \<and> tu_devices t = get_device_states demo_engine \<and> tu_cursor t = 0"
proof -
  define p where "p = (new_peer_state \<lparr>pe_node_id = ''p'', pe_alias = None\<rparr>)\<lparr>ps_status := ALIVE\<rparr>"
  have p: "get_device_states demo_engine = [p]" "pe_node_id (ps_entry p) = ''p''" "ps_status p = ALIVE" "ps_last_stats p = None"
    by (simp_all add: p_def get_device_states_def demo_watched new_peer_state_def)
  obtain r where r: "table_row demo_engine 0 0 p = Inr r" "tr_badge r = BadgeAlive"
    using p by (simp add: table_row_def Let_def demo_maint peer_badge_def)
  then have t: "refresh_table demo_engine 0 new_tui
      = (new_tui\<lparr>tu_devices := [p], tu_rows := [r], tu_section := (1, 0, 0)\<rparr>, Inr ())"
    by (simp add: refresh_table_def p(1) Let_def new_tui_def)
  obtain d where d: "fill_detail (\<lambda>_. []) demo_engine 0 True p no_detail = (d, Inr ())"
    using p by (simp add: fill_detail_def Let_def demo_maint system_bars_def system_containers_def detail_events_def
        demo_watched demo_no_events last_n_def)
  have f: "refresh_feed (\<lambda>_. []) demo_engine 0 t = (t\<lparr>tu_feed := []\<rparr>, Inr ())" for t
    by (simp add: refresh_feed_def demo_watched demo_no_events last_n_def)
  have u: "refresh_all (\<lambda>_. []) (Inl TimeoutError) demo_engine 0 new_tui
      = refresh_feed (\<lambda>_. []) demo_engine 0 (new_tui\<lparr>tu_devices := [p], tu_rows := [r], tu_section := (1, 0, 0), tu_detail := d\<rparr>)"
  proof -
    have "new_tui\<lparr>tu_snapshot := None\<rparr> = new_tui" by (simp add: new_tui_def)
    then show ?thesis using t d by (simp add: refresh_all_def refresh_detail_def selected_row_def new_tui_def)
  qed
  then show ?thesis by (simp add: f p(1) new_tui_def)
qed

theorem modal_acts_on_shown_row_witness:
  "\<exists>t. rtranclp (tui_step (\<lambda>_. [])) new_tui t \<and> modal_target t = Some ''p'' \<and> tu_section t = (1, 0, 0)"
proof -
  obtain t where "refresh_all (\<lambda>_. []) (Inl TimeoutError) demo_engine 0 new_tui = (t, Inr ()) \<and> tu_section t = (1, 0, 0) \<and> tu_rows t \<noteq> []
     \<and> tu_devices t = get_device_states demo_engine \<and> tu_cursor t = 0" using demo_refresh ..
  note r = this
  then have run: "rtranclp (tui_step (\<lambda>_. [])) new_tui t" by (intro r_into_rtranclp) (rule tui_step.refresh, blast)
  from modal_acts_on_shown_row[OF run] r have "modal_target t = Some (tr_node (tu_rows t ! 0))" "map tr_node (tu_rows t) = [''p'']"
    by (simp_all add: get_device_states_def demo_watched new_peer_state_def)
  then have "modal_target t = Some ''p''" by (cases "tu_rows t") auto
  with run r show ?thesis by blast
qed

theorem peer_stats_stop_refresh_witness:
  "\<exists>t' e. refresh_all (\<lambda>_. []) (Inl TimeoutError)
     (pull_one_peer demo_env demo_engine ''p'' 0 (Fetched [(''own_stats'', JObj [(''cpu_percent'', JStr ''many'')]), (''entries'', JArr [])])
        (FetchFailed [] False)) 0 new_tui = (t', Inl e) \<and> dl_bars (tu_detail t') = []"
proof -
  define resp where "resp = [(''own_stats'', JObj [(''cpu_percent'', JStr ''many'')]), (''entries'', JArr [])]"
  define p where "p = (new_peer_state \<lparr>pe_node_id = ''p'', pe_alias = None\<rparr>)\<lparr>ps_status := ALIVE\<rparr>"
  have g: "map_of (eg_devices demo_engine) ''p'' = Some p" "distinct (map fst (eg_devices demo_engine))"
    "tu_cursor new_tui < length (eg_devices demo_engine)" "map fst (eg_devices demo_engine) ! tu_cursor new_tui = ''p''" "tu_show new_tui"
    by (simp_all add: demo_watched p_def new_tui_def)
  have s: "dget resp ''own_stats'' = JObj [(''cpu_percent'', JStr ''many'')]" "dget resp ''entries'' = JArr []"
    "dget_default [(''cpu_percent'', JStr ''many'')] ''cpu_percent'' (JNum 0) = JStr ''many''"
    by (simp_all add: resp_def dict_simps dget_default_def)
  let ?g = "pull_one_peer demo_env demo_engine ''p'' 0 (Fetched resp) (FetchFailed [] False)"
  have "merge_live env (demo_engine\<lparr>eg_devices := d\<rparr>) n t own = demo_engine\<lparr>eg_devices := d\<rparr>" for env d n t own
    by (simp add: merge_live_def demo_watched)
  then have q: "?g = demo_engine\<lparr>eg_devices := [(''p'', fst (apply_pull resp p))]\<rparr>"
    using s by (simp add: pull_one_peer_def pull_response_def g(1) demo_watched(1) p_def[symmetric] apply_pull_def py_or_def Let_def)
  have "pe_node_id (ps_entry (fst (apply_pull resp p))) = ''p''"
    by (simp add: apply_pull_def s py_or_def p_def new_peer_state_def Let_def)
  then have ok: "\<forall>q \<in> set (get_device_states ?g). is_ok (maint_now ?g 0 (pe_node_id (ps_entry q)))"
    using demo_maint by (simp add: q get_device_states_def maint_now_def)
  have "dl_bars (tu_detail new_tui) = []" by (simp add: new_tui_def no_detail_def)
  with peer_stats_stop_refresh[OF g(1,2) s(1,3,2) refl ok g(3-5), of "\<lambda>_. []" "Inl TimeoutError"]
  show ?thesis unfolding resp_def by metis
qed

end
