(* ===== verification/Shell_Session.thy ===== *)
theory Shell_Session
  imports Webapp
begin

text \<open>
  The life of a remote shell (alpn/shell.py: \<open>_serve_shell\<close>, \<open>_shell_watchdog\<close>) and of the terminal of
  the own node (webapp.py: \<open>_serve_local_shell\<close>): the pty's descriptors, the child process, its signals, and the
  time after which an idle session is closed. How each call of the system ends is an argument.
\<close>

section \<open>What a session holds\<close>

datatype fd = MasterFd | SlaveFd

datatype child = NoChild | ChildRunning | ChildExited int

datatype child_signal = SigTerm | SigKill

text \<open>
  \<open>se_vars\<close> are the descriptors the code's variables name (\<open>master_fd\<close>, \<open>slave_fd\<close>); \<open>se_open\<close> are
  those that are open.
\<close>

record shell_os =
  se_vars :: "fd list"
  se_open :: "fd list"
  se_child :: child
  se_pumps :: bool
  se_signals :: "child_signal list"
  se_conn_closed :: bool

definition new_shell_os :: shell_os where
  "new_shell_os = \<lparr>se_vars = [], se_open = [], se_child = NoChild, se_pumps = False, se_signals = [], se_conn_closed = False\<rparr>"

section \<open>Opening\<close>

text \<open>
  Whether \<open>openpty\<close>, \<open>set_blocking\<close>, the start of bash, the close of the slave and the exchange of streams
  go through. An exception ends the opening; what was done stays.
\<close>

record open_env =
  oe_pty :: bool
  oe_unblock :: bool
  oe_spawn :: bool
  oe_close_slave :: bool
  oe_streams :: bool

definition open_session :: "open_env \<Rightarrow> shell_os \<Rightarrow> shell_os" where
  "open_session E s =
     (if \<not> oe_pty E then s
      else let s1 = s\<lparr>se_vars := [MasterFd, SlaveFd], se_open := [MasterFd, SlaveFd]\<rparr> in
      if \<not> oe_unblock E \<or> \<not> oe_spawn E then s1
      else let s2 = s1\<lparr>se_child := ChildRunning\<rparr> in
      if \<not> oe_close_slave E then s2
      else let s3 = s2\<lparr>se_vars := [MasterFd], se_open := [MasterFd]\<rparr> in
      if \<not> oe_streams E then s3 else s3\<lparr>se_pumps := True\<rparr>)"

section \<open>Closing\<close>

text \<open>
  What the teardown finds: the exit code when the child has ended by itself; whether its group can be
  signalled; the code it ends with within two seconds of the first signal; what the wait after that gives (a
  code, an exception, or nothing); whether a descriptor can be closed.
\<close>

datatype wait_end = Reaped int | WaitRaised | WaitsForever

record close_env =
  xe_code :: "int option"
  xe_term :: bool
  xe_after_term :: "int option"
  xe_kill :: bool
  xe_last :: wait_end
  xe_close :: "fd \<Rightarrow> bool"

definition end_child :: "close_env \<Rightarrow> shell_os \<Rightarrow> shell_os option" where
  "end_child E s =
     (if se_child s = NoChild then Some s
      else case xe_code E of
        Some c \<Rightarrow> Some (s\<lparr>se_child := ChildExited c\<rparr>)
      | None \<Rightarrow>
          let s1 = s\<lparr>se_signals := (if xe_term E then [SigTerm] else [])\<rparr> in
          case xe_after_term E of
            Some c \<Rightarrow> Some (s1\<lparr>se_child := ChildExited c\<rparr>)
          | None \<Rightarrow>
              let s2 = s1\<lparr>se_signals := se_signals s1 @ (if xe_kill E then [SigKill] else [])\<rparr> in
              (case xe_last E of
                 Reaped c \<Rightarrow> Some (s2\<lparr>se_child := ChildExited c\<rparr>)
               | WaitRaised \<Rightarrow> Some s2
               | WaitsForever \<Rightarrow> None))"

definition close_fd :: "close_env \<Rightarrow> shell_os \<Rightarrow> fd \<Rightarrow> shell_os" where
  "close_fd E s f = (if f \<in> set (se_vars s) \<and> xe_close E f then s\<lparr>se_open := removeAll f (se_open s)\<rparr> else s)"

text \<open>\<open>None\<close> when the wait for the child does not return.\<close>

definition close_session :: "close_env \<Rightarrow> shell_os \<Rightarrow> shell_os option" where
  "close_session E s =
     map_option (\<lambda>s1. (close_fd E (close_fd E s1 SlaveFd) MasterFd)\<lparr>se_pumps := False, se_conn_closed := True\<rparr>) (end_child E s)"

definition exit_code :: "shell_os \<Rightarrow> int option" where
  "exit_code s = (case se_child s of ChildExited c \<Rightarrow> Some c | _ \<Rightarrow> None)"

text \<open>
  An accepted call from its registration to the end of its \<open>finally\<close>: the registry, the audit and what
  is left of the session.
\<close>

definition run_shell ::
  "crypto \<Rightarrow> io_env \<Rightarrow> shell_server \<Rightarrow> node_id \<Rightarrow> instant \<Rightarrow> nat \<Rightarrow> string \<Rightarrow> open_env \<Rightarrow> close_env \<Rightarrow> instant
   \<Rightarrow> shell_server \<times> (int \<times> string + shell_os option)" where
  "run_shell C io sv remote started ev sid OE XE ended =
     (case shell_accept C io sv remote started ev sid of
        (sv1, Inl refusal) \<Rightarrow> (sv1, Inl refusal)
      | (sv1, Inr s) \<Rightarrow>
          (case close_session XE (open_session OE new_shell_os) of
             None \<Rightarrow> (sv1, Inr None)
           | Some os \<Rightarrow> (end_shell C io sv1 s ended (exit_code os), Inr (Some os))))"

section \<open>The terminal of the own node\<close>

text \<open>
  \<open>_serve_local_shell\<close>: when bash cannot be started both descriptors are closed and an error is shown. The
  closes before the relay are not guarded. The truth value says whether the relay is reached.
\<close>

definition local_open :: "bool \<Rightarrow> (fd \<Rightarrow> bool) \<Rightarrow> shell_os \<times> bool" where
  "local_open spawned closes =
     (let s = new_shell_os\<lparr>se_vars := [MasterFd, SlaveFd], se_open := [MasterFd, SlaveFd]\<rparr> in
      if \<not> spawned then
        (if \<not> closes MasterFd then (s, False)
         else if \<not> closes SlaveFd then (s\<lparr>se_open := [SlaveFd]\<rparr>, False)
         else (s\<lparr>se_open := []\<rparr>, False))
      else let s1 = s\<lparr>se_child := ChildRunning\<rparr> in
      if \<not> closes SlaveFd then (s1, False)
      else (s1\<lparr>se_open := [MasterFd], se_pumps := True\<rparr>, True))"

text \<open>Its \<open>finally\<close>: every wait is bounded.\<close>

definition local_close :: "close_env \<Rightarrow> shell_os \<Rightarrow> shell_os" where
  "local_close E s =
     (let s1 = (case xe_code E of
                  Some c \<Rightarrow> s\<lparr>se_child := ChildExited c\<rparr>
                | None \<Rightarrow>
                    let t = s\<lparr>se_signals := (if xe_term E then [SigTerm] else [])\<rparr> in
                    (case xe_after_term E of
                       Some c \<Rightarrow> t\<lparr>se_child := ChildExited c\<rparr>
                     | None \<Rightarrow>
                         let u = t\<lparr>se_signals := se_signals t @ (if xe_kill E then [SigKill] else [])\<rparr> in
                         (case xe_last E of Reaped c \<Rightarrow> u\<lparr>se_child := ChildExited c\<rparr> | _ \<Rightarrow> u))) in
      (close_fd E s1 MasterFd)\<lparr>se_pumps := False\<rparr>)"

definition run_local :: "bool \<Rightarrow> (fd \<Rightarrow> bool) \<Rightarrow> close_env \<Rightarrow> shell_os" where
  "run_local spawned closes E = (case local_open spawned closes of (s, relayed) \<Rightarrow> if relayed then local_close E s else s)"

section \<open>The watchdog\<close>

text \<open>
  What ends a wait of the watchdog: the connection is closed, the wait fails, or 30 seconds are over; then
  the time and the time of the last activity count.
\<close>

datatype watch_event = ConnClosed | WatchFailed | WatchTimeout int int

text \<open>The number of waits after which the session is told to stop; \<open>None\<close> while it goes on.\<close>

fun watchdog :: "watch_event list \<Rightarrow> nat option" where
  "watchdog [] = None"
| "watchdog (e # es) =
     (case e of
        WatchTimeout now last_active \<Rightarrow> if now - last_active > SHELL_IDLE_TIMEOUT then Some 1 else map_option Suc (watchdog es)
      | _ \<Rightarrow> Some 1)"

text \<open>
  The timeouts of a session that started at \<open>t0\<close>; \<open>active k\<close> is the last activity before the end of the
  \<open>k\<close>-th wait.
\<close>

definition watch_time :: "int \<Rightarrow> nat \<Rightarrow> int" where
  "watch_time t0 k = t0 + 30 * int k"

definition watch_log :: "int \<Rightarrow> (nat \<Rightarrow> int) \<Rightarrow> nat \<Rightarrow> watch_event list" where
  "watch_log t0 active n = map (\<lambda>k. WatchTimeout (watch_time t0 (Suc k)) (active (Suc k))) [0..<n]"

section \<open>Nothing is left of a session\<close>

lemma opened_session:
  "se_open (open_session E new_shell_os) = se_vars (open_session E new_shell_os)"
  "set (se_vars (open_session E new_shell_os)) \<subseteq> {MasterFd, SlaveFd}"
  "se_signals (open_session E new_shell_os) = []"
  "se_child (open_session E new_shell_os) = (if oe_pty E \<and> oe_unblock E \<and> oe_spawn E then ChildRunning else NoChild)"
  by (auto simp: open_session_def new_shell_os_def Let_def)

lemma end_child_frame:
  "end_child E s = Some s' \<Longrightarrow> se_vars s' = se_vars s \<and> se_open s' = se_open s"
  by (auto simp: end_child_def Let_def split: if_splits option.splits wait_end.splits)

lemma closed_session:
  assumes "close_session E s = Some s'" and "se_open s = se_vars s" and "set (se_vars s) \<subseteq> {MasterFd, SlaveFd}"
  shows "\<forall>f \<in> set (se_open s'). \<not> xe_close E f" and "\<not> se_pumps s' \<and> se_conn_closed s'"
    and "\<exists>s1. end_child E s = Some s1 \<and> se_child s' = se_child s1 \<and> se_signals s' = se_signals s1"
proof -
  obtain s1 where s1: "end_child E s = Some s1"
    "s' = (close_fd E (close_fd E s1 SlaveFd) MasterFd)\<lparr>se_pumps := False, se_conn_closed := True\<rparr>"
    using assms(1) by (auto simp: close_session_def)
  note v = end_child_frame[OF s1(1)]
  show "\<forall>f \<in> set (se_open s'). \<not> xe_close E f"
    using s1(2) v assms(2,3) by (auto simp: close_fd_def)
  show "\<not> se_pumps s' \<and> se_conn_closed s'" by (simp add: s1(2))
  show "\<exists>s1. end_child E s = Some s1 \<and> se_child s' = se_child s1 \<and> se_signals s' = se_signals s1"
    using s1 by (simp add: close_fd_def)
qed

lemma ended_child:
  assumes "end_child E s = Some s1" and "se_signals s = []"
  shows "se_child s1 = ChildRunning \<longrightarrow> xe_code E = None \<and> xe_after_term E = None \<and> xe_last E = WaitRaised"
    and "se_child s = ChildRunning \<and> xe_code E = None \<longrightarrow>
      se_signals s1 = (if xe_term E then [SigTerm] else []) @ (if xe_after_term E = None \<and> xe_kill E then [SigKill] else [])"
    and "se_child s = NoChild \<longrightarrow> s1 = s"
  using assms by (auto simp: end_child_def Let_def split: if_splits option.splits wait_end.splits)

lemma count_back:
  assumes "shell_accept C io sv remote started ev sid = (sv1, Inr s)" and "ev \<notin> set (sv_teardowns sv)"
  shows "sv_teardowns (end_shell C io sv1 s ended rc) = sv_teardowns sv"
    and "sv_count (end_shell C io sv1 s ended rc) n = sv_count sv n"
proof -
  note o = shell_accept_opened[OF assms(1)]
  have "map_of (sv_counts sv1) n = (if n = remote then Some (sv_count sv remote + 1) else map_of (sv_counts sv) n)" for n
    using o by (simp add: update_conv')
  then show "sv_count (end_shell C io sv1 s ended rc) n = sv_count sv n"
    using o by (auto simp: end_shell_def Let_def sv_count_def update_conv' delete_conv' split: option.splits)
  show "sv_teardowns (end_shell C io sv1 s ended rc) = sv_teardowns sv"
    using o assms(2) by (simp add: end_shell_def Let_def)
qed


text \<open>The terminal of the own node waits for its child at most twice, and always returns.\<close>

lemma local_leaves_nothing:
  assumes "\<And>f. closes f" and "\<And>f. xe_close E f"
  shows "se_open (run_local spawned closes E) = []"
    and "se_child (run_local spawned closes E) = ChildRunning \<Longrightarrow> xe_code E = None \<and> xe_after_term E = None"
  using assms
  by (cases spawned; auto simp: run_local_def local_open_def local_close_def close_fd_def new_shell_os_def Let_def
      split: option.splits wait_end.splits)+

text \<open>A slave descriptor that cannot be closed leaves bash and the master behind: nothing guards that close.\<close>

lemma unguarded_close_leaks:
  "\<not> closes SlaveFd \<Longrightarrow> se_child (run_local True closes E) = ChildRunning \<and> MasterFd \<in> set (se_open (run_local True closes E))"
  by (simp add: run_local_def local_open_def Let_def)

section \<open>Idle sessions\<close>

definition stops :: "watch_event \<Rightarrow> bool" where
  "stops e \<longleftrightarrow> (case e of WatchTimeout now last_active \<Rightarrow> now - last_active > SHELL_IDLE_TIMEOUT | _ \<Rightarrow> True)"

lemma watchdog_simps: "watchdog (e # es) = (if stops e then Some 1 else map_option Suc (watchdog es))"
  by (cases e) (simp_all add: stops_def)

lemma watchdog_none: "watchdog es = None \<longleftrightarrow> (\<forall>e \<in> set es. \<not> stops e)"
  by (induction es) (simp_all add: watchdog_simps del: watchdog.simps(2))

lemma watchdog_some:
  "watchdog es = Some m \<Longrightarrow> 0 < m \<and> m \<le> length es \<and> stops (es ! (m - 1)) \<and> (\<forall>k < m - 1. \<not> stops (es ! k))"
proof (induction es arbitrary: m)
  case (Cons e es)
  show ?case
  proof (cases "stops e")
    case True
    then show ?thesis using Cons.prems by (simp add: watchdog_simps del: watchdog.simps(2))
  next
    case False
    then obtain j where j: "watchdog es = Some j" "m = Suc j"
      using Cons.prems by (auto simp: watchdog_simps simp del: watchdog.simps(2))
    note IH = Cons.IH[OF j(1)]
    then obtain i where i: "j = Suc i" by (cases j) auto
    from IH False show ?thesis by (auto simp: j(2) i nth_Cons split: nat.splits)
  qed
qed simp

lemma watch_log_nth: "k < n \<Longrightarrow> watch_log t0 active n ! k = WatchTimeout (watch_time t0 (Suc k)) (active (Suc k))"
  by (simp add: watch_log_def)

text \<open>
  An idle session is closed in time. The session is stopped at the end of a wait only after more than 900
  seconds without activity, and then at most 930 have passed; and it is stopped as soon as a wait ends more than 900
  seconds after the last activity.
\<close>

theorem idle_session_closed:
  assumes "active 0 = t0" and "\<And>k. active k \<le> active (Suc k)"
  shows "(\<forall>m. watchdog (watch_log t0 active n) = Some m \<longrightarrow>
        m \<le> n \<and> 900 < watch_time t0 m - active m \<and> watch_time t0 m - active m \<le> 930)
    \<and> (watchdog (watch_log t0 active n) = None \<longleftrightarrow> (\<forall>k \<le> n. watch_time t0 k - active k \<le> 900))"
proof (intro conjI allI impI)
  fix m assume "watchdog (watch_log t0 active n) = Some m"
  from watchdog_some[OF this] have m: "0 < m" "m \<le> n" "stops (watch_log t0 active n ! (m - 1))"
    "\<forall>k < m - 1. \<not> stops (watch_log t0 active n ! k)" by (simp_all add: watch_log_def)
  show "m \<le> n" by (rule m(2))
  obtain i where i: "m = Suc i" using m(1) by (cases m) auto
  have "900 < watch_time t0 (Suc i) - active (Suc i)"
    using m(2,3) by (simp add: i watch_log_nth stops_def SHELL_IDLE_TIMEOUT_def)
  then show "900 < watch_time t0 m - active m" by (simp add: i)
  have "watch_time t0 i - active i \<le> 900"
  proof (cases i)
    case 0
    then show ?thesis using assms(1) by (simp add: watch_time_def)
  next
    case (Suc j)
    then have "\<not> stops (watch_log t0 active n ! j)" using m(4) by (simp add: i)
    then show ?thesis using m(2) Suc by (simp add: i watch_log_nth stops_def SHELL_IDLE_TIMEOUT_def)
  qed
  then show "watch_time t0 m - active m \<le> 930" using assms(2)[of i] by (simp add: i watch_time_def)
next
  have "watchdog (watch_log t0 active n) = None \<longleftrightarrow> (\<forall>k < n. watch_time t0 (Suc k) - active (Suc k) \<le> 900)"
    by (auto simp: watchdog_none watch_log_def stops_def SHELL_IDLE_TIMEOUT_def not_less)
  also have "\<dots> \<longleftrightarrow> (\<forall>k \<le> n. watch_time t0 k - active k \<le> 900)"
  proof (intro iffI allI impI)
    fix k assume h: "\<forall>k < n. watch_time t0 (Suc k) - active (Suc k) \<le> 900" and k: "k \<le> n"
    show "watch_time t0 k - active k \<le> 900"
      using h k assms(1) by (cases k) (auto simp: watch_time_def)
  qed auto
  finally show "watchdog (watch_log t0 active n) = None \<longleftrightarrow> (\<forall>k \<le> n. watch_time t0 k - active k \<le> 900)" .
qed

section \<open>A concrete session\<close>

lemma run_shell_done:
  "shell_accept C io sv remote started ev sid = (sv1, Inr s) \<Longrightarrow> close_session XE (open_session OE new_shell_os) = Some os
   \<Longrightarrow> run_shell C io sv remote started ev sid OE XE ended = (end_shell C io sv1 s ended (exit_code os), Inr (Some os))"
  by (simp add: run_shell_def)

definition demo_opening :: open_env where
  "demo_opening = \<lparr>oe_pty = True, oe_unblock = True, oe_spawn = True, oe_close_slave = True, oe_streams = True\<rparr>"

definition demo_ending :: close_env where
  "demo_ending = \<lparr>xe_code = None, xe_term = True, xe_after_term = None, xe_kill = True, xe_last = Reaped (-9), xe_close = (\<lambda>_. True)\<rparr>"


theorem idle_session_closed_witness:
  "\<exists>m. watchdog (watch_log 0 (\<lambda>_. 0) 40) = Some m \<and> 900 < watch_time 0 m \<and> watch_time 0 m \<le> 930
     \<and> watchdog (watch_log 0 (\<lambda>_. 0) 30) = None"
proof -
  note c = idle_session_closed[of "\<lambda>_. 0" 0, simplified]
  have "\<not> watch_time 0 40 \<le> 900" by (simp add: watch_time_def)
  then have "watchdog (watch_log 0 (\<lambda>_. 0) 40) \<noteq> None" using c[of 40] by blast
  then obtain m where m: "watchdog (watch_log 0 (\<lambda>_. 0) 40) = Some m" by blast
  moreover have "watchdog (watch_log 0 (\<lambda>_. 0) 30) = None" using c[of 30] by (simp add: watch_time_def)
  ultimately show ?thesis using c[of 40] by blast
qed

end
