(* ===== verification/Socket_Life.thy ===== *)
theory Socket_Life
  imports Lifecycle Cli
begin

text \<open>
  The control socket as a file (controlsock.py: \<open>_UnixHTTPServer\<close>, \<open>ControlSocketServer.start\<close> and \<open>stop\<close>) on a
  machine where several processes run an engine: the daemon, the terminal dashboard, \<open>--fetch-dashboard\<close>. All
  of them use the same path.
\<close>

section \<open>The socket file\<close>

text \<open>No file, or the socket that a process has bound there. It stays when the process dies.\<close>

datatype socket_file = NoFile | SocketOf nat

text \<open>
  How the server's constructor ends: the old file cannot be removed; binding fails (the old file is gone
  then); the mode cannot be set (the socket is bound, but its server is dropped); or it is bound.
\<close>

datatype bind_end = Bound | UnlinkDenied | BindFails | ChmodDenied

fun bind_socket :: "bind_end \<Rightarrow> nat \<Rightarrow> socket_file \<Rightarrow> socket_file \<times> bool" where
  "bind_socket Bound p f = (SocketOf p, True)"
| "bind_socket UnlinkDenied p f = (f, False)"
| "bind_socket BindFails p f = (NoFile, False)"
| "bind_socket ChmodDenied p f = (SocketOf p, False)"

text \<open>Stopping a server that runs unlinks the path, whatever is there.\<close>

definition unbind_socket :: "bool \<Rightarrow> bool \<Rightarrow> socket_file \<Rightarrow> socket_file" where
  "unbind_socket serving unlink_ok f = (if serving \<and> unlink_ok then NoFile else f)"

section \<open>Processes\<close>

record machine =
  mc_procs :: "nat \<rightharpoonup> runtime"
  mc_file :: socket_file

definition start_node ::
  "(node_id \<Rightarrow> bool) \<Rightarrow> run_config \<Rightarrow> init_env \<Rightarrow> bind_end \<Rightarrow> nat \<Rightarrow> runtime \<Rightarrow> machine \<Rightarrow> machine \<times> unit res" where
  "start_node key_ok c E b p rt M =
     (case engine_init key_ok c (E\<lparr>ie_socket_binds := snd (bind_socket b p (mc_file M))\<rparr>) rt of
        (rt', Inl e) \<Rightarrow> (M\<lparr>mc_procs := (mc_procs M)(p \<mapsto> rt')\<rparr>, Inl e)
      | (rt', Inr _) \<Rightarrow>
          (M\<lparr>mc_procs := (mc_procs M)(p \<mapsto> rt'),
             mc_file := (if ie_runtime_dir E then fst (bind_socket b p (mc_file M)) else mc_file M)\<rparr>, Inr ()))"

text \<open>What a process does while it runs changes its own runtime.\<close>

definition live_node :: "nat \<Rightarrow> (runtime \<Rightarrow> runtime) \<Rightarrow> machine \<Rightarrow> machine" where
  "live_node p life M = M\<lparr>mc_procs := (mc_procs M)(p := map_option life (mc_procs M p))\<rparr>"

definition stop_node :: "(stop_step \<Rightarrow> bool) \<Rightarrow> bool \<Rightarrow> instant \<Rightarrow> nat \<Rightarrow> machine \<Rightarrow> machine \<times> unit res" where
  "stop_node fails unlink_ok now p M =
     (case mc_procs M p of
        None \<Rightarrow> (M, Inr ())
      | Some rt \<Rightarrow>
          (case engine_shutdown fails now rt of
             (rt', tried, raised) \<Rightarrow>
               (M\<lparr>mc_procs := (mc_procs M)(p \<mapsto> rt'),
                  mc_file := unbind_socket (StopControl \<in> set tried \<and> \<not> fails StopControl) unlink_ok (mc_file M)\<rparr>,
                if raised then Inl (RuntimeError ''shutdown'') else Inr ())))"

text \<open>A process that ends, killed or not, leaves the file where it is.\<close>

definition end_process :: "nat \<Rightarrow> machine \<Rightarrow> machine" where
  "end_process p M = M\<lparr>mc_procs := (mc_procs M)(p := None)\<rparr>"

text \<open>What a command on this machine finds.\<close>

definition daemon_seen :: "(runtime \<Rightarrow> control_state) \<Rightarrow> machine \<Rightarrow> daemon" where
  "daemon_seen served M =
     (case mc_file M of
        NoFile \<Rightarrow> NoSocket
      | SocketOf p \<Rightarrow>
          (case mc_procs M p of
             Some rt \<Rightarrow> if rt_control rt then Running (served rt) else StaleSocket
           | None \<Rightarrow> StaleSocket))"

text \<open>
  A run of one engine from start to stop, as \<open>--fetch-dashboard\<close> and the terminal dashboard do it
  beside what already runs.
\<close>

definition visit ::
  "(node_id \<Rightarrow> bool) \<Rightarrow> run_config \<Rightarrow> init_env \<Rightarrow> bind_end \<Rightarrow> nat \<Rightarrow> runtime \<Rightarrow> (runtime \<Rightarrow> runtime) \<Rightarrow> (stop_step \<Rightarrow> bool)
   \<Rightarrow> bool \<Rightarrow> instant \<Rightarrow> machine \<Rightarrow> machine \<times> unit res" where
  "visit key_ok c E b p rt life fails unlink_ok now M =
     (case start_node key_ok c E b p rt M of
        (M1, Inl e) \<Rightarrow> (end_process p M1, Inl e)
      | (M1, Inr _) \<Rightarrow>
          (case stop_node fails unlink_ok now p (live_node p life M1) of (M2, r) \<Rightarrow> (end_process p M2, r)))"

section \<open>Who is reached\<close>

lemma started_control:
  assumes "engine_init key_ok c E rt = (rt', Inr ())"
  shows "rt_control rt' \<longleftrightarrow> ie_runtime_dir E \<and> ie_socket_binds E"
  using assms by (auto simp: engine_init_def start_servers_def Let_def split: prod.splits sum.splits)

lemma control_in_plan: "rt_control rt \<Longrightarrow> StopControl \<in> set (shutdown_plan rt)"
  by (simp add: shutdown_plan_def stop_users_def)

lemma start_reaches:
  assumes "start_node key_ok c E Bound p rt M = (M1, Inr ())" and "ie_runtime_dir E"
  shows "\<exists>rt1. mc_procs M1 = (mc_procs M)(p \<mapsto> rt1) \<and> rt_control rt1 \<and> mc_file M1 = SocketOf p
    \<and> daemon_seen served M1 = Running (served rt1)"
proof -
  obtain rt1 where r: "engine_init key_ok c (E\<lparr>ie_socket_binds := True\<rparr>) rt = (rt1, Inr ())"
    "M1 = M\<lparr>mc_procs := (mc_procs M)(p \<mapsto> rt1), mc_file := SocketOf p\<rparr>"
    using assms by (auto simp: start_node_def split: prod.splits sum.splits)
  have "rt_control rt1" using started_control[OF r(1)] assms(2) by simp
  then show ?thesis using r(2) by (auto simp: daemon_seen_def)
qed

lemma stop_removes:
  assumes "mc_procs M p = Some rt" and "rt_control rt" and "\<not> fails StopControl"
    and "stop_node fails True now p M = (M', Inr ())"
  shows "mc_file M' = NoFile \<and> (\<forall>q. q \<noteq> p \<longrightarrow> mc_procs M' q = mc_procs M q)"
proof -
  obtain rt' tried where e: "engine_shutdown fails now rt = (rt', tried, False)"
    "M' = M\<lparr>mc_procs := (mc_procs M)(p \<mapsto> rt'),
        mc_file := unbind_socket (StopControl \<in> set tried \<and> \<not> fails StopControl) True (mc_file M)\<rparr>"
    using assms(1,4) by (auto simp: stop_node_def split: prod.splits if_splits)
  have "tried = shutdown_plan rt" using run_stops_ok e(1) unfolding engine_shutdown_def by blast
  then show ?thesis using control_in_plan[OF assms(2)] assms(3) e(2) by (simp add: unbind_socket_def)
qed


text \<open>A daemon that died leaves a dead socket; the next start is reachable again, and its stop cleans up.\<close>

lemma restart_after_crash:
  assumes "start_node key_ok c E Bound p rt (end_process d M) = (M1, Inr ())" and "ie_runtime_dir E" and "mc_file M = SocketOf d"
  shows "daemon_seen served (end_process d M) = StaleSocket" and "\<exists>s. daemon_seen served M1 = Running s"
  using start_reaches[OF assms(1,2), of served] assms(3) by (auto simp: daemon_seen_def end_process_def)

section \<open>A daemon and a visitor\<close>

definition demo_visitor :: init_env where "demo_visitor = demo_start (Some ''p'')"

lemma demo_start_node:
  "\<exists>M1 rt. start_node (\<lambda>_. True) demo_config demo_visitor Bound k (new_runtime demo_node_engine) M = (M1, Inr ())
     \<and> mc_procs M1 = (mc_procs M)(k \<mapsto> rt) \<and> rt_control rt \<and> mc_file M1 = SocketOf k"
proof -
  have e: "demo_visitor\<lparr>ie_socket_binds := True\<rparr> = demo_visitor" "ie_runtime_dir demo_visitor" by (simp_all add: demo_visitor_def demo_start_def)
  obtain rt where "engine_init (\<lambda>_. True) demo_config demo_visitor (new_runtime demo_node_engine) = (rt, Inr ())"
    using demo_starts unfolding demo_visitor_def by blast
  then obtain M1 where s: "start_node (\<lambda>_. True) demo_config demo_visitor Bound k (new_runtime demo_node_engine) M = (M1, Inr ())"
    by (simp add: start_node_def e(1))
  from start_reaches[OF s e(2)] s show ?thesis by blast
qed

lemma visit_ends:
  assumes "start_node key_ok c E b p rt M = (M1, Inr ())" and "mc_procs (live_node p life M1) p = Some rt1"
    and "engine_shutdown fails now rt1 = (rt2, tr, False)"
  shows "\<exists>M2. visit key_ok c E b p rt life fails u now M = (M2, Inr ())"
  using assms by (simp add: visit_def stop_node_def)


end
