(* ===== verification/Queries.thy ===== *)
theory Queries
  imports Lifecycle Notify Cli Service Migrate
begin

text \<open>
  The commands of the command line that only read (main.py: \<open>--show-identity\<close>, \<open>--list-peers\<close>, \<open>--list-maintenance\<close>,
  \<open>--uptime\<close>, \<open>--history\<close>), the test of the webhook, the choice of the service commands, and what the run commands
  start. What is printed is kept as data: the rows and the way the command ends.
\<close>

section \<open>Identity\<close>

definition show_identity :: "cli_env \<Rightarrow> id_dir \<Rightarrow> cli_out + (node_id \<times> bool)" where
  "show_identity env d =
     (case identity_node_id env d of Inl out \<Rightarrow> Inl out | Inr nid \<Rightarrow> Inr (nid, is_sealed d))"

section \<open>Reading the trust store\<close>

text \<open>Without a key: the log is replayed, and the cache is written.\<close>

definition read_trust :: "cli_env \<Rightarrow> cli_files \<Rightarrow> cli_files \<times> (cli_out + trust_mgr)" where
  "read_trust env w =
     (case identity_node_id env (cf_identity w) of
        Inl out \<Rightarrow> (w, Inl out)
      | Inr nid \<Rightarrow>
          (case build_trust (ce_crypto (cl_server env)) (cl_open env) None nid (cf_log w) (cf_cache w) of
             (m, Inl e) \<Rightarrow> (saved w m, Inl (Crash e))
           | (m, Inr _) \<Rightarrow> (saved w m, Inr m)))"

section \<open>Peers\<close>

text \<open>A peer as the control socket shows it, and as the command reads it.\<close>

definition json_time :: "datetime option \<Rightarrow> json" where
  "json_time t = (case t of None \<Rightarrow> JNull | Some d \<Rightarrow> JTime d)"

definition peer_json :: "trusted_peer \<Rightarrow> dict" where
  "peer_json p =
     [(''node_id'', JStr (tp_node_id p)), (''alias'', json_option (tp_alias p)),
      (''permissions'', str_list (tp_permissions p)), (''tags'', str_list (tp_tags p)),
      (''added_at'', JTime (tp_added p)), (''revoked_at'', json_time (tp_revoked p)),
      (''maintenance_start'', json_time (tp_mstart p)), (''maintenance_end'', json_time (tp_mend p))]"

definition text_list :: "json \<Rightarrow> string list res" where
  "text_list j =
     (case py_or j (JArr []) of JArr xs \<Rightarrow> rmap as_str xs | _ \<Rightarrow> Inl (ValueError ''Input should be a valid list''))"

definition read_peer :: "datetime \<Rightarrow> dict \<Rightarrow> trusted_peer res" where
  "read_peer now d =
     rbind (dindex d ''node_id'') (\<lambda>n.
     rbind (opt_time (dget d ''added_at'')) (\<lambda>added.
     rbind (opt_time (dget d ''revoked_at'')) (\<lambda>revoked.
     rbind (opt_time (dget d ''maintenance_start'')) (\<lambda>ms.
     rbind (opt_time (dget d ''maintenance_end'')) (\<lambda>me.
     rbind (as_str n) (\<lambda>nid. rbind (as_opt_str (dget d ''alias'')) (\<lambda>al.
     rbind (text_list (dget d ''permissions'')) (\<lambda>perms. rbind (text_list (dget d ''tags'')) (\<lambda>tags.
       Inr \<lparr>tp_node_id = nid, tp_alias = al, tp_permissions = perms, tp_tags = tags, tp_mstart = ms, tp_mend = me,
            tp_added = (case added of None \<Rightarrow> now | Some t \<Rightarrow> t), tp_revoked = revoked\<rparr>)))))))))"

text \<open>The peers of \<open>--list-peers\<close>: the daemon's when there is a socket, else those of the files.\<close>

definition socket_peers :: "cli_env \<Rightarrow> datetime \<Rightarrow> daemon \<Rightarrow> daemon \<times> (cli_out + trusted_peer list)" where
  "socket_peers env now d =
     (case client_request (cl_server env) (cl_uid env) d GET ''/v1/peers'' None of
        (d', Inl e) \<Rightarrow> (d', Inl (client_out e))
      | (d', Inr (Peers ps)) \<Rightarrow>
          (d', case rmap (\<lambda>p. read_peer now (peer_json p)) ps of Inl e \<Rightarrow> Inl (Crash e) | Inr qs \<Rightarrow> Inr qs)
      | (d', Inr _) \<Rightarrow> (d', Inr []))"

definition listed_peers ::
  "cli_env \<Rightarrow> datetime \<Rightarrow> daemon \<times> cli_files \<Rightarrow> (daemon \<times> cli_files) \<times> (cli_out + trusted_peer list)" where
  "listed_peers env now dw =
     (case dw of (d, w) \<Rightarrow>
        if available d then (case socket_peers env now d of (d', r) \<Rightarrow> ((d', w), r))
        else (case read_trust env w of
                (w', Inl out) \<Rightarrow> ((d, w'), Inl out)
              | (w', Inr m) \<Rightarrow> ((d, w'), Inr (tm_store m))))"

record peer_print =
  pl_alias :: string
  pl_node :: node_id
  pl_perms :: string
  pl_tags :: string
  pl_state :: string
  pl_added :: datetime

definition peer_line :: "datetime \<Rightarrow> trusted_peer \<Rightarrow> peer_print res" where
  "peer_line now p =
     rbind (if tp_revoked p \<noteq> None then Inr ''revoked''
            else rbind (in_maintenance p now) (\<lambda>b. Inr (if b then ''maint'' else ''active''))) (\<lambda>st.
       Inr \<lparr>pl_alias = (case tp_alias p of Some a \<Rightarrow> if a = [] then ''---'' else a | None \<Rightarrow> ''---''),
            pl_node = tp_node_id p, pl_perms = join_with '','' (tp_permissions p),
            pl_tags = (if tp_tags p = [] then ''---'' else join_with '','' (tp_tags p)),
            pl_state = st, pl_added = tp_added p\<rparr>)"

text \<open>The rows that are printed before one raises, and the end of the command.\<close>

fun print_rows :: "('a \<Rightarrow> 'b res) \<Rightarrow> 'a list \<Rightarrow> 'b list \<times> cli_out" where
  "print_rows f [] = ([], Done)"
| "print_rows f (x # xs) =
     (case f x of Inl e \<Rightarrow> ([], Crash e) | Inr r \<Rightarrow> (case print_rows f xs of (rs, out) \<Rightarrow> (r # rs, out)))"

definition list_peers ::
  "cli_env \<Rightarrow> datetime \<Rightarrow> string option \<Rightarrow> daemon \<times> cli_files \<Rightarrow> (daemon \<times> cli_files) \<times> peer_print list \<times> cli_out" where
  "list_peers env now tag dw =
     (case listed_peers env now dw of
        (dw', Inl out) \<Rightarrow> (dw', [], out)
      | (dw', Inr ps) \<Rightarrow>
          (dw', print_rows (peer_line now)
                  (case tag of Some t \<Rightarrow> if t = [] then ps else filter (\<lambda>p. t \<in> set (tp_tags p)) ps | None \<Rightarrow> ps)))"

section \<open>Maintenance\<close>

record window_print =
  wl_alias :: string
  wl_node :: string
  wl_start :: "datetime option"
  wl_end :: "datetime option"
  wl_state :: string

definition window_line :: "datetime \<Rightarrow> trusted_peer \<Rightarrow> window_print res" where
  "window_line now p =
     rbind (in_maintenance p now) (\<lambda>b.
     rbind (if b then Inr ''active''
            else case tp_mstart p of
              None \<Rightarrow> Inr ''expired''
            | Some s \<Rightarrow> rbind (dt_le s now) (\<lambda>past. Inr (if past then ''expired'' else ''scheduled''))) (\<lambda>st.
       Inr \<lparr>wl_alias = (case tp_alias p of Some a \<Rightarrow> if a = [] then ''---'' else a | None \<Rightarrow> ''---''),
            wl_node = take 16 (tp_node_id p) @ ''...'', wl_start = tp_mstart p, wl_end = tp_mend p, wl_state = st\<rparr>))"

definition list_maintenance :: "cli_env \<Rightarrow> datetime \<Rightarrow> cli_files \<Rightarrow> cli_files \<times> window_print list \<times> cli_out" where
  "list_maintenance env now w =
     (case read_trust env w of
        (w', Inl out) \<Rightarrow> (w', [], out)
      | (w', Inr m) \<Rightarrow>
          (w', print_rows (window_line now) (filter (\<lambda>p. tp_mstart p \<noteq> None \<or> tp_mend p \<noteq> None) (tm_store m))))"

section \<open>History\<close>

definition DEFAULT_WINDOWS :: "(string \<times> instant) list" where
  "DEFAULT_WINDOWS = WINDOW_ALIASES"

definition target_label :: "trust_mgr \<Rightarrow> node_id \<Rightarrow> string" where
  "target_label m n =
     (case get_peer m n of
        Some p \<Rightarrow> (case tp_alias p of Some a \<Rightarrow> if a = [] then take 12 n else a | None \<Rightarrow> take 12 n)
      | None \<Rightarrow> take 12 n)"

text \<open>The label and a line for each window; \<open>None\<close> is printed as no data.\<close>

definition show_uptime ::
  "cli_env \<Rightarrow> history_store \<Rightarrow> instant \<Rightarrow> string \<Rightarrow> string option \<Rightarrow> cli_files
   \<Rightarrow> cli_files \<times> (cli_out + (string \<times> (string \<times> rat option) list))" where
  "show_uptime env h now target window w =
     (case read_trust env w of
        (w', Inl out) \<Rightarrow> (w', Inl out)
      | (w', Inr m) \<Rightarrow>
          (case resolve_target m target of
             Inl _ \<Rightarrow> (w', Inl (Exit 1 ''no such peer''))
           | Inr n \<Rightarrow>
               (case (case window of None \<Rightarrow> Inr DEFAULT_WINDOWS | Some v \<Rightarrow> rbind (parse_window v) (\<lambda>d. Inr [(v, d)])) of
                  Inl _ \<Rightarrow> (w', Inl (Exit 1 ''unsupported window''))
                | Inr ws \<Rightarrow> (w', Inr (target_label m n, map (\<lambda>(name, d). (name, uptime_percent h now n d)) ws)))))"

definition show_history ::
  "cli_env \<Rightarrow> history_store \<Rightarrow> instant \<Rightarrow> string \<Rightarrow> int \<Rightarrow> cli_files \<Rightarrow> cli_files \<times> (cli_out + probe_row list)" where
  "show_history env h now target hours w =
     (case read_trust env w of
        (w', Inl out) \<Rightarrow> (w', Inl out)
      | (w', Inr m) \<Rightarrow>
          (case resolve_target m target of
             Inl _ \<Rightarrow> (w', Inl (Exit 1 ''no such peer''))
           | Inr n \<Rightarrow> (w', Inr (recent_rows h now n hours None))))"

section \<open>Webhook\<close>

definition run_test_webhook ::
  "cli_env \<Rightarrow> (string \<Rightarrow> string) \<Rightarrow> post_out \<Rightarrow> instant \<Rightarrow> string option \<Rightarrow> id_dir \<Rightarrow> cli_out \<times> (string \<times> dict) list \<times> delivery option" where
  "run_test_webhook env utf8 answer now url d =
     (case url of
        None \<Rightarrow> (Exit 1 ''--test-webhook requires --webhook-url URL'', [], None)
      | Some u \<Rightarrow>
          if u = [] then (Exit 1 ''--test-webhook requires --webhook-url URL'', [], None)
          else case identity_node_id env d of
            Inl out \<Rightarrow> (out, [], None)
          | Inr nid \<Rightarrow>
              (let n = WebhookNotifier u; ev = sample_event nid now in (Done, posted n ev, Some (notify utf8 answer n ev))))"

section \<open>Service commands\<close>

definition service_command ::
  "install_env \<Rightarrow> string \<Rightarrow> bool \<Rightarrow> bool \<Rightarrow> bool \<Rightarrow> bool \<Rightarrow> string option \<Rightarrow> install_state \<Rightarrow> install_state \<times> install_end" where
  "service_command E command system user force rotate_pw backend st =
     (if system \<and> user then (st, ExitCode 2)
      else let mode = (if system then Some True else if user then Some False else None) in
      if command = ''uninstall_service'' then uninstall_service E mode st
      else install_service E mode force backend (rotate_pw \<or> command = ''rotate_credential'') st)"

section \<open>Run commands\<close>

record run_args =
  ra_retain_days :: int
  ra_down_after :: int
  ra_up_after :: int
  ra_flap_dwell :: int
  ra_refresh_failures :: int
  ra_refresh_cooldown :: int

datatype run_mode = RunDaemon | RunTui | RunFetch

text \<open>From the guard to the engine: the identity must open, the log must load.\<close>

definition make_engine ::
  "cli_env \<Rightarrow> bool \<Rightarrow> (string \<Rightarrow> bool) \<Rightarrow> run_args \<Rightarrow> probe list \<Rightarrow> cli_files \<Rightarrow> cli_files \<times> (cli_out + engine)" where
  "make_engine env force_fresh can_remove a probes w0 =
     (case guard_legacy force_fresh can_remove (cf_cwd w0) of
        (files, False) \<Rightarrow> (w0\<lparr>cf_cwd := files\<rparr>, Inl (Exit 1 ''Legacy account/mesh artifacts detected''))
      | (files, True) \<Rightarrow>
          let w = w0\<lparr>cf_cwd := files\<rparr> in
          (case unlock_or_exit env w of
             Inl out \<Rightarrow> (w, Inl out)
           | Inr (seed, nid) \<Rightarrow>
               (case build_trust (ce_crypto (cl_server env)) (cl_open env) (Some (cl_key env seed)) nid (cf_log w) (cf_cache w) of
                  (m, Inl e) \<Rightarrow> (saved w m, Inl (Crash e))
                | (m, Inr _) \<Rightarrow>
                    (saved w m, Inr (new_engine nid m \<lparr>hs_probes = probes, hs_retain_days = ra_retain_days a\<rparr> None
                       (ra_down_after a) (ra_up_after a) (ra_flap_dwell a) (ra_refresh_failures a) (ra_refresh_cooldown a))))))"

text \<open>
  The three run modes. The runtime that was started is part of the result; what a mode meets
  while it runs is in the arguments of its own definition.
\<close>

record run_world =
  rw_config :: run_config
  rw_init :: init_env
  rw_life :: "runtime \<Rightarrow> runtime"
  rw_app :: "runtime \<Rightarrow> runtime \<times> unit res"
  rw_fetched :: "json res"
  rw_fails :: "stop_step \<Rightarrow> bool"
  rw_end :: instant

definition ended :: "runtime \<times> unit res \<Rightarrow> cli_out \<times> runtime option" where
  "ended r = (case r of (rt, Inl e) \<Rightarrow> (Crash e, Some rt) | (rt, Inr _) \<Rightarrow> (Done, Some rt))"

definition run_mode_of :: "(node_id \<Rightarrow> bool) \<Rightarrow> run_world \<Rightarrow> run_mode \<Rightarrow> engine \<Rightarrow> cli_out \<times> runtime option" where
  "run_mode_of key_ok W mode g =
     (case mode of
        RunDaemon \<Rightarrow> ended (run_daemon key_ok (rw_config W) (rw_init W) (rw_life W) (rw_fails W) (rw_end W) (new_runtime g))
      | RunTui \<Rightarrow> ended (run_tui key_ok (rw_config W) (rw_init W) (rw_app W) (rw_fails W) (rw_end W) (new_runtime g))
      | RunFetch \<Rightarrow>
          (case run_fetch_dashboard key_ok (rw_config W) (rw_init W) (rw_fetched W) (rw_fails W) (rw_end W) (new_runtime g) of
             (rt, Inl e) \<Rightarrow> (Crash e, Some rt)
           | (rt, Inr code) \<Rightarrow> (if code = 0 then Done else Exit code ''Fetch failed'', Some rt)))"

definition run_command ::
  "cli_env \<Rightarrow> bool \<Rightarrow> (string \<Rightarrow> bool) \<Rightarrow> run_args \<Rightarrow> probe list \<Rightarrow> run_world \<Rightarrow> run_mode \<Rightarrow> cli_files
   \<Rightarrow> cli_files \<times> cli_out \<times> runtime option" where
  "run_command env force_fresh can_remove a probes W mode w =
     (case make_engine env force_fresh can_remove a probes w of
        (w', Inl out) \<Rightarrow> (w', out, None)
      | (w', Inr g) \<Rightarrow> (w', run_mode_of (ce_key_ok (cl_server env)) W mode g))"

section \<open>Reading back a peer\<close>

lemma opt_time_json [simp]: "opt_time (json_time t) = Inr t"
  by (cases t) (simp_all add: json_time_def)

lemma opt_str_json [simp]: "as_opt_str (json_option x) = Inr x"
  by (cases x) (simp_all add: json_option_def)

lemma text_list_json [simp]: "text_list (str_list xs) = Inr xs"
  by (cases xs) (simp_all add: text_list_def str_list_def py_or_def)

lemma peer_json_reads_back: "read_peer now (peer_json p) = Inr p"
proof -
  have "dindex (peer_json p) ''node_id'' = Inr (JStr (tp_node_id p))" "dget (peer_json p) ''alias'' = json_option (tp_alias p)"
    "dget (peer_json p) ''permissions'' = str_list (tp_permissions p)" "dget (peer_json p) ''tags'' = str_list (tp_tags p)"
    "dget (peer_json p) ''added_at'' = JTime (tp_added p)" "dget (peer_json p) ''revoked_at'' = json_time (tp_revoked p)"
    "dget (peer_json p) ''maintenance_start'' = json_time (tp_mstart p)" "dget (peer_json p) ''maintenance_end'' = json_time (tp_mend p)"
    by (simp_all add: peer_json_def dindex_def dget_def)
  moreover have "opt_time (JTime (tp_added p)) = Inr (Some (tp_added p))" by (simp add: opt_time_def)
  ultimately show ?thesis by (simp add: read_peer_def)
qed

lemma rmap_peers [simp]: "rmap (\<lambda>p. read_peer now (peer_json p)) ps = Inr ps"
  by (induction ps) (simp_all add: peer_json_reads_back)

section \<open>Reading changes nothing\<close>

lemma build_trust_keeps_log:
  assumes "build_trust C io None nid f cache = (m, r)"
  shows "tl_file (tm_log m) = f"
proof (cases "log_load C (new_trust_log None nid f)")
  case (Inl e)
  with assms show ?thesis by (auto simp: build_trust_def Let_def new_trust_mgr_def new_trust_log_def)
next
  case (Inr L)
  then have "tl_file L = f" by (auto simp: log_load_def new_trust_log_def rbind_Inr_conv split: option.splits)
  with Inr assms show ?thesis
    by (auto simp: build_trust_def Let_def trust_load_def refresh_def rebuild_from_log_def save_cache_def new_trust_mgr_def
        rbind_Inr_conv split: sum.splits if_splits)
qed

lemma read_trust_keeps_log:
  "read_trust env w = (w', r) \<Longrightarrow> cf_log w' = cf_log w \<and> cf_identity w' = cf_identity w \<and> cf_cwd w' = cf_cwd w"
  by (auto simp: read_trust_def saved_def dest: build_trust_keeps_log split: sum.splits prod.splits)

lemma peers_request:
  "client_request env uid d GET ''/v1/peers'' None
     = (d, case d of NoSocket \<Rightarrow> Inl (Escaped (FileNotFoundError ''control.sock''))
           | StaleSocket \<Rightarrow> Inl (Escaped (OSError ''Connection refused''))
           | Running s \<Rightarrow> if uid = ce_euid env then Inr (Peers (tm_store (eg_trust (cs_engine s))))
                         else Inl (ControlClientError 403 ''peer euid != daemon euid''))"
proof -
  have "split_target ''/v1/peers'' = (''/v1/peers'', [])" by (simp add: split_target_def)
  moreover have "target_ok ''/v1/peers''" by (simp add: target_ok_def)
  ultimately show ?thesis
    by (cases d) (simp_all add: client_request_def control_handle_def control_authorized_def route_all
        route_collection_def Let_def say_def)
qed

definition same_state :: "cli_files \<Rightarrow> cli_files \<Rightarrow> bool" where
  "same_state w w' \<longleftrightarrow> cf_log w' = cf_log w \<and> cf_identity w' = cf_identity w \<and> cf_cwd w' = cf_cwd w"

lemma read_trust_same: "same_state w (fst (read_trust env w))"
  using read_trust_keeps_log[of env w] by (cases "read_trust env w") (simp add: same_state_def)

lemma listed_peers_same:
  "fst (fst (listed_peers env now (d, w))) = d \<and> same_state w (snd (fst (listed_peers env now (d, w))))"
  using read_trust_same[of w env]
  by (auto simp: listed_peers_def socket_peers_def peers_request same_state_def
      split: prod.splits sum.splits control_body.splits daemon.splits if_splits)

text \<open>
  The reading commands need no password and change nothing but the cache: neither the daemon, nor the log, the
  identity or the working directory.
\<close>

theorem queries_change_nothing:
  "fst (fst (list_peers env now tag (d, w))) = d \<and> same_state w (snd (fst (list_peers env now tag (d, w))))
   \<and> same_state w (fst (list_maintenance env now w))
   \<and> same_state w (fst (show_uptime env h t target window w)) \<and> same_state w (fst (show_history env h t target hours w))"
proof -
  have "fst (fst (list_peers env now tag (d, w))) = d \<and> same_state w (snd (fst (list_peers env now tag (d, w))))"
    using listed_peers_same[of env now d w]
    by (cases "listed_peers env now (d, w)" rule: prod.exhaust) (auto simp: list_peers_def split: sum.split)
  then show ?thesis
    using read_trust_same[of w env]
    by (auto simp: list_maintenance_def show_uptime_def show_history_def split: prod.splits sum.splits)
qed

section \<open>Both ways list the same peers\<close>

lemma build_trust_read:
  assumes "tm_ok m" and "log_synced C (tm_log m)" and "tl_file (tm_log m) \<noteq> None" and "io_cache_ok io" and "tl_own (tm_log m) = tm_own m"
  shows "\<exists>m'. build_trust C io None (tm_own m) (tl_file (tm_log m)) cache = (m', Inr ()) \<and> tm_store m' = tm_store m"
proof -
  have "log_load C (new_trust_log None (tm_own m) (tl_file (tm_log m))) = Inr ((tm_log m)\<lparr>tl_key := None\<rparr>)"
    using log_reopens[OF assms(2,3), of None] assms(5) by simp
  with assms(4) tm_ok_view[OF assms(1)] show ?thesis
    by (simp add: build_trust_def Let_def trust_load_def refresh_def rebuild_from_log_def save_cache_def new_trust_mgr_def)
qed

lemma opens_identity:
  assumes "opens env d seed own"
  shows "identity_node_id env d = Inr own"
proof -
  obtain pw m where "unlock_identity (ce_sealing (cl_server env)) pw d = Inr (seed, m)" "im_node_id m = own"
    using assms by (auto simp: opens_def)
  then show ?thesis
    by (auto simp: unlock_identity_def identity_node_id_def is_sealed_def rbind_Inr_conv split: option.splits if_splits)
qed

text \<open>
  C26: Listing the peers prints the same with and without a daemon: the rows, the filter by tag, and where an exception
  ends it.
\<close>

theorem lists_agree:
  assumes "agree env s w" and "io_cache_ok (cl_open env)"
  shows "snd (list_peers env now tag (Running s, w)) = snd (list_peers env now tag (NoSocket, w))
    \<and> file_peers (ce_crypto (cl_server env)) (eg_node_id (cs_engine s)) (cf_log w) = Inr (tm_store (eg_trust (cs_engine s)))"
proof -
  let ?C = "ce_crypto (cl_server env)"
  define m where "m = eg_trust (cs_engine s)"
  obtain seed where ok: "tm_ok m" "log_synced ?C (tm_log m)" "tl_file (tm_log m) \<noteq> None" "tl_own (tm_log m) = tm_own m"
    "eg_node_id (cs_engine s) = tm_own m" "cl_uid env = ce_euid (cl_server env)" "cf_log w = tl_file (tm_log m)"
    "opens env (cf_identity w) seed (tm_own m)"
    using assms(1) by (auto simp: agree_def Let_def m_def)
  obtain m' where m': "build_trust ?C (cl_open env) None (tm_own m) (cf_log w) (cf_cache w) = (m', Inr ())" "tm_store m' = tm_store m"
    using build_trust_read[OF ok(1-3) assms(2) ok(4)] ok(7) by metis
  have "listed_peers env now (Running s, w) = ((Running s, w), Inr (tm_store m))"
    by (simp add: listed_peers_def available_def socket_peers_def peers_request ok(6) m_def)
  moreover have "\<exists>w'. listed_peers env now (NoSocket, w) = ((NoSocket, w'), Inr (tm_store m))"
    by (simp add: listed_peers_def available_def read_trust_def opens_identity[OF ok(8)] m')
  moreover have "file_peers ?C (tm_own m) (cf_log w) = Inr (tm_store m)"
    using file_peers_synced[OF ok(2,3)] ok(4,7) tm_ok_view[OF ok(1)] by simp
  ultimately show ?thesis by (auto simp: list_peers_def ok(5) m_def)
qed

definition demo_line :: log_entry where
  "demo_line = (demo_added demo_id [''monitor'', ''shell''] [''prod''])\<lparr>le_seq := 1, le_prev_hash := ''hk'', le_sig := ''k''\<rparr>"

definition demo_two :: trust_log where
  "demo_two = demo_log\<lparr>tl_own := demo_node, tl_entries := [demo_genesis, demo_line],
     tl_file := Some \<lparr>lf_lines = [Line demo_genesis, Line demo_line, Blank], lf_mtime = 1\<rparr>\<rparr>"

definition demo_peers :: "trusted_peer list" where
  "demo_peers = [demo_web_peer demo_id [''monitor'', ''shell''] [''prod'']]"

definition demo_two_mgr :: trust_mgr where
  "demo_two_mgr = \<lparr>tm_log = demo_two, tm_own = demo_node, tm_store = demo_peers, tm_by_nid = index_peers demo_peers,
     tm_cache = demo_peers\<rparr>"

definition demo_two_daemon :: control_state where
  "demo_two_daemon = demo_daemon\<lparr>cs_engine := (cs_engine demo_daemon)\<lparr>eg_trust := demo_two_mgr\<rparr>\<rparr>"

definition demo_two_files :: cli_files where
  "demo_two_files = demo_files\<lparr>cf_log := tl_file demo_two\<rparr>"

lemma demo_two_ok: "tm_ok demo_two_mgr" "log_synced demo_crypto demo_two"
proof -
  show "tm_ok demo_two_mgr"
    by (simp add: tm_ok_def demo_two_mgr_def demo_two_def demo_peers_def demo_line_def demo_genesis_def demo_log_def
        demo_added_def demo_entry_def materialize_peers_def mat_step_def Let_def
        entry_nid_def mat_add_def dict_simps str_list_def viewed_def peer_rel_iff demo_web_peer_def)
  show "log_synced demo_crypto demo_two"
    by (simp add: log_synced_def demo_two_def demo_log_def verify_chain_def verify_from_Cons verify_entry_def Let_def demo_crypto_def
        demo_genesis_def demo_line_def demo_added_def demo_entry_def OP_TYPES_def entry_hash_def
        monitor_tail_from_def is_monitor_op_def)
qed

lemma demo_two_agree: "agree demo_cli demo_two_daemon demo_two_files"
proof -
  have "opens demo_cli demo_id_dir demo_seed demo_node"
    using demo_unlock by (simp add: opens_def demo_cli_def demo_control_def demo_meta_def demo_node_def)
  then show ?thesis using demo_two_ok demo_sig
    by (auto simp: agree_def Let_def demo_two_daemon_def demo_daemon_def demo_cli_def demo_two_files_def demo_files_def
        new_engine_def demo_two_mgr_def demo_two_def demo_log_def)
qed

theorem lists_agree_witness:
  "snd (list_peers demo_cli (Aware 9) (Some ''prod'') (Running demo_two_daemon, demo_two_files))
     = snd (list_peers demo_cli (Aware 9) (Some ''prod'') (NoSocket, demo_two_files))
   \<and> file_peers demo_crypto demo_node (cf_log demo_two_files) = Inr demo_peers"
proof -
  have io: "io_cache_ok (cl_open demo_cli)" by (simp add: demo_cli_def demo_io_def)
  have g: "ce_crypto (cl_server demo_cli) = demo_crypto" "eg_node_id (cs_engine demo_two_daemon) = demo_node"
    "tm_store (eg_trust (cs_engine demo_two_daemon)) = demo_peers"
    by (simp_all add: demo_cli_def demo_control_def demo_two_daemon_def demo_daemon_def new_engine_def demo_two_mgr_def)
  show ?thesis using lists_agree[OF demo_two_agree io, of "Aware 9" "Some ''prod''"] unfolding g .
qed

end
