(* ===== verification/Web_Terminal.thy ===== *)
theory Web_Terminal
  imports Webapp
begin

text \<open>
  The browser's terminals to peers (webapp.py: \<open>_serve_peer_shell\<close>, alpn/shell.py: \<open>open_peer_shell\<close>): the
  handler threads, the coroutines that open the shells on the event loop, and the permits they share. A handler
  waits 35 seconds for its shell; the coroutine it waits for is not cancelled then.
\<close>

section \<open>State\<close>

text \<open>
  Handlers and the shells they ask for are named by the same number. A handler asks (since when), relays,
  has ended, or has given up waiting.
\<close>

datatype handler = Asking int | Relaying | HandlerEnded | GaveUp

record terminals =
  wt_now :: int
  wt_client :: shell_client
  wt_waiting :: "nat list"
  wt_setup :: "nat list"
  wt_handlers :: "nat \<rightharpoonup> handler"
  wt_shown :: "(nat \<times> string) list"

definition new_terminals :: terminals where
  "new_terminals = \<lparr>wt_now = 0, wt_client = new_shell_client, wt_waiting = [], wt_setup = [], wt_handlers = Map.empty, wt_shown = []\<rparr>"

section \<open>Steps\<close>

definition FETCH_RESULT_TIMEOUT :: int where "FETCH_RESULT_TIMEOUT = 35"

text \<open>A line of text in the terminal, in a data frame.\<close>

definition shell_line :: "string \<Rightarrow> string" where
  "shell_line s = [CHR 0x0D, CHR 0x0A] @ s @ [CHR 0x0D, CHR 0x0A]"

definition shell_error :: "string \<Rightarrow> string" where
  "shell_error msg = shell_line (''shell error: '' @ msg)"

definition show_text :: "nat \<Rightarrow> string \<Rightarrow> terminals \<Rightarrow> terminals" where
  "show_text k s t = t\<lparr>wt_shown := wt_shown t @ [(k, s)], wt_handlers := (wt_handlers t)(k \<mapsto> HandlerEnded)\<rparr>"

text \<open>
  What is known before the coroutine waits: no event loop; an exception (no network node, no such peer);
  or the peer.
\<close>

definition shell_target :: "bool \<Rightarrow> (resolve_error \<Rightarrow> string) \<Rightarrow> (node_id \<Rightarrow> bool) \<Rightarrow> engine \<Rightarrow> string \<Rightarrow> (string + node_id) option" where
  "shell_target loop_runs text key_ok g target =
     (if \<not> loop_runs then None
      else Some (if \<not> eg_iroh g then Inl ''engine not initialized''
        else case resolve_target (eg_trust g) target of
          Inl e \<Rightarrow> Inl (text e)
        | Inr n \<Rightarrow> if key_ok n then Inr n else Inl ''invalid node_id''))"

definition ask_shell :: "nat \<Rightarrow> (string + node_id) option \<Rightarrow> terminals \<Rightarrow> terminals" where
  "ask_shell k target t =
     (if wt_handlers t k \<noteq> None then t
      else case target of
        None \<Rightarrow> show_text k (shell_line ''engine loop unavailable'') t
      | Some (Inl msg) \<Rightarrow> show_text k (shell_error msg) t
      | Some (Inr n) \<Rightarrow> t\<lparr>wt_handlers := (wt_handlers t)(k \<mapsto> Asking (wt_now t)), wt_waiting := wt_waiting t @ [k]\<rparr>)"

text \<open>The semaphore lets the first one waiting through.\<close>

definition grant_permit :: "terminals \<Rightarrow> terminals" where
  "grant_permit t =
     (case wt_waiting t of
        [] \<Rightarrow> t
      | k # ks \<Rightarrow>
          if sc_permits (wt_client t) = 0 then t
          else t\<lparr>wt_waiting := ks, wt_setup := wt_setup t @ [k], wt_client := client_acquire (wt_client t)\<rparr>)"

text \<open>
  The set-up (connect, both streams) ends with an exception or a session. A handler that still asks gets
  the result; a session is registered and started in either case.
\<close>

definition end_setup :: "nat \<Rightarrow> string option \<Rightarrow> terminals \<Rightarrow> terminals" where
  "end_setup k failed t =
     (if k \<notin> set (wt_setup t) then t
      else let t1 = t\<lparr>wt_setup := remove1 k (wt_setup t)\<rparr>; asks = (case wt_handlers t k of Some (Asking _) \<Rightarrow> True | _ \<Rightarrow> False) in
      case failed of
        Some msg \<Rightarrow>
          (let t2 = t1\<lparr>wt_client := client_opened (wt_client t) None\<rparr> in if asks then show_text k (shell_error msg) t2 else t2)
      | None \<Rightarrow>
          (let t2 = t1\<lparr>wt_client := client_opened (wt_client t) (Some k)\<rparr> in
           if asks then t2\<lparr>wt_handlers := (wt_handlers t)(k \<mapsto> Relaying)\<rparr> else t2))"

text \<open>After 35 seconds a handler gives up; the text of this exception is empty.\<close>

definition give_up :: "nat \<Rightarrow> terminals \<Rightarrow> terminals" where
  "give_up k t =
     (case wt_handlers t k of
        Some (Asking since) \<Rightarrow>
          if wt_now t - since \<ge> FETCH_RESULT_TIMEOUT
          then t\<lparr>wt_shown := wt_shown t @ [(k, shell_error [])], wt_handlers := (wt_handlers t)(k \<mapsto> GaveUp)\<rparr> else t
      | _ \<Rightarrow> t)"

text \<open>The relay ends, for whatever reason: the session is closed. Later the closing is done.\<close>

definition end_relay :: "nat \<Rightarrow> terminals \<Rightarrow> terminals" where
  "end_relay k t =
     (if wt_handlers t k = Some Relaying
      then t\<lparr>wt_handlers := (wt_handlers t)(k \<mapsto> HandlerEnded), wt_client := aclose_start (wt_client t) k\<rparr> else t)"

definition end_close :: "nat \<Rightarrow> terminals \<Rightarrow> terminals" where
  "end_close k t = (if k \<in> set (sc_closing (wt_client t)) then t\<lparr>wt_client := aclose_finish (wt_client t) k\<rparr> else t)"

datatype term_op =
    Tick nat | Ask nat "(string + node_id) option" | Grant | SetUp nat "string option" | GiveUp nat | EndRelay nat | EndClose nat

fun term_step :: "terminals \<Rightarrow> term_op \<Rightarrow> terminals" where
  "term_step t (Tick d) = t\<lparr>wt_now := wt_now t + int d\<rparr>"
| "term_step t (Ask k target) = ask_shell k target t"
| "term_step t Grant = grant_permit t"
| "term_step t (SetUp k failed) = end_setup k failed t"
| "term_step t (GiveUp k) = give_up k t"
| "term_step t (EndRelay k) = end_relay k t"
| "term_step t (EndClose k) = end_close k t"

definition run_terminals :: "terminals \<Rightarrow> term_op list \<Rightarrow> terminals" where
  "run_terminals t ops = foldl term_step t ops"

text \<open>The open sessions whose handler has given up.\<close>

definition abandoned :: "terminals \<Rightarrow> nat list" where
  "abandoned t = filter (\<lambda>k. wt_handlers t k = Some GaveUp) (sc_sessions (wt_client t))"

section \<open>Who holds a permit\<close>

definition pending :: "terminals \<Rightarrow> nat \<Rightarrow> bool" where
  "pending t k \<longleftrightarrow> (\<exists>s. wt_handlers t k = Some (Asking s)) \<or> wt_handlers t k = Some GaveUp"

definition term_ok :: "terminals \<Rightarrow> bool" where
  "term_ok t \<longleftrightarrow>
     client_inv (wt_client t) \<and> sc_opening (wt_client t) = length (wt_setup t)
     \<and> distinct (wt_waiting t @ wt_setup t)
     \<and> (\<forall>k \<in> set (wt_waiting t @ wt_setup t). pending t k \<and> k \<notin> set (sc_sessions (wt_client t)))
     \<and> (\<forall>k \<in> set (sc_closed (wt_client t)). wt_handlers t k = Some HandlerEnded)
     \<and> (\<forall>k \<in> set (sc_sessions (wt_client t)).
          wt_handlers t k = Some Relaying \<or> wt_handlers t k = Some GaveUp
          \<or> wt_handlers t k = Some HandlerEnded \<and> k \<in> set (sc_closed (wt_client t)))
     \<and> (\<forall>k. wt_handlers t k = Some Relaying \<longrightarrow> k \<in> set (sc_sessions (wt_client t)))"

lemma term_ok_new: "term_ok new_terminals"
  by (simp add: term_ok_def new_terminals_def client_inv_def new_shell_client_def)

lemma client_facts:
  assumes "term_ok t"
  shows "client_inv (wt_client t)" and "set (sc_closing (wt_client t)) \<subseteq> set (sc_closed (wt_client t))"
    and "distinct (sc_sessions (wt_client t))"
  using assms by (auto simp: term_ok_def client_inv_def)

lemma closed_ended: "term_ok t \<Longrightarrow> k \<in> set (sc_closed (wt_client t)) \<Longrightarrow> wt_handlers t k = Some HandlerEnded"
  by (simp add: term_ok_def)

lemma session_owner:
  assumes "term_ok t" and "k \<in> set (sc_sessions (wt_client t))"
  shows "wt_handlers t k = Some Relaying \<or> k \<in> set (abandoned t) \<or> k \<in> set (sc_closing (wt_client t))"
proof -
  have "set (sc_closing (wt_client t)) = set (sc_sessions (wt_client t)) \<inter> set (sc_closed (wt_client t))"
    using client_facts(1)[OF assms(1)] by (simp add: client_inv_def)
  moreover have "wt_handlers t k = Some Relaying \<or> wt_handlers t k = Some GaveUp
      \<or> wt_handlers t k = Some HandlerEnded \<and> k \<in> set (sc_closed (wt_client t))"
    using assms by (simp add: term_ok_def)
  ultimately show ?thesis using assms(2) by (auto simp: abandoned_def)
qed

lemma relaying_open: "term_ok t \<Longrightarrow> wt_handlers t k = Some Relaying \<Longrightarrow> k \<in> set (sc_sessions (wt_client t))"
  by (simp add: term_ok_def)

lemma pending_None: "wt_handlers t k = None \<Longrightarrow> \<not> pending t k" by (simp add: pending_def)

lemma term_ok_ask:
  assumes "term_ok t"
  shows "term_ok (ask_shell k target t)"
proof (cases "wt_handlers t k")
  case None
  then have fresh: "k \<notin> set (wt_waiting t)" "k \<notin> set (wt_setup t)" "k \<notin> set (sc_sessions (wt_client t))" "k \<notin> set (sc_closed (wt_client t))"
    using assms pending_None[OF None] by (fastforce simp: term_ok_def)+
  with assms None show ?thesis
    by (auto simp: term_ok_def ask_shell_def show_text_def pending_def split: option.splits sum.splits)
qed (simp add: ask_shell_def assms)

lemma term_ok_grant:
  assumes "term_ok t"
  shows "term_ok (grant_permit t)"
proof (cases "wt_waiting t = [] \<or> sc_permits (wt_client t) = 0")
  case True
  with assms show ?thesis by (auto simp: grant_permit_def split: list.splits)
next
  case False
  then obtain k ks where w: "wt_waiting t = k # ks" "sc_permits (wt_client t) \<noteq> 0" by (cases "wt_waiting t") auto
  have "client_inv (client_acquire (wt_client t))"
    using client_inv_step[OF client_step.acquire client_facts(1)[OF assms]] .
  with assms w show ?thesis by (auto simp: term_ok_def grant_permit_def client_acquire_def pending_def)
qed

lemma term_ok_setup:
  assumes "term_ok t"
  shows "term_ok (end_setup k failed t)"
proof (cases "k \<in> set (wt_setup t)")
  case True
  have pend: "pending t k \<and> k \<notin> set (sc_sessions (wt_client t))" using assms True by (simp add: term_ok_def)
  then have alive: "wt_handlers t k \<noteq> Some HandlerEnded" "wt_handlers t k \<noteq> Some Relaying" by (auto simp: pending_def)
  have fresh: "k \<notin> set (sc_sessions (wt_client t))" "k \<notin> set (sc_closed (wt_client t))"
    using pend closed_ended[OF assms, of k] by (auto simp: pending_def)
  have place: "k \<notin> set (wt_waiting t)" "distinct (wt_setup t)" and room: "0 < sc_opening (wt_client t)"
    using assms True by (auto simp: term_ok_def)
  have inv: "client_inv (client_opened (wt_client t) None)" "client_inv (client_opened (wt_client t) (Some k))"
    using client_inv_step[OF client_step.failed[OF room] client_facts(1)[OF assms]]
      client_inv_step[OF client_step.opened[OF room fresh(1,2)] client_facts(1)[OF assms]] by simp_all
  have len: "length (remove1 k (wt_setup t)) = length (wt_setup t) - 1" using True by (simp add: length_remove1)
  show ?thesis
    using assms True inv fresh place len alive
    by (cases failed)
       (auto simp: term_ok_def end_setup_def Let_def client_opened_def show_text_def pending_def
         split: option.splits handler.splits)
qed (simp add: end_setup_def assms)

lemma term_ok_give_up: "term_ok t \<Longrightarrow> term_ok (give_up k t)"
  by (auto simp: term_ok_def give_up_def pending_def split: option.splits handler.splits)

lemma term_ok_end_relay:
  assumes "term_ok t"
  shows "term_ok (end_relay k t)"
proof (cases "wt_handlers t k = Some Relaying")
  case True
  have k: "k \<in> set (sc_sessions (wt_client t))" "k \<notin> set (sc_closed (wt_client t))"
    using assms True by (auto simp: term_ok_def)
  have "client_inv (aclose_start (wt_client t) k)"
    using client_inv_step[OF client_step.close client_facts(1)[OF assms], of k] k(1) by simp
  with assms True k show ?thesis
    by (auto simp: term_ok_def end_relay_def aclose_start_def pending_def)
qed (simp add: end_relay_def assms)

lemma term_ok_end_close:
  assumes "term_ok t"
  shows "term_ok (end_close k t)"
proof (cases "k \<in> set (sc_closing (wt_client t))")
  case True
  have "client_inv (aclose_finish (wt_client t) k)"
    using client_inv_step[OF client_step.closed[OF True] client_facts(1)[OF assms]] .
  moreover have "wt_handlers t k = Some HandlerEnded"
    using assms True client_facts(2)[OF assms] by (auto simp: term_ok_def)
  ultimately show ?thesis
    using assms True by (auto simp: term_ok_def end_close_def aclose_finish_def pending_def)
qed (simp add: end_close_def assms)

lemma term_ok_step: "term_ok t \<Longrightarrow> term_ok (term_step t x)"
  by (cases x) (simp_all add: term_ok_ask term_ok_grant term_ok_setup term_ok_give_up term_ok_end_relay term_ok_end_close,
     simp add: term_ok_def pending_def)

lemma term_ok_run: "term_ok t \<Longrightarrow> term_ok (run_terminals t ops)"
  unfolding run_terminals_def by (induction ops arbitrary: t) (simp_all add: term_ok_step)

section \<open>Nobody closes what was given up\<close>

lemma gave_up_stays:
  assumes "wt_handlers t k = Some GaveUp"
  shows "wt_handlers (term_step t x) k = Some GaveUp"
proof (cases x)
  case (Ask j target)
  with assms show ?thesis by (auto simp: ask_shell_def show_text_def split: option.splits sum.splits)
next
  case Grant
  with assms show ?thesis by (auto simp: grant_permit_def split: list.splits)
next
  case (SetUp j failed)
  with assms show ?thesis
    by (cases failed) (auto simp: end_setup_def Let_def show_text_def split: option.splits handler.splits)
next
  case (GiveUp j)
  with assms show ?thesis by (auto simp: give_up_def split: option.splits handler.splits)
qed (use assms in \<open>auto simp: end_relay_def end_close_def\<close>)

lemma session_stays:
  assumes "k \<in> set (sc_sessions (wt_client t))" and "k \<notin> set (sc_closing (wt_client t))"
  shows "k \<in> set (sc_sessions (wt_client (term_step t x)))"
proof (cases x)
  case (Ask j target)
  with assms show ?thesis by (auto simp: ask_shell_def show_text_def split: option.splits sum.splits)
next
  case Grant
  with assms show ?thesis by (auto simp: grant_permit_def client_acquire_def split: list.splits)
next
  case (SetUp j failed)
  with assms show ?thesis
    by (cases failed) (auto simp: end_setup_def Let_def show_text_def client_opened_def split: option.splits handler.splits)
next
  case (GiveUp j)
  with assms show ?thesis by (auto simp: give_up_def split: option.splits handler.splits)
qed (use assms in \<open>auto simp: end_relay_def aclose_start_def end_close_def aclose_finish_def\<close>)

lemma abandoned_step:
  assumes "term_ok t" and "k \<in> set (abandoned t)"
  shows "k \<in> set (abandoned (term_step t x))"
proof -
  have k: "wt_handlers t k = Some GaveUp" "k \<in> set (sc_sessions (wt_client t))" using assms(2) by (auto simp: abandoned_def)
  have "k \<notin> set (sc_closing (wt_client t))" using assms(1) k(1) client_facts(2)[OF assms(1)] by (auto simp: term_ok_def)
  with gave_up_stays[OF k(1)] session_stays[OF k(2)] show ?thesis by (simp add: abandoned_def)
qed

lemma abandoned_run: "term_ok t \<Longrightarrow> set (abandoned t) \<subseteq> set (abandoned (run_terminals t ops))"
  unfolding run_terminals_def
proof (induction ops arbitrary: t)
  case (Cons x ops)
  have "set (abandoned t) \<subseteq> set (abandoned (term_step t x))" using abandoned_step[OF Cons.prems] by blast
  also have "\<dots> \<subseteq> set (abandoned (foldl term_step (term_step t x) ops))" by (rule Cons.IH[OF term_ok_step[OF Cons.prems]])
  finally show ?case by simp
qed simp

lemma permits_left:
  assumes "term_ok t"
  shows "sc_permits (wt_client t) + length (wt_setup t) + length (sc_sessions (wt_client t)) = 4"
    and "length (abandoned t) \<le> length (sc_sessions (wt_client t))" and "distinct (abandoned t)"
  using assms client_facts(3)[OF assms] by (auto simp: term_ok_def client_inv_def SHELL_MAX_SESSIONS_def abandoned_def)

text \<open>
  C36: Every open session to a peer has a handler that relays, or is being closed, or was given up: its handler
  waited 35 seconds for it and it was opened after that. Such a session is never closed, and keeps its permit
  until the daemon stops. After four of them no terminal to a peer opens any more.
\<close>

theorem abandoned_shells_keep_permits:
  "let t = run_terminals new_terminals before; t' = run_terminals new_terminals (before @ after) in
    (\<forall>k \<in> set (sc_sessions (wt_client t)).
        wt_handlers t k = Some Relaying \<or> k \<in> set (sc_closing (wt_client t)) \<or> k \<in> set (abandoned t))
    \<and> set (abandoned t) \<subseteq> set (abandoned t')
    \<and> sc_permits (wt_client t') + length (wt_setup t') + length (abandoned t) \<le> 4
    \<and> (length (abandoned t) = 4 \<longrightarrow> wt_setup t' = [] \<and> (\<forall>k. wt_handlers t' k \<noteq> Some Relaying))"
proof -
  define t t' where t_def: "t = run_terminals new_terminals before" and t'_def: "t' = run_terminals new_terminals (before @ after)"
  have ok: "term_ok t" "term_ok t'" unfolding t_def t'_def by (rule term_ok_run[OF term_ok_new])+
  have t': "t' = run_terminals t after" unfolding t_def t'_def run_terminals_def by simp
  have sub: "set (abandoned t) \<subseteq> set (abandoned t')" unfolding t' by (rule abandoned_run[OF ok(1)])
  have le: "length (abandoned t) \<le> length (abandoned t')"
    using permits_left(3)[OF ok(1)] permits_left(3)[OF ok(2)] card_mono[OF List.finite_set sub] by (simp add: distinct_card)
  note p = permits_left(1,2)[OF ok(2)]
  have own: "\<forall>k \<in> set (sc_sessions (wt_client t)).
      wt_handlers t k = Some Relaying \<or> k \<in> set (sc_closing (wt_client t)) \<or> k \<in> set (abandoned t)"
    using session_owner[OF ok(1)] by blast
  have full: "wt_handlers t' k \<noteq> Some Relaying" if "length (abandoned t) = 4" for k
  proof -
    have "length (abandoned t') = length (sc_sessions (wt_client t'))" using that le p by linarith
    then have "wt_handlers t' j = Some GaveUp" if "j \<in> set (sc_sessions (wt_client t'))" for j
      using length_filter_less[OF that, of "\<lambda>k. wt_handlers t' k = Some GaveUp"] unfolding abandoned_def by auto
    then show ?thesis using relaying_open[OF ok(2), of k] by auto
  qed
  have "length (abandoned t) = 4 \<Longrightarrow> wt_setup t' = []" using le p by (simp flip: length_0_conv)
  moreover have "sc_permits (wt_client t') + length (wt_setup t') + length (abandoned t) \<le> 4" using le p by linarith
  ultimately show ?thesis unfolding Let_def t_def[symmetric] t'_def[symmetric] using own sub full by blast
qed

text \<open>Without such a session every permit comes back.\<close>

lemma permits_come_back:
  assumes "t = run_terminals new_terminals ops" and "abandoned t = []" and "\<And>k. wt_handlers t k \<noteq> Some Relaying"
    and "wt_setup t = []" and "sc_closing (wt_client t) = []"
  shows "sc_permits (wt_client t) = 4"
proof -
  have ok: "term_ok t" unfolding assms(1) by (rule term_ok_run[OF term_ok_new])
  have "sc_sessions (wt_client t) = []" using session_owner[OF ok] assms(2,3,5) by (cases "sc_sessions (wt_client t)") auto
  with permits_left(1)[OF ok] assms(4) show ?thesis by simp
qed

text \<open>Four terminals to a peer whose connection takes longer than 35 seconds.\<close>

definition demo_slow_peer :: "term_op list" where
  "demo_slow_peer =
     map (\<lambda>k. Ask k (Some (Inr ''aa''))) [0, 1, 2, 3] @ replicate 4 Grant @ [Tick 35]
     @ map GiveUp [0, 1, 2, 3] @ map (\<lambda>k. SetUp k None) [0, 1, 2, 3]"

lemma demo_slow_result: "length (abandoned (run_terminals new_terminals demo_slow_peer)) = 4"
  by code_simp

theorem abandoned_shells_keep_permits_witness:
  "length (abandoned (run_terminals new_terminals demo_slow_peer)) = 4
   \<and> (\<forall>after k. wt_handlers (run_terminals new_terminals (demo_slow_peer @ after)) k \<noteq> Some Relaying)"
  using abandoned_shells_keep_permits[of demo_slow_peer] demo_slow_result unfolding Let_def by blast

end
