(* ===== verification/Web_Sessions.thy ===== *)
theory Web_Sessions
  imports Webapp
begin

text \<open>
  The session cookie of the web dashboard (webapp.py: the secret key and the session options of \<open>start\<close>,
  \<open>/login\<close>, \<open>/logout\<close>; engine.py: \<open>dashboard_session_secret\<close>). BLAKE2b and the signed cookies of Flask are
  parameters: what is assumed of them is their documented behaviour (\<open>good_signer\<close>).
\<close>

section \<open>Cookies\<close>

text \<open>
  \<open>sg_hash\<close> is BLAKE2b with a personalization; \<open>sg_sign key t\<close> the cookie of a logged-in session that is written
  at second \<open>t\<close>, and \<open>sg_read key c\<close> that time, when the signature fits.
\<close>

record signer =
  sg_hash :: "bytes \<Rightarrow> string \<Rightarrow> bytes"
  sg_sign :: "bytes \<Rightarrow> int \<Rightarrow> string"
  sg_read :: "bytes \<Rightarrow> string \<Rightarrow> int option"

definition dashboard_session_secret :: "signer \<Rightarrow> bytes \<Rightarrow> bytes" where
  "dashboard_session_secret S seed = sg_hash S seed ''pm-dash-session''"

definition SESSION_LIFETIME :: int where "SESSION_LIFETIME = 7 * 86400"

definition session_authed :: "signer \<Rightarrow> bytes \<Rightarrow> int \<Rightarrow> string option \<Rightarrow> bool" where
  "session_authed S key now jar =
     (case Option.bind jar (sg_read S key) of None \<Rightarrow> False | Some t \<Rightarrow> t \<le> now \<and> now - t \<le> SESSION_LIFETIME)"

text \<open>
  What the answer leaves in the browser. A permanent session is written again with every answer
  (\<open>SESSION_REFRESH_EACH_REQUEST\<close>, which the program leaves on), but not when the connection became a web socket.
\<close>

definition is_socket :: "web_answer \<Rightarrow> bool" where
  "is_socket a = (case a of Terminal _ \<Rightarrow> True | ClosedSocket \<Rightarrow> True | _ \<Rightarrow> False)"

definition cookie_after ::
  "signer \<Rightarrow> bytes \<Rightarrow> int \<Rightarrow> bool \<Rightarrow> session_change \<Rightarrow> web_answer \<Rightarrow> string option \<Rightarrow> string option" where
  "cookie_after S key now authed change a jar =
     (case change of
        LogIn \<Rightarrow> Some (sg_sign S key now)
      | ClearSession \<Rightarrow> None
      | KeepSession \<Rightarrow> if authed \<and> \<not> is_socket a then Some (sg_sign S key now) else jar)"

section \<open>A browser and the daemons it meets\<close>

text \<open>
  A visit: the second it comes at, and the process that answers, with its environment and state. From one visit to
  the next the daemon may have been restarted, or the password changed.
\<close>

record visit_at =
  va_second :: int
  va_env :: web_env
  va_state :: web_state
  va_request :: web_request

definition answered :: "visit_at \<Rightarrow> bool \<Rightarrow> web_state \<times> session_change \<times> web_answer" where
  "answered v authed = web_handle (va_env v) (va_state v) ((va_request v)\<lparr>wq_authed := authed\<rparr>)"

definition browse :: "signer \<Rightarrow> bytes \<Rightarrow> string option \<Rightarrow> visit_at \<Rightarrow> string option \<times> web_state \<times> web_answer" where
  "browse S seed jar v =
     (let key = dashboard_session_secret S seed; authed = session_authed S key (va_second v) jar in
      case answered v authed of
        (s, change, a) \<Rightarrow> (cookie_after S key (va_second v) authed change a jar, s, a))"

fun browse_all :: "signer \<Rightarrow> bytes \<Rightarrow> string option \<Rightarrow> visit_at list \<Rightarrow> string option \<times> (web_state \<times> web_answer) list" where
  "browse_all S seed jar [] = (jar, [])"
| "browse_all S seed jar (v # vs) =
     (case browse S seed jar v of
        (jar1, r) \<Rightarrow> (case browse_all S seed jar1 vs of (jar2, rs) \<Rightarrow> (jar2, r # rs)))"

text \<open>The visits come in order, each at most seven days after the one before.\<close>

fun weekly :: "int \<Rightarrow> visit_at list \<Rightarrow> bool" where
  "weekly t [] = True"
| "weekly t (v # vs) = (t \<le> va_second v \<and> va_second v - t \<le> SESSION_LIFETIME \<and> weekly (va_second v) vs)"

definition last_second :: "int \<Rightarrow> visit_at list \<Rightarrow> int" where
  "last_second t vs = foldl (\<lambda>_ v. va_second v) t vs"

text \<open>The routes whose answers write the cookie again.\<close>

definition renews :: "web_route \<Rightarrow> bool" where
  "renews r = (case r of Logout \<Rightarrow> False | ApiShell _ \<Rightarrow> False | _ \<Rightarrow> True)"

section \<open>Logins last\<close>

text \<open>Signatures are read back, do not fit another key, and different seeds have different keys.\<close>

definition good_signer :: "signer \<Rightarrow> bool" where
  "good_signer S \<longleftrightarrow>
     (\<forall>k t. sg_read S k (sg_sign S k t) = Some t) \<and> (\<forall>k k' t. k \<noteq> k' \<longrightarrow> sg_read S k' (sg_sign S k t) = None)
     \<and> (\<forall>p. inj (\<lambda>seed. sg_hash S seed p))"

lemma cookie_authed:
  assumes "good_signer S"
  shows "session_authed S key now (Some (sg_sign S key t)) \<longleftrightarrow> t \<le> now \<and> now - t \<le> SESSION_LIFETIME"
    and "key' \<noteq> key \<Longrightarrow> \<not> session_authed S key' now (Some (sg_sign S key t))"
  using assms by (auto simp: session_authed_def good_signer_def)

lemma replies_no_socket: "\<not> is_socket (snd (web_reply s r))"
  by (auto simp: is_socket_def web_reply_def split: prod.splits sum.splits option.splits)

lemma api_no_socket:
  "\<not> is_socket (snd (api_add_peer c s j))" "\<not> is_socket (snd (api_remove_peer c s n))"
  "\<not> is_socket (api_logs E q cid)" "\<not> is_socket (api_node_logs E g q n cid)" "\<not> is_socket (incidents_page g now n)"
proof -
  show "\<not> is_socket (snd (api_add_peer c s j))" "\<not> is_socket (snd (api_remove_peer c s n))"
    using replies_no_socket
    by (auto simp: api_add_peer_def api_remove_peer_def Let_def is_socket_def[of "WebRaised _"] is_socket_def[of "WebError _ _"]
        split: sum.splits prod.splits json.splits option.splits if_splits)
  show "\<not> is_socket (api_logs E q cid)" "\<not> is_socket (api_node_logs E g q n cid)" "\<not> is_socket (incidents_page g now n)"
    by (simp_all add: api_logs_def api_node_logs_def incidents_page_def Let_def is_socket_def
        split: sum.split prod.split option.split py_error.split)
qed

lemma guard_no_socket: "web_guard port q = Some a \<Longrightarrow> \<not> is_socket a"
  by (auto simp: web_guard_def Let_def is_socket_def split: if_splits)

lemma authed_keeps:
  assumes "renews (wq_route (va_request v))"
  shows "\<exists>s a. answered v True = (s, KeepSession, a) \<and> \<not> is_socket a"
proof (cases "web_guard (we_port (va_env v)) ((va_request v)\<lparr>wq_authed := True\<rparr>)")
  case (Some a)
  then show ?thesis using guard_no_socket[OF Some] by (simp add: answered_def web_handle_def)
next
  case None
  have plain: "\<not> is_socket Page" "\<not> is_socket Dashboard" "\<not> is_socket (GoTo p)" "\<not> is_socket (WebError c m)" for p c m
    by (simp_all add: is_socket_def)
  show ?thesis
    using assms None plain api_no_socket
    by (cases "wq_route (va_request v)")
       (auto simp: renews_def answered_def web_handle_def web_dispatch_def login_def Let_def)
qed

lemma browse_logged_in:
  assumes "good_signer S" and "renews (wq_route (va_request v))"
    and "t \<le> va_second v" and "va_second v - t \<le> SESSION_LIFETIME"
  shows "browse S seed (Some (sg_sign S (dashboard_session_secret S seed) t)) v
    = (Some (sg_sign S (dashboard_session_secret S seed) (va_second v)), fst (answered v True), snd (snd (answered v True)))"
proof -
  obtain s a where a: "answered v True = (s, KeepSession, a)" "\<not> is_socket a" using authed_keeps[OF assms(2)] by blast
  have "session_authed S (dashboard_session_secret S seed) (va_second v) (Some (sg_sign S (dashboard_session_secret S seed) t))"
    using cookie_authed(1)[OF assms(1)] assms(3,4) by blast
  with a show ?thesis by (simp add: browse_def Let_def cookie_after_def)
qed

lemma browse_all_logged_in:
  assumes "good_signer S" and "weekly t vs" and "\<forall>v \<in> set vs. renews (wq_route (va_request v))"
  shows "browse_all S seed (Some (sg_sign S (dashboard_session_secret S seed) t)) vs
    = (Some (sg_sign S (dashboard_session_secret S seed) (last_second t vs)),
       map (\<lambda>v. (fst (answered v True), snd (snd (answered v True)))) vs)"
  using assms(2,3)
proof (induction vs arbitrary: t)
  case (Cons v vs)
  with browse_logged_in[OF assms(1), of v t seed] show ?case by (simp add: last_second_def)
qed (simp add: last_second_def)


section \<open>A cookie in plain text\<close>

definition demo_sign :: "bytes \<Rightarrow> int \<Rightarrow> string" where
  "demo_sign k t = (if t < 0 then CHR ''-'' else CHR ''+'') # replicate (nat \<bar>t\<bar>) (CHR ''x'') @ CHR ''.'' # hex_of k"

definition demo_read :: "bytes \<Rightarrow> string \<Rightarrow> int option" where
  "demo_read k c =
     (let n = length (takeWhile (\<lambda>x. x = CHR ''x'') (tl c)) in
      if drop n (tl c) = CHR ''.'' # hex_of k then Some (if hd c = CHR ''-'' then - int n else int n) else None)"

definition demo_signer :: signer where
  "demo_signer = \<lparr>sg_hash = (\<lambda>seed p. seed), sg_sign = demo_sign, sg_read = demo_read\<rparr>"

lemma demo_signer_good: "good_signer demo_signer"
proof -
  have n: "takeWhile (\<lambda>x. x = CHR ''x'') (replicate n (CHR ''x'') @ CHR ''.'' # s) = replicate n (CHR ''x'')" for n and s :: string
    by (induction n) simp_all
  have rd: "demo_read k' (demo_sign k t) = (if hex_of k = hex_of k' then Some t else None)" for k k' t
    unfolding demo_read_def demo_sign_def Let_def list.sel n by auto
  have inj: "hex_of k = hex_of k' \<longleftrightarrow> k = k'" for k k'
  proof
    assume "hex_of k = hex_of k'"
    then have "from_hex (hex_of k) = from_hex (hex_of k')" by simp
    then show "k = k'" by (simp add: from_hex_hex_of)
  qed simp
  show ?thesis by (simp add: good_signer_def demo_signer_def rd inj inj_def)
qed

definition demo_at :: "int \<Rightarrow> visit_at" where
  "demo_at t = \<lparr>va_second = t, va_env = demo_web, va_state = ww_state demo_world,
     va_request = wv_request (demo_visit GET Index None)\<rparr>"

lemma demo_answered: "answered (demo_at t) True = (ww_state demo_world, KeepSession, Page)"
  by (simp add: answered_def demo_at_def demo_visit_def web_handle_def web_guard_def web_dispatch_def)


end
