(* ===== verification/Web_Pages.thy ===== *)
theory Web_Pages
  imports Webapp
begin

text \<open>
  The page of all outages of a node (webapp.py: \<open>_build_incidents_page\<close>, \<open>_fmt_dt\<close>): its body as text, and a
  reader of that text that tells tags from characters. Style, scripts and fonts in the head of the page are constant text
  and are left out.
\<close>

section \<open>Times\<close>

definition MONTHS :: "string list" where
  "MONTHS = [''Jan'', ''Feb'', ''Mar'', ''Apr'', ''May'', ''Jun'', ''Jul'', ''Aug'', ''Sep'', ''Oct'', ''Nov'', ''Dec'']"

abbreviation MID_DOT :: string where
  "MID_DOT \<equiv> [char_of (194::nat), char_of (183::nat)]"

abbreviation BULLET :: string where
  "BULLET \<equiv> [char_of (226::nat), char_of (151::nat), char_of (143::nat)]"

definition two_digits :: "int \<Rightarrow> string" where
  "two_digits n = [digit (n div 10), digit n]"

text \<open>
  \<open>%b %d, %Y\<close>, a dot, \<open>%I:%M:%S %p\<close> in the zone of the store; the hour loses its leading zero, the day
  keeps it. Without a time there is a dash.
\<close>

definition fmt_dt :: "int option \<Rightarrow> string" where
  "fmt_dt t =
     (case t of
        None \<Rightarrow> EM_DASH
      | Some ts \<Rightarrow>
          let s = (ts + 19800) mod 86400; h = s div 3600; h12 = (h + 11) mod 12 + 1 in
          (case civil_of_day (ist_day ts) of
             (y, m, d) \<Rightarrow>
               MONTHS ! nat (m - 1) @ '' '' @ two_digits d @ '', ''
               @ [digit (y div 1000), digit (y div 100), digit (y div 10), digit y] @ '' '' @ MID_DOT @ '' ''
               @ (if h12 < 10 then [digit h12] else two_digits h12)
               @ '':'' @ two_digits (s mod 3600 div 60) @ '':'' @ two_digits (s mod 60)
               @ (if h < 12 then '' AM'' else '' PM'')))"

section \<open>The page\<close>

text \<open>What the page is built of: markup that the program wrote, and values that went through \<open>_esc\<close>.\<close>

datatype piece = Markup string | Escaped string

fun piece_text :: "piece \<Rightarrow> string" where
  "piece_text (Markup s) = s"
| "piece_text (Escaped s) = esc s"

definition page_text :: "piece list \<Rightarrow> string" where
  "page_text ps = concat (map piece_text ps)"

definition open_tag :: "string \<Rightarrow> string \<Rightarrow> string" where
  "open_tag name cls = ''<'' @ name @ '' class='' @ [CHR 0x22] @ cls @ [CHR 0x22] @ ''>''"

definition page_line :: "nat \<Rightarrow> piece list \<Rightarrow> piece list" where
  "page_line indent ps = Markup (replicate indent (CHR '' '')) # ps @ [Markup [CHR 0x0A]]"

definition incident_row :: "incident \<Rightarrow> piece list" where
  "incident_row i =
     (let cell = (\<lambda>cls v. [Markup (open_tag ''td'' cls), Escaped v, Markup ''</td>'']) in
      [Markup (open_tag ''tr'' (if ic_ongoing i then ''ongoing'' else ''''))]
      @ cell ''badge'' (if ic_ongoing i then BULLET @ '' ongoing'' else ''down'')
      @ cell ''started'' (fmt_dt (Some (ic_started i)))
      @ cell ''ended'' (if ic_ongoing i then EM_DASH @ '' ongoing '' @ EM_DASH else fmt_dt (ic_ended i))
      @ cell ''dur'' (fmt_dur (ic_duration i))
      @ [Markup ''</tr>''])"

definition incident_table :: "incident list \<Rightarrow> piece list" where
  "incident_table is =
     (if is \<noteq> [] then
        [Markup (open_tag ''table'' ''inc'' @ ''<thead><tr>''),
         Markup ''<th>Status</th><th>Started</th><th>Recovered</th><th>Duration</th>'',
         Markup ''</tr></thead><tbody>''] @ concat (map incident_row is) @ [Markup ''</tbody></table>'']
      else [Markup (open_tag ''div'' ''empty'' @ ''No outages recorded in the last 30 days.</div>'')])"

definition status_line :: "bool \<Rightarrow> string" where
  "status_line ongoing =
     (if ongoing then open_tag ''span'' ''now down'' @ BULLET @ '' currently down</span>''
      else open_tag ''span'' ''now ok'' @ BULLET @ '' currently up</span>'')"

text \<open>A tile: a caption and a value; the first one, a count, is not escaped.\<close>

definition tile :: "string \<Rightarrow> string \<Rightarrow> piece \<Rightarrow> piece list" where
  "tile caption cls v =
     [Markup (open_tag ''div'' ''tile'' @ open_tag ''span'' ''k'' @ caption @ ''</span>'' @ open_tag ''span'' cls), v,
      Markup ''</span></div>'']"

definition incidents_body :: "string \<Rightarrow> string \<Rightarrow> incident list \<Rightarrow> piece list" where
  "incidents_body al nid is =
     (case page_totals is of
        (n, down, longest, ongoing) \<Rightarrow>
          page_line 0 [Markup (''<body>'' @ open_tag ''div'' ''shell'')]
          @ page_line 2 [Markup (open_tag ''div'' ''head'')]
          @ page_line 4 [Markup (''<a class='' @ [CHR 0x22] @ ''back'' @ [CHR 0x22] @ '' href='' @ [CHR 0x22] @ ''/'' @ [CHR 0x22]
                           @ ''>&larr; dashboard</a>'')]
          @ page_line 4 [Markup ''<h1>'', Escaped al, Markup ''</h1>'']
          @ page_line 4 [Markup (open_tag ''span'' ''nid''), Escaped nid, Markup ''</span>'']
          @ page_line 4 [Markup (open_tag ''span'' ''spacer'' @ ''</span>'')]
          @ page_line 4 [Markup (status_line ongoing)]
          @ page_line 2 [Markup ''</div>'']
          @ page_line 2 [Markup (open_tag ''div'' ''tiles'')]
          @ page_line 4 (tile ''Outages (30d)'' ''v'' (Markup (nat_text n)))
          @ page_line 4 (tile ''Total downtime'' (if down \<noteq> 0 then ''v red'' else ''v'') (Escaped (fmt_dur down)))
          @ page_line 4 (tile ''Longest outage'' ''v'' (Escaped (fmt_dur longest)))
          @ page_line 2 [Markup ''</div>'']
          @ page_line 2 ([Markup (open_tag ''div'' ''panel'')] @ incident_table is @ [Markup ''</div>''])
          @ page_line 2 [Markup (open_tag ''div'' ''foot'' @ ''panic-monitor // incident history // last 30 days</div>'')]
          @ [Markup ''</div></body></html>''])"

section \<open>Reading a page\<close>

text \<open>
  A browser reads characters until an angle bracket, then a tag until the closing one; a bracket in a
  quoted attribute does not close it.
\<close>

datatype html_token = TagTok string | CharTok char

datatype html_state = InText | InTag string | InQuote string

fun html_step :: "html_state \<times> html_token list \<Rightarrow> char \<Rightarrow> html_state \<times> html_token list" where
  "html_step (InText, ts) c = (if c = CHR ''<'' then (InTag [], ts) else (InText, ts @ [CharTok c]))"
| "html_step (InTag t, ts) c =
     (if c = CHR ''>'' then (InText, ts @ [TagTok t])
      else if c = CHR 0x22 then (InQuote (t @ [c]), ts) else (InTag (t @ [c]), ts))"
| "html_step (InQuote t, ts) c = (if c = CHR 0x22 then (InTag (t @ [c]), ts) else (InQuote (t @ [c]), ts))"

definition html_read :: "string \<Rightarrow> html_state \<times> html_token list" where
  "html_read s = foldl html_step (InText, []) s"

definition html_tags :: "string \<Rightarrow> string list" where
  "html_tags s = List.map_filter (\<lambda>x. case x of TagTok t \<Rightarrow> Some t | CharTok _ \<Rightarrow> None) (snd (html_read s))"

text \<open>What is shown between the first tag of this name and the next tag.\<close>

definition shown_after :: "string \<Rightarrow> string \<Rightarrow> string" where
  "shown_after t s =
     unescape (List.map_filter (\<lambda>x. case x of CharTok c \<Rightarrow> Some c | TagTok _ \<Rightarrow> None)
       (takeWhile (\<lambda>x. case x of CharTok _ \<Rightarrow> True | TagTok _ \<Rightarrow> False)
         (tl (dropWhile (\<lambda>x. x \<noteq> TagTok t) (snd (html_read s))))))"

section \<open>Values stay text\<close>

definition plain_html :: "string \<Rightarrow> bool" where
  "plain_html s \<longleftrightarrow> set s \<inter> {CHR ''<'', CHR ''>'', CHR 0x22} = {}"

definition whole_tags :: "string \<Rightarrow> bool" where
  "whole_tags s \<longleftrightarrow> fst (html_read s) = InText"

lemma plain_html_simps [simp]:
  "plain_html []" "plain_html (c # s) \<longleftrightarrow> c \<notin> {CHR ''<'', CHR ''>'', CHR 0x22} \<and> plain_html s"
  "plain_html (a @ b) \<longleftrightarrow> plain_html a \<and> plain_html b"
  by (auto simp: plain_html_def)

lemma html_tokens_add: "foldl html_step (st, ts) s = (fst (foldl html_step (st, []) s), ts @ snd (foldl html_step (st, []) s))"
proof (induction s rule: rev_induct)
  case (snoc c s)
  obtain st' ts' where e: "foldl html_step (st, []) s = (st', ts')" by fastforce
  show ?case by (cases st') (simp_all add: snoc[unfolded e] e)
qed simp

lemma html_read_append: "whole_tags a \<Longrightarrow> html_read (a @ b) = (fst (html_read b), snd (html_read a) @ snd (html_read b))"
  unfolding html_read_def whole_tags_def foldl_append
  by (metis html_tokens_add prod.collapse)

lemma html_read_plain: "plain_html s \<Longrightarrow> html_read s = (InText, map CharTok s)"
  unfolding html_read_def by (induction s rule: rev_induct) simp_all

lemma read_in_tag: "plain_html s \<Longrightarrow> foldl html_step (InTag t, ts) s = (InTag (t @ s), ts)"
  by (induction s arbitrary: t) simp_all

lemma read_in_quote: "plain_html s \<Longrightarrow> foldl html_step (InQuote t, ts) s = (InQuote (t @ s), ts)"
  by (induction s arbitrary: t) simp_all

lemma html_read_open_tag:
  assumes "plain_html name" and "plain_html cls"
  shows "html_read (open_tag name cls) = (InText, [TagTok (name @ '' class='' @ [CHR 0x22] @ cls @ [CHR 0x22])])"
  using assms by (simp add: html_read_def open_tag_def read_in_tag read_in_quote)

lemma whole_tags_append [simp]: "whole_tags a \<Longrightarrow> whole_tags b \<Longrightarrow> whole_tags (a @ b)"
  by (simp add: whole_tags_def html_read_append)

lemma whole_tags_plain: "plain_html s \<Longrightarrow> whole_tags s"
  by (simp add: whole_tags_def html_read_plain)

lemma whole_open_tag [simp]: "plain_html name \<Longrightarrow> plain_html cls \<Longrightarrow> whole_tags (open_tag name cls)"
  by (simp add: whole_tags_def html_read_open_tag)

lemma plain_esc: "plain_html (esc v)"
  using escaped_text_is_inert[of v] by (simp add: plain_html_def)

definition piece_ok :: "piece \<Rightarrow> bool" where
  "piece_ok p = whole_tags (piece_text p)"

lemma piece_ok_simps [simp]: "piece_ok (Escaped v)" "piece_ok (Markup s) \<longleftrightarrow> whole_tags s"
  by (simp_all add: piece_ok_def whole_tags_plain plain_esc)

lemma html_read_page:
  "list_all piece_ok ps \<Longrightarrow> html_read (page_text ps) = (InText, concat (map (\<lambda>p. snd (html_read (piece_text p))) ps))"
proof (induction ps)
  case Nil
  show ?case by (simp add: page_text_def html_read_def)
next
  case (Cons p ps)
  then show ?case by (simp add: page_text_def html_read_append piece_ok_def)
qed

fun piece_tags :: "piece \<Rightarrow> string list" where
  "piece_tags (Markup s) = html_tags s"
| "piece_tags (Escaped v) = []"

lemma map_filter_chars: "List.map_filter (\<lambda>x. case x of TagTok t \<Rightarrow> Some t | CharTok _ \<Rightarrow> None) (map CharTok s) = []"
  by (induction s) (simp_all add: map_filter_simps)

lemma html_tags_plain: "plain_html s \<Longrightarrow> html_tags s = []"
  by (simp add: html_tags_def html_read_plain map_filter_chars)

lemma html_tags_page: "list_all piece_ok ps \<Longrightarrow> html_tags (page_text ps) = concat (map piece_tags ps)"
proof (induction ps)
  case Nil
  show ?case by (simp add: page_text_def html_tags_def html_read_def map_filter_simps)
next
  case (Cons p ps)
  have "html_tags (page_text (p # ps)) = html_tags (piece_text p) @ html_tags (page_text ps)"
    using Cons.prems by (simp add: page_text_def html_tags_def html_read_append piece_ok_def map_filter_append)
  with Cons show ?case by (cases p) (simp_all add: html_tags_plain plain_esc)
qed

lemma plain_digit: "plain_html [digit n]"
proof -
  have "n mod 10 = 0 \<or> n mod 10 = 1 \<or> n mod 10 = 2 \<or> n mod 10 = 3 \<or> n mod 10 = 4 \<or> n mod 10 = 5 \<or> n mod 10 = 6
      \<or> n mod 10 = 7 \<or> n mod 10 = 8 \<or> n mod 10 = 9" by presburger
  then show ?thesis by (elim disjE) (simp_all add: digit_def char_of_eq_iff)
qed

lemma plain_nat_text: "plain_html (nat_text n)"
proof (induction n rule: nat_text.induct)
  case (1 n)
  then show ?case using plain_digit by (subst nat_text.simps) (simp del: plain_html_simps(2))
qed

lemma page_line_simps [simp]:
  "list_all piece_ok (page_line k ps) \<longleftrightarrow> list_all piece_ok ps"
  "concat (map piece_tags (page_line k ps)) = concat (map piece_tags ps)"
proof -
  have p: "plain_html (replicate k (CHR '' ''))" "plain_html [CHR 0x0A]" by (auto simp: plain_html_def)
  then show "list_all piece_ok (page_line k ps) \<longleftrightarrow> list_all piece_ok ps"
    "concat (map piece_tags (page_line k ps)) = concat (map piece_tags ps)"
    by (simp_all add: page_line_def whole_tags_plain html_tags_plain)
qed

text \<open>The markup of the page, piece by piece.\<close>

lemma whole_markup [simp]:
  "whole_tags ''</td>''" "whole_tags ''</tr>''" "whole_tags ''<thead><tr>''"
  "whole_tags ''<th>Status</th><th>Started</th><th>Recovered</th><th>Duration</th>''"
  "whole_tags ''</tr></thead><tbody>''" "whole_tags ''</tbody></table>''" "whole_tags ''No outages recorded in the last 30 days.</div>''"
  "whole_tags ''</span>''" "whole_tags ''</span></div>''" "whole_tags ''<body>''" "whole_tags ''<h1>''" "whole_tags ''</h1>''"
  "whole_tags ''</div>''" "whole_tags ''panic-monitor // incident history // last 30 days</div>''" "whole_tags ''</div></body></html>''"
  by (simp_all add: whole_tags_def html_read_def)

lemma whole_rest [simp]:
  "whole_tags (''<a class='' @ [CHR 0x22] @ ''back'' @ [CHR 0x22] @ '' href='' @ [CHR 0x22] @ ''/'' @ [CHR 0x22] @ ''>&larr; dashboard</a>'')"
  "whole_tags (status_line b)" "whole_tags (nat_text n)"
proof -
  show "whole_tags (''<a class='' @ [CHR 0x22] @ ''back'' @ [CHR 0x22] @ '' href='' @ [CHR 0x22] @ ''/'' @ [CHR 0x22] @ ''>&larr; dashboard</a>'')"
    by (simp add: whole_tags_def html_read_def)
  have "whole_tags (open_tag ''span'' c)" if "plain_html c" for c using that by simp
  moreover have "whole_tags (BULLET @ '' currently down</span>'')" "whole_tags (BULLET @ '' currently up</span>'')"
    by (simp_all add: whole_tags_def html_read_def char_of_eq_iff)
  ultimately show "whole_tags (status_line b)"
    unfolding status_line_def by (cases b) (simp_all only: if_True if_False whole_tags_append plain_html_simps; simp)+
  show "whole_tags (nat_text n)" by (rule whole_tags_plain[OF plain_nat_text])
qed

lemma row_ok [simp]: "list_all piece_ok (incident_row i)"
  by (simp add: incident_row_def Let_def)

definition row_tags :: "bool \<Rightarrow> string list" where
  "row_tags b = concat (map piece_tags (incident_row \<lparr>ic_started = 0, ic_ended = None, ic_duration = 0, ic_ongoing = b\<rparr>))"

lemma row_tags: "concat (map piece_tags (incident_row i)) = row_tags (ic_ongoing i)"
  by (simp add: row_tags_def incident_row_def Let_def)

lemma rows_ok: "list_all piece_ok (concat (map incident_row is))"
  by (induction "is") simp_all

lemma rows_tags: "concat (map piece_tags (concat (map incident_row is))) = concat (map row_tags (map ic_ongoing is))"
  by (induction "is") (simp_all add: row_tags)

lemma table_ok [simp]: "list_all piece_ok (incident_table is)"
  using rows_ok[of "is"] by (simp add: incident_table_def)

lemma table_tags:
  assumes "map ic_ongoing xs = map ic_ongoing ys"
  shows "concat (map piece_tags (incident_table xs)) = concat (map piece_tags (incident_table ys))"
proof -
  have "xs = [] \<longleftrightarrow> ys = []" using assms by auto
  then show ?thesis using rows_tags[of xs] rows_tags[of ys] assms by (simp add: incident_table_def)
qed

lemma tile_ok [simp]:
  assumes "plain_html c" and "plain_html k"
  shows "list_all piece_ok (tile k c v) \<longleftrightarrow> piece_ok v"
proof -
  have "whole_tags (open_tag ''div'' ''tile'' @ open_tag ''span'' ''k'' @ k @ ''</span>'' @ open_tag ''span'' c)"
    by (intro whole_tags_append whole_open_tag whole_tags_plain[OF assms(2)] whole_markup assms(1)) simp_all
  then show ?thesis by (simp add: tile_def del: append.simps)
qed

lemma tile_tags: "concat (map piece_tags (tile k c (Escaped v))) = concat (map piece_tags (tile k c (Escaped w)))"
  by (simp add: tile_def)

lemma tile_count: "concat (map piece_tags (tile k c (Markup (nat_text n)))) = concat (map piece_tags (tile k c (Escaped [])))"
  by (simp add: tile_def html_tags_plain plain_nat_text)

lemma body_ok: "list_all piece_ok (incidents_body al nid is)"
proof -
  obtain n down longest ongoing where t: "page_totals is = (n, down, longest, ongoing)" by (cases "page_totals is")
  show ?thesis by (simp add: incidents_body_def t del: append.simps)
qed

lemma body_tags:
  assumes "map ic_ongoing xs = map ic_ongoing ys" and "(sum_list (map ic_duration xs) = 0) = (sum_list (map ic_duration ys) = 0)"
  shows "html_tags (page_text (incidents_body a n xs)) = html_tags (page_text (incidents_body b m ys))"
proof -
  have e: "list_ex ic_ongoing zs = (True \<in> set (map ic_ongoing zs))" for zs :: "incident list" by (auto simp: list_ex_iff)
  have ongoing: "list_ex ic_ongoing xs = list_ex ic_ongoing ys" unfolding e assms(1) ..
  have d: "tile k (if sum_list (map ic_duration xs) \<noteq> 0 then ''v red'' else ''v'') v
      = tile k (if sum_list (map ic_duration ys) \<noteq> 0 then ''v red'' else ''v'') v" for k v using assms(2) by simp
  note t = tile_tags[of "''Total downtime''" _ "fmt_dur (sum_list (map ic_duration xs))" "fmt_dur (sum_list (map ic_duration ys))"]
    tile_tags[of "''Longest outage''" _ "fmt_dur (foldl max 0 (map ic_duration xs))" "fmt_dur (foldl max 0 (map ic_duration ys))"]
  show ?thesis
    unfolding html_tags_page[OF body_ok]
    unfolding incidents_body_def page_totals_def case_prod_conv map_append concat_append page_line_simps
      ongoing d tile_count t table_tags[OF assms(1)] list.map concat.simps piece_tags.simps append_Nil ..
qed

lemma map_filter_shown: "List.map_filter (\<lambda>x. case x of CharTok c \<Rightarrow> Some c | TagTok _ \<Rightarrow> None) (map CharTok s) = s"
  by (induction s) (simp_all add: map_filter_simps)

lemma tag_in_tokens: "TagTok t \<in> set (snd (html_read s)) \<longleftrightarrow> t \<in> set (html_tags s)"
proof -
  have "TagTok t \<in> set xs \<longleftrightarrow> t \<in> set (List.map_filter (\<lambda>x. case x of TagTok t \<Rightarrow> Some t | CharTok _ \<Rightarrow> None) xs)" for xs
    by (induction xs) (auto simp: map_filter_simps split: html_token.splits)
  then show ?thesis by (simp add: html_tags_def)
qed

lemma shown_piece:
  assumes "list_all piece_ok (ps @ Markup s # Escaped v # Markup e # qs)" and "t \<notin> set (html_tags (page_text ps))"
    and "snd (html_read s) = [TagTok t]" and "snd (html_read e) = TagTok u # r"
  shows "shown_after t (page_text (ps @ Markup s # Escaped v # Markup e # qs)) = v"
proof -
  let ?T = "\<lambda>qs. concat (map (\<lambda>p. snd (html_read (piece_text p))) qs)"
  have ps: "list_all piece_ok ps" using assms(1) by simp
  have "snd (html_read (page_text (ps @ Markup s # Escaped v # Markup e # qs)))
      = ?T ps @ TagTok t # map CharTok (esc v) @ TagTok u # r @ ?T qs"
    by (subst html_read_page[OF assms(1)]) (simp add: assms(3,4) html_read_plain plain_esc)
  moreover have "TagTok t \<notin> set (?T ps)"
    using assms(2) tag_in_tokens[of t "page_text ps"] by (simp add: html_read_page[OF ps])
  then have "dropWhile (\<lambda>x. x \<noteq> TagTok t) (?T ps @ TagTok t # map CharTok (esc v) @ TagTok u # r @ ?T qs)
      = TagTok t # map CharTok (esc v) @ TagTok u # r @ ?T qs"
    by (subst dropWhile_append2) auto
  moreover have "takeWhile (\<lambda>x. case x of CharTok _ \<Rightarrow> True | TagTok _ \<Rightarrow> False) (map CharTok (esc v) @ TagTok u # r @ ?T qs)
      = map CharTok (esc v)"
    by (subst takeWhile_append2) auto
  ultimately show ?thesis using escaped_text_is_inert[of v] by (simp add: shown_after_def map_filter_shown)
qed

lemma shown_line:
  assumes "incidents_body al nid is = ps @ page_line 4 [Markup s, Escaped v, Markup e] @ qs"
    and "t \<notin> set (html_tags (page_text (ps @ [Markup (replicate 4 (CHR '' ''))])))"
    and "snd (html_read s) = [TagTok t]" and "snd (html_read e) = TagTok u # r"
  shows "shown_after t (page_text (incidents_body al nid is)) = v"
proof -
  have b: "incidents_body al nid is
      = (ps @ [Markup (replicate 4 (CHR '' ''))]) @ Markup s # Escaped v # Markup e # Markup [CHR 0x0A] # qs"
    unfolding assms(1) page_line_def by simp
  have "list_all piece_ok ((ps @ [Markup (replicate 4 (CHR '' ''))]) @ Markup s # Escaped v # Markup e # Markup [CHR 0x0A] # qs)"
    using body_ok[of al nid "is"] unfolding b .
  then show ?thesis unfolding b by (rule shown_piece[OF _ assms(2-4)])
qed

text \<open>The lines before the name.\<close>

definition body_top :: "piece list" where
  "body_top = page_line 0 [Markup (''<body>'' @ open_tag ''div'' ''shell'')] @ page_line 2 [Markup (open_tag ''div'' ''head'')]
     @ page_line 4 [Markup (''<a class='' @ [CHR 0x22] @ ''back'' @ [CHR 0x22] @ '' href='' @ [CHR 0x22] @ ''/'' @ [CHR 0x22]
                      @ ''>&larr; dashboard</a>'')]"

lemma body_top_tags:
  "concat (map piece_tags body_top)
     = [''body'', ''div class='' @ [CHR 0x22] @ ''shell'' @ [CHR 0x22], ''div class='' @ [CHR 0x22] @ ''head'' @ [CHR 0x22],
        ''a class='' @ [CHR 0x22] @ ''back'' @ [CHR 0x22] @ '' href='' @ [CHR 0x22] @ ''/'' @ [CHR 0x22], ''/a'']"
  unfolding body_top_def map_append concat_append page_line_simps
  by (simp add: html_tags_def html_read_def open_tag_def map_filter_simps)


definition demo_outages :: "int \<Rightarrow> incident list" where
  "demo_outages t = [\<lparr>ic_started = t + 7200, ic_ended = None, ic_duration = 60, ic_ongoing = True\<rparr>,
     \<lparr>ic_started = t, ic_ended = Some (t + 90), ic_duration = 90, ic_ongoing = False\<rparr>]"

lemma demo_outage_text: "fmt_dt (Some 1780051004) = ''May 29, 2026 '' @ MID_DOT @ '' 4:06:44 PM''"
  by code_simp


end
