(* ===== verification/Spec2Isabelle.thy ===== *)
theory Spec2Isabelle
  imports Liveness Shell Controlsock Host_Env Stats Webapp Cli Service Migrate Lifecycle Notify Peer_Calls Tui
    Shell_Session Socket_Life Queries Web_Terminal Web_Sessions Web_Pages
begin

text \<open>
  PanicMonitor: a verification library for the peer-to-peer monitoring daemon under \<open>src/src\<close>.

  \<^bold>\<open>The program.\<close> Every device runs one daemon. It keeps a signed, hash-chained log of trust
  operations (log.py) and replays it into a store of trusted peers (trust.py); it probes the
  peers it may monitor and records the results (alpn/heartbeat.py, alpn/push.py, history.py);
  thresholds turn runs of probes into transitions and alerts (engine.py); a local store keeps
  events, system snapshots and their roll-ups (logstore.py), which peers copy to fill gaps
  (alpn/sync.py) and pull live (alpn/status.py); peers with the permission get container logs
  (alpn/logs.py) or a shell (alpn/shell.py). The collector reads the system, its processes and
  its containers (stats.py). Locally the daemon answers on a Unix socket (controlsock.py), a
  status page (statuspage.py) and the web dashboard (webapp.py); the command line (main.py) asks it
  over the socket (control_client.py), or works on the files when there is none. A systemd unit runs
  the daemon (service_install.py). The identity key is sealed under a
  password (identity.py, password.py).

  \<^bold>\<open>How the code is read.\<close> A dataclass is a record, an enum a datatype, a dict an association
  list or a map (an association list where the order of insertion is visible), an SQLite table
  the list of its rows in order of rowid. An operation takes the state and returns it updated
  with a value of \<open>py_error + 'a\<close>, so that an exception is a value and what was changed before
  it stays changed. An \<open>async\<close> operation is cut at its awaits where another task can run there
  (shell pumps, sessions, probes); the steps between are atomic, as they are on one event loop.
  Instants are microseconds since 1970 as \<open>int\<close>; \<open>datetime\<close> keeps apart aware and naive times,
  because Python does. Floats are rationals: rounding to two places is modelled, the error of
  binary floating point is not. JSON is a datatype; text is a list of 8-bit characters.

  \<^bold>\<open>The theories\<close>, in the order of their imports:
    \<^item> Prelude: errors, datetimes, slices, deques, rounding, text and calendar functions;
    \<^item> Json: JSON values as the code reads them (\<open>dict.get\<close>, truth, \<open>fromisoformat\<close>);
    \<^item> Schema (schema.py): statuses, peer state;
    \<^item> Trust_Log (log.py): entries, signing payload, chain verification, file, replay;
    \<^item> Trust (trust.py): store, authorization, mutations, and the abstract store they refine;
    \<^item> Tables, History (history.py): probe table, uptime, buckets, incidents;
    \<^item> Logstore, Rollup, Sync_Payload (logstore.py): events, snapshots, migrations, pruning,
      5-minute, hourly and daily roll-ups, sync payloads and their merge;
    \<^item> Engine (engine.py, alpn/heartbeat.py, alpn/push.py): device table, hydration, reload,
      probes, transitions, alerts; Engine_Jobs: statistics, container events, status pulls,
      rebuilds and the management calls; Liveness: the whole engine as a step relation;
    \<^item> Framing (alpn/framing.py): length-prefixed frames on a stream;
    \<^item> Shell (alpn/shell.py): both pumps, the session registry, the audit, the client;
    \<^item> Alpn (alpn/sync.py, alpn/logs.py): history sync, container logs, and the composition of
      all six inbound handlers behind one authorization;
    \<^item> Identity (identity.py), Host_Env (password.py, paths.py, sysenv.py);
    \<^item> Statuspage (statuspage.py), Controlsock (controlsock.py): the local interfaces;
    \<^item> Stats (stats.py): containers, processes and the system as psutil and docker tell them;
    \<^item> Webapp (webapp.py): guard, login, routes, terminal relays and dashboard data;
    \<^item> Cli (main.py, control_client.py): times, lists and passwords typed, \<open>--init\<close>, the commands that
      change the trust store, with their two ways;
    \<^item> Service, Migrate (service_install.py): the systemd unit, installing and removing it, and moving
      the files of older versions;
    \<^item> Lifecycle (engine.py, main.py): start-up with its jobs and servers, shutdown, the run modes;
    \<^item> Notify (notifier.py): payload and delivery of an alert;
    \<^item> Peer_Calls (the client mixins of alpn/logs.py, alpn/status.py, alpn/push.py; the log of paths of
      alpn/framing.py): requests and answers as JSON text in frames, from end to end;
    \<^item> Tui (tui.py): the modals and the screen of the terminal dashboard;
    \<^item> Shell_Session (alpn/shell.py, webapp.py): descriptors, child process and watchdog of a shell session;
    \<^item> Socket_Life (controlsock.py): the socket as a file that several processes use;
    \<^item> Queries (main.py): the reading commands, with what they print as data, the webhook test, the service
      commands and what the run commands start;
    \<^item> Web_Terminal (webapp.py, alpn/shell.py): the browser's terminals to peers, from asking to closing;
    \<^item> Web_Sessions (webapp.py, engine.py): the session cookie and its key, across restarts and password changes;
    \<^item> Web_Pages (webapp.py): the page of outages as text, and a reader of its tags.

  \<^bold>\<open>Interfaces.\<close> Three locales state contracts between parts: \<open>keyed_table\<close> (an SQLite table with
  a unique index; insert-or-ignore and insert-or-replace), \<open>retention\<close> (what a pruning keeps),
  \<open>gated_service\<close> (a service whose refusal changes nothing and whose access rights are stable
  along a run). Each is interpreted on the model's own operations in the theory of the provider.

  \<^bold>\<open>What is shown\<close>, by group: authorization (every protocol refuses exactly the callers without a
  permission, strangers leave no trace, revocation is permanent, only the identity password
  grants), the log (appends keep the chain, load inverts append, the head binds the history),
  the trust store as a refinement of a plain store, alerts (dwell time, threshold), tables
  (roll-ups count every snapshot once, pruning, migrations, sync round trips), the shell (order,
  losslessness, caps, audit, permits, equality of local and remote terminal), identity and password
  round trips, the collector (order and bounds of its lists, uptime, that the log store can take
  what it gives), the web dashboard (nothing without the password, the lock against guessing), the command line
  (both ways of a command have the same effect, \<open>--init\<close> can be repeated), the service (the installed
  daemon finds the password typed, nothing is overwritten), start and stop (jobs by role, databases
  close last), calls from end to end (logs arrive, charts have no holes), the terminal dashboard (a modal
  is for the row shown and acts like the command), shell sessions (nothing is left of one), listing
  (the same with and without a daemon), logins and pages of the dashboard (how long a cookie lasts, what cannot become markup).
  Seven properties of kind error show where the code does not do what it says: they are theorems
  about the code as it is.

  \<^bold>\<open>Parameters and hypotheses.\<close> Cryptography (SHA-256, ed25519, Argon2, XChaCha20-Poly1305) is a
  record of functions; a property that relies on it assumes the documented behaviour (a signature
  made with the key verifies, decryption inverts encryption and fails under another key), and its
  witness instantiates it with concrete functions. The reader of unit files (systemd) is a function that
  agrees with the rule for plain lines (\<open>reads_units\<close>). Network outcomes, clock readings, file-write
  outcomes, psutil and docker data, the signed cookies of Flask, exit codes of systemctl are arguments of the steps that use them.

  \<^bold>\<open>Loops.\<close> No definition uses fuel: every loop of the code is structural recursion, a fold, a
  step relation, or (\<open>read_frames\<close>) a recursion whose termination is proved by the length of the
  stream that is left; the digits of a number (\<open>nat_text\<close>) recur on a smaller number, the reader of JSON members
  (\<open>read_members\<close>) on a shorter text.

  \<^bold>\<open>Not modelled.\<close> The widgets, keys and style of the terminal dashboard, JSON text of nested values and fractions,
  the help and the column widths of the command line, the text of the dashboard's single page and of the status page (HTML, script, style), the scheduler itself, thread locks,
  the calls of psutil and docker themselves.
\<close>

end
